(* ===== verification/Prelude.thy ===== *)
theory Prelude
  imports Main "HOL-Library.Word" "HOL-Library.List_Lexorder" "HOL-Library.Sublist"
    "HOL-Library.Product_Lexorder" "HOL-Library.Multiset"
begin

text \<open>
  Shared vocabulary of the development: computations that may raise (\<open>'e + 'a\<close>, the left
  side being the raised error), stateful computations that may raise, association-list
  dictionaries with Python's insertion order, and generic facts on lists.
\<close>

named_theorems ok_iff \<open>when does a computation return, and with what\<close>

section \<open>Computations that may raise\<close>

definition rbind :: "'e + 'a \<Rightarrow> ('a \<Rightarrow> 'e + 'b) \<Rightarrow> 'e + 'b" where
  "rbind m f = (case m of Inl e \<Rightarrow> Inl e | Inr x \<Rightarrow> f x)"

definition guard :: "bool \<Rightarrow> 'e \<Rightarrow> 'e + unit" where
  "guard b e = (if b then Inr () else Inl e)"

fun rmap :: "('a \<Rightarrow> 'e + 'b) \<Rightarrow> 'a list \<Rightarrow> 'e + 'b list" where
  "rmap f [] = Inr []"
| "rmap f (x # xs) = rbind (f x) (\<lambda>y. rbind (rmap f xs) (\<lambda>ys. Inr (y # ys)))"

lemma rbind_simps [simp]:
  "rbind (Inl e) f = Inl e"
  "rbind (Inr x) f = f x"
  by (simp_all add: rbind_def)

lemma guard_simps [simp]:
  "guard True e = Inr ()"
  "guard False e = Inl e"
  by (simp_all add: guard_def)

lemma rbind_Inr_iff [ok_iff]: "rbind m f = Inr y \<longleftrightarrow> (\<exists>x. m = Inr x \<and> f x = Inr y)"
  by (cases m) auto

lemma rbind_Inl_iff: "rbind m f = Inl e \<longleftrightarrow> m = Inl e \<or> (\<exists>x. m = Inr x \<and> f x = Inl e)"
  by (cases m) auto

lemma guard_Inr_iff [ok_iff, simp]: "guard b e = Inr u \<longleftrightarrow> b"
  by (simp add: guard_def)

lemma guard_Inl_iff [simp]: "guard b e = Inl e' \<longleftrightarrow> \<not> b \<and> e' = e"
  by (auto simp: guard_def)

lemma rbind_assoc: "rbind (rbind m f) g = rbind m (\<lambda>x. rbind (f x) g)"
  by (cases m) simp_all

lemma rbind_cong [fundef_cong]:
  "m = m' \<Longrightarrow> (\<And>x. m' = Inr x \<Longrightarrow> f x = f' x) \<Longrightarrow> rbind m f = rbind m' f'"
  by (cases m') simp_all

lemma rmap_cong [fundef_cong]:
  "xs = ys \<Longrightarrow> (\<And>x. x \<in> set ys \<Longrightarrow> f x = g x) \<Longrightarrow> rmap f xs = rmap g ys"
proof (induction xs arbitrary: ys)
  case Nil
  then show ?case by simp
next
  case (Cons x xs)
  then show ?case by (cases ys) (auto intro: rbind_cong)
qed

lemma rmap_append:
  "rmap f (xs @ ys) = rbind (rmap f xs) (\<lambda>as. rbind (rmap f ys) (\<lambda>bs. Inr (as @ bs)))"
  by (induction xs) (auto simp: rbind_assoc rbind_def split: sum.splits)

lemma rmap_Inr_iff [ok_iff]:
  "rmap f xs = Inr ys \<longleftrightarrow> list_all2 (\<lambda>x y. f x = Inr y) xs ys"
  by (induction xs arbitrary: ys) (auto simp: rbind_Inr_iff list_all2_Cons1)

lemma rmap_all_Inr:
  "(\<And>x. x \<in> set xs \<Longrightarrow> f x = Inr (g x)) \<Longrightarrow> rmap f xs = Inr (map g xs)"
  by (induction xs) auto

section \<open>Stateful computations that may raise\<close>

text \<open>
  A method of a stateful object: it maps the object's state to the outcome and the state it
  leaves behind. An exception leaves the state as it is at the raise, so atomicity is a
  property to prove, not a consequence of the type.
\<close>

type_synonym ('s, 'e, 'a) action = "'s \<Rightarrow> ('e + 'a) \<times> 's"

definition act_ret :: "'a \<Rightarrow> ('s, 'e, 'a) action" where
  "act_ret x = (\<lambda>s. (Inr x, s))"

definition act_lift :: "'e + 'a \<Rightarrow> ('s, 'e, 'a) action" where
  "act_lift m = (\<lambda>s. (m, s))"

definition act_bind ::
  "('s, 'e, 'a) action \<Rightarrow> ('a \<Rightarrow> ('s, 'e, 'b) action) \<Rightarrow> ('s, 'e, 'b) action" where
  "act_bind m f = (\<lambda>s. case m s of (Inl e, s') \<Rightarrow> (Inl e, s') | (Inr x, s') \<Rightarrow> f x s')"

definition act_get :: "('s \<Rightarrow> 'a) \<Rightarrow> ('s, 'e, 'a) action" where
  "act_get f = (\<lambda>s. (Inr (f s), s))"

definition act_put :: "('s \<Rightarrow> 's) \<Rightarrow> ('s, 'e, unit) action" where
  "act_put f = (\<lambda>s. (Inr (), f s))"

lemma act_simps [simp]:
  "act_ret x s = (Inr x, s)"
  "act_lift m s = (m, s)"
  "act_get f s = (Inr (f s), s)"
  "act_put g s = (Inr (), g s)"
  by (simp_all add: act_ret_def act_lift_def act_get_def act_put_def)

lemma act_bind_Pair:
  "act_bind m f s = (o', s') \<longleftrightarrow>
     (\<exists>e. m s = (Inl e, s') \<and> o' = Inl e) \<or>
     (\<exists>x s1. m s = (Inr x, s1) \<and> f x s1 = (o', s'))"
  by (auto simp: act_bind_def split: prod.splits sum.splits)

lemma act_bind_lift [simp]:
  "act_bind (act_lift m) f s = (case m of Inl e \<Rightarrow> (Inl e, s) | Inr x \<Rightarrow> f x s)"
  by (simp add: act_bind_def split: sum.splits)

lemma act_bind_get [simp]: "act_bind (act_get g) f s = f (g s) s"
  by (simp add: act_bind_def)

lemma act_bind_put [simp]: "act_bind (act_put g) f s = f () (g s)"
  by (simp add: act_bind_def)

lemma act_bind_Inr [ok_iff]:
  "act_bind m f s = (Inr y, s') \<longleftrightarrow> (\<exists>x s1. m s = (Inr x, s1) \<and> f x s1 = (Inr y, s'))"
  by (auto simp: act_bind_Pair)

lemma act_bind_Inl:
  "act_bind m f s = (Inl e, s') \<longleftrightarrow>
     m s = (Inl e, s') \<or> (\<exists>x s1. m s = (Inr x, s1) \<and> f x s1 = (Inl e, s'))"
  by (auto simp: act_bind_Pair)

section \<open>Dictionaries in insertion order\<close>

text \<open>
  A Python \<open>dict\<close>: an association list without duplicate keys. Assignment overwrites in
  place when the key is present and appends otherwise; deletion keeps the order of the rest.
\<close>

type_synonym ('k, 'v) dict = "('k \<times> 'v) list"

fun dict_put :: "'k \<Rightarrow> 'v \<Rightarrow> ('k, 'v) dict \<Rightarrow> ('k, 'v) dict" where
  "dict_put k v [] = [(k, v)]"
| "dict_put k v ((k', v') # d) = (if k' = k then (k, v) # d else (k', v') # dict_put k v d)"

definition dict_del :: "'k \<Rightarrow> ('k, 'v) dict \<Rightarrow> ('k, 'v) dict" where
  "dict_del k d = filter (\<lambda>kv. fst kv \<noteq> k) d"

definition dict_ok :: "('k, 'v) dict \<Rightarrow> bool" where
  "dict_ok d \<longleftrightarrow> distinct (map fst d)"

lemma dict_ok_Nil [simp]: "dict_ok []"
  by (simp add: dict_ok_def)

lemma dict_ok_Cons [simp]: "dict_ok (kv # d) \<longleftrightarrow> fst kv \<notin> fst ` set d \<and> dict_ok d"
  by (simp add: dict_ok_def)

lemma map_of_dict_put [simp]: "map_of (dict_put k v d) = (map_of d)(k \<mapsto> v)"
  by (induction d) (auto simp: fun_eq_iff)

lemma keys_dict_put [simp]: "fst ` set (dict_put k v d) = insert k (fst ` set d)"
  by (induction d rule: dict_put.induct) (auto split: if_splits)

lemma dict_ok_put [simp]: "dict_ok d \<Longrightarrow> dict_ok (dict_put k v d)"
  by (induction d) auto

lemma map_of_dict_del [simp]: "map_of (dict_del k d) = (map_of d)(k := None)"
  by (induction d) (auto simp: dict_del_def fun_eq_iff)

lemma keys_dict_del [simp]: "fst ` set (dict_del k d) = fst ` set d - {k}"
  by (auto simp: dict_del_def)

lemma dict_ok_del [simp]: "dict_ok d \<Longrightarrow> dict_ok (dict_del k d)"
  by (induction d) (auto simp: dict_del_def)

lemma dict_ok_map_of: "dict_ok d \<Longrightarrow> (k, v) \<in> set d \<Longrightarrow> map_of d k = Some v"
  by (simp add: dict_ok_def)

lemma set_dict_put:
  "dict_ok d \<Longrightarrow> set (dict_put k v d) = insert (k, v) {kv \<in> set d. fst kv \<noteq> k}"
  by (induction d rule: dict_put.induct) (auto simp: rev_image_eqI split: if_splits)

text \<open>The interface a client of a dictionary relies on.\<close>

locale dictionary =
  fixes lookup :: "'d \<Rightarrow> 'k \<Rightarrow> 'v option"
    and insert :: "'k \<Rightarrow> 'v \<Rightarrow> 'd \<Rightarrow> 'd"
    and delete :: "'k \<Rightarrow> 'd \<Rightarrow> 'd"
    and inv :: "'d \<Rightarrow> bool"
  assumes lookup_insert: "inv d \<Longrightarrow> lookup (insert k v d) = (lookup d)(k \<mapsto> v)"
    and lookup_delete: "inv d \<Longrightarrow> lookup (delete k d) = (lookup d)(k := None)"
    and inv_insert: "inv d \<Longrightarrow> inv (insert k v d)"
    and inv_delete: "inv d \<Longrightarrow> inv (delete k d)"
begin

lemma lookup_after_delete_insert:
  "inv d \<Longrightarrow> lookup (insert k v (delete k' d)) k'' =
     (if k'' = k then Some v else if k'' = k' then None else lookup d k'')"
  by (simp add: lookup_insert lookup_delete inv_delete)

lemma delete_absent_lookup: "inv d \<Longrightarrow> lookup d k = None \<Longrightarrow> lookup (delete k d) = lookup d"
  by (auto simp: lookup_delete fun_eq_iff)

lemma insert_same_lookup: "inv d \<Longrightarrow> lookup d k = Some v \<Longrightarrow> lookup (insert k v d) = lookup d"
  by (auto simp: lookup_insert fun_eq_iff)

end

interpretation pydict: dictionary map_of dict_put dict_del dict_ok
  by unfold_locales simp_all

section \<open>Lists\<close>

lemma sum_list_sort_key [simp]:
  fixes g :: "'a \<Rightarrow> 'b::comm_monoid_add"
  shows "sum_list (map g (sort_key f xs)) = sum_list (map g xs)"
  by (metis mset_map mset_sort sum_mset_sum_list)

lemma distinct_map_sort_key [simp]: "distinct (map g (sort_key f xs)) \<longleftrightarrow> distinct (map g xs)"
  by (metis mset_map mset_sort mset_eq_imp_distinct_iff)

lemma dict_ok_sort_key [simp]: "dict_ok (sort_key f d) \<longleftrightarrow> dict_ok d"
  by (simp add: dict_ok_def)

lemma map_of_sort_key: "dict_ok d \<Longrightarrow> map_of (sort_key f d) = map_of d"
  by (intro map_of_inject_set [THEN iffD2]) (simp_all add: dict_ok_def)

end
