(* ===== verification/Py_Text.thy ===== *)
theory Py_Text
  imports Prelude
begin

text \<open>
  Python's \<open>str\<close> and \<open>bytes\<close> as the source uses them. A \<open>str\<close> is the list of its code
  points (so \<open>len\<close>, slicing and comparison are those of the list, and a lone surrogate is a
  possible element, as in Python); a \<open>bytes\<close> value is a list of 8-bit words. The theory
  holds the string methods the source calls, strict UTF-8 with the error position of
  \<open>UnicodeDecodeError.start\<close>, decimal rendering, and the facts the components use.
\<close>

type_synonym pystr = "nat list"
type_synonym byte = "8 word"

definition pstr :: "string \<Rightarrow> pystr" where
  "pstr s = map of_char s"

lemma pstr_simps:
  "pstr [] = []"
  "pstr (c # s) = of_char c # pstr s"
  by (simp_all add: pstr_def)

abbreviation (input) slash :: nat where "slash \<equiv> 47"
abbreviation (input) dot :: nat where "dot \<equiv> 46"
abbreviation (input) lf :: nat where "lf \<equiv> 10"
abbreviation (input) cr :: nat where "cr \<equiv> 13"
abbreviation (input) nul :: nat where "nul \<equiv> 0"

section \<open>Splitting and joining\<close>

text \<open>\<open>s.split(sep)\<close> for a one-character separator, and \<open>sep.join(parts)\<close>.\<close>

fun split_on :: "'a \<Rightarrow> 'a list \<Rightarrow> 'a list list" where
  "split_on c [] = [[]]"
| "split_on c (x # xs) =
     (if x = c then [] # split_on c xs
      else (case split_on c xs of [] \<Rightarrow> [[x]] | y # ys \<Rightarrow> (x # y) # ys))"

fun join_with :: "'a list \<Rightarrow> 'a list list \<Rightarrow> 'a list" where
  "join_with sep [] = []"
| "join_with sep [x] = x"
| "join_with sep (x # y # ys) = x @ sep @ join_with sep (y # ys)"

lemma split_on_not_Nil [simp]: "split_on c xs \<noteq> []"
  by (cases xs) (auto split: list.splits)

lemma join_with_Cons:
  "join_with sep (x # xs) = (if xs = [] then x else x @ sep @ join_with sep xs)"
  by (cases xs) simp_all

lemma join_split [simp]: "join_with [c] (split_on c xs) = xs"
  by (induction xs) (auto simp: join_with_Cons split: list.splits)

lemma split_on_pieces: "p \<in> set (split_on c xs) \<Longrightarrow> c \<notin> set p"
  by (induction xs arbitrary: p) (fastforce split: list.splits if_splits)+

lemma split_on_elems: "p \<in> set (split_on c xs) \<Longrightarrow> set p \<subseteq> set xs"
  by (induction xs arbitrary: p) (fastforce split: list.splits if_splits)+

lemma split_on_append:
  "c \<notin> set xs \<Longrightarrow> split_on c (xs @ c # ys) = xs # split_on c ys"
  by (induction xs) auto

lemma split_on_id: "c \<notin> set xs \<Longrightarrow> split_on c xs = [xs]"
  by (induction xs) auto

lemma split_join:
  "xss \<noteq> [] \<Longrightarrow> \<forall>xs \<in> set xss. c \<notin> set xs \<Longrightarrow> split_on c (join_with [c] xss) = xss"
  by (induction xss) (auto simp: join_with_Cons split_on_append split_on_id)

lemma join_with_append:
  "xss \<noteq> [] \<Longrightarrow> yss \<noteq> [] \<Longrightarrow>
     join_with sep (xss @ yss) = join_with sep xss @ sep @ join_with sep yss"
  by (induction xss) (auto simp: join_with_Cons)

lemma join_with_eq_iff:
  assumes "xss \<noteq> []" "yss \<noteq> []"
    and "\<forall>xs \<in> set xss. c \<notin> set xs" "\<forall>ys \<in> set yss. c \<notin> set ys"
  shows "join_with [c] xss = join_with [c] yss \<longleftrightarrow> xss = yss"
  using assms split_join by metis

lemma set_join_with: "set (join_with [c] xss) \<subseteq> insert c (\<Union>(set ` set xss))"
  by (induction xss) (auto simp: join_with_Cons)

text \<open>\<open>s.startswith(p)\<close>, \<open>s.endswith(p)\<close> and the \<open>in\<close> operator on strings.\<close>

definition startswith :: "'a list \<Rightarrow> 'a list \<Rightarrow> bool" where
  "startswith s p = prefix p s"

definition endswith :: "'a list \<Rightarrow> 'a list \<Rightarrow> bool" where
  "endswith s p = suffix p s"

fun contains_sub :: "'a list \<Rightarrow> 'a list \<Rightarrow> bool" where
  "contains_sub [] p = (p = [])"
| "contains_sub (x # xs) p = (startswith (x # xs) p \<or> contains_sub xs p)"

lemma contains_sub_iff: "contains_sub s p \<longleftrightarrow> (\<exists>u v. s = u @ p @ v)"
proof (induction s)
  case Nil
  show ?case by auto
next
  case (Cons x s)
  have "(\<exists>u v. x # s = u @ p @ v) \<longleftrightarrow> prefix p (x # s) \<or> (\<exists>u v. s = u @ p @ v)"
    by (auto simp: prefix_def Cons_eq_append_conv)
  with Cons show ?case by (simp add: startswith_def)
qed

text \<open>
  \<open>s.find(p, start)\<close>: the least match position at or after \<open>start\<close>, \<open>None\<close> for Python's
  -1. The first argument counts the position of the head of the rest of the string.
\<close>

fun find_from :: "nat \<Rightarrow> 'a list \<Rightarrow> 'a list \<Rightarrow> nat option" where
  "find_from i [] p = (if p = [] then Some i else None)"
| "find_from i (x # xs) p = (if startswith (x # xs) p then Some i else find_from (Suc i) xs p)"

definition find_sub :: "'a list \<Rightarrow> 'a list \<Rightarrow> nat \<Rightarrow> nat option" where
  "find_sub s p start = (if length s < start then None else find_from start (drop start s) p)"

lemma find_from_Some:
  "find_from i xs p = Some k \<Longrightarrow>
     i \<le> k \<and> startswith (drop (k - i) xs) p \<and>
     (\<forall>j. i \<le> j \<and> j < k \<longrightarrow> \<not> startswith (drop (j - i) xs) p)"
proof (induction i xs p rule: find_from.induct)
  case (1 i p)
  then show ?case by (auto simp: startswith_def split: if_splits)
next
  case (2 i x xs p)
  show ?case
  proof (cases "startswith (x # xs) p")
    case True
    with 2 show ?thesis by auto
  next
    case False
    with 2 have IH: "Suc i \<le> k" "startswith (drop (k - Suc i) xs) p"
      "\<forall>j. Suc i \<le> j \<and> j < k \<longrightarrow> \<not> startswith (drop (j - Suc i) xs) p"
      by auto
    from IH(1) have "k - i = Suc (k - Suc i)" by arith
    then have "drop (k - i) (x # xs) = drop (k - Suc i) xs" by simp
    moreover have "\<not> startswith (drop (j - i) (x # xs)) p" if "i \<le> j" "j < k" for j
    proof (cases "j = i")
      case True
      with False show ?thesis by simp
    next
      case False
      with that have "j - i = Suc (j - Suc i)" "Suc i \<le> j" by arith+
      with that IH(3) show ?thesis by simp
    qed
    ultimately show ?thesis using IH by auto
  qed
qed

lemma find_from_None:
  "find_from i xs p = None \<Longrightarrow> j \<le> length xs \<Longrightarrow> \<not> startswith (drop j xs) p"
proof (induction i xs p arbitrary: j rule: find_from.induct)
  case (1 i p)
  then show ?case by (auto simp: startswith_def split: if_splits)
next
  case (2 i x xs p)
  then show ?case by (cases j) (auto split: if_splits)
qed

lemma find_sub_Some:
  assumes "find_sub s p start = Some k"
  shows "start \<le> k" and "startswith (drop k s) p"
    and "\<And>j. start \<le> j \<Longrightarrow> j < k \<Longrightarrow> \<not> startswith (drop j s) p"
  using assms find_from_Some [of start "drop start s" p k]
  by (auto simp: find_sub_def split: if_splits)

lemma find_sub_None:
  assumes "find_sub s p start = None" "start \<le> j" "j \<le> length s"
  shows "\<not> startswith (drop j s) p"
  using assms find_from_None [of start "drop start s" p "j - start"]
  by (auto simp: find_sub_def split: if_splits)

section \<open>Line endings\<close>

text \<open>\<open>s.replace("\r\n", "\n")\<close> and \<open>s.replace("\r", "\n")\<close>.\<close>

fun replace_crlf :: "pystr \<Rightarrow> pystr" where
  "replace_crlf [] = []"
| "replace_crlf [x] = [x]"
| "replace_crlf (x # y # ys) =
     (if x = cr \<and> y = lf then lf # replace_crlf ys else x # replace_crlf (y # ys))"

definition replace_cr :: "pystr \<Rightarrow> pystr" where
  "replace_cr s = map (\<lambda>x. if x = cr then lf else x) s"

lemma replace_crlf_id: "cr \<notin> set s \<Longrightarrow> replace_crlf s = s"
  by (induction s rule: replace_crlf.induct) auto

lemma replace_cr_id: "cr \<notin> set s \<Longrightarrow> replace_cr s = s"
  by (auto simp: replace_cr_def intro: map_idI)

lemma cr_notin_replace_cr [simp]: "cr \<notin> set (replace_cr s)"
  by (auto simp: replace_cr_def)

section \<open>Character classes\<close>

text \<open>\<open>str.isspace\<close> of one character, by its complete list of code points.\<close>

definition is_space :: "nat \<Rightarrow> bool" where
  "is_space c \<longleftrightarrow>
     (9 \<le> c \<and> c \<le> 13) \<or> (28 \<le> c \<and> c \<le> 32) \<or> c = 133 \<or> c = 160 \<or> c = 5760 \<or>
     (8192 \<le> c \<and> c \<le> 8202) \<or> c = 8232 \<or> c = 8233 \<or> c = 8239 \<or> c = 8287 \<or> c = 12288"

definition is_ascii_digit :: "nat \<Rightarrow> bool" where
  "is_ascii_digit c \<longleftrightarrow> 48 \<le> c \<and> c \<le> 57"

definition is_ascii_letter :: "nat \<Rightarrow> bool" where
  "is_ascii_letter c \<longleftrightarrow> (65 \<le> c \<and> c \<le> 90) \<or> (97 \<le> c \<and> c \<le> 122)"

section \<open>Decimal rendering\<close>

text \<open>\<open>str(n)\<close> of an integer, as f-strings insert it.\<close>

fun str_nat :: "nat \<Rightarrow> pystr" where
  "str_nat n = (if n < 10 then [48 + n] else str_nat (n div 10) @ [48 + n mod 10])"

declare str_nat.simps [simp del]

definition str_int :: "int \<Rightarrow> pystr" where
  "str_int i = (if i < 0 then 45 # str_nat (nat (- i)) else str_nat (nat i))"

text \<open>The value of a run of decimal digits, most significant first.\<close>

definition digits_value :: "nat list \<Rightarrow> nat" where
  "digits_value ds = foldl (\<lambda>n d. 10 * n + d) 0 ds"

lemma str_nat_digits: "c \<in> set (str_nat n) \<Longrightarrow> is_ascii_digit c"
proof (induction n rule: str_nat.induct)
  case (1 n)
  then show ?case
    by (subst (asm) (2) str_nat.simps) (auto simp: is_ascii_digit_def split: if_splits)
qed

lemma digits_value_snoc: "digits_value (ds @ [d]) = 10 * digits_value ds + d"
  by (simp add: digits_value_def)

lemma digits_value_str_nat: "digits_value (map (\<lambda>c. c - 48) (str_nat n)) = n"
proof (induction n rule: str_nat.induct)
  case (1 n)
  show ?case
  proof (cases "n < 10")
    case True
    then show ?thesis by (subst str_nat.simps) (simp add: digits_value_def)
  next
    case False
    with 1 show ?thesis by (subst str_nat.simps) (simp add: digits_value_snoc)
  qed
qed

lemma str_nat_inject [simp]: "str_nat m = str_nat n \<longleftrightarrow> m = n"
  using digits_value_str_nat by metis

section \<open>UTF-8\<close>

text \<open>
  \<open>str.encode("utf-8")\<close>: \<open>None\<close> is \<open>UnicodeEncodeError\<close>, raised for a surrogate code
  point. (A number beyond 0x10FFFF is no code point and does not occur in a Python string.)
\<close>

definition is_surrogate :: "nat \<Rightarrow> bool" where
  "is_surrogate c \<longleftrightarrow> 0xD800 \<le> c \<and> c < 0xE000"

definition is_scalar :: "nat \<Rightarrow> bool" where
  "is_scalar c \<longleftrightarrow> c < 0x110000 \<and> \<not> is_surrogate c"

definition utf8_char :: "nat \<Rightarrow> byte list option" where
  "utf8_char c =
     (if \<not> is_scalar c then None
      else if c < 0x80 then Some [of_nat c]
      else if c < 0x800 then Some [of_nat (0xC0 + c div 64), of_nat (0x80 + c mod 64)]
      else if c < 0x10000 then
        Some [of_nat (0xE0 + c div 4096), of_nat (0x80 + c div 64 mod 64),
              of_nat (0x80 + c mod 64)]
      else
        Some [of_nat (0xF0 + c div 262144), of_nat (0x80 + c div 4096 mod 64),
              of_nat (0x80 + c div 64 mod 64), of_nat (0x80 + c mod 64)])"

fun utf8_encode :: "pystr \<Rightarrow> byte list option" where
  "utf8_encode [] = Some []"
| "utf8_encode (c # cs) =
     (case utf8_char c of None \<Rightarrow> None
      | Some b \<Rightarrow> (case utf8_encode cs of None \<Rightarrow> None | Some bs \<Rightarrow> Some (b @ bs)))"

text \<open>
  \<open>bytes.decode("utf-8")\<close>, strict: one step reads a code point and its length; the loop
  returns the text, or the start of the first ill-formed sequence, which is what
  \<open>UnicodeDecodeError.start\<close> holds.
\<close>

definition is_cont :: "nat \<Rightarrow> bool" where
  "is_cont b \<longleftrightarrow> 0x80 \<le> b \<and> b < 0xC0"

fun utf8_step :: "nat list \<Rightarrow> (nat \<times> nat) option" where
  "utf8_step [] = None"
| "utf8_step (a # rest) =
     (if a < 0x80 then Some (a, 1)
      else if a < 0xC2 then None
      else if a < 0xE0 then
        (case rest of b # _ \<Rightarrow>
           if is_cont b then Some ((a - 0xC0) * 64 + (b - 0x80), 2) else None
         | _ \<Rightarrow> None)
      else if a < 0xF0 then
        (case rest of b # c # _ \<Rightarrow>
           if is_cont b \<and> is_cont c \<and> (a = 0xE0 \<longrightarrow> 0xA0 \<le> b) \<and> (a = 0xED \<longrightarrow> b < 0xA0)
           then Some ((a - 0xE0) * 4096 + (b - 0x80) * 64 + (c - 0x80), 3) else None
         | _ \<Rightarrow> None)
      else if a < 0xF5 then
        (case rest of b # c # d # _ \<Rightarrow>
           if is_cont b \<and> is_cont c \<and> is_cont d \<and> (a = 0xF0 \<longrightarrow> 0x90 \<le> b) \<and>
              (a = 0xF4 \<longrightarrow> b < 0x90)
           then Some ((a - 0xF0) * 262144 + (b - 0x80) * 4096 + (c - 0x80) * 64 + (d - 0x80), 4)
           else None
         | _ \<Rightarrow> None)
      else None)"

function utf8_decode_at :: "nat \<Rightarrow> byte list \<Rightarrow> nat + pystr" where
  "utf8_decode_at i [] = Inr []"
| "utf8_decode_at i (b # bs) =
     (case utf8_step (map unat (take 4 (b # bs))) of
        None \<Rightarrow> Inl i
      | Some (c, k) \<Rightarrow> rbind (utf8_decode_at (i + k) (drop (k - 1) bs)) (\<lambda>cs. Inr (c # cs)))"
  by pat_completeness auto
termination
  by (relation "measure (\<lambda>(i, bs). length bs)") auto

definition utf8_decode :: "byte list \<Rightarrow> nat + pystr" where
  "utf8_decode bs = utf8_decode_at 0 bs"

lemma unat_byte_of_nat [simp]: "n < 256 \<Longrightarrow> unat (of_nat n :: byte) = n"
  by (simp add: unat_of_nat)

lemma unat_byte_less [simp]: "unat (b :: byte) < 256"
proof -
  have "unat b < 2 ^ LENGTH(8)" by (rule unsigned_less)
  then show ?thesis by simp
qed

lemma byte_of_nat_unat [simp]: "of_nat (unat (b :: byte)) = b"
  by simp

text \<open>
  The same encoding on natural numbers, with the six-bit groups named: linear arithmetic
  decides every fact about it.
\<close>

lemma six_bit_groups:
  fixes c :: nat
  shows "c = 64 * (c div 64) + c mod 64"
    and "c = 4096 * (c div 4096) + 64 * (c div 64 mod 64) + c mod 64"
    and "c = 262144 * (c div 262144) + 4096 * (c div 4096 mod 64) + 64 * (c div 64 mod 64) + c mod 64"
proof -
  have 1: "c = 64 * (c div 64) + c mod 64" for c :: nat by simp
  have 2: "c div 64 = 64 * (c div 4096) + c div 64 mod 64" for c :: nat
    using 1 [of "c div 64"] by (simp add: div_mult2_eq [symmetric])
  have 3: "c div 4096 = 64 * (c div 262144) + c div 4096 mod 64" for c :: nat
    using 1 [of "c div 4096"] by (simp add: div_mult2_eq [symmetric])
  show "c = 64 * (c div 64) + c mod 64" by simp
  show "c = 4096 * (c div 4096) + 64 * (c div 64 mod 64) + c mod 64"
    using 1 [of c] 2 [of c] by linarith
  show "c = 262144 * (c div 262144) + 4096 * (c div 4096 mod 64) + 64 * (c div 64 mod 64) + c mod 64"
    using 1 [of c] 2 [of c] 3 [of c] by linarith
qed

text \<open>One step inverts the encoding of one scalar value.\<close>

lemma utf8_step_char:
  assumes "utf8_char c = Some bs"
  shows "utf8_step (map unat bs @ ys) = Some (c, length bs)"
proof -
  from assms have scalar: "c < 0x110000" "\<not> (0xD800 \<le> c \<and> c < 0xE000)"
    by (auto simp: utf8_char_def is_scalar_def is_surrogate_def split: if_splits)
  consider (1) "c < 0x80" | (2) "0x80 \<le> c" "c < 0x800" | (3) "0x800 \<le> c" "c < 0x10000"
    | (4) "0x10000 \<le> c"
    by linarith
  then show ?thesis
  proof cases
    case 1
    with assms scalar show ?thesis
      by (auto simp: utf8_char_def is_scalar_def is_surrogate_def)
  next
    case 2
    define q r where "q = c div 64" and "r = c mod 64"
    have c: "c = 64 * q + r" "r < 64" using six_bit_groups(1) [of c] by (simp_all add: q_def r_def)
    have bs: "bs = [of_nat (192 + q), of_nat (128 + r)]"
      using 2 assms by (auto simp: utf8_char_def q_def r_def split: if_splits)
    have "q < 32" "2 \<le> q" using c 2 by linarith+
    then have "map unat bs = [192 + q, 128 + r]"
      using c by (simp add: bs del: of_nat_add)
    then show ?thesis using c \<open>q < 32\<close> \<open>2 \<le> q\<close> by (simp add: bs is_cont_def)
  next
    case 3
    define p q r where "p = c div 4096" and "q = c div 64 mod 64" and "r = c mod 64"
    have c: "c = 4096 * p + 64 * q + r" "q < 64" "r < 64"
      using six_bit_groups(2) [of c] by (simp_all add: p_def q_def r_def)
    have bs: "bs = [of_nat (224 + p), of_nat (128 + q), of_nat (128 + r)]"
      using 3 assms by (auto simp: utf8_char_def p_def q_def r_def split: if_splits)
    have "p < 16" using c 3 by linarith
    then have "map unat bs = [224 + p, 128 + q, 128 + r]"
      using c by (simp add: bs del: of_nat_add)
    moreover have "p = 0 \<Longrightarrow> 32 \<le> q" "p = 13 \<Longrightarrow> q < 32" using c 3 scalar by linarith+
    ultimately show ?thesis using c \<open>p < 16\<close> by (simp add: bs is_cont_def)
  next
    case 4
    define w p q r where "w = c div 262144" and "p = c div 4096 mod 64"
      and "q = c div 64 mod 64" and "r = c mod 64"
    have c: "c = 262144 * w + 4096 * p + 64 * q + r" "p < 64" "q < 64" "r < 64"
      using six_bit_groups(3) [of c] by (simp_all add: w_def p_def q_def r_def)
    have bs: "bs = [of_nat (240 + w), of_nat (128 + p), of_nat (128 + q), of_nat (128 + r)]"
      using 4 assms by (auto simp: utf8_char_def w_def p_def q_def r_def split: if_splits)
    have "w < 5" using c scalar by linarith
    then have "map unat bs = [240 + w, 128 + p, 128 + q, 128 + r]"
      using c by (simp add: bs del: of_nat_add)
    moreover have "w = 0 \<Longrightarrow> 16 \<le> p" "w = 4 \<Longrightarrow> p < 16" using c 4 scalar by linarith+
    ultimately show ?thesis using c \<open>w < 5\<close> by (simp add: bs is_cont_def)
  qed
qed

lemma utf8_char_length: "utf8_char c = Some bs \<Longrightarrow> 1 \<le> length bs \<and> length bs \<le> 4"
  by (auto simp: utf8_char_def split: if_splits)

text \<open>And a successful step reads exactly one encoded scalar value.\<close>

lemma six_bit_ungroup:
  fixes w p q r :: nat
  assumes "p < 64" "q < 64" "r < 64"
  shows "(64 * w + r) div 64 = w" and "(64 * w + r) mod 64 = r"
    and "(4096 * w + 64 * q + r) div 4096 = w" and "(4096 * w + 64 * q + r) div 64 mod 64 = q"
    and "(4096 * w + 64 * q + r) mod 64 = r"
    and "(262144 * w + 4096 * p + 64 * q + r) div 262144 = w"
    and "(262144 * w + 4096 * p + 64 * q + r) div 4096 mod 64 = p"
    and "(262144 * w + 4096 * p + 64 * q + r) div 64 mod 64 = q"
    and "(262144 * w + 4096 * p + 64 * q + r) mod 64 = r"
proof -
  have m: "(64 * x + y) mod 64 = y" and d: "(64 * x + y) div 64 = x" if "y < 64" for x y :: nat
    using that by (simp_all add: div_nat_eqI)
  show "(64 * w + r) div 64 = w" "(64 * w + r) mod 64 = r" using m d assms by simp_all
  have e1: "4096 * w + 64 * q + r = 64 * (64 * w + q) + r" by simp
  show "(4096 * w + 64 * q + r) div 4096 = w"
    using assms by (intro div_nat_eqI) auto
  show "(4096 * w + 64 * q + r) div 64 mod 64 = q" "(4096 * w + 64 * q + r) mod 64 = r"
    unfolding e1 using assms by (simp_all only: m d)
  have e2: "262144 * w + 4096 * p + 64 * q + r = 64 * (64 * (64 * w + p) + q) + r" by simp
  show "(262144 * w + 4096 * p + 64 * q + r) div 262144 = w"
    using assms by (intro div_nat_eqI) auto
  have "(262144 * w + 4096 * p + 64 * q + r) div 4096 = 64 * w + p"
    using assms by (intro div_nat_eqI) auto
  then show "(262144 * w + 4096 * p + 64 * q + r) div 4096 mod 64 = p"
    using assms by (simp only: m)
  show "(262144 * w + 4096 * p + 64 * q + r) div 64 mod 64 = q"
    "(262144 * w + 4096 * p + 64 * q + r) mod 64 = r"
    unfolding e2 using assms by (simp_all only: m d)
qed

lemma is_cont_ex: "is_cont b \<Longrightarrow> \<exists>r. b = 128 + r \<and> r < 64"
  by (rule exI [of _ "b - 128"]) (auto simp: is_cont_def)

lemma utf8_char_of_step:
  assumes "utf8_step xs = Some (c, k)"
  shows "utf8_char c = Some (map of_nat (take k xs)) \<and> 1 \<le> k \<and> k \<le> length xs"
proof (cases xs)
  case Nil
  with assms show ?thesis by simp
next
  case (Cons a ys)
  consider (1) "a < 0x80" | (2) "0xC2 \<le> a" "a < 0xE0" | (3) "0xE0 \<le> a" "a < 0xF0"
    | (4) "0xF0 \<le> a" "a < 0xF5"
    using assms Cons by (auto split: if_splits)
  then show ?thesis
  proof cases
    case 1
    with assms Cons show ?thesis
      by (auto simp: utf8_char_def is_scalar_def is_surrogate_def)
  next
    case 2
    then obtain b zs where ys: "ys = b # zs" "is_cont b" "k = 2"
      and c: "c = (a - 192) * 64 + (b - 128)"
      using assms Cons by (auto split: list.splits if_splits)
    obtain q where q: "a = 192 + q" "2 \<le> q" "q < 32" using 2
      by (intro that [of "a - 192"]) auto
    obtain r where r: "b = 128 + r" "r < 64" using ys is_cont_ex by blast
    have "c = 64 * q + r" using c q r by simp
    then show ?thesis using Cons ys q r six_bit_ungroup(1,2) [of 0 0 r q]
      by (auto simp: utf8_char_def is_scalar_def is_surrogate_def)
  next
    case 3
    then obtain b d zs where ys: "ys = b # d # zs" "is_cont b" "is_cont d" "k = 3"
      and c: "c = (a - 224) * 4096 + (b - 128) * 64 + (d - 128)"
      and lim: "a = 224 \<longrightarrow> 160 \<le> b" "a = 237 \<longrightarrow> b < 160"
      using assms Cons by (auto split: list.splits if_splits)
    obtain p where p: "a = 224 + p" "p < 16" using 3 by (intro that [of "a - 224"]) auto
    obtain q r where qr: "b = 128 + q" "q < 64" "d = 128 + r" "r < 64"
      using ys is_cont_ex by blast
    have c': "c = 4096 * p + 64 * q + r" using c p qr by simp
    moreover have "2048 \<le> c" using c' p qr lim by (cases "p = 0") simp_all
    moreover have "c < 65536" using c' p qr by simp
    moreover have "\<not> (55296 \<le> c \<and> c < 57344)"
      using c' p qr lim by (cases "p < 13"; cases "p = 13") simp_all
    ultimately show ?thesis using Cons ys p qr six_bit_ungroup(3-5) [of 0 q r p]
      by (auto simp: utf8_char_def is_scalar_def is_surrogate_def)
  next
    case 4
    then obtain b d e zs where ys: "ys = b # d # e # zs" "is_cont b" "is_cont d" "is_cont e" "k = 4"
      and c: "c = (a - 240) * 262144 + (b - 128) * 4096 + (d - 128) * 64 + (e - 128)"
      and lim: "a = 240 \<longrightarrow> 144 \<le> b" "a = 244 \<longrightarrow> b < 144"
      using assms Cons by (auto split: list.splits if_splits)
    obtain w where w: "a = 240 + w" "w < 5" using 4 by (intro that [of "a - 240"]) auto
    obtain p where p: "b = 128 + p" "p < 64" using is_cont_ex [OF ys(2)] by blast
    obtain q where q: "d = 128 + q" "q < 64" using is_cont_ex [OF ys(3)] by blast
    obtain r where r: "e = 128 + r" "r < 64" using is_cont_ex [OF ys(4)] by blast
    note pqr = p q r
    have c': "c = 262144 * w + 4096 * p + 64 * q + r" using c w pqr by simp
    moreover have "65536 \<le> c" using c' w pqr lim by (cases "w = 0") simp_all
    moreover have "c < 1114112" using c' w pqr lim by (cases "w = 4") simp_all
    moreover have "c div 262144 = w" "c div 4096 mod 64 = p" "c div 64 mod 64 = q" "c mod 64 = r"
      unfolding c' using six_bit_ungroup(6-9) [of p q r w] pqr by simp_all
    ultimately have "utf8_char c =
        Some [of_nat (240 + w), of_nat (128 + p), of_nat (128 + q), of_nat (128 + r)]"
      by (simp add: utf8_char_def is_scalar_def is_surrogate_def)
    then show ?thesis using Cons ys w pqr by simp
  qed
qed

lemma utf8_step_sound:
  assumes "utf8_step (map unat bs) = Some (c, k)"
  shows "utf8_char c = Some (take k bs)" and "1 \<le> k" and "k \<le> length bs"
  using utf8_char_of_step [OF assms] by (simp_all add: take_map o_def map_idI)

text \<open>Decoding inverts encoding, and only well-formed bytes decode.\<close>

lemma utf8_step_take: "utf8_step (take 4 xs) = utf8_step xs"
proof -
  consider "xs = []" | a where "xs = [a]" | a b where "xs = [a, b]"
    | a b c where "xs = [a, b, c]" | a b c d ys where "xs = a # b # c # d # ys"
    by (metis neq_Nil_conv)
  then show ?thesis by cases simp_all
qed

lemma utf8_decode_at_unfold:
  assumes "bs \<noteq> []"
  shows "utf8_decode_at i bs =
    (case utf8_step (map unat bs) of None \<Rightarrow> Inl i
     | Some (c, k) \<Rightarrow> rbind (utf8_decode_at (i + k) (drop k bs)) (\<lambda>cs. Inr (c # cs)))"
proof -
  obtain b bs' where bs: "bs = b # bs'" using assms by (cases bs) auto
  have step: "utf8_step (map unat (take 4 bs)) = utf8_step (map unat bs)"
    by (simp add: take_map [symmetric] utf8_step_take)
  show ?thesis
  proof (cases "utf8_step (map unat bs)")
    case None
    with step show ?thesis by (simp add: bs)
  next
    case (Some ck)
    then obtain c k where ck: "utf8_step (map unat bs) = Some (c, k)" by (cases ck) auto
    then have "1 \<le> k" by (rule utf8_step_sound)
    then have "drop (k - 1) bs' = drop k bs" by (cases k) (simp_all add: bs)
    with ck step show ?thesis by (simp add: bs)
  qed
qed

declare utf8_decode_at.simps(2) [simp del]

lemma utf8_decode_at_encode: "utf8_encode t = Some bs \<Longrightarrow> utf8_decode_at i bs = Inr t"
proof (induction t arbitrary: bs i)
  case Nil
  then show ?case by simp
next
  case (Cons c t)
  then obtain b bs' where b: "utf8_char c = Some b" "utf8_encode t = Some bs'" "bs = b @ bs'"
    by (auto split: option.splits)
  with utf8_char_length [of c b] have "bs \<noteq> []" by auto
  with b Cons.IH [of bs'] utf8_step_char [of c b "map unat bs'"] show ?case
    by (simp add: utf8_decode_at_unfold)
qed

lemma utf8_decode_encode [simp]: "utf8_encode t = Some bs \<Longrightarrow> utf8_decode bs = Inr t"
  by (simp add: utf8_decode_def utf8_decode_at_encode)

lemma utf8_encode_decode_at: "utf8_decode_at i bs = Inr t \<Longrightarrow> utf8_encode t = Some bs"
proof (induction "length bs" arbitrary: bs i t rule: less_induct)
  case less
  show ?case
  proof (cases "bs = []")
    case True
    with less.prems show ?thesis by simp
  next
    case False
    with less.prems obtain c k cs where st: "utf8_step (map unat bs) = Some (c, k)"
      and cs: "utf8_decode_at (i + k) (drop k bs) = Inr cs" "t = c # cs"
      by (auto simp: utf8_decode_at_unfold rbind_Inr_iff split: option.splits)
    note sound = utf8_step_sound [OF st]
    from sound False have "length (drop k bs) < length bs" by simp
    with less.hyps cs(1) have "utf8_encode cs = Some (drop k bs)" by blast
    with sound cs show ?thesis by simp
  qed
qed

lemma utf8_decode_iff: "utf8_decode bs = Inr t \<longleftrightarrow> utf8_encode t = Some bs"
  using utf8_encode_decode_at utf8_decode_encode unfolding utf8_decode_def by blast

lemma utf8_encode_append:
  "utf8_encode (s @ t) = (case utf8_encode s of None \<Rightarrow> None
     | Some a \<Rightarrow> (case utf8_encode t of None \<Rightarrow> None | Some b \<Rightarrow> Some (a @ b)))"
  by (induction s) (auto split: option.splits)

lemma utf8_encode_Some_iff: "(\<exists>bs. utf8_encode t = Some bs) \<longleftrightarrow> (\<forall>c \<in> set t. is_scalar c)"
  by (induction t) (auto simp: utf8_char_def split: option.splits if_splits)

lemma utf8_encode_inject:
  "utf8_encode s = Some a \<Longrightarrow> utf8_encode t = Some a \<Longrightarrow> s = t"
  using utf8_decode_encode by (metis sum.inject(2))

lemma utf8_length_le: "utf8_encode t = Some bs \<Longrightarrow> length t \<le> length bs"
proof (induction t arbitrary: bs)
  case Nil
  then show ?case by simp
next
  case (Cons c t)
  then obtain ca ra where "utf8_char c = Some ca" "utf8_encode t = Some ra" "bs = ca @ ra"
    by (auto split: option.splits)
  with Cons.IH [of ra] utf8_char_length [of c ca] show ?case by simp
qed

text \<open>
  At a decoding error the bytes before the reported position decode: one retry on that
  prefix always succeeds.
\<close>

lemma utf8_decode_at_error:
  "utf8_decode_at i bs = Inl e \<Longrightarrow>
     i \<le> e \<and> e < i + length bs \<and> (\<exists>t. utf8_decode_at i (take (e - i) bs) = Inr t)"
proof (induction "length bs" arbitrary: bs i rule: less_induct)
  case less
  show ?case
  proof (cases "bs = []")
    case True
    with less.prems show ?thesis by simp
  next
    case False
    show ?thesis
    proof (cases "utf8_step (map unat bs)")
      case None
      with less.prems False show ?thesis by (simp add: utf8_decode_at_unfold)
    next
      case (Some ck)
      then obtain c k where st: "utf8_step (map unat bs) = Some (c, k)" by (cases ck) auto
      note sound = utf8_step_sound [OF st]
      have err: "utf8_decode_at (i + k) (drop k bs) = Inl e"
        using less.prems False st by (simp add: utf8_decode_at_unfold rbind_Inl_iff)
      have "length (drop k bs) < length bs" using sound False by simp
      from less.hyps [OF this err] obtain t where t: "i + k \<le> e" "e < i + length bs"
        "utf8_decode_at (i + k) (take (e - (i + k)) (drop k bs)) = Inr t"
        using sound by auto
      have "utf8_encode t = Some (take (e - (i + k)) (drop k bs))"
        using t(3) by (rule utf8_encode_decode_at)
      moreover have "take (e - i) bs = take k bs @ take (e - (i + k)) (drop k bs)"
        using t(1) take_add [of k "e - (i + k)" bs] by simp
      ultimately have "utf8_encode (c # t) = Some (take (e - i) bs)"
        using sound by simp
      then have "utf8_decode_at i (take (e - i) bs) = Inr (c # t)"
        by (rule utf8_decode_at_encode)
      with t(1,2) sound show ?thesis by auto
    qed
  qed
qed

lemma utf8_decode_error:
  "utf8_decode bs = Inl e \<Longrightarrow> e < length bs \<and> (\<exists>t. utf8_decode (take e bs) = Inr t)"
  using utf8_decode_at_error [of 0 bs e] by (simp add: utf8_decode_def)

text \<open>A decodable prefix of encoded text is the encoding of a prefix of the text.\<close>

lemma utf8_prefix:
  "utf8_encode t = Some (a @ b) \<Longrightarrow> utf8_encode u = Some a \<Longrightarrow> prefix u t"
proof (induction u arbitrary: t a)
  case Nil
  then show ?case by simp
next
  case (Cons c u)
  then obtain ca ra where ca: "utf8_char c = Some ca" "utf8_encode u = Some ra" "a = ca @ ra"
    by (auto split: option.splits)
  then have "a \<noteq> []" using utf8_char_length [of c ca] by auto
  with Cons.prems obtain d t' where t: "t = d # t'" by (cases t) auto
  with Cons.prems obtain da ra' where da: "utf8_char d = Some da" "utf8_encode t' = Some ra'"
    "da @ ra' = ca @ ra @ b" using ca by (auto split: option.splits)
  have "utf8_step (map unat (da @ ra')) = Some (d, length da)"
    using utf8_step_char [OF da(1)] by simp
  moreover have "utf8_step (map unat (da @ ra')) = Some (c, length ca)"
    using utf8_step_char [OF ca(1)] by (simp add: da(3))
  ultimately have "c = d" by simp
  with ca da have "ra' = ra @ b" by simp
  with Cons.IH [of t' ra] ca da t \<open>c = d\<close> show ?case by simp
qed

end
