(* ===== verification/Core_Errors.thy ===== *)
theory Core_Errors
  imports Py_Text
begin

text \<open>
  The exceptions of \<open>src/mem_sandbox\<close>: \<open>core/errors.py\<close> with its categories, and the
  \<open>errors.py\<close> of every package, each class with its base class and its stable code. A
  raised exception is a value \<open>Raise class message\<close>; the message is the text of the
  exception, built with the f-strings of the source, because the command executor prints it.
\<close>

datatype error_category =
    INVALID_REQUEST | NOT_FOUND | CONFLICT | QUOTA_EXCEEDED | POLICY_DENIED | TIMEOUT | CANCELLED
  | UNSUPPORTED | INTERNAL

fun category_value :: "error_category \<Rightarrow> string" where
  "category_value INVALID_REQUEST = ''invalid_request''"
| "category_value NOT_FOUND = ''not_found''"
| "category_value CONFLICT = ''conflict''"
| "category_value QUOTA_EXCEEDED = ''quota_exceeded''"
| "category_value POLICY_DENIED = ''policy_denied''"
| "category_value TIMEOUT = ''timeout''"
| "category_value CANCELLED = ''cancelled''"
| "category_value UNSUPPORTED = ''unsupported''"
| "category_value INTERNAL = ''internal''"

datatype core_error =
    InvalidRequestError | NotFoundError | ConflictError | QuotaExceededError | PolicyDeniedError
  | OperationTimeoutError | OperationCancelledError | UnsupportedOperationError
  | InternalSandboxError

fun core_error_category :: "core_error \<Rightarrow> error_category" where
  "core_error_category InvalidRequestError = INVALID_REQUEST"
| "core_error_category NotFoundError = NOT_FOUND"
| "core_error_category ConflictError = CONFLICT"
| "core_error_category QuotaExceededError = QUOTA_EXCEEDED"
| "core_error_category PolicyDeniedError = POLICY_DENIED"
| "core_error_category OperationTimeoutError = TIMEOUT"
| "core_error_category OperationCancelledError = CANCELLED"
| "core_error_category UnsupportedOperationError = UNSUPPORTED"
| "core_error_category InternalSandboxError = INTERNAL"

fun core_error_code :: "core_error \<Rightarrow> string" where
  "core_error_code InvalidRequestError = ''invalid_request''"
| "core_error_code NotFoundError = ''not_found''"
| "core_error_code ConflictError = ''conflict''"
| "core_error_code QuotaExceededError = ''quota_exceeded''"
| "core_error_code PolicyDeniedError = ''policy_denied''"
| "core_error_code OperationTimeoutError = ''operation_timeout''"
| "core_error_code OperationCancelledError = ''operation_cancelled''"
| "core_error_code UnsupportedOperationError = ''unsupported_operation''"
| "core_error_code InternalSandboxError = ''internal_error''"

text \<open>\<open>workspace/errors.py\<close>: the classes, their base and their stable code.\<close>

datatype workspace_error =
    InvalidPathError | PathOutsideWorkspaceError | PathNotFoundError | PathAlreadyExistsError
  | NotAFileError | NotADirectoryError | DirectoryNotEmptyError | RootModificationError
  | SamePathError | DestinationWithinSourceError | UnsupportedNodeTypeError
  | FileEncodingError | InvalidRangeError | StaleContentError | InvalidPatchError
  | PatchContextMismatchError | FileSizeLimitExceededError | WorkspaceSizeLimitExceededError
  | NodeLimitExceededError | ReadLimitExceededError | SnapshotTooLargeError
  | SnapshotCorruptError | SnapshotIncompatibleError | PreparedRestoreInvalid
  | RestoreCandidateMismatch

fun workspace_error_base :: "workspace_error \<Rightarrow> core_error" where
  "workspace_error_base InvalidPathError = InvalidRequestError"
| "workspace_error_base PathOutsideWorkspaceError = InvalidRequestError"
| "workspace_error_base PathNotFoundError = NotFoundError"
| "workspace_error_base PathAlreadyExistsError = ConflictError"
| "workspace_error_base NotAFileError = InvalidRequestError"
| "workspace_error_base NotADirectoryError = InvalidRequestError"
| "workspace_error_base DirectoryNotEmptyError = ConflictError"
| "workspace_error_base RootModificationError = InvalidRequestError"
| "workspace_error_base SamePathError = InvalidRequestError"
| "workspace_error_base DestinationWithinSourceError = InvalidRequestError"
| "workspace_error_base UnsupportedNodeTypeError = UnsupportedOperationError"
| "workspace_error_base FileEncodingError = InvalidRequestError"
| "workspace_error_base InvalidRangeError = InvalidRequestError"
| "workspace_error_base StaleContentError = ConflictError"
| "workspace_error_base InvalidPatchError = InvalidRequestError"
| "workspace_error_base PatchContextMismatchError = ConflictError"
| "workspace_error_base FileSizeLimitExceededError = QuotaExceededError"
| "workspace_error_base WorkspaceSizeLimitExceededError = QuotaExceededError"
| "workspace_error_base NodeLimitExceededError = QuotaExceededError"
| "workspace_error_base ReadLimitExceededError = QuotaExceededError"
| "workspace_error_base SnapshotTooLargeError = QuotaExceededError"
| "workspace_error_base SnapshotCorruptError = InvalidRequestError"
| "workspace_error_base SnapshotIncompatibleError = UnsupportedOperationError"
| "workspace_error_base PreparedRestoreInvalid = InvalidRequestError"
| "workspace_error_base RestoreCandidateMismatch = ConflictError"

fun workspace_error_code :: "workspace_error \<Rightarrow> string" where
  "workspace_error_code InvalidPathError = ''invalid_path''"
| "workspace_error_code PathOutsideWorkspaceError = ''path_outside_workspace''"
| "workspace_error_code PathNotFoundError = ''path_not_found''"
| "workspace_error_code PathAlreadyExistsError = ''path_already_exists''"
| "workspace_error_code NotAFileError = ''not_a_file''"
| "workspace_error_code NotADirectoryError = ''not_a_directory''"
| "workspace_error_code DirectoryNotEmptyError = ''directory_not_empty''"
| "workspace_error_code RootModificationError = ''root_modification''"
| "workspace_error_code SamePathError = ''same_path''"
| "workspace_error_code DestinationWithinSourceError = ''destination_within_source''"
| "workspace_error_code UnsupportedNodeTypeError = ''unsupported_node_type''"
| "workspace_error_code FileEncodingError = ''file_encoding_error''"
| "workspace_error_code InvalidRangeError = ''invalid_range''"
| "workspace_error_code StaleContentError = ''stale_content''"
| "workspace_error_code InvalidPatchError = ''invalid_patch''"
| "workspace_error_code PatchContextMismatchError = ''patch_context_mismatch''"
| "workspace_error_code FileSizeLimitExceededError = ''file_size_limit_exceeded''"
| "workspace_error_code WorkspaceSizeLimitExceededError = ''workspace_size_limit_exceeded''"
| "workspace_error_code NodeLimitExceededError = ''node_limit_exceeded''"
| "workspace_error_code ReadLimitExceededError = ''read_limit_exceeded''"
| "workspace_error_code SnapshotTooLargeError = ''snapshot_too_large''"
| "workspace_error_code SnapshotCorruptError = ''snapshot_corrupt''"
| "workspace_error_code SnapshotIncompatibleError = ''snapshot_incompatible''"
| "workspace_error_code PreparedRestoreInvalid = ''prepared_restore_invalid''"
| "workspace_error_code RestoreCandidateMismatch = ''restore_candidate_mismatch''"

text \<open>\<open>command_executor/errors.py\<close>: the classes, their base and their stable code.\<close>

datatype command_error =
    CommandEmpty | CommandTooLong | CommandSyntaxInvalid | CommandSyntaxUnsupported
  | CommandTimeout | CommandCancelled | CommandInternalFailure

fun command_error_base :: "command_error \<Rightarrow> core_error" where
  "command_error_base CommandEmpty = InvalidRequestError"
| "command_error_base CommandTooLong = InvalidRequestError"
| "command_error_base CommandSyntaxInvalid = InvalidRequestError"
| "command_error_base CommandSyntaxUnsupported = UnsupportedOperationError"
| "command_error_base CommandTimeout = OperationTimeoutError"
| "command_error_base CommandCancelled = OperationCancelledError"
| "command_error_base CommandInternalFailure = InternalSandboxError"

fun command_error_code :: "command_error \<Rightarrow> string" where
  "command_error_code CommandEmpty = ''command_empty''"
| "command_error_code CommandTooLong = ''command_too_long''"
| "command_error_code CommandSyntaxInvalid = ''command_syntax_invalid''"
| "command_error_code CommandSyntaxUnsupported = ''command_syntax_unsupported''"
| "command_error_code CommandTimeout = ''command_timeout''"
| "command_error_code CommandCancelled = ''command_cancelled''"
| "command_error_code CommandInternalFailure = ''command_internal_failure''"

text \<open>\<open>events/errors.py\<close>: the classes, their base and their stable code.\<close>

datatype event_error =
    EventPayloadRejected | EventInvalid | EventBufferLimitExceeded | EventDeliveryFailed
  | EventSinkClosed

fun event_error_base :: "event_error \<Rightarrow> core_error" where
  "event_error_base EventPayloadRejected = InvalidRequestError"
| "event_error_base EventInvalid = InvalidRequestError"
| "event_error_base EventBufferLimitExceeded = QuotaExceededError"
| "event_error_base EventDeliveryFailed = InternalSandboxError"
| "event_error_base EventSinkClosed = ConflictError"

fun event_error_code :: "event_error \<Rightarrow> string" where
  "event_error_code EventPayloadRejected = ''event_payload_rejected''"
| "event_error_code EventInvalid = ''event_invalid''"
| "event_error_code EventBufferLimitExceeded = ''event_buffer_limit_exceeded''"
| "event_error_code EventDeliveryFailed = ''event_delivery_failed''"
| "event_error_code EventSinkClosed = ''event_sink_closed''"

text \<open>\<open>secrets/errors.py\<close>: the classes, their base and their stable code.\<close>

datatype secret_error =
    SecretReferenceInvalid | SecretDenied | SecretNotFound | SecretExpired | SecretLeaseLimitExceeded
  | SecretSourceUnavailable | SecretSourceValueInvalid | SecretLeaseClosed
  | SecretLeaseCleanupFailed

fun secret_error_base :: "secret_error \<Rightarrow> core_error" where
  "secret_error_base SecretReferenceInvalid = InvalidRequestError"
| "secret_error_base SecretDenied = PolicyDeniedError"
| "secret_error_base SecretNotFound = NotFoundError"
| "secret_error_base SecretExpired = OperationTimeoutError"
| "secret_error_base SecretLeaseLimitExceeded = QuotaExceededError"
| "secret_error_base SecretSourceUnavailable = InternalSandboxError"
| "secret_error_base SecretSourceValueInvalid = InternalSandboxError"
| "secret_error_base SecretLeaseClosed = ConflictError"
| "secret_error_base SecretLeaseCleanupFailed = InternalSandboxError"

fun secret_error_code :: "secret_error \<Rightarrow> string" where
  "secret_error_code SecretReferenceInvalid = ''secret_reference_invalid''"
| "secret_error_code SecretDenied = ''secret_denied''"
| "secret_error_code SecretNotFound = ''secret_not_found''"
| "secret_error_code SecretExpired = ''secret_expired''"
| "secret_error_code SecretLeaseLimitExceeded = ''secret_lease_limit_exceeded''"
| "secret_error_code SecretSourceUnavailable = ''secret_source_unavailable''"
| "secret_error_code SecretSourceValueInvalid = ''secret_source_value_invalid''"
| "secret_error_code SecretLeaseClosed = ''secret_lease_closed''"
| "secret_error_code SecretLeaseCleanupFailed = ''secret_lease_cleanup_failed''"

text \<open>\<open>snapshots/errors.py\<close>: the classes, their base and their stable code.\<close>

datatype snapshot_error =
    SnapshotIdentifierConflict | SnapshotNotFound | SnapshotCorrupt | SnapshotTooLarge
  | SnapshotIncompatible | SnapshotStoreFull | SnapshotSaveFailed | SnapshotLoadFailed
  | SnapshotRestoreFailed

fun snapshot_error_base :: "snapshot_error \<Rightarrow> core_error" where
  "snapshot_error_base SnapshotIdentifierConflict = ConflictError"
| "snapshot_error_base SnapshotNotFound = NotFoundError"
| "snapshot_error_base SnapshotCorrupt = InvalidRequestError"
| "snapshot_error_base SnapshotTooLarge = QuotaExceededError"
| "snapshot_error_base SnapshotIncompatible = UnsupportedOperationError"
| "snapshot_error_base SnapshotStoreFull = QuotaExceededError"
| "snapshot_error_base SnapshotSaveFailed = InternalSandboxError"
| "snapshot_error_base SnapshotLoadFailed = InternalSandboxError"
| "snapshot_error_base SnapshotRestoreFailed = InternalSandboxError"

fun snapshot_error_code :: "snapshot_error \<Rightarrow> string" where
  "snapshot_error_code SnapshotIdentifierConflict = ''snapshot_identifier_conflict''"
| "snapshot_error_code SnapshotNotFound = ''snapshot_not_found''"
| "snapshot_error_code SnapshotCorrupt = ''snapshot_corrupt''"
| "snapshot_error_code SnapshotTooLarge = ''snapshot_too_large''"
| "snapshot_error_code SnapshotIncompatible = ''snapshot_incompatible''"
| "snapshot_error_code SnapshotStoreFull = ''snapshot_store_full''"
| "snapshot_error_code SnapshotSaveFailed = ''snapshot_save_failed''"
| "snapshot_error_code SnapshotLoadFailed = ''snapshot_load_failed''"
| "snapshot_error_code SnapshotRestoreFailed = ''snapshot_restore_failed''"

text \<open>\<open>session/errors.py\<close>: the classes, their base and their stable code.\<close>

datatype session_error =
    SessionRequestInvalid | SessionStartInvalid | SessionNotRunning | SessionWorkspaceChanged
  | SessionClosing | SessionClosed | SessionFailed | SessionOperationTimeout
  | SessionOperationCancelled | SessionCloseTimeout | SessionPolicyDenied
  | SessionEventDeliveryFailed | SessionSnapshotRestoreFailed | SessionCleanupFailed

fun session_error_base :: "session_error \<Rightarrow> core_error" where
  "session_error_base SessionRequestInvalid = InvalidRequestError"
| "session_error_base SessionStartInvalid = ConflictError"
| "session_error_base SessionNotRunning = ConflictError"
| "session_error_base SessionWorkspaceChanged = ConflictError"
| "session_error_base SessionClosing = ConflictError"
| "session_error_base SessionClosed = ConflictError"
| "session_error_base SessionFailed = InternalSandboxError"
| "session_error_base SessionOperationTimeout = OperationTimeoutError"
| "session_error_base SessionOperationCancelled = OperationCancelledError"
| "session_error_base SessionCloseTimeout = OperationTimeoutError"
| "session_error_base SessionPolicyDenied = PolicyDeniedError"
| "session_error_base SessionEventDeliveryFailed = InternalSandboxError"
| "session_error_base SessionSnapshotRestoreFailed = InternalSandboxError"
| "session_error_base SessionCleanupFailed = InternalSandboxError"

fun session_error_code :: "session_error \<Rightarrow> string" where
  "session_error_code SessionRequestInvalid = ''session_request_invalid''"
| "session_error_code SessionStartInvalid = ''session_start_invalid''"
| "session_error_code SessionNotRunning = ''session_not_running''"
| "session_error_code SessionWorkspaceChanged = ''session_workspace_changed''"
| "session_error_code SessionClosing = ''session_closing''"
| "session_error_code SessionClosed = ''session_closed''"
| "session_error_code SessionFailed = ''session_failed''"
| "session_error_code SessionOperationTimeout = ''session_operation_timeout''"
| "session_error_code SessionOperationCancelled = ''session_operation_cancelled''"
| "session_error_code SessionCloseTimeout = ''session_close_timeout''"
| "session_error_code SessionPolicyDenied = ''session_policy_denied''"
| "session_error_code SessionEventDeliveryFailed = ''session_event_delivery_failed''"
| "session_error_code SessionSnapshotRestoreFailed = ''session_snapshot_restore_failed''"
| "session_error_code SessionCleanupFailed = ''session_cleanup_failed''"

text \<open>\<open>service/errors.py\<close>: the classes, their base and their stable code.\<close>

datatype service_error =
    InvalidSandboxRequest | SandboxNotFound | SandboxIdentifierConflict | SandboxServiceClosed
  | SandboxStartupFailed | SandboxResumeFailed | SandboxDeleteFailed | SessionFactoryFailed
  | SessionFactoryCleanupFailed

fun service_error_base :: "service_error \<Rightarrow> core_error" where
  "service_error_base InvalidSandboxRequest = InvalidRequestError"
| "service_error_base SandboxNotFound = NotFoundError"
| "service_error_base SandboxIdentifierConflict = ConflictError"
| "service_error_base SandboxServiceClosed = ConflictError"
| "service_error_base SandboxStartupFailed = InternalSandboxError"
| "service_error_base SandboxResumeFailed = InternalSandboxError"
| "service_error_base SandboxDeleteFailed = InternalSandboxError"
| "service_error_base SessionFactoryFailed = InternalSandboxError"
| "service_error_base SessionFactoryCleanupFailed = InternalSandboxError"

fun service_error_code :: "service_error \<Rightarrow> string" where
  "service_error_code InvalidSandboxRequest = ''invalid_sandbox_request''"
| "service_error_code SandboxNotFound = ''sandbox_not_found''"
| "service_error_code SandboxIdentifierConflict = ''sandbox_identifier_conflict''"
| "service_error_code SandboxServiceClosed = ''sandbox_service_closed''"
| "service_error_code SandboxStartupFailed = ''sandbox_startup_failed''"
| "service_error_code SandboxResumeFailed = ''sandbox_resume_failed''"
| "service_error_code SandboxDeleteFailed = ''sandbox_delete_failed''"
| "service_error_code SessionFactoryFailed = ''session_factory_failed''"
| "service_error_code SessionFactoryCleanupFailed = ''session_factory_cleanup_failed''"
text \<open>
  \<open>network/errors.py\<close>: the classes, their base and their stable code. The last three derive from
  \<open>OutboundHttpGatewayFailed\<close>.
\<close>

datatype network_error =
    OutboundHttpRequestInvalid | OutboundHttpUnavailable | OutboundHttpDenied
  | OutboundHttpLimitExceeded | OutboundHttpTimeout | OutboundHttpCancelled
  | OutboundHttpGatewayFailed | OutboundHttpResolutionFailed | OutboundHttpTransportFailed
  | OutboundHttpResponseInvalid

fun network_error_base :: "network_error \<Rightarrow> core_error" where
  "network_error_base OutboundHttpRequestInvalid = InvalidRequestError"
| "network_error_base OutboundHttpUnavailable = UnsupportedOperationError"
| "network_error_base OutboundHttpDenied = PolicyDeniedError"
| "network_error_base OutboundHttpLimitExceeded = QuotaExceededError"
| "network_error_base OutboundHttpTimeout = OperationTimeoutError"
| "network_error_base OutboundHttpCancelled = OperationCancelledError"
| "network_error_base OutboundHttpGatewayFailed = InternalSandboxError"
| "network_error_base OutboundHttpResolutionFailed = InternalSandboxError"
| "network_error_base OutboundHttpTransportFailed = InternalSandboxError"
| "network_error_base OutboundHttpResponseInvalid = InternalSandboxError"

fun network_error_code :: "network_error \<Rightarrow> string" where
  "network_error_code OutboundHttpRequestInvalid = ''outbound_http_request_invalid''"
| "network_error_code OutboundHttpUnavailable = ''outbound_http_unavailable''"
| "network_error_code OutboundHttpDenied = ''outbound_http_denied''"
| "network_error_code OutboundHttpLimitExceeded = ''outbound_http_limit_exceeded''"
| "network_error_code OutboundHttpTimeout = ''outbound_http_timeout''"
| "network_error_code OutboundHttpCancelled = ''outbound_http_cancelled''"
| "network_error_code OutboundHttpGatewayFailed = ''outbound_http_gateway_failed''"
| "network_error_code OutboundHttpResolutionFailed = ''outbound_http_resolution_failed''"
| "network_error_code OutboundHttpTransportFailed = ''outbound_http_transport_failed''"
| "network_error_code OutboundHttpResponseInvalid = ''outbound_http_response_invalid''"

definition is_gateway_failure :: "network_error \<Rightarrow> bool" where
  "is_gateway_failure e \<longleftrightarrow>
     e \<in> {OutboundHttpGatewayFailed, OutboundHttpResolutionFailed, OutboundHttpTransportFailed,
          OutboundHttpResponseInvalid}"

text \<open>
  The exceptions of the Python runtime that the modelled code raises or catches; a class of another
  package is \<open>OtherException\<close> with its name.
\<close>

datatype builtin_error =
    TypeError | ValueError | OverflowError | UnicodeEncodeError | UnicodeDecodeError | KeyError
  | IndexError | RuntimeError | AssertionError | CancelledError | TimeoutError | OtherException pystr

datatype error_class =
    Core core_error
  | Workspace workspace_error
  | Command command_error
  | Event event_error
  | Secret secret_error
  | Snapshot snapshot_error
  | Session session_error
  | Service service_error
  | Network network_error
  | Builtin builtin_error

datatype sandbox_error = Raise (err_class: error_class) (err_msg: pystr)

type_synonym 'a result = "sandbox_error + 'a"

abbreviation throw :: "error_class \<Rightarrow> pystr \<Rightarrow> 'a result" where
  "throw c m \<equiv> Inl (Raise c m)"

text \<open>The base class among those of \<open>core/errors.py\<close>; \<open>None\<close> when it is not a \<open>SandboxError\<close>.\<close>

fun error_base :: "error_class \<Rightarrow> core_error option" where
  "error_base (Core e) = Some e"
| "error_base (Workspace e) = Some (workspace_error_base e)"
| "error_base (Command e) = Some (command_error_base e)"
| "error_base (Event e) = Some (event_error_base e)"
| "error_base (Secret e) = Some (secret_error_base e)"
| "error_base (Snapshot e) = Some (snapshot_error_base e)"
| "error_base (Session e) = Some (session_error_base e)"
| "error_base (Service e) = Some (service_error_base e)"
| "error_base (Network e) = Some (network_error_base e)"
| "error_base (Builtin e) = None"

fun error_code :: "error_class \<Rightarrow> string option" where
  "error_code (Core e) = Some (core_error_code e)"
| "error_code (Workspace e) = Some (workspace_error_code e)"
| "error_code (Command e) = Some (command_error_code e)"
| "error_code (Event e) = Some (event_error_code e)"
| "error_code (Secret e) = Some (secret_error_code e)"
| "error_code (Snapshot e) = Some (snapshot_error_code e)"
| "error_code (Session e) = Some (session_error_code e)"
| "error_code (Service e) = Some (service_error_code e)"
| "error_code (Network e) = Some (network_error_code e)"
| "error_code (Builtin e) = None"

definition error_category :: "error_class \<Rightarrow> error_category option" where
  "error_category c = map_option core_error_category (error_base c)"

text \<open>\<open>isinstance(error, SandboxError)\<close> and \<open>isinstance(error, <core class>)\<close>.\<close>

definition is_sandbox_error :: "sandbox_error \<Rightarrow> bool" where
  "is_sandbox_error e \<longleftrightarrow> error_base (err_class e) \<noteq> None"

definition is_core_error :: "core_error \<Rightarrow> sandbox_error \<Rightarrow> bool" where
  "is_core_error c e \<longleftrightarrow> error_base (err_class e) = Some c"

text \<open>\<open>SandboxError.__init__\<close> refuses a blank message.\<close>

definition require_message :: "pystr \<Rightarrow> pystr result" where
  "require_message m =
     (if list_all is_space m
      then throw (Builtin ValueError) (pstr ''error message must not be empty'') else Inr m)"

definition sandbox_error_new :: "error_class \<Rightarrow> pystr \<Rightarrow> sandbox_error" where
  "sandbox_error_new c m = (case require_message m of Inl e \<Rightarrow> e | Inr m' \<Rightarrow> Raise c m')"

lemma sandbox_error_new_nonblank [simp]:
  "\<exists>x \<in> set m. \<not> is_space x \<Longrightarrow> sandbox_error_new c m = Raise c m"
  by (auto simp: sandbox_error_new_def require_message_def list_all_iff)

lemma is_sandbox_error_simps [simp]:
  "is_sandbox_error (Raise (Core a) m)" "is_sandbox_error (Raise (Workspace b) m)"
  "is_sandbox_error (Raise (Command c) m)" "is_sandbox_error (Raise (Event d) m)"
  "is_sandbox_error (Raise (Secret f) m)" "is_sandbox_error (Raise (Snapshot g) m)"
  "is_sandbox_error (Raise (Session h) m)" "is_sandbox_error (Raise (Service i) m)" "is_sandbox_error (Raise (Network n) m)"
  "\<not> is_sandbox_error (Raise (Builtin j) m)"
  by (simp_all add: is_sandbox_error_def)

section \<open>The names of the classes\<close>

fun core_error_name :: "core_error \<Rightarrow> pystr" where
  "core_error_name InvalidRequestError = pstr ''InvalidRequestError''"
| "core_error_name NotFoundError = pstr ''NotFoundError''"
| "core_error_name ConflictError = pstr ''ConflictError''"
| "core_error_name QuotaExceededError = pstr ''QuotaExceededError''"
| "core_error_name PolicyDeniedError = pstr ''PolicyDeniedError''"
| "core_error_name OperationTimeoutError = pstr ''OperationTimeoutError''"
| "core_error_name OperationCancelledError = pstr ''OperationCancelledError''"
| "core_error_name UnsupportedOperationError = pstr ''UnsupportedOperationError''"
| "core_error_name InternalSandboxError = pstr ''InternalSandboxError''"

fun workspace_error_name :: "workspace_error \<Rightarrow> pystr" where
  "workspace_error_name InvalidPathError = pstr ''InvalidPathError''"
| "workspace_error_name PathOutsideWorkspaceError = pstr ''PathOutsideWorkspaceError''"
| "workspace_error_name PathNotFoundError = pstr ''PathNotFoundError''"
| "workspace_error_name PathAlreadyExistsError = pstr ''PathAlreadyExistsError''"
| "workspace_error_name NotAFileError = pstr ''NotAFileError''"
| "workspace_error_name NotADirectoryError = pstr ''NotADirectoryError''"
| "workspace_error_name DirectoryNotEmptyError = pstr ''DirectoryNotEmptyError''"
| "workspace_error_name RootModificationError = pstr ''RootModificationError''"
| "workspace_error_name SamePathError = pstr ''SamePathError''"
| "workspace_error_name DestinationWithinSourceError = pstr ''DestinationWithinSourceError''"
| "workspace_error_name UnsupportedNodeTypeError = pstr ''UnsupportedNodeTypeError''"
| "workspace_error_name FileEncodingError = pstr ''FileEncodingError''"
| "workspace_error_name InvalidRangeError = pstr ''InvalidRangeError''"
| "workspace_error_name StaleContentError = pstr ''StaleContentError''"
| "workspace_error_name InvalidPatchError = pstr ''InvalidPatchError''"
| "workspace_error_name PatchContextMismatchError = pstr ''PatchContextMismatchError''"
| "workspace_error_name FileSizeLimitExceededError = pstr ''FileSizeLimitExceededError''"
| "workspace_error_name WorkspaceSizeLimitExceededError = pstr ''WorkspaceSizeLimitExceededError''"
| "workspace_error_name NodeLimitExceededError = pstr ''NodeLimitExceededError''"
| "workspace_error_name ReadLimitExceededError = pstr ''ReadLimitExceededError''"
| "workspace_error_name SnapshotTooLargeError = pstr ''SnapshotTooLargeError''"
| "workspace_error_name SnapshotCorruptError = pstr ''SnapshotCorruptError''"
| "workspace_error_name SnapshotIncompatibleError = pstr ''SnapshotIncompatibleError''"
| "workspace_error_name PreparedRestoreInvalid = pstr ''PreparedRestoreInvalid''"
| "workspace_error_name RestoreCandidateMismatch = pstr ''RestoreCandidateMismatch''"

fun command_error_name :: "command_error \<Rightarrow> pystr" where
  "command_error_name CommandEmpty = pstr ''CommandEmpty''"
| "command_error_name CommandTooLong = pstr ''CommandTooLong''"
| "command_error_name CommandSyntaxInvalid = pstr ''CommandSyntaxInvalid''"
| "command_error_name CommandSyntaxUnsupported = pstr ''CommandSyntaxUnsupported''"
| "command_error_name CommandTimeout = pstr ''CommandTimeout''"
| "command_error_name CommandCancelled = pstr ''CommandCancelled''"
| "command_error_name CommandInternalFailure = pstr ''CommandInternalFailure''"

fun event_error_name :: "event_error \<Rightarrow> pystr" where
  "event_error_name EventPayloadRejected = pstr ''EventPayloadRejected''"
| "event_error_name EventInvalid = pstr ''EventInvalid''"
| "event_error_name EventBufferLimitExceeded = pstr ''EventBufferLimitExceeded''"
| "event_error_name EventDeliveryFailed = pstr ''EventDeliveryFailed''"
| "event_error_name EventSinkClosed = pstr ''EventSinkClosed''"

fun secret_error_name :: "secret_error \<Rightarrow> pystr" where
  "secret_error_name SecretReferenceInvalid = pstr ''SecretReferenceInvalid''"
| "secret_error_name SecretDenied = pstr ''SecretDenied''"
| "secret_error_name SecretNotFound = pstr ''SecretNotFound''"
| "secret_error_name SecretExpired = pstr ''SecretExpired''"
| "secret_error_name SecretLeaseLimitExceeded = pstr ''SecretLeaseLimitExceeded''"
| "secret_error_name SecretSourceUnavailable = pstr ''SecretSourceUnavailable''"
| "secret_error_name SecretSourceValueInvalid = pstr ''SecretSourceValueInvalid''"
| "secret_error_name SecretLeaseClosed = pstr ''SecretLeaseClosed''"
| "secret_error_name SecretLeaseCleanupFailed = pstr ''SecretLeaseCleanupFailed''"

fun snapshot_error_name :: "snapshot_error \<Rightarrow> pystr" where
  "snapshot_error_name SnapshotIdentifierConflict = pstr ''SnapshotIdentifierConflict''"
| "snapshot_error_name SnapshotNotFound = pstr ''SnapshotNotFound''"
| "snapshot_error_name SnapshotCorrupt = pstr ''SnapshotCorrupt''"
| "snapshot_error_name SnapshotTooLarge = pstr ''SnapshotTooLarge''"
| "snapshot_error_name SnapshotIncompatible = pstr ''SnapshotIncompatible''"
| "snapshot_error_name SnapshotStoreFull = pstr ''SnapshotStoreFull''"
| "snapshot_error_name SnapshotSaveFailed = pstr ''SnapshotSaveFailed''"
| "snapshot_error_name SnapshotLoadFailed = pstr ''SnapshotLoadFailed''"
| "snapshot_error_name SnapshotRestoreFailed = pstr ''SnapshotRestoreFailed''"

fun session_error_name :: "session_error \<Rightarrow> pystr" where
  "session_error_name SessionRequestInvalid = pstr ''SessionRequestInvalid''"
| "session_error_name SessionStartInvalid = pstr ''SessionStartInvalid''"
| "session_error_name SessionNotRunning = pstr ''SessionNotRunning''"
| "session_error_name SessionWorkspaceChanged = pstr ''SessionWorkspaceChanged''"
| "session_error_name SessionClosing = pstr ''SessionClosing''"
| "session_error_name SessionClosed = pstr ''SessionClosed''"
| "session_error_name SessionFailed = pstr ''SessionFailed''"
| "session_error_name SessionOperationTimeout = pstr ''SessionOperationTimeout''"
| "session_error_name SessionOperationCancelled = pstr ''SessionOperationCancelled''"
| "session_error_name SessionCloseTimeout = pstr ''SessionCloseTimeout''"
| "session_error_name SessionPolicyDenied = pstr ''SessionPolicyDenied''"
| "session_error_name SessionEventDeliveryFailed = pstr ''SessionEventDeliveryFailed''"
| "session_error_name SessionSnapshotRestoreFailed = pstr ''SessionSnapshotRestoreFailed''"
| "session_error_name SessionCleanupFailed = pstr ''SessionCleanupFailed''"

fun service_error_name :: "service_error \<Rightarrow> pystr" where
  "service_error_name InvalidSandboxRequest = pstr ''InvalidSandboxRequest''"
| "service_error_name SandboxNotFound = pstr ''SandboxNotFound''"
| "service_error_name SandboxIdentifierConflict = pstr ''SandboxIdentifierConflict''"
| "service_error_name SandboxServiceClosed = pstr ''SandboxServiceClosed''"
| "service_error_name SandboxStartupFailed = pstr ''SandboxStartupFailed''"
| "service_error_name SandboxResumeFailed = pstr ''SandboxResumeFailed''"
| "service_error_name SandboxDeleteFailed = pstr ''SandboxDeleteFailed''"
| "service_error_name SessionFactoryFailed = pstr ''SessionFactoryFailed''"
| "service_error_name SessionFactoryCleanupFailed = pstr ''SessionFactoryCleanupFailed''"

fun network_error_name :: "network_error \<Rightarrow> pystr" where
  "network_error_name OutboundHttpRequestInvalid = pstr ''OutboundHttpRequestInvalid''"
| "network_error_name OutboundHttpUnavailable = pstr ''OutboundHttpUnavailable''"
| "network_error_name OutboundHttpDenied = pstr ''OutboundHttpDenied''"
| "network_error_name OutboundHttpLimitExceeded = pstr ''OutboundHttpLimitExceeded''"
| "network_error_name OutboundHttpTimeout = pstr ''OutboundHttpTimeout''"
| "network_error_name OutboundHttpCancelled = pstr ''OutboundHttpCancelled''"
| "network_error_name OutboundHttpGatewayFailed = pstr ''OutboundHttpGatewayFailed''"
| "network_error_name OutboundHttpResolutionFailed = pstr ''OutboundHttpResolutionFailed''"
| "network_error_name OutboundHttpTransportFailed = pstr ''OutboundHttpTransportFailed''"
| "network_error_name OutboundHttpResponseInvalid = pstr ''OutboundHttpResponseInvalid''"

fun builtin_error_name :: "builtin_error \<Rightarrow> pystr" where
  "builtin_error_name TypeError = pstr ''TypeError''"
| "builtin_error_name ValueError = pstr ''ValueError''"
| "builtin_error_name OverflowError = pstr ''OverflowError''"
| "builtin_error_name UnicodeEncodeError = pstr ''UnicodeEncodeError''"
| "builtin_error_name UnicodeDecodeError = pstr ''UnicodeDecodeError''"
| "builtin_error_name KeyError = pstr ''KeyError''"
| "builtin_error_name IndexError = pstr ''IndexError''"
| "builtin_error_name RuntimeError = pstr ''RuntimeError''"
| "builtin_error_name AssertionError = pstr ''AssertionError''"
| "builtin_error_name CancelledError = pstr ''CancelledError''"
| "builtin_error_name TimeoutError = pstr ''TimeoutError''"
| "builtin_error_name (OtherException n) = n"

text \<open>\<open>type(error).__name__\<close>.\<close>

fun class_name :: "error_class \<Rightarrow> pystr" where
  "class_name (Core e) = core_error_name e"
| "class_name (Workspace e) = workspace_error_name e"
| "class_name (Command e) = command_error_name e"
| "class_name (Event e) = event_error_name e"
| "class_name (Secret e) = secret_error_name e"
| "class_name (Snapshot e) = snapshot_error_name e"
| "class_name (Session e) = session_error_name e"
| "class_name (Service e) = service_error_name e"
| "class_name (Network e) = network_error_name e"
| "class_name (Builtin e) = builtin_error_name e"

end
