(* ===== verification/Sandbox_Path.thy ===== *)
theory Sandbox_Path
  imports Core_Errors
begin

text \<open>
  \<open>workspace/paths.py\<close>: the host-independent POSIX path type every workspace operation takes.
  The specification is the list of segments under the root: \<open>path_of\<close> builds the path of a
  list of valid segments, and every operation is shown to be a list operation on it.
\<close>

section \<open>The type and its constructor\<close>

datatype sandbox_path = SandboxPath (path_value: pystr)

definition ROOT :: pystr where
  "ROOT = pstr ''/workspace''"

definition workspace_segment :: pystr where
  "workspace_segment = pstr ''workspace''"

definition canonical_absolute :: "pystr \<Rightarrow> pystr" where
  "canonical_absolute v =
     (if \<not> startswith v [slash] then []
      else if v = ROOT then v
      else if \<not> startswith v (ROOT @ [slash]) then []
      else if contains_sub v (pstr ''//'') \<or> contains_sub v (pstr ''/./'')
              \<or> endswith v (pstr ''/.'') \<or> endswith v (pstr ''/'') then []
      else if \<exists>seg \<in> set (tl (split_on slash v)). seg \<in> {[], pstr ''.'', pstr ''..''} then []
      else if nul \<in> set v then []
      else v)"

definition sandbox_path_new :: "pystr \<Rightarrow> sandbox_path result" where
  "sandbox_path_new v =
     (if v \<noteq> canonical_absolute v
      then throw (Workspace InvalidPathError) (pstr ''SandboxPath value must already be canonical'')
      else Inr (SandboxPath v))"

definition root_path :: sandbox_path where
  "root_path = SandboxPath ROOT"

instantiation sandbox_path :: linorder
begin

definition less_eq_sandbox_path :: "sandbox_path \<Rightarrow> sandbox_path \<Rightarrow> bool" where
  "p \<le> q \<longleftrightarrow> path_value p \<le> path_value q"

definition less_sandbox_path :: "sandbox_path \<Rightarrow> sandbox_path \<Rightarrow> bool" where
  "p < q \<longleftrightarrow> path_value p < path_value q"

instance
  by standard (auto simp: less_eq_sandbox_path_def less_sandbox_path_def sandbox_path.expand)

end

section \<open>Resolution\<close>

definition require_positive_limit :: "pystr \<Rightarrow> int \<Rightarrow> int result" where
  "require_positive_limit name v =
     (if v \<le> 0 then throw (Builtin ValueError) (name @ pstr '' must be positive'') else Inr v)"

definition utf8_length :: "pystr \<Rightarrow> pystr \<Rightarrow> int result" where
  "utf8_length name v =
     (case utf8_encode v of
        None \<Rightarrow> throw (Workspace InvalidPathError) (name @ pstr '' must be valid UTF-8 text'')
      | Some bs \<Rightarrow> Inr (int (length bs)))"

definition is_root :: "sandbox_path \<Rightarrow> bool" where
  "is_root p \<longleftrightarrow> path_value p = ROOT"

definition path_parts :: "sandbox_path \<Rightarrow> pystr list" where
  "path_parts p =
     (if is_root p then [] else split_on slash (drop (length ROOT + 1) (path_value p)))"

fun resolve_segments :: "pystr list \<Rightarrow> pystr list \<Rightarrow> pystr list result" where
  "resolve_segments parts [] = Inr parts"
| "resolve_segments parts (seg # segs) =
     (if seg = [] \<or> seg = pstr ''.'' then resolve_segments parts segs
      else if seg = pstr ''..'' then
        throw (Workspace InvalidPathError) (pstr ''parent traversal is not allowed'')
      else if nul \<in> set seg then
        throw (Workspace InvalidPathError) (pstr ''path segment must not contain NUL'')
      else resolve_segments (parts @ [seg]) segs)"

fun check_segments :: "int \<Rightarrow> pystr list \<Rightarrow> unit result" where
  "check_segments max_segment_bytes [] = Inr ()"
| "check_segments max_segment_bytes (seg # segs) =
     rbind (utf8_length (pstr ''path segment'') seg) (\<lambda>n.
       if n > max_segment_bytes
       then throw (Workspace InvalidPathError)
              (pstr ''path segment exceeds '' @ str_int max_segment_bytes @ pstr '' UTF-8 bytes'')
       else check_segments max_segment_bytes segs)"

definition outside_error :: sandbox_error where
  "outside_error =
     Raise (Workspace PathOutsideWorkspaceError) (pstr ''path must be contained by '' @ ROOT)"

definition initial_parts :: "pystr \<Rightarrow> sandbox_path option \<Rightarrow> pystr list result" where
  "initial_parts v cwd =
     (if startswith v [slash] then Inr []
      else (case cwd of
              None \<Rightarrow> throw (Workspace InvalidPathError)
                        (pstr ''relative path requires an explicit working directory'')
            | Some c \<Rightarrow> Inr (workspace_segment # path_parts c)))"

definition resolve :: "pystr \<Rightarrow> sandbox_path option \<Rightarrow> int \<Rightarrow> int \<Rightarrow> sandbox_path result" where
  "resolve v cwd max_path_bytes max_segment_bytes =
     (if v = [] then throw (Workspace InvalidPathError) (pstr ''path must not be empty'')
      else if nul \<in> set v
      then throw (Workspace InvalidPathError) (pstr ''path must not contain NUL'')
      else
        rbind (require_positive_limit (pstr ''max_path_bytes'') max_path_bytes) (\<lambda>_.
        rbind (require_positive_limit (pstr ''max_segment_bytes'') max_segment_bytes) (\<lambda>_.
        rbind (initial_parts v cwd) (\<lambda>parts0.
        rbind (resolve_segments parts0 (split_on slash v)) (\<lambda>parts.
          if parts = [] \<or> hd parts \<noteq> workspace_segment then Inl outside_error
          else
            let normalized = slash # join_with [slash] parts in
            if normalized \<noteq> ROOT \<and> \<not> startswith normalized (ROOT @ [slash])
            then Inl outside_error
            else
              rbind (check_segments max_segment_bytes parts) (\<lambda>_.
              rbind (utf8_length (pstr ''path'') normalized) (\<lambda>n.
                if n > max_path_bytes
                then throw (Workspace InvalidPathError)
                       (pstr ''path exceeds '' @ str_int max_path_bytes @ pstr '' UTF-8 bytes'')
                else sandbox_path_new normalized)))))))"

section \<open>Components of a path\<close>

definition path_name :: "sandbox_path \<Rightarrow> pystr" where
  "path_name p = (if is_root p then workspace_segment else last (path_parts p))"

definition path_parent :: "sandbox_path \<Rightarrow> sandbox_path result" where
  "path_parent p =
     (if is_root p then Inr p
      else let parent_parts = butlast (path_parts p) in
           if parent_parts = [] then sandbox_path_new ROOT
           else sandbox_path_new (ROOT @ [slash] @ join_with [slash] parent_parts))"

definition path_join :: "sandbox_path \<Rightarrow> pystr list \<Rightarrow> int \<Rightarrow> int \<Rightarrow> sandbox_path result" where
  "path_join p segments max_path_bytes max_segment_bytes =
     (if segments = [] then Inr p
      else resolve (join_with [slash] segments) (Some p) max_path_bytes max_segment_bytes)"

definition is_ancestor_of :: "sandbox_path \<Rightarrow> sandbox_path \<Rightarrow> bool" where
  "is_ancestor_of p other \<longleftrightarrow> startswith (path_value other) (path_value p @ [slash])"

section \<open>The specification: lists of segments\<close>

definition seg_ok :: "pystr \<Rightarrow> bool" where
  "seg_ok s \<longleftrightarrow> s \<noteq> [] \<and> s \<noteq> pstr ''.'' \<and> s \<noteq> pstr ''..'' \<and> slash \<notin> set s \<and> nul \<notin> set s"

definition path_of :: "pystr list \<Rightarrow> sandbox_path" where
  "path_of ps = SandboxPath (slash # join_with [slash] (workspace_segment # ps))"

text \<open>A path that the constructor accepts and that is not the empty text.\<close>

definition path_ok :: "sandbox_path \<Rightarrow> bool" where
  "path_ok p \<longleftrightarrow> path_value p \<noteq> [] \<and> canonical_absolute (path_value p) = path_value p"

lemma dot_facts [simp]:
  "pstr ''.'' \<noteq> []" "pstr ''..'' \<noteq> []" "pstr ''..'' \<noteq> pstr ''.''" "pstr ''.'' \<noteq> pstr ''..''"
  "nul \<notin> set (pstr ''.'')" "nul \<notin> set (pstr ''..'')"
  by (simp_all add: pstr_simps)

lemma ROOT_split: "ROOT = slash # workspace_segment"
  by (simp add: ROOT_def workspace_segment_def pstr_simps)

lemma workspace_segment_facts [simp]:
  "workspace_segment \<noteq> []" "slash \<notin> set workspace_segment" "nul \<notin> set workspace_segment"
  "seg_ok workspace_segment" "workspace_segment \<noteq> pstr ''.''" "workspace_segment \<noteq> pstr ''..''"
  by (simp_all add: workspace_segment_def seg_ok_def pstr_simps)

lemma path_of_Nil [simp]: "path_of [] = root_path"
  by (simp add: path_of_def root_path_def ROOT_split)

lemma path_value_path_of:
  "path_value (path_of ps) = ROOT @ (if ps = [] then [] else slash # join_with [slash] ps)"
  by (simp add: path_of_def ROOT_split join_with_Cons)

lemma is_root_path_of [simp]: "is_root (path_of ps) \<longleftrightarrow> ps = []"
  by (simp add: is_root_def path_value_path_of)

lemma split_path_of:
  "\<forall>s \<in> set ps. slash \<notin> set s \<Longrightarrow>
     split_on slash (path_value (path_of ps)) = [] # workspace_segment # ps"
  by (simp add: path_of_def split_join del: split_on.simps(2))
     (simp add: split_join)

lemma path_parts_path_of [simp]: "\<forall>s \<in> set ps. slash \<notin> set s \<Longrightarrow> path_parts (path_of ps) = ps"
  by (auto simp: path_parts_def path_value_path_of split_join)

text \<open>
  The substring tests of \<open>_canonical_absolute\<close> are subsumed by its test of the segments.
\<close>

lemma split_on_general: "split_on c (u @ c # w) = split_on c u @ split_on c w"
  by (induction u) (auto split: list.splits)

lemma inner_segment:
  assumes "slash \<notin> set bad" and "contains_sub v (slash # bad @ [slash])"
  shows "bad \<in> set (tl (split_on slash v))"
proof -
  obtain u w where "v = u @ slash # (bad @ slash # w)"
    using assms(2) by (auto simp: contains_sub_iff)
  then have "split_on slash v = split_on slash u @ bad # split_on slash w"
    using assms(1) by (simp add: split_on_general split_on_id)
  then show ?thesis by (cases "split_on slash u") simp_all
qed

lemma last_segment:
  assumes "slash \<notin> set bad" and "endswith v (slash # bad)"
  shows "bad \<in> set (tl (split_on slash v))"
proof -
  obtain u where "v = u @ slash # bad"
    using assms(2) by (auto simp: endswith_def suffix_def)
  then have "split_on slash v = split_on slash u @ [bad]"
    using assms(1) by (simp add: split_on_general split_on_id)
  then show ?thesis by (cases "split_on slash u") simp_all
qed

lemma canonical_absolute_id:
  "canonical_absolute v = v \<longleftrightarrow>
     v = [] \<or> v = ROOT \<or>
     (startswith v (ROOT @ [slash]) \<and> nul \<notin> set v \<and>
      (\<forall>seg \<in> set (tl (split_on slash v)). seg \<notin> {[], pstr ''.'', pstr ''..''}))"
  (is "?l \<longleftrightarrow> ?r")
proof -
  have "contains_sub v (pstr ''//'') \<Longrightarrow> [] \<in> set (tl (split_on slash v))"
    using inner_segment [of "[]" v] by (simp add: pstr_simps)
  moreover have "contains_sub v (pstr ''/./'') \<Longrightarrow> pstr ''.'' \<in> set (tl (split_on slash v))"
    using inner_segment [of "pstr ''.''" v] by (simp add: pstr_simps)
  moreover have "endswith v (pstr ''/.'') \<Longrightarrow> pstr ''.'' \<in> set (tl (split_on slash v))"
    using last_segment [of "pstr ''.''" v] by (simp add: pstr_simps)
  moreover have "endswith v (pstr ''/'') \<Longrightarrow> [] \<in> set (tl (split_on slash v))"
    using last_segment [of "[]" v] by (simp add: pstr_simps)
  moreover have "startswith v (ROOT @ [slash]) \<Longrightarrow> startswith v [slash]"
    by (auto simp: startswith_def prefix_def ROOT_split)
  moreover have "startswith ROOT [slash]"
    by (simp add: startswith_def ROOT_split)
  ultimately show ?thesis
    unfolding canonical_absolute_def by (auto split: if_splits)
qed

lemma path_of_ok [simp]: "list_all seg_ok ps \<Longrightarrow> path_ok (path_of ps)"
proof (cases "ps = []")
  case True
  then show ?thesis
    by (simp add: path_ok_def root_path_def canonical_absolute_id) (simp add: ROOT_split)
next
  case False
  assume ok: "list_all seg_ok ps"
  let ?v = "path_value (path_of ps)"
  have "split_on slash ?v = [] # workspace_segment # ps"
    using ok by (intro split_path_of) (auto simp: list_all_iff seg_ok_def)
  moreover have "startswith ?v (ROOT @ [slash])"
    using False by (simp add: path_value_path_of startswith_def)
  moreover have "nul \<notin> set ?v"
    using ok set_join_with [of slash ps] False
    by (auto simp: path_value_path_of ROOT_split list_all_iff seg_ok_def workspace_segment_def pstr_simps)
  ultimately have "canonical_absolute ?v = ?v"
    using ok by (auto simp: canonical_absolute_id list_all_iff seg_ok_def workspace_segment_def pstr_simps)
  then show ?thesis
    by (simp add: path_ok_def) (simp add: path_value_path_of ROOT_split)
qed

lemma root_path_ok [simp]: "path_ok root_path"
  using path_of_ok [of "[]"] by simp

lemma path_ok_obtain:
  assumes "path_ok p"
  obtains ps where "p = path_of ps" "list_all seg_ok ps"
proof (cases "path_value p = ROOT")
  case True
  then have "p = path_of []" by (cases p) (simp add: root_path_def)
  then show ?thesis using that [of "[]"] by simp
next
  case False
  let ?v = "path_value p"
  have can: "startswith ?v (ROOT @ [slash])" "nul \<notin> set ?v"
    "\<forall>seg \<in> set (tl (split_on slash ?v)). seg \<notin> {[], pstr ''.'', pstr ''..''}"
    using assms False by (auto simp: path_ok_def canonical_absolute_id)
  then obtain w where w: "?v = slash # workspace_segment @ slash # w"
    by (auto simp: startswith_def prefix_def ROOT_split)
  then have sp: "split_on slash ?v = [] # workspace_segment # split_on slash w"
    by (simp add: split_on_append)
  have "\<And>s. s \<in> set (split_on slash w) \<Longrightarrow> nul \<notin> set s"
    using can(2) w split_on_elems by fastforce
  moreover have "\<And>s. s \<in> set (split_on slash w) \<Longrightarrow> slash \<notin> set s"
    by (rule split_on_pieces)
  ultimately have "list_all seg_ok (split_on slash w)"
    using can(3) sp by (simp add: list_all_iff seg_ok_def)
  moreover have "p = path_of (split_on slash w)"
    using w by (cases p) (simp add: path_of_def join_with_Cons)
  ultimately show ?thesis by (rule that [rotated])
qed

lemma path_ok_parts: "path_ok p \<Longrightarrow> path_of (path_parts p) = p \<and> list_all seg_ok (path_parts p)"
  by (erule path_ok_obtain) (auto simp: list_all_iff seg_ok_def)

lemma seg_ok_no_slash: "list_all seg_ok ps \<Longrightarrow> \<forall>s \<in> set ps. slash \<notin> set s"
  by (auto simp: list_all_iff seg_ok_def)

lemma path_parts_of_ok [simp]: "list_all seg_ok ps \<Longrightarrow> path_parts (path_of ps) = ps"
  by (simp add: seg_ok_no_slash)

lemma path_of_inject: "list_all seg_ok ps \<Longrightarrow> list_all seg_ok qs \<Longrightarrow> path_of ps = path_of qs \<longleftrightarrow> ps = qs"
  by (metis path_parts_of_ok)

lemma path_parts_inject: "path_ok p \<Longrightarrow> path_ok q \<Longrightarrow> path_parts p = path_parts q \<longleftrightarrow> p = q"
  by (metis path_ok_parts)

lemma sandbox_path_new_path_of [simp]:
  "list_all seg_ok ps \<Longrightarrow> sandbox_path_new (path_value (path_of ps)) = Inr (path_of ps)"
  using path_of_ok [of ps] by (simp add: sandbox_path_new_def path_ok_def)

lemma path_name_path_of:
  "list_all seg_ok ps \<Longrightarrow> path_name (path_of ps) = (if ps = [] then workspace_segment else last ps)"
  by (simp add: path_name_def)

lemma path_parent_path_of [simp]:
  assumes "list_all seg_ok ps"
  shows "path_parent (path_of ps) = Inr (path_of (butlast ps))"
proof (cases "ps = []")
  case True
  then show ?thesis by (simp add: path_parent_def is_root_def root_path_def)
next
  case False
  have "list_all seg_ok (butlast ps)"
    using assms by (auto simp: list_all_iff dest: in_set_butlastD)
  then have "sandbox_path_new (path_value (path_of (butlast ps))) = Inr (path_of (butlast ps))"
    by simp
  with assms False show ?thesis
    by (cases "butlast ps = []")
       (simp_all add: path_parent_def path_value_path_of root_path_def)
qed

lemma is_ancestor_of_path_of:
  assumes "list_all seg_ok ps" and "list_all seg_ok qs"
  shows "is_ancestor_of (path_of ps) (path_of qs) \<longleftrightarrow> strict_prefix ps qs"
proof
  assume "is_ancestor_of (path_of ps) (path_of qs)"
  then obtain w where w: "path_value (path_of qs) = path_value (path_of ps) @ slash # w"
    by (auto simp: is_ancestor_of_def startswith_def prefix_def)
  have "[] # workspace_segment # qs = ([] # workspace_segment # ps) @ split_on slash w"
    using arg_cong [OF w, of "split_on slash"] split_path_of seg_ok_no_slash assms
    by (simp add: split_on_general)
  then show "strict_prefix ps qs" by (auto simp: strict_prefix_def)
next
  assume "strict_prefix ps qs"
  then obtain rs where "qs = ps @ rs" "rs \<noteq> []" by (auto simp: strict_prefix_def prefix_def)
  then show "is_ancestor_of (path_of ps) (path_of qs)"
    by (auto simp: is_ancestor_of_def startswith_def path_value_path_of join_with_append)
qed

section \<open>What resolution returns\<close>

definition relevant :: "pystr list \<Rightarrow> pystr list" where
  "relevant segs = filter (\<lambda>s. s \<noteq> [] \<and> s \<noteq> pstr ''.'') segs"

definition text_fits :: "int \<Rightarrow> pystr \<Rightarrow> bool" where
  "text_fits limit s =
     (case utf8_encode s of None \<Rightarrow> False | Some bs \<Rightarrow> int (length bs) \<le> limit)"

text \<open>The byte limits on a path: each segment (the root's included) and the whole text.\<close>

definition path_fits :: "int \<Rightarrow> int \<Rightarrow> sandbox_path \<Rightarrow> bool" where
  "path_fits max_path_bytes max_segment_bytes p \<longleftrightarrow>
     list_all (text_fits max_segment_bytes) (workspace_segment # path_parts p) \<and>
     text_fits max_path_bytes (path_value p)"

lemma resolve_segments_ok [ok_iff]:
  "resolve_segments parts segs = Inr q \<longleftrightarrow>
     pstr ''..'' \<notin> set segs \<and> (\<forall>s \<in> set segs. nul \<notin> set s) \<and> q = parts @ relevant segs"
  by (induction parts segs rule: resolve_segments.induct) (auto simp: relevant_def)

lemma utf8_length_ok [ok_iff]:
  "utf8_length name s = Inr n \<longleftrightarrow> (\<exists>bs. utf8_encode s = Some bs \<and> n = int (length bs))"
  by (auto simp: utf8_length_def split: option.splits)

lemma utf8_limit_ok:
  "rbind (utf8_length name s) (\<lambda>n. if n > limit then Inl e else f) = Inr y \<longleftrightarrow>
     text_fits limit s \<and> f = Inr y"
  by (auto simp: utf8_length_def text_fits_def split: option.splits)

lemma check_segments_ok [ok_iff]:
  "check_segments limit segs = Inr u \<longleftrightarrow> list_all (text_fits limit) segs"
  by (induction segs) (simp_all add: utf8_limit_ok)

lemma initial_parts_ok [ok_iff]:
  "initial_parts v cwd = Inr q \<longleftrightarrow>
     (if startswith v [slash] then q = []
      else \<exists>c. cwd = Some c \<and> q = workspace_segment # path_parts c)"
  by (auto simp: initial_parts_def split: option.splits)

lemma require_positive_limit_ok [ok_iff]:
  "require_positive_limit name v = Inr n \<longleftrightarrow> 0 < v \<and> n = v"
  by (auto simp: require_positive_limit_def)

lemma relevant_split_ok:
  assumes "nul \<notin> set v" and "pstr ''..'' \<notin> set (split_on slash v)"
  shows "list_all seg_ok (relevant (split_on slash v))"
  using assms split_on_elems [of _ slash v] split_on_pieces [of _ slash v]
  by (fastforce simp: relevant_def seg_ok_def list_all_iff)

lemma split_nul: "nul \<notin> set v \<Longrightarrow> s \<in> set (split_on slash v) \<Longrightarrow> nul \<notin> set s"
  using split_on_elems by fastforce

lemma normalized_path_of:
  "slash # join_with [slash] (workspace_segment # ps) = path_value (path_of ps)"
  by (simp add: path_of_def)

lemma path_of_not_outside:
  "path_value (path_of ps) = ROOT \<or> startswith (path_value (path_of ps)) (ROOT @ [slash])"
  by (simp add: path_value_path_of startswith_def)

text \<open>The parts that a path text denotes: those of the directory it starts in, then its own.\<close>

definition target_parts :: "pystr \<Rightarrow> sandbox_path option \<Rightarrow> pystr list option" where
  "target_parts v cwd =
     (if startswith v [slash]
      then (case relevant (split_on slash v) of
              [] \<Rightarrow> None
            | s # ps \<Rightarrow> if s = workspace_segment then Some ps else None)
      else (case cwd of
              None \<Rightarrow> None
            | Some c \<Rightarrow> Some (path_parts c @ relevant (split_on slash v))))"

lemma target_parts_seg_ok:
  assumes "target_parts v cwd = Some ps" and "nul \<notin> set v"
    and "pstr ''..'' \<notin> set (split_on slash v)" and "\<And>c. cwd = Some c \<Longrightarrow> path_ok c"
  shows "list_all seg_ok ps"
  using assms relevant_split_ok [OF assms(2,3)] path_ok_parts
  by (auto simp: target_parts_def split: if_splits list.splits option.splits)

lemma resolve_finish:
  assumes "list_all seg_ok ps"
  shows "rbind (check_segments ms (workspace_segment # ps)) (\<lambda>_.
       rbind (utf8_length (pstr ''path'') (path_value (path_of ps))) (\<lambda>n.
         if n > mp
         then throw (Workspace InvalidPathError)
                (pstr ''path exceeds '' @ str_int mp @ pstr '' UTF-8 bytes'')
         else sandbox_path_new (path_value (path_of ps)))) = Inr p \<longleftrightarrow>
     p = path_of ps \<and> path_fits mp ms p"
  using assms check_segments_ok [of ms "workspace_segment # ps" "()"]
  by (cases "check_segments ms (workspace_segment # ps)")
     (auto simp: utf8_limit_ok path_fits_def simp del: check_segments.simps)

lemma resolve_ok:
  assumes cwd: "\<And>c. cwd = Some c \<Longrightarrow> path_ok c"
  shows "resolve v cwd mp ms = Inr p \<longleftrightarrow>
     v \<noteq> [] \<and> nul \<notin> set v \<and> 0 < mp \<and> 0 < ms \<and> pstr ''..'' \<notin> set (split_on slash v) \<and>
     (\<exists>ps. target_parts v cwd = Some ps \<and> p = path_of ps \<and> path_fits mp ms p)"
    (is "?l \<longleftrightarrow> ?r")
proof (cases "v \<noteq> [] \<and> nul \<notin> set v \<and> 0 < mp \<and> 0 < ms \<and> pstr ''..'' \<notin> set (split_on slash v)")
  case False
  then show ?thesis by (auto simp: resolve_def ok_iff  split: if_splits)
next
  case pre: True
  then have seg: "\<forall>s \<in> set (split_on slash v). nul \<notin> set s"
    using split_nul by blast
  have run: "resolve_segments q (split_on slash v) = Inr (q @ relevant (split_on slash v))" for q
    using pre seg by (simp add: ok_iff)
  show ?thesis
  proof (cases "target_parts v cwd")
    case None
    then have "resolve v cwd mp ms \<noteq> Inr p"
      using pre run
      by (cases "relevant (split_on slash v)")
         (auto simp: resolve_def initial_parts_def target_parts_def require_positive_limit_def
            split: if_splits option.splits)
    with None show ?thesis by simp
  next
    case (Some ps)
    then obtain q where q: "initial_parts v cwd = Inr q"
      "q @ relevant (split_on slash v) = workspace_segment # ps"
      by (auto simp: initial_parts_def target_parts_def split: if_splits list.splits option.splits)
    have ok: "list_all seg_ok ps"
      using target_parts_seg_ok [OF Some] pre cwd by blast
    have inside: "\<not> (path_value (path_of ps) \<noteq> ROOT \<and>
        \<not> startswith (path_value (path_of ps)) (ROOT @ [slash]))"
      using path_of_not_outside by blast
    have not_outside: "\<not> (workspace_segment # ps = [] \<or>
        hd (workspace_segment # ps) \<noteq> workspace_segment)"
      by simp
    have "resolve v cwd mp ms = Inr p \<longleftrightarrow> p = path_of ps \<and> path_fits mp ms p"
      using pre
      by (simp only: resolve_def require_positive_limit_def q run rbind_simps Let_def
          normalized_path_of inside not_outside if_False resolve_finish [OF ok])
         (simp del: check_segments.simps add: resolve_finish [OF ok])
    with pre Some show ?thesis by simp
  qed
qed

lemma resolve_path_ok:
  assumes "resolve v cwd mp ms = Inr p" and "\<And>c. cwd = Some c \<Longrightarrow> path_ok c"
  shows "path_ok p" and "path_fits mp ms p"
proof -
  obtain ps where ps: "target_parts v cwd = Some ps" "nul \<notin> set v"
    "pstr ''..'' \<notin> set (split_on slash v)" "p = path_of ps" "path_fits mp ms p"
    using assms resolve_ok [of cwd v mp ms p] by blast
  then have "list_all seg_ok ps"
    using assms(2) target_parts_seg_ok by blast
  with ps show "path_ok p" and "path_fits mp ms p" by simp_all
qed

lemma resolve_error_class:
  assumes "resolve v cwd mp ms = Inl e" and "0 < mp" and "0 < ms"
  shows "err_class e \<in> {Workspace InvalidPathError, Workspace PathOutsideWorkspaceError}"
proof -
  have seg: "resolve_segments q l = Inl e' \<Longrightarrow> err_class e' = Workspace InvalidPathError" for q l e'
    by (induction q l rule: resolve_segments.induct) (auto split: if_splits)
  have chk: "check_segments n l = Inl e' \<Longrightarrow> err_class e' = Workspace InvalidPathError" for n l e'
    by (induction n l rule: check_segments.induct)
       (auto simp: rbind_Inl_iff utf8_length_def split: if_splits option.splits)
  show ?thesis
    using assms
    by (auto simp: resolve_def rbind_Inl_iff require_positive_limit_def initial_parts_def
        outside_error_def utf8_length_def sandbox_path_new_def Let_def
        dest: seg chk split: if_splits option.splits)
qed

lemma relevant_seg_ok [simp]: "list_all seg_ok ps \<Longrightarrow> relevant ps = ps"
  by (simp add: relevant_def list_all_iff seg_ok_def)

lemma resolve_positive: "resolve v cwd mp ms = Inr p \<Longrightarrow> 0 < mp \<and> 0 < ms"
  by (auto simp: resolve_def require_positive_limit_def split: if_splits)

lemma nul_path_of: "list_all seg_ok ps \<Longrightarrow> nul \<notin> set (path_value (path_of ps))"
  using set_join_with [of slash "workspace_segment # ps"]
  by (auto simp: path_of_def list_all_iff seg_ok_def simp del: join_with.simps)

lemma target_parts_path_of:
  "list_all seg_ok ps \<Longrightarrow> target_parts (path_value (path_of ps)) cwd = Some ps"
  by (simp add: target_parts_def split_path_of seg_ok_no_slash relevant_def)
     (simp add: path_of_def startswith_def list_all_iff seg_ok_def)

lemma dotdot_path_of:
  "list_all seg_ok ps \<Longrightarrow> pstr ''..'' \<notin> set (split_on slash (path_value (path_of ps)))"
  by (simp add: split_path_of seg_ok_no_slash list_all_iff seg_ok_def)
     (auto simp: workspace_segment_def pstr_simps seg_ok_def)

lemma resolve_own_text:
  assumes "list_all seg_ok ps" and "path_fits mp ms (path_of ps)" and "0 < mp" and "0 < ms"
  shows "resolve (path_value (path_of ps)) cwd mp ms = Inr (path_of ps)"
proof -
  have v: "startswith (path_value (path_of ps)) [slash]" "path_value (path_of ps) \<noteq> []"
    by (simp_all add: path_of_def startswith_def)
  have "resolve (path_value (path_of ps)) None mp ms = Inr (path_of ps)"
    using assms v(2) nul_path_of [of ps] dotdot_path_of [of ps] target_parts_path_of [of ps None]
    by (subst resolve_ok) auto
  moreover have "resolve (path_value (path_of ps)) cwd mp ms =
      resolve (path_value (path_of ps)) None mp ms"
    using v(1) by (simp add: resolve_def initial_parts_def)
  ultimately show ?thesis by simp
qed

lemma path_join_segment:
  assumes "list_all seg_ok ps" and "seg_ok s"
  shows "path_join (path_of ps) [s] mp ms = Inr r \<longleftrightarrow>
     r = path_of (ps @ [s]) \<and> 0 < mp \<and> 0 < ms \<and> path_fits mp ms r"
proof -
  have s: "s \<noteq> []" "nul \<notin> set s" "split_on slash s = [s]" "pstr ''..'' \<noteq> s" "\<not> startswith s [slash]"
    using assms(2) by (auto simp: seg_ok_def split_on_id startswith_def prefix_def)
  moreover have "relevant [s] = [s]" using assms(2) by simp
  with s have "target_parts s (Some (path_of ps)) = Some (ps @ [s])"
    using assms by (simp add: target_parts_def)
  moreover have "resolve s (Some (path_of ps)) mp ms = Inr r \<longleftrightarrow>
      s \<noteq> [] \<and> nul \<notin> set s \<and> 0 < mp \<and> 0 < ms \<and> pstr ''..'' \<notin> set (split_on slash s) \<and>
      (\<exists>ps'. target_parts s (Some (path_of ps)) = Some ps' \<and> r = path_of ps' \<and> path_fits mp ms r)"
    using assms(1) by (intro resolve_ok) auto
  ultimately show ?thesis
    by (auto simp: path_join_def)
qed

section \<open>Properties\<close>

text \<open>
  C14: the constructor accepts exactly the canonical absolute texts (the root, or the root
  followed by segments that are neither empty, ".", "..", nor contain a slash or NUL), and one
  text more: the empty one, which \<open>_canonical_absolute\<close> maps to itself.
\<close>

theorem sandbox_path_new_accepts:
  "sandbox_path_new v = Inr p \<longleftrightarrow>
     p = SandboxPath v \<and> (v = [] \<or> (\<exists>ps. list_all seg_ok ps \<and> v = path_value (path_of ps)))"
proof
  assume new: "sandbox_path_new v = Inr p"
  then have p: "p = SandboxPath v" and can: "canonical_absolute v = v"
    by (auto simp: sandbox_path_new_def split: if_splits)
  have "\<exists>ps. list_all seg_ok ps \<and> v = path_value (path_of ps)" if "v \<noteq> []"
  proof -
    have "path_ok (SandboxPath v)" using that can by (simp add: path_ok_def)
    then show ?thesis by (metis path_ok_obtain sandbox_path.sel)
  qed
  with p show "p = SandboxPath v \<and>
      (v = [] \<or> (\<exists>ps. list_all seg_ok ps \<and> v = path_value (path_of ps)))"
    by blast
next
  assume "p = SandboxPath v \<and>
      (v = [] \<or> (\<exists>ps. list_all seg_ok ps \<and> v = path_value (path_of ps)))"
  then consider "p = SandboxPath []" "v = []"
    | ps where "list_all seg_ok ps" "v = path_value (path_of ps)" "p = path_of ps"
    by (metis sandbox_path.collapse)
  then show "sandbox_path_new v = Inr p"
  proof cases
    case 1
    then show ?thesis by (simp add: sandbox_path_new_def canonical_absolute_def startswith_def)
  next
    case (2 ps)
    then show ?thesis using sandbox_path_new_path_of by blast
  qed
qed

text \<open>
  C12: resolution is exactly the interpretation of the text as a list of segments: for a
  well-formed working directory it returns the path of the segments of the directory followed
  by those of the text (without empty segments and "."), when the text is nonempty, has no NUL
  and no "..", names a place inside the workspace, and the result meets the byte limits; in
  every other case it raises. Its own final constructor check never fails.
\<close>

theorem resolve_returns:
  assumes "\<forall>c. cwd = Some c \<longrightarrow> path_ok c"
  shows "resolve v cwd max_path max_seg = Inr p \<longleftrightarrow>
     v \<noteq> [] \<and> nul \<notin> set v \<and> 0 < max_path \<and> 0 < max_seg \<and>
     pstr ''..'' \<notin> set (split_on slash v) \<and>
     (\<exists>ps. target_parts v cwd = Some ps \<and> p = path_of ps \<and> path_fits max_path max_seg p)"
  using assms by (intro resolve_ok) blast

lemma resolve_returns_witness:
  "resolve (pstr ''a//./b'') (Some (path_of [pstr ''d''])) 4096 255 =
     Inr (path_of [pstr ''d'', pstr ''a'', pstr ''b''])"
proof -
  have ok: "list_all seg_ok [pstr ''d'', pstr ''a'', pstr ''b'']"
    by (simp add: seg_ok_def pstr_simps)
  then have cwd: "\<forall>c. Some (path_of [pstr ''d'']) = Some c \<longrightarrow> path_ok c"
    by simp
  have split: "split_on slash (pstr ''a//./b'') = [pstr ''a'', [], pstr ''.'', pstr ''b'']"
    by (simp add: pstr_simps)
  have "target_parts (pstr ''a//./b'') (Some (path_of [pstr ''d''])) =
       Some [pstr ''d'', pstr ''a'', pstr ''b'']"
    using ok unfolding target_parts_def split by (simp add: relevant_def startswith_def pstr_simps)
  moreover have "path_fits 4096 255 (path_of [pstr ''d'', pstr ''a'', pstr ''b''])"
    using ok
    by (simp add: path_fits_def text_fits_def path_value_path_of ROOT_def workspace_segment_def
        utf8_char_def is_scalar_def is_surrogate_def pstr_simps)
  ultimately show ?thesis
    unfolding resolve_returns [OF cwd, of "pstr ''a//./b''" 4096 255] split
    by (simp add: pstr_simps)
qed

text \<open>
  C11: whatever text it is given, a resolved path is inside the workspace, canonical and within
  the byte limits, and resolving its own text again, from any directory, returns it unchanged.
\<close>

theorem resolve_confined:
  assumes "resolve v cwd max_path max_seg = Inr p" and "\<forall>c. cwd = Some c \<longrightarrow> path_ok c"
  shows "(p = root_path \<or> is_ancestor_of root_path p) \<and> path_ok p \<and>
    path_fits max_path max_seg p \<and> resolve (path_value p) cwd' max_path max_seg = Inr p"
proof -
  have ok: "path_ok p" and fits: "path_fits max_path max_seg p"
    using assms resolve_path_ok [of v cwd max_path max_seg p] by blast+
  from ok obtain ps where p: "p = path_of ps" and ps: "list_all seg_ok ps"
    by (rule path_ok_obtain)
  have "p = root_path \<or> is_ancestor_of root_path p"
    using is_ancestor_of_path_of [of "[]" ps] p ps by (cases ps) auto
  moreover have "resolve (path_value p) cwd' max_path max_seg = Inr p"
    using assms fits p ps resolve_own_text [of ps max_path max_seg cwd'] resolve_positive by blast
  ultimately show ?thesis using ok fits by blast
qed

lemma resolve_confined_witness:
  "path_ok (path_of [pstr ''d'', pstr ''a'']) \<and>
   resolve (path_value (path_of [pstr ''d'', pstr ''a''])) None 4096 255 =
     Inr (path_of [pstr ''d'', pstr ''a''])"
proof -
  have ok: "list_all seg_ok [pstr ''d'', pstr ''a'']"
    by (simp add: seg_ok_def pstr_simps)
  moreover have "path_fits 4096 255 (path_of [pstr ''d'', pstr ''a''])"
    using ok
    by (simp add: path_fits_def text_fits_def path_value_path_of ROOT_def workspace_segment_def
        utf8_char_def is_scalar_def is_surrogate_def pstr_simps)
  ultimately have "resolve (path_value (path_of [pstr ''d'', pstr ''a''])) None 4096 255 =
      Inr (path_of [pstr ''d'', pstr ''a''])"
    by (intro resolve_own_text) simp_all
  then show ?thesis using resolve_confined [of _ None 4096 255] by blast
qed

text \<open>
  C13: on well-formed paths the operations are those on the lists of segments: \<open>parts\<close> and
  equality, \<open>name\<close>, \<open>parent\<close> (the root is its own parent), joining one child name, and strict
  containment, which is a strict order.
\<close>

theorem path_algebra:
  assumes "path_ok p" and "path_ok q" and "seg_ok s"
  shows "(path_parts p = path_parts q \<longleftrightarrow> p = q)
    \<and> path_parent p = Inr (path_of (butlast (path_parts p)))
    \<and> (path_join p [s] max_path max_seg = Inr r \<longleftrightarrow>
         r = path_of (path_parts p @ [s]) \<and> 0 < max_path \<and> 0 < max_seg \<and> path_fits max_path max_seg r)
    \<and> path_name (path_of (path_parts p @ [s])) = s
    \<and> path_parent (path_of (path_parts p @ [s])) = Inr p
    \<and> (is_ancestor_of p q \<longleftrightarrow> strict_prefix (path_parts p) (path_parts q))"
proof -
  obtain ps where p: "p = path_of ps" "list_all seg_ok ps"
    using assms(1) by (rule path_ok_obtain)
  obtain qs where q: "q = path_of qs" "list_all seg_ok qs"
    using assms(2) by (rule path_ok_obtain)
  have "list_all seg_ok (ps @ [s])" using p assms(3) by simp
  with p q assms show ?thesis
    by (simp add: path_of_inject path_name_path_of is_ancestor_of_path_of path_join_segment)
qed

lemma path_algebra_witness:
  "path_join root_path [pstr ''a''] 4096 255 = Inr (path_of [pstr ''a''])
   \<and> is_ancestor_of root_path (path_of [pstr ''a''])"
proof -
  have ok: "path_ok (path_of [])" "path_ok (path_of [pstr ''a''])" "seg_ok (pstr ''a'')"
    by (simp_all add: seg_ok_def pstr_simps)
  have "path_fits 4096 255 (path_of [pstr ''a''])"
    using ok(3)
    by (simp add: path_fits_def text_fits_def path_value_path_of ROOT_def workspace_segment_def
        utf8_char_def is_scalar_def is_surrogate_def pstr_simps)
  then show ?thesis
    using path_algebra [OF ok, of 4096 255 "path_of [pstr ''a'']"] ok(3)
      path_parts_of_ok [of "[]"] path_parts_of_ok [of "[pstr ''a'']"] by simp
qed

end
