(* ===== verification/Py_Numbers.thy ===== *)
theory Py_Numbers
  imports Py_Text
begin

text \<open>
  Python's integer literals as text: \<open>int(text, base)\<close>, the fixed-width hexadecimal of
  \<open>'%032x'\<close> and \<open>bytes.hex()\<close>, \<open>str.replace\<close>, \<open>str.strip\<close>, and their round trips. The
  decimal digits outside ASCII are those of the Unicode database: a parameter.
\<close>

section \<open>Fixed-width hexadecimal\<close>

definition hex_char :: "nat \<Rightarrow> nat" where
  "hex_char d = (if d < 10 then 48 + d else 87 + d)"

fun hex_fixed :: "nat \<Rightarrow> nat \<Rightarrow> pystr" where
  "hex_fixed 0 n = []"
| "hex_fixed (Suc k) n = hex_fixed k (n div 16) @ [hex_char (n mod 16)]"

definition is_lower_hex :: "nat \<Rightarrow> bool" where
  "is_lower_hex c \<longleftrightarrow> (48 \<le> c \<and> c \<le> 57) \<or> (97 \<le> c \<and> c \<le> 102)"

lemma hex_char_lower [simp]: "d < 16 \<Longrightarrow> is_lower_hex (hex_char d)"
  by (auto simp: is_lower_hex_def hex_char_def)

lemma length_hex_fixed [simp]: "length (hex_fixed k n) = k"
  by (induction k arbitrary: n) auto

lemma hex_fixed_lower: "c \<in> set (hex_fixed k n) \<Longrightarrow> is_lower_hex c"
  by (induction k arbitrary: n) auto

text \<open>\<open>bytes.hex()\<close>, and \<open>bytes.fromhex\<close> on pairs of lowercase digits.\<close>

definition bytes_hex :: "byte list \<Rightarrow> pystr" where
  "bytes_hex bs = concat (map (\<lambda>b. hex_fixed 2 (unat b)) bs)"

definition hex_value :: "nat \<Rightarrow> nat" where
  "hex_value c = (if c \<le> 57 then c - 48 else c - 87)"

fun bytes_fromhex :: "pystr \<Rightarrow> byte list" where
  "bytes_fromhex (a # b # s) = of_nat (16 * hex_value a + hex_value b) # bytes_fromhex s"
| "bytes_fromhex _ = []"

lemma hex_value_char [simp]: "d < 16 \<Longrightarrow> hex_value (hex_char d) = d"
  by (auto simp: hex_value_def hex_char_def)

lemma hex_char_value [simp]: "is_lower_hex c \<Longrightarrow> hex_char (hex_value c) = c"
  by (auto simp: hex_value_def hex_char_def is_lower_hex_def)

lemma hex_value_bound [simp]: "is_lower_hex c \<Longrightarrow> hex_value c < 16"
  by (auto simp: hex_value_def is_lower_hex_def)

lemma hex_fixed_2: "hex_fixed 2 n = [hex_char (n div 16 mod 16), hex_char (n mod 16)]"
  by (simp add: numeral_2_eq_2)

lemma bytes_hex_Cons: "bytes_hex (b # bs) = hex_fixed 2 (unat b) @ bytes_hex bs"
  by (simp add: bytes_hex_def)

lemma length_bytes_hex [simp]: "length (bytes_hex bs) = 2 * length bs"
  by (induction bs) (simp_all add: bytes_hex_def)

lemma bytes_hex_lower: "c \<in> set (bytes_hex bs) \<Longrightarrow> is_lower_hex c"
  by (auto simp: bytes_hex_def intro: hex_fixed_lower)

lemma bytes_fromhex_hex [simp]: "bytes_fromhex (bytes_hex bs) = bs"
proof (induction bs)
  case Nil
  then show ?case by (simp add: bytes_hex_def)
next
  case (Cons b bs)
  have small: "unat b div 16 < 16"
    using unat_byte_less [of b] by (simp add: less_mult_imp_div_less del: unat_byte_less)
  then have "16 * (unat b div 16 mod 16) + unat b mod 16 = unat b"
    by simp
  then have "(of_nat (16 * (unat b div 16 mod 16) + unat b mod 16) :: byte) = b"
    using byte_of_nat_unat by metis
  with small Cons.IH show ?case
    by (simp add: bytes_hex_Cons hex_fixed_2)
qed

lemma bytes_hex_inject [simp]: "bytes_hex as = bytes_hex bs \<longleftrightarrow> as = bs"
  by (metis bytes_fromhex_hex)

lemma length_bytes_fromhex [simp]: "length (bytes_fromhex s) = length s div 2"
  by (induction s rule: bytes_fromhex.induct) auto

lemma bytes_hex_fromhex:
  "list_all is_lower_hex s \<Longrightarrow> even (length s) \<Longrightarrow> bytes_hex (bytes_fromhex s) = s"
proof (induction s rule: bytes_fromhex.induct)
  case (1 a b s)
  then have "hex_value a < 16" "hex_value b < 16" by simp_all
  then have "unat (of_nat (16 * hex_value a + hex_value b) :: byte) = 16 * hex_value a + hex_value b"
    by (intro unat_byte_of_nat) linarith
  with 1 show ?case by (simp add: bytes_hex_Cons hex_fixed_2 del: of_nat_add of_nat_mult)
qed (simp_all add: bytes_hex_def)

section \<open>Replacing and stripping\<close>

text \<open>\<open>s.replace(p, r)\<close>, left to right without overlaps, for a nonempty \<open>p\<close>.\<close>

function replace_sub :: "pystr \<Rightarrow> pystr \<Rightarrow> pystr \<Rightarrow> pystr" where
  "replace_sub p r s =
     (if s = [] \<or> p = [] then s
      else if startswith s p then r @ replace_sub p r (drop (length p) s)
      else hd s # replace_sub p r (tl s))"
  by pat_completeness auto
termination
  by (relation "measure (\<lambda>(p, r, s). length s)") auto

declare replace_sub.simps [simp del]

lemma replace_sub_absent: "c \<in> set p \<Longrightarrow> c \<notin> set s \<Longrightarrow> replace_sub p r s = s"
proof (induction s)
  case Nil
  then show ?case by (simp add: replace_sub.simps)
next
  case (Cons x s)
  then have "\<not> startswith (x # s) p"
    using set_mono_prefix [of p "x # s"] by (auto simp: startswith_def)
  with Cons show ?case by (subst replace_sub.simps) auto
qed

text \<open>\<open>s.strip(chars)\<close>.\<close>

definition strip_chars :: "(nat \<Rightarrow> bool) \<Rightarrow> pystr \<Rightarrow> pystr" where
  "strip_chars P s = rev (dropWhile P (rev (dropWhile P s)))"

lemma dropWhile_none: "(\<And>x. x \<in> set xs \<Longrightarrow> \<not> P x) \<Longrightarrow> dropWhile P xs = xs"
  by (cases xs) auto

lemma strip_chars_none: "(\<And>x. x \<in> set s \<Longrightarrow> \<not> P x) \<Longrightarrow> strip_chars P s = s"
  using dropWhile_none [of s P] dropWhile_none [of "rev s" P] by (simp add: strip_chars_def)

section \<open>\<open>int(text, base)\<close>\<close>

text \<open>
  The value of one digit character; \<open>nd\<close> gives the decimal digits outside ASCII, which
  \<open>int\<close> accepts in any base.
\<close>

definition digit_of :: "(nat \<Rightarrow> nat option) \<Rightarrow> nat \<Rightarrow> nat \<Rightarrow> nat option" where
  "digit_of nd b c =
     (let v = if is_ascii_digit c then Some (c - 48)
              else if 97 \<le> c \<and> c \<le> 122 then Some (c - 87)
              else if 65 \<le> c \<and> c \<le> 90 then Some (c - 55)
              else if c < 128 then None
              else nd c
      in case v of None \<Rightarrow> None | Some d \<Rightarrow> if d < b then Some d else None)"

text \<open>Digits with single underscores between them; \<open>acc\<close> is the value read so far.\<close>

fun int_digits :: "(nat \<Rightarrow> nat option) \<Rightarrow> nat \<Rightarrow> nat \<Rightarrow> pystr \<Rightarrow> nat option" where
  "int_digits nd b acc [] = Some acc"
| "int_digits nd b acc (c # s) =
     (if c = 95 then
        (case s of
           [] \<Rightarrow> None
         | c' # s' \<Rightarrow>
             (case digit_of nd b c' of
                None \<Rightarrow> None | Some d \<Rightarrow> int_digits nd b (b * acc + d) s'))
      else (case digit_of nd b c of
              None \<Rightarrow> None | Some d \<Rightarrow> int_digits nd b (b * acc + d) s))"

definition int_nonempty :: "(nat \<Rightarrow> nat option) \<Rightarrow> nat \<Rightarrow> pystr \<Rightarrow> nat option" where
  "int_nonempty nd b s = (if s = [] \<or> hd s = 95 then None else int_digits nd b 0 s)"

text \<open>An optional \<open>0x\<close> prefix in base 16, which one underscore may follow.\<close>

definition int_unsigned :: "(nat \<Rightarrow> nat option) \<Rightarrow> nat \<Rightarrow> pystr \<Rightarrow> nat option" where
  "int_unsigned nd b s =
     (if b = 16 \<and> (startswith s [48, 120] \<or> startswith s [48, 88])
      then int_nonempty nd b (if startswith (drop 2 s) [95] then drop 3 s else drop 2 s)
      else int_nonempty nd b s)"

definition py_int :: "(nat \<Rightarrow> nat option) \<Rightarrow> nat \<Rightarrow> pystr \<Rightarrow> int option" where
  "py_int nd b text =
     (let s = strip_chars is_space text in
      case s of
        [] \<Rightarrow> None
      | c # s' \<Rightarrow>
          if c = 45 then map_option (\<lambda>n. - int n) (int_unsigned nd b s')
          else if c = 43 then map_option int (int_unsigned nd b s')
          else map_option int (int_unsigned nd b s))"

lemma digit_of_hex [simp]: "is_lower_hex c \<Longrightarrow> digit_of nd 16 c = Some (hex_value c)"
  by (auto simp: digit_of_def is_lower_hex_def hex_value_def is_ascii_digit_def)

lemma digit_of_ascii [simp]: "is_ascii_digit c \<Longrightarrow> digit_of nd 10 c = Some (c - 48)"
  by (auto simp: digit_of_def is_ascii_digit_def)

lemma int_digits_snoc:
  "c \<noteq> 95 \<Longrightarrow> 95 \<notin> set s \<Longrightarrow>
     int_digits nd b acc (s @ [c]) =
       (case int_digits nd b acc s of
          None \<Rightarrow> None
        | Some n \<Rightarrow> (case digit_of nd b c of None \<Rightarrow> None | Some d \<Rightarrow> Some (b * n + d)))"
  by (induction s arbitrary: acc) (auto split: option.splits)

lemma lower_hex_facts:
  "is_lower_hex c \<Longrightarrow> c \<noteq> 95 \<and> c \<noteq> 120 \<and> c \<noteq> 88 \<and> c \<noteq> 45 \<and> c \<noteq> 43 \<and> \<not> is_space c"
  by (auto simp: is_lower_hex_def is_space_def)

lemma int_digits_hex: "n < 16 ^ k \<Longrightarrow> int_digits nd 16 0 (hex_fixed k n) = Some n"
proof (induction k arbitrary: n)
  case 0
  then show ?case by simp
next
  case (Suc k)
  have "95 \<notin> set (hex_fixed k (n div 16))" "hex_char (n mod 16) \<noteq> 95"
    using hex_fixed_lower lower_hex_facts by (blast, simp add: lower_hex_facts hex_char_def)
  with Suc show ?case
    by (simp add: int_digits_snoc less_mult_imp_div_less mult.commute)
qed

lemma py_int_hex:
  assumes "n < 16 ^ k" and "0 < k"
  shows "py_int nd 16 (hex_fixed k n) = Some (int n)"
proof -
  let ?s = "hex_fixed k n"
  have low: "\<And>c. c \<in> set ?s \<Longrightarrow> is_lower_hex c" by (rule hex_fixed_lower)
  then have strip: "strip_chars is_space ?s = ?s"
    by (intro strip_chars_none) (simp add: lower_hex_facts)
  obtain c s' where s: "?s = c # s'"
    using assms(2) length_hex_fixed [of k n] by (cases ?s) auto
  have c: "c \<noteq> 45" "c \<noteq> 43" "c \<noteq> 95"
    using low [of c] lower_hex_facts s by auto
  have "120 \<notin> set ?s" "88 \<notin> set ?s"
    using low lower_hex_facts by blast+
  then have "\<not> startswith ?s [48, 120]" "\<not> startswith ?s [48, 88]"
    using set_mono_prefix [of "[48, 120]" ?s] set_mono_prefix [of "[48, 88]" ?s]
    by (auto simp: startswith_def)
  then have "int_unsigned nd 16 ?s = Some n"
    using int_digits_hex [OF assms(1)] c s by (simp add: int_unsigned_def int_nonempty_def)
  with strip c s show ?thesis by (simp add: py_int_def)
qed

lemma digit_char_facts:
  "is_ascii_digit c \<Longrightarrow> c \<noteq> 95 \<and> c \<noteq> 45 \<and> c \<noteq> 43 \<and> \<not> is_space c"
  by (auto simp: is_ascii_digit_def is_space_def)

lemma str_nat_not_Nil [simp]: "str_nat n \<noteq> []"
  by (subst str_nat.simps) simp

lemma int_digits_str_nat: "int_digits nd 10 0 (str_nat n) = Some n"
proof (induction n rule: str_nat.induct)
  case (1 n)
  show ?case
  proof (cases "n < 10")
    case True
    then have "is_ascii_digit (48 + n)" by (simp add: is_ascii_digit_def)
    with True show ?thesis by (subst str_nat.simps) (simp add: digit_char_facts)
  next
    case False
    have d: "is_ascii_digit (48 + n mod 10)" by (simp add: is_ascii_digit_def)
    have "95 \<notin> set (str_nat (n div 10))"
      using str_nat_digits digit_char_facts by blast
    with False 1 d show ?thesis
      by (subst str_nat.simps) (simp add: int_digits_snoc digit_char_facts)
  qed
qed

theorem py_int_str_int: "py_int nd 10 (str_int i) = Some i"
proof -
  have strip: "strip_chars is_space (str_int i) = str_int i"
    using str_nat_digits digit_char_facts
    by (intro strip_chars_none) (auto simp: str_int_def is_space_def split: if_splits)
  have unsigned: "int_unsigned nd 10 (str_nat n) = Some n" for n
    using str_nat_digits [of "hd (str_nat n)" n] digit_char_facts [of "hd (str_nat n)"]
    by (simp add: int_unsigned_def int_nonempty_def int_digits_str_nat)
  show ?thesis
  proof (cases "i < 0")
    case True
    then show ?thesis using strip unsigned by (simp add: py_int_def str_int_def)
  next
    case False
    obtain c s where s: "str_nat (nat i) = c # s" by (cases "str_nat (nat i)") auto
    then have "c \<noteq> 45" "c \<noteq> 43"
      using str_nat_digits [of c "nat i"] digit_char_facts [of c] by auto
    with False s strip unsigned [of "nat i"] show ?thesis
      by (simp add: py_int_def str_int_def)
  qed
qed

end
