(* ===== verification/Identifiers.thy ===== *)
theory Identifiers
  imports Core_Errors Py_Numbers Complex_Main
begin

text \<open>
  \<open>core/identifiers.py\<close>, \<open>core/models.py\<close> and \<open>core/operations.py\<close>: UUID identifiers with
  their text form, workspace revisions, the operation kinds and deadlines, and the metadata of
  operation requests and results. A UUID is its 128-bit value (\<open>UUID.int\<close>).
\<close>

section \<open>UUID identifiers\<close>

type_synonym uuid = "128 word"

text \<open>\<open>str(UUID)\<close>: 32 hexadecimal digits grouped 8-4-4-4-12.\<close>

definition uuid_str :: "uuid \<Rightarrow> pystr" where
  "uuid_str u =
     (let h = hex_fixed 32 (unat u)
      in take 8 h @ [45] @ take 4 (drop 8 h) @ [45] @ take 4 (drop 12 h) @ [45]
         @ take 4 (drop 16 h) @ [45] @ drop 20 h)"

text \<open>\<open>UUID(hex)\<close> of the standard library; \<open>None\<close> is its \<open>ValueError\<close>.\<close>

definition uuid_of_text :: "(nat \<Rightarrow> nat option) \<Rightarrow> pystr \<Rightarrow> uuid option" where
  "uuid_of_text nd text =
     (let h = replace_sub (pstr ''uuid:'') [] (replace_sub (pstr ''urn:'') [] text);
          h' = filter (\<lambda>c. c \<noteq> 45) (strip_chars (\<lambda>c. c = 123 \<or> c = 125) h)
      in if length h' \<noteq> 32 then None
         else (case py_int nd 16 h' of
                 None \<Rightarrow> None
               | Some i \<Rightarrow> if 0 \<le> i \<and> i < 2 ^ 128 then Some (of_int i) else None))"

datatype uuid_identifier = UuidIdentifier (id_value: uuid)

type_synonym session_id = uuid_identifier
type_synonym operation_id = uuid_identifier
type_synonym snapshot_id = uuid_identifier

definition identifier_new :: "uuid \<Rightarrow> uuid_identifier result" where
  "identifier_new u =
     rbind (guard (u \<noteq> 0)
       (Raise (Builtin ValueError) (pstr ''identifier value must not be the nil UUID'')))
     (\<lambda>_. Inr (UuidIdentifier u))"

definition identifier_parse :: "(nat \<Rightarrow> nat option) \<Rightarrow> pystr \<Rightarrow> uuid_identifier result" where
  "identifier_parse nd text =
     (case uuid_of_text nd text of
        None \<Rightarrow> throw (Builtin ValueError) (pstr ''identifier text must be a valid UUID'')
      | Some u \<Rightarrow> identifier_new u)"

definition identifier_str :: "uuid_identifier \<Rightarrow> pystr" where
  "identifier_str i = uuid_str (id_value i)"

lemma uuid_str_chars: "c \<in> set (uuid_str u) \<Longrightarrow> is_lower_hex c \<or> c = 45"
  by (auto simp: uuid_str_def Let_def dest!: in_set_takeD in_set_dropD intro: hex_fixed_lower)

lemma filter_dash_uuid_str: "filter (\<lambda>c. c \<noteq> 45) (uuid_str u) = hex_fixed 32 (unat u)"
proof -
  let ?h = "hex_fixed 32 (unat u)"
  have keep: "\<And>xs. set xs \<subseteq> set ?h \<Longrightarrow> filter (\<lambda>c. c \<noteq> 45) xs = xs"
    using hex_fixed_lower lower_hex_facts by (intro filter_True) blast
  have "filter (\<lambda>c. c \<noteq> 45) (uuid_str u) =
      take 8 ?h @ take 4 (drop 8 ?h) @ take 4 (drop 12 ?h) @ take 4 (drop 16 ?h) @ drop 20 ?h"
    by (simp add: uuid_str_def Let_def keep set_take_subset set_drop_subset
        subset_trans [OF set_take_subset set_drop_subset])
  also have "\<dots> = take (8 + (4 + (4 + 4))) ?h @ drop 20 ?h"
    by (simp only: take_add drop_drop append_assoc) (simp add: add.commute)
  finally show ?thesis by simp
qed

lemma uuid_of_text_str: "uuid_of_text nd (uuid_str u) = Some u"
proof -
  have chars: "c \<notin> set (uuid_str u)" if "c = 117 \<or> c = 123 \<or> c = 125" for c
    using that uuid_str_chars [of c u] by (auto simp: is_lower_hex_def)
  have "replace_sub (pstr ''uuid:'') [] (replace_sub (pstr ''urn:'') [] (uuid_str u)) = uuid_str u"
    using chars [of 117] by (simp add: replace_sub_absent [of 117] pstr_simps)
  moreover have "strip_chars (\<lambda>c. c = 123 \<or> c = 125) (uuid_str u) = uuid_str u"
    using chars by (intro strip_chars_none) blast
  moreover have "unat u < 16 ^ 32"
    using unsigned_less [of u] by simp
  moreover have "int (unat u) < 2 ^ 128"
    using unsigned_less [of u] by simp
  ultimately show ?thesis
    by (simp add: uuid_of_text_def filter_dash_uuid_str py_int_hex)
qed

section \<open>Revisions\<close>

datatype revision = Revision (rev_value: int)

definition revision_new :: "int \<Rightarrow> revision result" where
  "revision_new v =
     rbind (guard (0 \<le> v) (Raise (Builtin ValueError) (pstr ''revision value must be non-negative'')))
     (\<lambda>_. Inr (Revision v))"

definition revision_initial :: revision where
  "revision_initial = Revision 0"

definition revision_next :: "revision \<Rightarrow> revision" where
  "revision_next r = Revision (rev_value r + 1)"

definition revision_str :: "revision \<Rightarrow> pystr" where
  "revision_str r = str_int (rev_value r)"

definition revision_ok :: "revision \<Rightarrow> bool" where
  "revision_ok r \<longleftrightarrow> 0 \<le> rev_value r"

text \<open>\<open>order=True\<close> compares revisions by value.\<close>

instantiation revision :: linorder
begin

definition less_eq_revision :: "revision \<Rightarrow> revision \<Rightarrow> bool" where
  "r \<le> s \<longleftrightarrow> rev_value r \<le> rev_value s"

definition less_revision :: "revision \<Rightarrow> revision \<Rightarrow> bool" where
  "r < s \<longleftrightarrow> rev_value r < rev_value s"

instance
  by standard (auto simp: less_eq_revision_def less_revision_def revision.expand)

end

lemma revision_initial_ok [simp]: "revision_ok revision_initial"
  by (simp add: revision_ok_def revision_initial_def)

lemma revision_next_ok [simp]: "revision_ok r \<Longrightarrow> revision_ok (revision_next r)"
  by (simp add: revision_ok_def revision_next_def)

lemma revision_next_greater [simp]: "r < revision_next r"
  by (simp add: less_revision_def revision_next_def)

lemma revision_new_ok_iff [ok_iff]: "revision_new v = Inr r \<longleftrightarrow> r = Revision v \<and> revision_ok r"
  by (auto simp: revision_new_def ok_iff revision_ok_def)

section \<open>Operation kinds, deadlines and metadata\<close>

datatype operation_kind =
    EXECUTE | READ_FILE | WRITE_FILE | APPLY_PATCH | READ_BYTES | WRITE_BYTES | STAT | LIST_ENTRIES
  | CREATE_DIRECTORY | REMOVE_PATH | CREATE_SNAPSHOT | RESTORE_SNAPSHOT | EXPORT_PORTABLE_ARCHIVE
  | RESTORE_PORTABLE_ARCHIVE | OUTBOUND_HTTP

fun operation_kind_value :: "operation_kind \<Rightarrow> string" where
  "operation_kind_value EXECUTE = ''execute''"
| "operation_kind_value READ_FILE = ''read_file''"
| "operation_kind_value WRITE_FILE = ''write_file''"
| "operation_kind_value APPLY_PATCH = ''apply_patch''"
| "operation_kind_value READ_BYTES = ''read_bytes''"
| "operation_kind_value WRITE_BYTES = ''write_bytes''"
| "operation_kind_value STAT = ''stat''"
| "operation_kind_value LIST_ENTRIES = ''list_entries''"
| "operation_kind_value CREATE_DIRECTORY = ''create_directory''"
| "operation_kind_value REMOVE_PATH = ''remove_path''"
| "operation_kind_value CREATE_SNAPSHOT = ''create_snapshot''"
| "operation_kind_value RESTORE_SNAPSHOT = ''restore_snapshot''"
| "operation_kind_value EXPORT_PORTABLE_ARCHIVE = ''export_portable_archive''"
| "operation_kind_value RESTORE_PORTABLE_ARCHIVE = ''restore_portable_archive''"
| "operation_kind_value OUTBOUND_HTTP = ''outbound_http''"

text \<open>A Python float: a rational when finite (its rounding is not modelled).\<close>

datatype py_float = Finite rat | PosInf | NegInf | NotANumber

definition require_positive_finite :: "pystr \<Rightarrow> py_float \<Rightarrow> rat result" where
  "require_positive_finite name v =
     (case v of
        Finite q \<Rightarrow>
          if 0 < q then Inr q
          else throw (Builtin ValueError) (name @ pstr '' must be positive and finite'')
      | _ \<Rightarrow> throw (Builtin ValueError) (name @ pstr '' must be positive and finite''))"

record operation_limits =
  timeout_seconds :: py_float
  terminal_event_reserve_seconds :: py_float

definition operation_limits_new :: "py_float \<Rightarrow> py_float \<Rightarrow> operation_limits result" where
  "operation_limits_new timeout reserve =
     rbind (require_positive_finite (pstr ''timeout_seconds'') timeout) (\<lambda>t.
     rbind (require_positive_finite (pstr ''terminal_event_reserve_seconds'') reserve) (\<lambda>r.
     rbind (guard (\<not> t \<le> r) (Raise (Builtin ValueError)
       (pstr ''terminal_event_reserve_seconds must be strictly less than timeout_seconds''))) (\<lambda>_.
     Inr \<lparr>timeout_seconds = timeout, terminal_event_reserve_seconds = reserve\<rparr>)))"

text \<open>
  A \<open>datetime\<close>: microseconds of the wall clock, and the offset of its zone (\<open>None\<close> when naive).
\<close>

record py_datetime =
  wall_us :: int
  utc_offset_us :: "int option"

definition require_aware_utc :: "pystr \<Rightarrow> py_datetime \<Rightarrow> unit result" where
  "require_aware_utc name d =
     (case utc_offset_us d of
        None \<Rightarrow> throw (Builtin ValueError) (name @ pstr '' must be timezone-aware'')
      | Some off \<Rightarrow> guard (off = 0) (Raise (Builtin ValueError) (name @ pstr '' must use UTC'')))"

record operation_request_metadata =
  req_session_id :: session_id
  req_operation_id :: operation_id

record operation_result_metadata =
  res_session_id :: session_id
  res_operation_id :: operation_id
  workspace_revision :: revision
  started_at :: py_datetime
  completed_at :: py_datetime

definition operation_result_metadata_new ::
  "session_id \<Rightarrow> operation_id \<Rightarrow> revision \<Rightarrow> py_datetime \<Rightarrow> py_datetime
     \<Rightarrow> operation_result_metadata result" where
  "operation_result_metadata_new sid oid r started completed =
     rbind (require_aware_utc (pstr ''started_at'') started) (\<lambda>_.
     rbind (require_aware_utc (pstr ''completed_at'') completed) (\<lambda>_.
     rbind (guard (\<not> wall_us completed < wall_us started)
       (Raise (Builtin ValueError) (pstr ''completed_at must not be before started_at''))) (\<lambda>_.
     Inr \<lparr>res_session_id = sid, res_operation_id = oid, workspace_revision = r,
          started_at = started, completed_at = completed\<rparr>)))"

definition result_elapsed :: "operation_result_metadata \<Rightarrow> int" where
  "result_elapsed m = wall_us (completed_at m) - wall_us (started_at m)"

lemma operation_limits_new_ok [ok_iff]:
  "operation_limits_new t r = Inr l \<longleftrightarrow>
     (\<exists>q p. t = Finite q \<and> r = Finite p \<and> 0 < p \<and> p < q) \<and>
     l = \<lparr>timeout_seconds = t, terminal_event_reserve_seconds = r\<rparr>"
  by (cases t; cases r)
     (auto simp: operation_limits_new_def require_positive_finite_def ok_iff split: if_splits)

lemma operation_result_metadata_new_ok [ok_iff]:
  "operation_result_metadata_new sid oid r s c = Inr m \<longleftrightarrow>
     utc_offset_us s = Some 0 \<and> utc_offset_us c = Some 0 \<and> wall_us s \<le> wall_us c \<and>
     m = \<lparr>res_session_id = sid, res_operation_id = oid, workspace_revision = r,
          started_at = s, completed_at = c\<rparr>"
  by (auto simp: operation_result_metadata_new_def require_aware_utc_def ok_iff
      split: option.splits)

text \<open>
  C19: parsing the text form of an identifier gives the identifier back, whatever the Unicode
  database says about digits outside ASCII, and the text form determines the identifier.
\<close>

theorem identifier_round_trip:
  "identifier_parse nd (identifier_str i) =
     (if id_value i = 0
      then throw (Builtin ValueError) (pstr ''identifier value must not be the nil UUID'')
      else Inr i)
   \<and> (identifier_str i = identifier_str j \<longleftrightarrow> i = j)"
proof
  show "identifier_parse nd (identifier_str i) =
     (if id_value i = 0
      then throw (Builtin ValueError) (pstr ''identifier value must not be the nil UUID'')
      else Inr i)"
    by (simp add: identifier_parse_def identifier_str_def uuid_of_text_str identifier_new_def)
  show "identifier_str i = identifier_str j \<longleftrightarrow> i = j"
    by (metis identifier_str_def uuid_of_text_str option.inject uuid_identifier.expand)
qed

end
