(* ===== verification/Workspace_Models.thy ===== *)
theory Workspace_Models
  imports Sandbox_Path Identifiers Sha256
begin

text \<open>
  \<open>workspace/models.py\<close> and \<open>workspace/hashing.py\<close>: content hashes, the limits, and the
  requests and results of the workspace, each constructor with the checks of its
  \<open>__post_init__\<close> (the \<open>isinstance\<close> checks are the types), and the hash of a directory.
\<close>

section \<open>Content hashes\<close>

datatype content_hash = ContentHash (hash_value: pystr)

definition content_hash_new :: "pystr \<Rightarrow> content_hash result" where
  "content_hash_new v =
     (if length v \<noteq> 64 \<or> (\<exists>c \<in> set v. c \<notin> set (pstr ''0123456789abcdef''))
      then throw (Builtin ValueError) (pstr ''content hash must be a lowercase SHA-256 digest'')
      else Inr (ContentHash v))"

definition hexdigest :: "byte list \<Rightarrow> pystr" where
  "hexdigest m = bytes_hex (sha256 m)"

definition from_bytes :: "byte list \<Rightarrow> content_hash" where
  "from_bytes content = ContentHash (hexdigest content)"

definition hash_ok :: "content_hash \<Rightarrow> bool" where
  "hash_ok h \<longleftrightarrow> length (hash_value h) = 64 \<and> list_all is_lower_hex (hash_value h)"

instantiation content_hash :: linorder
begin

definition less_eq_content_hash :: "content_hash \<Rightarrow> content_hash \<Rightarrow> bool" where
  "g \<le> h \<longleftrightarrow> hash_value g \<le> hash_value h"

definition less_content_hash :: "content_hash \<Rightarrow> content_hash \<Rightarrow> bool" where
  "g < h \<longleftrightarrow> hash_value g < hash_value h"

instance
  by standard (auto simp: less_eq_content_hash_def less_content_hash_def content_hash.expand)

end

lemma lower_hex_chars: "c \<in> set (pstr ''0123456789abcdef'') \<longleftrightarrow> is_lower_hex c"
  by (simp add: is_lower_hex_def pstr_simps) presburger

lemma content_hash_new_ok [ok_iff]: "content_hash_new v = Inr h \<longleftrightarrow> h = ContentHash v \<and> hash_ok h"
  by (auto simp: content_hash_new_def hash_ok_def lower_hex_chars list_all_iff)

lemma length_sha_round: "length s = 8 \<Longrightarrow> length (sha_round s kw) = 8"
  by (cases "(s, kw)" rule: sha_round.cases) (simp_all add: Let_def)

lemma length_sha_rounds: "length s = 8 \<Longrightarrow> length (foldl sha_round s kws) = 8"
  by (induction kws arbitrary: s) (simp_all add: length_sha_round)

lemma length_sha_blocks:
  "length s = 8 \<Longrightarrow>
     length (foldl (\<lambda>s block. sha_compress s (map be_word (chunks 4 block))) s blocks) = 8"
  by (induction blocks arbitrary: s) (simp_all add: sha_compress_def length_sha_rounds)

lemma length_sha256_words: "length (sha256_words m) = 8"
  unfolding sha256_words_def by (rule length_sha_blocks) (simp add: sha_h0_def)

lemma length_concat_be4: "length (concat (map be_bytes4 ws)) = 4 * length ws"
  by (induction ws) (simp_all add: be_bytes4_def)

lemma length_sha256 [simp]: "length (sha256 m) = 32"
  by (simp add: sha256_def length_concat_be4 length_sha256_words)

lemma hash_ok_hex [simp]: "length bs = 32 \<Longrightarrow> hash_ok (ContentHash (bytes_hex bs))"
  by (simp add: hash_ok_def list_all_iff bytes_hex_lower)

lemma hash_ok_from_bytes [simp]: "hash_ok (from_bytes m)"
  by (simp add: from_bytes_def hexdigest_def)

lemma content_hash_new_hexdigest: "content_hash_new (hexdigest m) = Inr (from_bytes m)"
  using hash_ok_from_bytes [of m] by (simp add: content_hash_new_ok from_bytes_def)

section \<open>Directory hashes\<close>

datatype node_kind = FILE | DIRECTORY

fun node_kind_value :: "node_kind \<Rightarrow> pystr" where
  "node_kind_value FILE = pstr ''file''"
| "node_kind_value DIRECTORY = pstr ''directory''"

type_synonym child_hash = "pystr \<times> node_kind \<times> content_hash"

text \<open>Python compares the tuples componentwise; a \<open>StrEnum\<close> member compares as its value.\<close>

definition child_key :: "child_hash \<Rightarrow> pystr \<times> pystr \<times> content_hash" where
  "child_key c = (case c of (n, k, h) \<Rightarrow> (n, node_kind_value k, h))"

definition child_frame :: "child_hash \<Rightarrow> byte list result" where
  "child_frame c =
     (case c of (name, kind, h) \<Rightarrow>
        case utf8_encode name of
          None \<Rightarrow> throw (Builtin UnicodeEncodeError) (pstr ''surrogates not allowed'')
        | Some bs \<Rightarrow>
            if 2 ^ 32 \<le> length bs
            then throw (Builtin OverflowError) (pstr ''int too big to convert'')
            else Inr ((if kind = FILE then 70 else 68) # be_bytes4 (word_of_nat (length bs)) @ bs
                      @ bytes_fromhex (hash_value h)))"

definition directory_tag :: "byte list" where
  "directory_tag = map word_of_nat (pstr ''mem-sandbox-directory-v1'') @ [0]"

definition directory_preimage :: "child_hash list \<Rightarrow> byte list result" where
  "directory_preimage children =
     rbind (rmap child_frame (sort_key child_key children)) (\<lambda>frames.
     Inr (directory_tag @ concat frames))"

definition hash_directory :: "child_hash list \<Rightarrow> content_hash result" where
  "hash_directory children =
     rbind (directory_preimage children) (\<lambda>m. content_hash_new (hexdigest m))"

lemma hash_directory_eq:
  "hash_directory children = rbind (directory_preimage children) (\<lambda>m. Inr (from_bytes m))"
  by (simp add: hash_directory_def content_hash_new_hexdigest)

lemma be_bytes4_inject [simp]: "be_bytes4 v = be_bytes4 w \<longleftrightarrow> v = w"
proof
  assume "be_bytes4 v = be_bytes4 w"
  then have b: "\<forall>k \<in> {0, 8, 16, 24}. (ucast (drop_bit k v) :: byte) = ucast (drop_bit k w)"
    by (simp add: be_bytes4_def)
  show "v = w"
  proof (rule bit_word_eqI)
    fix n assume n: "n < LENGTH(32)"
    have "bit (ucast (drop_bit (8 * (n div 8)) v) :: byte) (n mod 8) =
          bit (ucast (drop_bit (8 * (n div 8)) w) :: byte) (n mod 8)"
    proof -
      have "n div 8 \<in> {0, 1, 2, 3}" using n by auto
      with b show ?thesis by auto
    qed
    then show "bit v n = bit w n"
      by (simp add: bit_simps)
  qed
qed simp

lemma length_be_bytes4 [simp]: "length (be_bytes4 w) = 4"
  by (simp add: be_bytes4_def)

definition child_ok :: "child_hash \<Rightarrow> bool" where
  "child_ok c \<longleftrightarrow> hash_ok (snd (snd c))"

lemma hash_ok_fromhex_inject:
  "hash_ok g \<Longrightarrow> hash_ok h \<Longrightarrow>
     bytes_fromhex (hash_value g) = bytes_fromhex (hash_value h) \<longleftrightarrow> g = h"
  by (metis bytes_hex_fromhex content_hash.expand even_numeral hash_ok_def)

lemma append_eq_len: "a @ b = c @ d \<Longrightarrow> length a = length c \<Longrightarrow> a = c \<and> b = d"
  by simp

text \<open>A frame is self-delimiting: two streams that start with frames agree on the first.\<close>

lemma child_frame_prefix:
  assumes "child_frame c = Inr f" "child_frame d = Inr g" "f @ r = g @ s"
    and "child_ok c" "child_ok d"
  shows "c = d \<and> r = s"
proof -
  obtain n k h where c: "c = (n, k, h)" by (cases c)
  obtain n' k' h' where d: "d = (n', k', h')" by (cases d)
  obtain bs where bs: "utf8_encode n = Some bs" "length bs < 2 ^ 32"
    "f = (if k = FILE then 70 else 68) # be_bytes4 (word_of_nat (length bs)) @ bs @ bytes_fromhex (hash_value h)"
    using assms(1) c by (auto simp: child_frame_def split: option.splits if_splits)
  obtain bs' where bs': "utf8_encode n' = Some bs'" "length bs' < 2 ^ 32"
    "g = (if k' = FILE then 70 else 68) # be_bytes4 (word_of_nat (length bs')) @ bs' @ bytes_fromhex (hash_value h')"
    using assms(2) d by (auto simp: child_frame_def split: option.splits if_splits)
  define B B' where "B = be_bytes4 (word_of_nat (length bs))" and "B' = be_bytes4 (word_of_nat (length bs'))"
  have kind_byte: "((if k = FILE then 70 else 68) :: byte) = (if k' = FILE then 70 else 68) \<longleftrightarrow> k = k'"
    by (cases k; cases k') simp_all
  have "(if k = FILE then 70 else 68) # B @ bs @ bytes_fromhex (hash_value h) @ r =
      (if k' = FILE then 70 else 68) # B' @ bs' @ bytes_fromhex (hash_value h') @ s"
    using assms(3) unfolding bs(3) bs'(3) B_def B'_def by simp
  then have kk: "k = k'"
    and all: "B @ bs @ bytes_fromhex (hash_value h) @ r = B' @ bs' @ bytes_fromhex (hash_value h') @ s"
    unfolding list.inject kind_byte by blast+
  have "length B = length B'" by (simp add: B_def B'_def)
  then have BB: "B = B'"
    and rest: "bs @ bytes_fromhex (hash_value h) @ r = bs' @ bytes_fromhex (hash_value h') @ s"
    using append_eq_len [OF all] by blast+
  have "unat (word_of_nat (length bs) :: u32) = length bs"
      "unat (word_of_nat (length bs') :: u32) = length bs'"
    using take_bit_nat_eq_self [OF bs(2)] take_bit_nat_eq_self [OF bs'(2)]
    by (simp_all only: unsigned_of_nat) simp_all
  with BB have len: "length bs = length bs'"
    unfolding B_def B'_def be_bytes4_inject by metis
  have hlen: "length (bytes_fromhex (hash_value h)) = length (bytes_fromhex (hash_value h'))"
    using assms(4,5) c d by (simp add: child_ok_def hash_ok_def)
  have nn: "bs = bs'" and "bytes_fromhex (hash_value h) @ r = bytes_fromhex (hash_value h') @ s"
    using append_eq_len [OF rest len] by blast+
  then have "bytes_fromhex (hash_value h) = bytes_fromhex (hash_value h')" and "r = s"
    using append_eq_len [OF _ hlen] by blast+
  then show ?thesis
    using assms(4,5) c d kk nn bs(1) bs'(1) utf8_encode_inject hash_ok_fromhex_inject
    by (simp add: child_ok_def)
qed

lemma child_frame_nonempty: "child_frame c = Inr f \<Longrightarrow> f \<noteq> []"
  by (auto simp: child_frame_def split: option.splits if_splits prod.splits)

lemma frames_inject:
  assumes "rmap child_frame cs = Inr fs" "rmap child_frame ds = Inr gs" "concat fs = concat gs"
    and "list_all child_ok cs" "list_all child_ok ds"
  shows "cs = ds"
  using assms
proof (induction cs arbitrary: fs ds gs)
  case Nil
  then show ?case
    by (cases ds) (auto simp: rbind_Inr_iff dest: child_frame_nonempty)
next
  case (Cons c cs)
  then obtain f fs' where f: "child_frame c = Inr f" "rmap child_frame cs = Inr fs'" "fs = f # fs'"
    by (auto simp: rbind_Inr_iff)
  then have "concat fs \<noteq> []"
    using child_frame_nonempty by auto
  with Cons.prems obtain d ds' where ds: "ds = d # ds'" by (cases ds) auto
  with Cons.prems obtain g gs' where g: "child_frame d = Inr g" "rmap child_frame ds' = Inr gs'"
    "gs = g # gs'"
    by (auto simp: rbind_Inr_iff)
  have "c = d \<and> concat fs' = concat gs'"
    using Cons.prems(3,4,5) ds f(3) g(3) by (intro child_frame_prefix [OF f(1) g(1)]) simp_all
  moreover have "list_all child_ok cs" "list_all child_ok ds'"
    using Cons.prems(4,5) ds by simp_all
  ultimately show ?case
    using Cons.IH [OF f(2) g(2)] ds by blast
qed

lemma child_key_inject [simp]: "child_key c = child_key d \<longleftrightarrow> c = d"
proof -
  have "node_kind_value k = node_kind_value k' \<longleftrightarrow> k = k'" for k k'
    by (cases k; cases k') (simp_all add: pstr_simps)
  then show ?thesis by (cases c; cases d) (simp add: child_key_def)
qed

lemma map_sort_key: "map f (sort_key f xs) = sort (map f xs)"
  by (intro properties_for_sort [symmetric]) simp_all

lemma sort_child_key_mset:
  "sort_key child_key cs = sort_key child_key ds \<longleftrightarrow> mset cs = mset ds"
proof
  assume "mset cs = mset ds"
  then have "sort (map child_key cs) = sort (map child_key ds)"
    by (intro properties_for_sort) simp_all
  then have "map child_key (sort_key child_key cs) = map child_key (sort_key child_key ds)"
    by (simp add: map_sort_key)
  moreover have "inj child_key" by (simp add: inj_def)
  ultimately show "sort_key child_key cs = sort_key child_key ds"
    by (simp add: inj_map_eq_map)
next
  assume "sort_key child_key cs = sort_key child_key ds"
  then have "mset (sort_key child_key cs) = mset (sort_key child_key ds)" by simp
  then show "mset cs = mset ds" by simp
qed

lemma list_all_sort_key [simp]: "list_all P (sort_key f xs) \<longleftrightarrow> list_all P xs"
  by (simp add: list_all_iff)

lemma hash_directory_mset: "mset cs = mset ds \<Longrightarrow> hash_directory cs = hash_directory ds"
  by (simp add: hash_directory_def directory_preimage_def flip: sort_child_key_mset)

text \<open>
  C18: the bytes hashed for a directory determine its children and depend on nothing else: two
  lists of children with well-formed hashes have the same preimage exactly when they hold the
  same (name, kind, hash) triples, in whatever order. A clash of directory hashes is therefore
  a SHA-256 collision.
\<close>

theorem directory_preimage_injective:
  assumes "list_all child_ok cs" and "list_all child_ok ds"
    and "directory_preimage cs = Inr m" and "directory_preimage ds = Inr n"
  shows "m = n \<longleftrightarrow> mset cs = mset ds"
proof
  assume "m = n"
  with assms(3,4) obtain fs gs where
    "rmap child_frame (sort_key child_key cs) = Inr fs"
    "rmap child_frame (sort_key child_key ds) = Inr gs" "concat fs = concat gs"
    by (auto simp: directory_preimage_def rbind_Inr_iff)
  then show "mset cs = mset ds"
    using frames_inject assms(1,2) by (simp flip: sort_child_key_mset)
next
  assume "mset cs = mset ds"
  with assms(3,4) show "m = n"
    by (simp add: directory_preimage_def flip: sort_child_key_mset)
qed

lemma directory_preimage_injective_witness:
  "\<exists>m n. directory_preimage [(pstr ''a'', FILE, from_bytes [])] = Inr m \<and>
     directory_preimage [(pstr ''a'', DIRECTORY, from_bytes [])] = Inr n \<and> m \<noteq> n"
proof -
  have pre: "\<exists>m. directory_preimage [(pstr ''a'', k, from_bytes [])] = Inr m" for k
    by (simp add: directory_preimage_def child_frame_def utf8_char_def is_scalar_def
        is_surrogate_def pstr_simps)
  obtain m n where "directory_preimage [(pstr ''a'', FILE, from_bytes [])] = Inr m"
    "directory_preimage [(pstr ''a'', DIRECTORY, from_bytes [])] = Inr n"
    using pre by blast
  moreover from this have "m \<noteq> n"
    using directory_preimage_injective
      [of "[(pstr ''a'', FILE, from_bytes [])]" "[(pstr ''a'', DIRECTORY, from_bytes [])]" m n]
    by (simp add: child_ok_def)
  ultimately show ?thesis by blast
qed

section \<open>Limits\<close>

record workspace_limits =
  max_file_bytes :: int
  max_total_bytes :: int
  max_nodes :: int
  max_path_bytes :: int
  max_segment_bytes :: int
  max_read_bytes :: int
  max_read_lines :: int
  max_patch_bytes :: int
  max_snapshot_bytes :: int

definition default_limits :: workspace_limits where
  "default_limits =
     \<lparr>max_file_bytes = 4 * 1024 * 1024, max_total_bytes = 16 * 1024 * 1024, max_nodes = 10000,
      max_path_bytes = 4096, max_segment_bytes = 255, max_read_bytes = 256 * 1024,
      max_read_lines = 2000, max_patch_bytes = 1024 * 1024, max_snapshot_bytes = 32 * 1024 * 1024\<rparr>"

fun require_positive_fields :: "(pystr \<times> int) list \<Rightarrow> unit result" where
  "require_positive_fields [] = Inr ()"
| "require_positive_fields ((name, v) # rest) =
     (if v \<le> 0 then throw (Builtin ValueError) (name @ pstr '' must be positive'')
      else require_positive_fields rest)"

definition workspace_limits_new :: "workspace_limits \<Rightarrow> workspace_limits result" where
  "workspace_limits_new l =
     rbind (require_positive_fields
       [(pstr ''max_file_bytes'', max_file_bytes l), (pstr ''max_total_bytes'', max_total_bytes l),
        (pstr ''max_nodes'', max_nodes l), (pstr ''max_path_bytes'', max_path_bytes l),
        (pstr ''max_segment_bytes'', max_segment_bytes l),
        (pstr ''max_read_bytes'', max_read_bytes l), (pstr ''max_read_lines'', max_read_lines l),
        (pstr ''max_patch_bytes'', max_patch_bytes l),
        (pstr ''max_snapshot_bytes'', max_snapshot_bytes l)]) (\<lambda>_.
     if max_file_bytes l > max_total_bytes l
     then throw (Builtin ValueError) (pstr ''max_file_bytes must not exceed max_total_bytes'')
     else if max_segment_bytes l > max_path_bytes l
     then throw (Builtin ValueError) (pstr ''max_segment_bytes must not exceed max_path_bytes'')
     else if max_path_bytes l < 10
     then throw (Builtin ValueError) (pstr ''max_path_bytes must accommodate the workspace root'')
     else if max_segment_bytes l < 9
     then throw (Builtin ValueError) (pstr ''max_segment_bytes must accommodate the workspace root'')
     else Inr l)"

definition limits_ok :: "workspace_limits \<Rightarrow> bool" where
  "limits_ok l \<longleftrightarrow>
     0 < max_file_bytes l \<and> max_file_bytes l \<le> max_total_bytes l \<and> 0 < max_nodes l \<and>
     10 \<le> max_path_bytes l \<and> 9 \<le> max_segment_bytes l \<and> max_segment_bytes l \<le> max_path_bytes l \<and>
     0 < max_read_bytes l \<and> 0 < max_read_lines l \<and> 0 < max_patch_bytes l \<and>
     0 < max_snapshot_bytes l"

lemma workspace_limits_new_ok [ok_iff]: "workspace_limits_new l = Inr m \<longleftrightarrow> m = l \<and> limits_ok l"
  by (auto simp: workspace_limits_new_def limits_ok_def rbind_Inr_iff)

lemma default_limits_ok [simp]: "limits_ok default_limits"
  by (simp add: limits_ok_def default_limits_def)

definition fits :: "workspace_limits \<Rightarrow> sandbox_path \<Rightarrow> bool" where
  "fits l p \<longleftrightarrow> path_fits (max_path_bytes l) (max_segment_bytes l) p"

text \<open>The lengths 10 and 9 above are those of the encoded root.\<close>

lemma ROOT_bytes:
  "map_option length (utf8_encode ROOT) = Some 10"
  "map_option length (utf8_encode workspace_segment) = Some 9"
  by (simp_all add: ROOT_def workspace_segment_def pstr_simps utf8_char_def is_scalar_def
      is_surrogate_def)

lemma fits_root [simp]: "limits_ok l \<Longrightarrow> fits l root_path"
  using ROOT_bytes path_parts_of_ok [of "[]"]
  by (auto simp: fits_def path_fits_def text_fits_def limits_ok_def root_path_def
      split: option.splits)

section \<open>Requests and results\<close>

datatype write_precondition =
    AnyCurrentState | PathMustNotExist | ContentHashMustEqual (expected_hash: content_hash)

record snapshot_entry =
  se_path :: sandbox_path
  se_kind :: node_kind
  se_content :: "byte list option"

definition snapshot_entry_new ::
  "sandbox_path \<Rightarrow> node_kind \<Rightarrow> byte list option \<Rightarrow> snapshot_entry result" where
  "snapshot_entry_new p k c =
     (if is_root p
      then throw (Builtin ValueError) (pstr ''snapshot entries must not contain the implicit root'')
      else if k = FILE \<and> c = None
      then throw (Builtin TypeError) (pstr ''file snapshot entry content must be bytes'')
      else if k = DIRECTORY \<and> c \<noteq> None
      then throw (Builtin ValueError)
             (pstr ''directory snapshot entry must not contain file content'')
      else Inr \<lparr>se_path = p, se_kind = k, se_content = c\<rparr>)"

record tree_stats =
  ts_total_bytes :: int
  ts_node_count :: int
  ts_root_hash :: content_hash

record workspace_stats =
  total_bytes :: int
  node_count :: int
  ws_revision :: revision
  root_hash :: content_hash

record workspace_entry =
  we_path :: sandbox_path
  we_kind :: node_kind
  we_size_bytes :: int
  we_content_hash :: content_hash
  we_revision :: revision

record binary_result =
  br_path :: sandbox_path
  br_content :: "byte list"
  br_content_hash :: content_hash
  br_revision :: revision

record text_result =
  tr_path :: sandbox_path
  tr_content :: pystr
  tr_content_hash :: content_hash
  tr_revision :: revision

record range_request =
  rq_path :: sandbox_path
  rq_start_line :: int
  rq_end_line :: "int option"

definition range_request_new :: "sandbox_path \<Rightarrow> int \<Rightarrow> int option \<Rightarrow> range_request result" where
  "range_request_new p first last_line =
     (if first < 1 then throw (Builtin ValueError) (pstr ''start_line must be at least 1'')
      else (case last_line of
              None \<Rightarrow> Inr \<lparr>rq_path = p, rq_start_line = first, rq_end_line = None\<rparr>
            | Some e \<Rightarrow>
                if e < first
                then throw (Builtin ValueError) (pstr ''end_line must not be before start_line'')
                else Inr \<lparr>rq_path = p, rq_start_line = first, rq_end_line = Some e\<rparr>))"

definition range_request_ok :: "range_request \<Rightarrow> bool" where
  "range_request_ok r \<longleftrightarrow>
     1 \<le> rq_start_line r \<and> (case rq_end_line r of None \<Rightarrow> True | Some e \<Rightarrow> rq_start_line r \<le> e)"

lemma range_request_new_ok:
  "range_request_new p a e = Inr r \<Longrightarrow>
     range_request_ok r \<and> rq_path r = p \<and> rq_start_line r = a \<and> rq_end_line r = e"
  by (auto simp: range_request_new_def range_request_ok_def split: if_splits option.splits)

record range_result =
  rr_path :: sandbox_path
  rr_content :: pystr
  rr_start_line :: int
  rr_end_line :: int
  rr_total_lines :: int
  rr_content_hash :: content_hash
  rr_revision :: revision

record mkdir_request =
  mk_path :: sandbox_path
  mk_create_parents :: bool
  mk_exist_ok :: bool

record write_request =
  wr_path :: sandbox_path
  wr_content :: "byte list"
  wr_precondition :: write_precondition
  wr_create_parents :: bool

type_synonym append_request = write_request

record remove_request =
  rm_path :: sandbox_path
  rm_recursive :: bool
  rm_missing_ok :: bool

text \<open>\<open>CopyPathRequest\<close> and \<open>MovePathRequest\<close> have the same fields.\<close>

record transfer_request =
  tf_source :: sandbox_path
  tf_destination :: sandbox_path
  tf_overwrite :: bool
  tf_create_parents :: bool

record workspace_mutation =
  wm_path :: sandbox_path
  wm_created :: bool
  wm_changed :: bool
  wm_previous_hash :: "content_hash option"
  wm_current_hash :: "content_hash option"
  wm_stats :: workspace_stats

record expected_file_hash =
  ef_path :: sandbox_path
  ef_content_hash :: content_hash

record patch_request =
  pr_patch :: pystr
  pr_expected_hashes :: "expected_file_hash list"

definition patch_request_new :: "pystr \<Rightarrow> expected_file_hash list \<Rightarrow> patch_request result" where
  "patch_request_new patch hashes =
     (if \<not> distinct (map ef_path hashes)
      then throw (Builtin ValueError) (pstr ''expected_hashes must not contain duplicate paths'')
      else Inr \<lparr>pr_patch = patch, pr_expected_hashes = hashes\<rparr>)"

record patched_file =
  pf_path :: sandbox_path
  pf_previous_hash :: content_hash
  pf_current_hash :: content_hash

record patch_result =
  pt_files :: "patched_file list"
  pt_stats :: workspace_stats

record decoded_snapshot =
  ds_entries :: "snapshot_entry list"
  ds_stats :: workspace_stats

record decoded_tree =
  dt_entries :: "snapshot_entry list"
  dt_tree_stats :: tree_stats

record snapshot_data =
  sd_encoded :: "byte list"
  sd_schema_version :: int
  sd_integrity_hash :: content_hash
  sd_workspace_revision :: revision
  sd_root_hash :: content_hash

record archive_data =
  ad_encoded :: "byte list"
  ad_format_version :: int
  ad_workspace_revision :: revision
  ad_root_hash :: content_hash

text \<open>
  A prepared restore: the identities (\<open>is\<close>) of the workspace token and of the capability
  object. \<open>issue\<close> makes a fresh capability, the next unused identity.
\<close>

record prepared_restore =
  workspace_token :: nat
  capability :: nat

definition issue :: "nat \<Rightarrow> nat \<Rightarrow> prepared_restore" where
  "issue token fresh = \<lparr>workspace_token = token, capability = fresh\<rparr>"

definition belongs_to :: "prepared_restore \<Rightarrow> nat \<Rightarrow> bool" where
  "belongs_to c token \<longleftrightarrow> workspace_token c = token"

definition capability_for :: "prepared_restore \<Rightarrow> nat \<Rightarrow> nat option" where
  "capability_for c token = (if workspace_token c = token then Some (capability c) else None)"

lemma snapshot_entry_new_ok [ok_iff]:
  "snapshot_entry_new p k c = Inr e \<longleftrightarrow>
     \<not> is_root p \<and> (k = FILE \<longleftrightarrow> c \<noteq> None) \<and> e = \<lparr>se_path = p, se_kind = k, se_content = c\<rparr>"
  by (cases k) (auto simp: snapshot_entry_new_def)

end
