(* ===== verification/Node_Tree.thy ===== *)
theory Node_Tree
  imports Workspace_Models
begin

text \<open>
  The node tree of \<open>workspace/memory.py\<close>: files and directories, navigation, the creation of
  missing parents, and the explicit-stack walks (clone, measure, hash, snapshot entries). A
  \<open>_DirectoryNode\<close> object is identified by its position, the list of names that leads to it:
  the loops key their dictionaries by \<open>id\<close> of a node, the model by its position, which is the
  same because the nodes form a tree. For the same reason the alias and cycle test of
  \<open>_clone_node\<close> has no counterpart: a value of type \<open>node\<close> is a finite tree.
\<close>

section \<open>Nodes\<close>

datatype node =
    FileNode (content: "byte list")
  | DirNode (children: "(pystr \<times> node) list")

text \<open>The \<open>children\<close> dictionary of a \<open>_DirectoryNode\<close>; the workspace root is one.\<close>

type_synonym directory = "(pystr, node) dict"

type_synonym position = "pystr list"

definition node_kind :: "node \<Rightarrow> node_kind" where
  "node_kind n = (case n of FileNode _ \<Rightarrow> FILE | DirNode _ \<Rightarrow> DIRECTORY)"

lemma node_kind_simps [simp]: "node_kind (FileNode b) = FILE" "node_kind (DirNode d) = DIRECTORY"
  by (simp_all add: node_kind_def)

lemma child_size: "(name, child) \<in> set cs \<Longrightarrow> size child < size (DirNode cs)"
proof -
  assume "(name, child) \<in> set cs"
  then have "size_prod (\<lambda>_. 0) size (name, child) \<le> size_list (size_prod (\<lambda>_. 0) size) cs"
    by (rule size_list_estimation') simp
  then show ?thesis by simp
qed

lemma node_induct [case_names FileNode DirNode]:
  assumes "\<And>b. P (FileNode b)"
    and "\<And>cs. (\<And>name child. (name, child) \<in> set cs \<Longrightarrow> P child) \<Longrightarrow> P (DirNode cs)"
  shows "P n"
proof (induction n)
  case (FileNode b)
  then show ?case by (rule assms(1))
next
  case (DirNode cs)
  show ?case
  proof (rule assms(2))
    fix name child
    assume "(name, child) \<in> set cs"
    then show "P child" by (rule DirNode) simp
  qed
qed

text \<open>The number of nodes and of content bytes of a tree.\<close>

fun nodes :: "node \<Rightarrow> nat" where
  "nodes (FileNode b) = 1"
| "nodes (DirNode cs) = 1 + sum_list (map (\<lambda>(name, child). nodes child) cs)"

fun content_bytes :: "node \<Rightarrow> nat" where
  "content_bytes (FileNode b) = length b"
| "content_bytes (DirNode cs) = sum_list (map (\<lambda>(name, child). content_bytes child) cs)"

text \<open>Distinct valid names in every directory.\<close>

fun tree_ok :: "node \<Rightarrow> bool" where
  "tree_ok (FileNode b) = True"
| "tree_ok (DirNode cs) = (dict_ok cs \<and> (\<forall>(name, child) \<in> set cs. seg_ok name \<and> tree_ok child))"

text \<open>What is at a position.\<close>

fun lookup :: "node \<Rightarrow> position \<Rightarrow> node option" where
  "lookup n [] = Some n"
| "lookup (FileNode b) (s # ss) = None"
| "lookup (DirNode cs) (s # ss) = (case map_of cs s of None \<Rightarrow> None | Some c \<Rightarrow> lookup c ss)"

text \<open>The same tree as a flat map from positions to files and directories.\<close>

datatype flat_node = FlatFile "byte list" | FlatDir

fun flat_of :: "node \<Rightarrow> flat_node" where
  "flat_of (FileNode b) = FlatFile b"
| "flat_of (DirNode cs) = FlatDir"

definition flat :: "node \<Rightarrow> position \<Rightarrow> flat_node option" where
  "flat n q = map_option flat_of (lookup n q)"

lemma nodes_pos [simp]: "0 < nodes n"
  by (cases n) simp_all

lemma lookup_append:
  "lookup n (p @ q) = (case lookup n p of None \<Rightarrow> None | Some m \<Rightarrow> lookup m q)"
proof (induction p arbitrary: n)
  case Nil
  then show ?case by simp
next
  case (Cons s p)
  then show ?case by (cases n) (auto split: option.splits)
qed

lemma lookup_None_append: "lookup n p = None \<Longrightarrow> lookup n (p @ q) = None"
  by (simp add: lookup_append)

lemma tree_ok_lookup: "tree_ok n \<Longrightarrow> lookup n p = Some m \<Longrightarrow> tree_ok m"
proof (induction n p rule: lookup.induct)
  case (3 cs s ss)
  then show ?case by (auto split: option.splits dest!: map_of_SomeD)
qed simp_all

lemma tree_ok_child: "tree_ok (DirNode cs) \<Longrightarrow> map_of cs s = Some c \<Longrightarrow> tree_ok c \<and> seg_ok s"
  by (auto dest: map_of_SomeD)

lemma tree_ok_put:
  "tree_ok (DirNode d) \<Longrightarrow> tree_ok n \<Longrightarrow> seg_ok k \<Longrightarrow> tree_ok (DirNode (dict_put k n d))"
  by (auto simp: set_dict_put)

lemma tree_ok_del: "tree_ok (DirNode d) \<Longrightarrow> tree_ok (DirNode (dict_del k d))"
  by (auto simp: dict_del_def dict_ok_def distinct_map_filter)

section \<open>Navigation\<close>

definition not_a_directory :: "sandbox_path \<Rightarrow> sandbox_error" where
  "not_a_directory p =
     Raise (Workspace NotADirectoryError) (path_value p @ pstr '' is not a directory'')"

definition not_found :: "sandbox_path \<Rightarrow> sandbox_error" where
  "not_found p = Raise (Workspace PathNotFoundError) (path_value p @ pstr '' does not exist'')"

definition not_a_file :: "sandbox_path \<Rightarrow> sandbox_error" where
  "not_a_file p = Raise (Workspace NotAFileError) (path_value p @ pstr '' is not a file'')"

fun try_get_loop :: "sandbox_path \<Rightarrow> node \<Rightarrow> pystr list \<Rightarrow> node option result" where
  "try_get_loop path node [] = Inr (Some node)"
| "try_get_loop path node (segment # segments) =
     (case node of
        FileNode _ \<Rightarrow> rbind (path_parent path) (\<lambda>parent. Inl (not_a_directory parent))
      | DirNode cs \<Rightarrow>
          (case map_of cs segment of
             None \<Rightarrow> Inr None
           | Some child \<Rightarrow> try_get_loop path child segments))"

definition try_get_node :: "directory \<Rightarrow> sandbox_path \<Rightarrow> node option result" where
  "try_get_node root_dir path = try_get_loop path (DirNode root_dir) (path_parts path)"

definition get_node :: "directory \<Rightarrow> sandbox_path \<Rightarrow> node result" where
  "get_node root_dir path =
     rbind (try_get_node root_dir path) (\<lambda>found.
       case found of None \<Rightarrow> Inl (not_found path) | Some node \<Rightarrow> Inr node)"

text \<open>The parent directory; what the caller keeps of it is its position.\<close>

definition get_parent :: "directory \<Rightarrow> sandbox_path \<Rightarrow> directory result" where
  "get_parent root_dir path =
     rbind (path_parent path) (\<lambda>pp.
     rbind (get_node root_dir pp) (\<lambda>parent.
       case parent of DirNode cs \<Rightarrow> Inr cs | FileNode _ \<Rightarrow> Inl (not_a_directory pp)))"

definition require_file :: "node \<Rightarrow> sandbox_path \<Rightarrow> byte list result" where
  "require_file node path =
     (case node of FileNode b \<Rightarrow> Inr b | DirNode _ \<Rightarrow> Inl (not_a_file path))"

text \<open>
  \<open>_ensure_parent\<close> walks down from the root and inserts the missing directories; it returns the
  changed tree. The directory it returns in the source is the one at position \<open>parts[:-1]\<close>.
\<close>

fun ensure_loop ::
  "bool \<Rightarrow> workspace_limits \<Rightarrow> sandbox_path \<Rightarrow> directory \<Rightarrow> pystr list \<Rightarrow> directory result" where
  "ensure_loop create_parents l traversed cs [] = Inr cs"
| "ensure_loop create_parents l traversed cs (segment # segments) =
     rbind (path_join traversed [segment] (max_path_bytes l) (max_segment_bytes l)) (\<lambda>traversed'.
     rbind (case map_of cs segment of
              None \<Rightarrow>
                if \<not> create_parents
                then throw (Workspace PathNotFoundError)
                       (pstr ''parent directory '' @ path_value traversed' @ pstr '' does not exist'')
                else Inr (DirNode [])
            | Some child \<Rightarrow> Inr child) (\<lambda>child.
       case child of
         FileNode _ \<Rightarrow> Inl (not_a_directory traversed')
       | DirNode cs' \<Rightarrow>
           rbind (ensure_loop create_parents l traversed' cs' segments) (\<lambda>cs''.
           Inr (dict_put segment (DirNode cs'') cs))))"

definition ensure_parent ::
  "directory \<Rightarrow> sandbox_path \<Rightarrow> bool \<Rightarrow> workspace_limits \<Rightarrow> directory result" where
  "ensure_parent root_dir path create_parents l =
     ensure_loop create_parents l root_path root_dir (butlast (path_parts path))"

text \<open>An in-place change of the directory at a position.\<close>

fun at_dir :: "(directory \<Rightarrow> directory) \<Rightarrow> position \<Rightarrow> directory \<Rightarrow> directory" where
  "at_dir f [] d = f d"
| "at_dir f (s # ss) d =
     (case map_of d s of
        Some (DirNode d') \<Rightarrow> dict_put s (DirNode (at_dir f ss d')) d
      | _ \<Rightarrow> d)"

definition put_child :: "directory \<Rightarrow> sandbox_path \<Rightarrow> node \<Rightarrow> directory" where
  "put_child root_dir path n = at_dir (dict_put (path_name path) n) (butlast (path_parts path)) root_dir"

text \<open>\<open>del parent.children[path.name]\<close> raises \<open>KeyError\<close> when the name is absent.\<close>

definition del_child :: "directory \<Rightarrow> sandbox_path \<Rightarrow> directory result" where
  "del_child root_dir path =
     rbind (get_parent root_dir path) (\<lambda>parent.
       case map_of parent (path_name path) of
         None \<Rightarrow> throw (Builtin KeyError) (path_name path)
       | Some _ \<Rightarrow>
           Inr (at_dir (dict_del (path_name path)) (butlast (path_parts path)) root_dir))"

lemma dict_put_id: "map_of d k = Some v \<Longrightarrow> dict_put k v d = d"
  by (induction d) (auto split: if_splits)

lemma dict_put_put [simp]: "dict_put k v (dict_put k w d) = dict_put k v d"
  by (induction d) auto

lemma at_dir_compose: "at_dir f p (at_dir g p d) = at_dir (f \<circ> g) p d"
  by (induction p arbitrary: d) (auto split: option.splits node.splits)

lemma at_dir_append: "at_dir f (p @ q) d = at_dir (at_dir f q) p d"
  by (induction p arbitrary: d) (auto split: option.splits node.splits)

lemma at_dir_cong: "(\<And>e. f e = g e) \<Longrightarrow> at_dir f p d = at_dir g p d"
  by (induction p arbitrary: d) (auto split: option.splits node.splits)

lemma at_dir_missing: "(\<And>e. lookup (DirNode d) p \<noteq> Some (DirNode e)) \<Longrightarrow> at_dir f p d = d"
  by (induction p arbitrary: d) (auto split: option.splits node.splits intro: dict_put_id)

lemma tree_ok_at_dir:
  assumes "tree_ok (DirNode d)"
    and "\<And>e. tree_ok (DirNode e) \<Longrightarrow> tree_ok (DirNode (f e))"
  shows "tree_ok (DirNode (at_dir f p d))"
  using assms(1)
proof (induction p arbitrary: d)
  case Nil
  then show ?case using assms(2) by simp
next
  case (Cons s p)
  then show ?case
    using tree_ok_child [OF Cons.prems]
    by (auto intro!: tree_ok_put split: option.splits node.splits simp del: tree_ok.simps(2))
qed

text \<open>What a change below a position does to the flat view.\<close>

lemma flat_Nil [simp]: "flat n [] = Some (flat_of n)"
  by (simp add: flat_def)

lemma flat_Cons:
  "flat (DirNode d) (s # q) = (case map_of d s of None \<Rightarrow> None | Some c \<Rightarrow> flat c q)"
  by (simp add: flat_def split: option.splits)

lemma flat_FileNode_Cons [simp]: "flat (FileNode b) (s # q) = None"
  by (simp add: flat_def)

lemma flat_at_dir:
  assumes "lookup (DirNode d) p = Some (DirNode e)"
  shows "flat (DirNode (at_dir f p d)) q =
     (if prefix p q then flat (DirNode (f e)) (drop (length p) q) else flat (DirNode d) q)"
  using assms
proof (induction p arbitrary: d q)
  case Nil
  then show ?case by simp
next
  case (Cons s p)
  then obtain d' where d': "map_of d s = Some (DirNode d')" "lookup (DirNode d') p = Some (DirNode e)"
    by (cases p) (auto split: option.splits elim: lookup.elims)
  show ?case
  proof (cases q)
    case Nil
    then show ?thesis by simp
  next
    case (Cons t q')
    with d' Cons.IH [OF d'(2)] show ?thesis by (auto simp: flat_Cons)
  qed
qed

lemma flat_put:
  "flat (DirNode (dict_put k n d)) q =
     (if prefix [k] q then flat n (tl q) else flat (DirNode d) q)"
  by (cases q) (auto simp: flat_Cons)

lemma flat_del:
  "flat (DirNode (dict_del k d)) q = (if prefix [k] q then None else flat (DirNode d) q)"
  by (cases q) (auto simp: flat_Cons)

lemma prefix_snoc_drop: "prefix p q \<Longrightarrow> prefix [k] (drop (length p) q) \<longleftrightarrow> prefix (p @ [k]) q"
  by (auto simp: prefix_def)

lemma flat_sub: "lookup n p = Some m \<Longrightarrow> flat m q = flat n (p @ q)"
  by (simp add: flat_def lookup_append)

lemma flat_at_put:
  assumes "lookup (DirNode d) p = Some (DirNode e)"
  shows "flat (DirNode (at_dir (dict_put k n) p d)) q =
     (if prefix (p @ [k]) q then flat n (drop (Suc (length p)) q) else flat (DirNode d) q)"
proof (cases "prefix p q")
  case True
  then obtain r where "q = p @ r" by (auto simp: prefix_def)
  then show ?thesis
    using flat_at_dir [OF assms, of "dict_put k n" q] flat_sub [OF assms, of r]
    by (simp add: flat_put drop_Suc)
next
  case False
  then have "\<not> prefix (p @ [k]) q" by (auto dest: append_prefixD)
  with False flat_at_dir [OF assms] show ?thesis by simp
qed

lemma flat_at_del:
  assumes "lookup (DirNode d) p = Some (DirNode e)"
  shows "flat (DirNode (at_dir (dict_del k) p d)) q =
     (if prefix (p @ [k]) q then None else flat (DirNode d) q)"
proof (cases "prefix p q")
  case True
  then obtain r where "q = p @ r" by (auto simp: prefix_def)
  then show ?thesis
    using flat_at_dir [OF assms, of "dict_del k" q] flat_sub [OF assms, of r]
    by (simp add: flat_del)
next
  case False
  then have "\<not> prefix (p @ [k]) q" by (auto dest: append_prefixD)
  with False flat_at_dir [OF assms] show ?thesis by simp
qed

end
