(* ===== verification/Node_Walks.thy ===== *)
theory Node_Walks
  imports Node_Tree
begin

text \<open>
  The explicit-stack walks \<open>_clone_node\<close> and \<open>_node_hash\<close> of \<open>workspace/memory.py\<close>, and the
  contract of the post-order walks (\<open>stack_walk\<close>). Each walk is the loop of the source, with its stack as a list whose head is the top, and is proved equal, errors included, to a
  structural recursion. The \<open>id\<close> keys of the source are positions relative to the start.
\<close>

section \<open>Cloning\<close>

definition clone_error :: "int \<Rightarrow> sandbox_error" where
  "clone_error limit =
     Raise (Workspace NodeLimitExceededError)
       (pstr ''workspace clone contains more than '' @ str_int limit @ pstr '' nodes'')"

text \<open>
  One pass over the children of the directory popped from the stack: the count of cloned nodes,
  the stack, and the clone so far.
\<close>

fun clone_children ::
  "int \<Rightarrow> position \<Rightarrow> (pystr \<times> node) list \<Rightarrow> int \<times> (position \<times> directory) list \<times> directory
     \<Rightarrow> (int \<times> (position \<times> directory) list \<times> directory) result" where
  "clone_children limit pos [] st = Inr st"
| "clone_children limit pos ((name, child) # rest) (cloned_nodes, pending, cloned) =
     (if cloned_nodes + 1 > limit then Inl (clone_error limit)
      else (case child of
              FileNode b \<Rightarrow>
                clone_children limit pos rest
                  (cloned_nodes + 1, pending, at_dir (dict_put name (FileNode b)) pos cloned)
            | DirNode d \<Rightarrow>
                clone_children limit pos rest
                  (cloned_nodes + 1, (pos @ [name], d) # pending,
                   at_dir (dict_put name (DirNode [])) pos cloned)))"

definition pending_size :: "(position \<times> directory) list \<Rightarrow> nat" where
  "pending_size pending = sum_list (map (\<lambda>(pos, d). nodes (DirNode d)) pending)"

lemma pending_size_simps [simp]:
  "pending_size [] = 0"
  "pending_size ((pos, d) # pending) = nodes (DirNode d) + pending_size pending"
  by (simp_all add: pending_size_def)

lemma clone_children_size:
  "clone_children m pos cs (n, pending, cloned) = Inr (n', pending', cloned') \<Longrightarrow>
     pending_size pending' \<le> pending_size pending + sum_list (map (\<lambda>(name, child). nodes child) cs)"
proof (induction cs arbitrary: n pending cloned)
  case Nil
  then show ?case by simp
next
  case (Cons nc cs)
  then show ?case
    by (cases nc; cases "snd nc") (fastforce split: if_splits)+
qed

function clone_loop ::
  "int \<Rightarrow> (position \<times> directory) list \<Rightarrow> int \<Rightarrow> directory \<Rightarrow> directory result" where
  "clone_loop limit [] cloned_nodes cloned = Inr cloned"
| "clone_loop limit ((pos, source) # pending) cloned_nodes cloned =
     rbind (clone_children limit pos source (cloned_nodes, pending, cloned))
       (\<lambda>(n, pending', cloned'). clone_loop limit pending' n cloned')"
  by pat_completeness auto
termination
proof (relation "measure (\<lambda>(m, pending, n, cloned). pending_size pending)", goal_cases)
  case 1
  then show ?case by simp
next
  case (2 limit pos source pending cloned_nodes cloned x n y pending' cloned')
  then show ?case using clone_children_size by fastforce
qed

definition clone_node :: "node \<Rightarrow> int \<Rightarrow> node result" where
  "clone_node n limit =
     (case n of
        FileNode b \<Rightarrow> Inr (FileNode b)
      | DirNode d \<Rightarrow>
          rbind (clone_loop limit [([], d)] 1 []) (\<lambda>cloned. Inr (DirNode cloned)))"

definition clone_directory :: "directory \<Rightarrow> int \<Rightarrow> directory result" where
  "clone_directory d limit =
     rbind (clone_node (DirNode d) limit) (\<lambda>cloned.
       case cloned of
         DirNode d' \<Rightarrow> Inr d'
       | FileNode _ \<Rightarrow> throw (Builtin TypeError) (pstr ''workspace root must be a directory''))"

text \<open>What one entry of the stack still contributes to the clone.\<close>

definition fill :: "(pystr \<times> node) list \<Rightarrow> directory \<Rightarrow> directory" where
  "fill cs acc = fold (\<lambda>(name, child). dict_put name child) cs acc"

fun shallow :: "node \<Rightarrow> node" where
  "shallow (FileNode b) = FileNode b"
| "shallow (DirNode d) = DirNode []"

definition shallow_children :: "(pystr \<times> node) list \<Rightarrow> (pystr \<times> node) list" where
  "shallow_children cs = map (\<lambda>(name, child). (name, shallow child)) cs"

fun new_pending :: "position \<Rightarrow> (pystr \<times> node) list \<Rightarrow> (position \<times> directory) list" where
  "new_pending pos [] = []"
| "new_pending pos ((name, FileNode b) # cs) = new_pending pos cs"
| "new_pending pos ((name, DirNode d) # cs) = new_pending pos cs @ [(pos @ [name], d)]"

definition finish :: "(position \<times> directory) list \<Rightarrow> directory \<Rightarrow> directory" where
  "finish pending cloned = fold (\<lambda>(pos, d). at_dir (fill d) pos) pending cloned"

lemma fill_simps [simp]:
  "fill [] acc = acc"
  "fill ((name, child) # cs) acc = fill cs (dict_put name child acc)"
  by (simp_all add: fill_def)

lemma shallow_children_simps [simp]:
  "shallow_children [] = []"
  "shallow_children ((name, child) # cs) = (name, shallow child) # shallow_children cs"
  by (simp_all add: shallow_children_def)

lemma finish_simps [simp]:
  "finish [] cloned = cloned"
  "finish ((pos, d) # pending) cloned = finish pending (at_dir (fill d) pos cloned)"
  "finish (xs @ ys) cloned = finish ys (finish xs cloned)"
  by (simp_all add: finish_def)

lemma clone_children_eq:
  "clone_children m pos cs (n, pending, cloned) =
     (if cs \<noteq> [] \<and> n + int (length cs) > m then Inl (clone_error m)
      else Inr (n + int (length cs), new_pending pos cs @ pending,
                at_dir (fill (shallow_children cs)) pos cloned))"
proof (induction cs arbitrary: n pending cloned)
  case Nil
  have "at_dir (fill (shallow_children [])) pos cloned = cloned"
    using at_dir_cong [of "fill []" "\<lambda>e. e"]
    by (induction pos arbitrary: cloned) (auto intro: dict_put_id split: option.splits node.splits)
  then show ?case by simp
next
  case (Cons nc cs)
  obtain name child where nc: "nc = (name, child)" by (cases nc)
  have step: "at_dir (fill (shallow_children cs)) pos (at_dir (dict_put name (shallow child)) pos cloned) =
      at_dir (fill (shallow_children (nc # cs))) pos cloned"
    by (simp add: nc at_dir_compose) (rule at_dir_cong, simp)
  show ?case
    using step by (cases child) (auto simp: nc Cons.IH intro!: at_dir_cong)
qed

lemma dict_put_commute:
  "k \<noteq> k' \<Longrightarrow> map_of d k \<noteq> None \<Longrightarrow> dict_put k v (dict_put k' v' d) = dict_put k' v' (dict_put k v d)"
  by (induction d) auto

lemma fill_put:
  "k \<notin> fst ` set cs \<Longrightarrow> map_of acc k \<noteq> None \<Longrightarrow> dict_put k v (fill cs acc) = fill cs (dict_put k v acc)"
  by (induction cs arbitrary: acc) (auto simp: dict_put_commute)

lemma map_of_fill: "k \<notin> fst ` set cs \<Longrightarrow> map_of (fill cs acc) k = map_of acc k"
  by (induction cs arbitrary: acc) auto

lemma dict_put_fresh: "k \<notin> fst ` set d \<Longrightarrow> dict_put k v d = d @ [(k, v)]"
  by (induction d) auto

lemma fill_fresh: "dict_ok cs \<Longrightarrow> fst ` set cs \<inter> fst ` set acc = {} \<Longrightarrow> fill cs acc = acc @ cs"
  by (induction cs arbitrary: acc) (auto simp: dict_put_fresh)

lemma fill_empty [simp]: "dict_ok cs \<Longrightarrow> fill cs [] = cs"
  by (simp add: fill_fresh)

lemma finish_new_pending_at:
  "finish (new_pending pos cs) (at_dir g pos t) = at_dir (finish (new_pending [] cs) \<circ> g) pos t"
proof (induction pos cs rule: new_pending.induct)
  case (1 pos)
  then show ?case by (auto intro: at_dir_cong)
next
  case (3 pos name d cs)
  then show ?case
    by (simp add: at_dir_append at_dir_compose) (rule at_dir_cong, simp)
qed simp

lemma finish_children:
  "tree_ok (DirNode cs) \<Longrightarrow> finish (new_pending [] cs) (fill (shallow_children cs) acc) = fill cs acc"
proof (induction cs arbitrary: acc)
  case Nil
  then show ?case by simp
next
  case (Cons nc cs)
  obtain name child where nc: "nc = (name, child)" by (cases nc)
  have IH: "finish (new_pending [] cs) (fill (shallow_children cs) a) = fill cs a" for a
    using Cons by simp
  show ?case
  proof (cases child)
    case (FileNode b)
    then show ?thesis using nc IH by simp
  next
    case (DirNode d)
    have "name \<notin> fst ` set cs" "dict_ok d" using Cons.prems nc DirNode by auto
    then show ?thesis
      using nc DirNode IH by (simp add: map_of_fill fill_put)
  qed
qed

lemma finish_step:
  assumes "tree_ok (DirNode cs)"
  shows "finish (new_pending pos cs) (at_dir (fill (shallow_children cs)) pos t) = at_dir (fill cs) pos t"
  by (simp add: finish_new_pending_at) (rule at_dir_cong, simp add: finish_children [OF assms])

text \<open>The number of nodes that the stack still adds to the count.\<close>

definition extra_nodes :: "(position \<times> directory) list \<Rightarrow> int" where
  "extra_nodes pending = sum_list (map (\<lambda>(pos, d). int (nodes (DirNode d)) - 1) pending)"

lemma extra_nodes_simps [simp]:
  "extra_nodes [] = 0"
  "extra_nodes ((pos, d) # pending) = int (nodes (DirNode d)) - 1 + extra_nodes pending"
  "extra_nodes (xs @ ys) = extra_nodes xs + extra_nodes ys"
  by (simp_all add: extra_nodes_def)

lemma extra_nodes_nonneg: "0 \<le> extra_nodes pending"
  by (induction pending) auto

lemma extra_new_pending:
  "int (length cs) + extra_nodes (new_pending pos cs) = int (sum_list (map (\<lambda>(name, child). nodes child) cs))"
  by (induction pos cs rule: new_pending.induct) auto

lemma new_pending_ok: "tree_ok (DirNode cs) \<Longrightarrow> (p, d) \<in> set (new_pending pos cs) \<Longrightarrow> tree_ok (DirNode d)"
  by (induction pos cs rule: new_pending.induct) auto

lemma clone_loop_eq:
  "\<forall>(p, d) \<in> set pending. tree_ok (DirNode d) \<Longrightarrow>
     clone_loop m pending n cloned =
       (if extra_nodes pending > 0 \<and> n + extra_nodes pending > m then Inl (clone_error m)
        else Inr (finish pending cloned))"
proof (induction m pending n cloned rule: clone_loop.induct)
  case (1 m n cloned)
  then show ?case by simp
next
  case (2 m pos source pending n cloned)
  let ?new = "new_pending pos source"
  have ok: "tree_ok (DirNode source)" using "2.prems" by simp
  have size: "int (length source) + extra_nodes ?new = int (nodes (DirNode source)) - 1"
    using extra_new_pending [of source pos] by simp
  show ?case
  proof (cases "source \<noteq> [] \<and> n + int (length source) > m")
    case True
    then have "0 < int (length source)" by simp
    with True size extra_nodes_nonneg [of ?new] extra_nodes_nonneg [of pending]
    have "0 < extra_nodes ((pos, source) # pending) \<and> n + extra_nodes ((pos, source) # pending) > m"
      unfolding extra_nodes_simps by linarith
    with True show ?thesis
      by (simp add: clone_children_eq del: nodes.simps)
  next
    case False
    have "\<forall>(p, d) \<in> set (?new @ pending). tree_ok (DirNode d)"
      using "2.prems" new_pending_ok [OF ok] by (auto simp del: tree_ok.simps)
    with False have "clone_loop m (?new @ pending) (n + int (length source))
         (at_dir (fill (shallow_children source)) pos cloned) =
       (if extra_nodes (?new @ pending) > 0 \<and> n + int (length source) + extra_nodes (?new @ pending) > m
        then Inl (clone_error m)
        else Inr (finish (?new @ pending) (at_dir (fill (shallow_children source)) pos cloned)))"
      using "2.IH" by (simp add: clone_children_eq)
    moreover have "extra_nodes (?new @ pending) = 0 \<Longrightarrow> source = [] \<or> \<not> n + int (length source) > m"
      using False by blast
    ultimately show ?thesis
      using False size extra_nodes_nonneg [of ?new] extra_nodes_nonneg [of pending]
      by (auto simp: clone_children_eq finish_step [OF ok] simp del: nodes.simps)
  qed
qed

lemma clone_node_eq:
  assumes "tree_ok n" and "1 \<le> m"
  shows "clone_node n m =
     (case n of FileNode _ \<Rightarrow> Inr n
      | DirNode _ \<Rightarrow> if int (nodes n) \<le> m then Inr n else Inl (clone_error m))"
proof (cases n)
  case (FileNode b)
  then show ?thesis by (simp add: clone_node_def)
next
  case (DirNode d)
  then have "dict_ok d" and ok: "\<forall>(p, d) \<in> set [([], d)]. tree_ok (DirNode d)"
    using assms(1) by auto
  with DirNode assms(2) clone_loop_eq [OF ok, of m 1 "[]"] show ?thesis
    by (auto simp: clone_node_def simp del: nodes.simps)
qed

lemma clone_directory_eq:
  "tree_ok (DirNode d) \<Longrightarrow> 1 \<le> m \<Longrightarrow>
     clone_directory d m = (if int (nodes (DirNode d)) \<le> m then Inr d else Inl (clone_error m))"
  by (simp add: clone_directory_def clone_node_eq del: nodes.simps tree_ok.simps)

section \<open>Post-order walks with an explicit stack\<close>

definition key_error :: sandbox_error where
  "key_error = Raise (Builtin KeyError) []"

text \<open>
  The contract the measuring and the hashing loop share. An entry of the stack is a position, a
  node, what the loop carries with it, and whether its children have been pushed; the results
  are kept per position.
\<close>

locale stack_walk =
  fixes order :: "(pystr \<times> node) list \<Rightarrow> (pystr \<times> node) list"
    and leaf :: "'a \<Rightarrow> byte list \<Rightarrow> 'r result"
    and expand :: "'a \<Rightarrow> (pystr \<times> node) list \<Rightarrow> 'a list result"
    and combine :: "(pystr \<times> node \<times> 'r) list \<Rightarrow> 'r result"
    and walk :: "(position \<times> node \<times> 'a \<times> bool) list \<Rightarrow> (position \<Rightarrow> 'r option)
      \<Rightarrow> (position \<Rightarrow> 'r option) result"
    and spec :: "'a \<Rightarrow> node \<Rightarrow> 'r result"
  assumes order_set: "set (order cs) = set cs"
    and order_distinct: "dict_ok cs \<Longrightarrow> distinct (map fst (order cs))"
    and expand_length: "expand a cs = Inr as \<Longrightarrow> length as = length (order cs)"
    and walk_end: "walk [] m = Inr m"
    and walk_file: "walk ((pos, FileNode b, a, v) # pending) m =
          rbind (leaf a b) (\<lambda>r. walk pending (m(pos \<mapsto> r)))"
    and walk_open: "walk ((pos, DirNode cs, a, False) # pending) m =
          rbind (expand a cs) (\<lambda>as.
            walk (map (\<lambda>((name, child), a'). (pos @ [name], child, a', False)) (zip (order cs) as)
                  @ (pos, DirNode cs, a, True) # pending) m)"
    and walk_close: "walk ((pos, DirNode cs, a, True) # pending) m =
          rbind (rmap (\<lambda>(name, child). case m (pos @ [name]) of
                     None \<Rightarrow> Inl key_error | Some r \<Rightarrow> Inr (name, child, r)) (order cs)) (\<lambda>rs.
          rbind (combine rs) (\<lambda>r. walk pending (m(pos \<mapsto> r))))"
    and spec_file: "spec a (FileNode b) = leaf a b"
    and spec_dir: "spec a (DirNode cs) =
          rbind (expand a cs) (\<lambda>as.
          rbind (rmap (\<lambda>((name, child), a'). rbind (spec a' child) (\<lambda>r. Inr (name, child, r)))
                   (zip (order cs) as)) combine)"
begin

definition covers :: "position \<Rightarrow> (position \<Rightarrow> 'r option) \<Rightarrow> (position \<Rightarrow> 'r option) \<Rightarrow> bool" where
  "covers pos m m' \<longleftrightarrow> (\<forall>q. \<not> prefix pos q \<longrightarrow> m' q = m q)"

text \<open>What popping one unvisited entry does: it stores the node's result, or raises.\<close>

definition walks :: "node \<Rightarrow> bool" where
  "walks n \<longleftrightarrow>
     (\<forall>pos a pending m.
        case spec a n of
          Inl e \<Rightarrow> walk ((pos, n, a, False) # pending) m = Inl e
        | Inr r \<Rightarrow> \<exists>m'. covers pos m m' \<and> m' pos = Some r \<and>
            walk ((pos, n, a, False) # pending) m = walk pending m')"

lemma walksD:
  "walks n \<Longrightarrow>
     (case spec a n of
        Inl e \<Rightarrow> walk ((pos, n, a, False) # pending) m = Inl e
      | Inr r \<Rightarrow> \<exists>m'. covers pos m m' \<and> m' pos = Some r \<and>
          walk ((pos, n, a, False) # pending) m = walk pending m')"
  unfolding walks_def by blast

lemma walks_error: "walks n \<Longrightarrow> spec a n = Inl e \<Longrightarrow> walk ((pos, n, a, False) # pending) m = Inl e"
  using walksD [where a = a and pos = pos and pending = pending and m = m] by fastforce

lemma walks_result:
  assumes "walks n" and "spec a n = Inr r"
  obtains m' where "covers pos m m'" "m' pos = Some r"
    "walk ((pos, n, a, False) # pending) m = walk pending m'"
  using walksD [OF assms(1), where a = a and pos = pos and pending = pending and m = m] assms(2) by auto

lemma walk_siblings:
  assumes "\<forall>((name, child), a) \<in> set xs. walks child" and "distinct (map (fst \<circ> fst) xs)"
  shows "case rmap (\<lambda>((name, child), a'). rbind (spec a' child) (\<lambda>r. Inr (name, child, r))) xs of
      Inl e \<Rightarrow> walk (map (\<lambda>((name, child), a'). (pos @ [name], child, a', False)) xs @ pending) m = Inl e
    | Inr rs \<Rightarrow> \<exists>m'. (\<forall>q. (\<forall>x \<in> set xs. \<not> prefix (pos @ [fst (fst x)]) q) \<longrightarrow> m' q = m q) \<and>
        list_all2 (\<lambda>x r. r = (fst (fst x), snd (fst x), snd (snd r)) \<and>
            m' (pos @ [fst (fst x)]) = Some (snd (snd r))) xs rs \<and>
        walk (map (\<lambda>((name, child), a'). (pos @ [name], child, a', False)) xs @ pending) m =
          walk pending m'"
  using assms
proof (induction xs arbitrary: m)
  case Nil
  then show ?case by auto
next
  case (Cons x xs)
  obtain name child a where x: "x = ((name, child), a)" by (cases x) auto
  have wk: "walks child" using Cons.prems(1) x by simp
  show ?case
  proof (cases "spec a child")
    case (Inl e)
    then show ?thesis using walks_error [OF wk Inl] x by simp
  next
    case (Inr r)
    let ?rest = "map (\<lambda>((name, child), a'). (pos @ [name], child, a', False)) xs @ pending"
    obtain m1 where m1: "covers (pos @ [name]) m m1" "m1 (pos @ [name]) = Some r"
      "walk ((pos @ [name], child, a, False) # ?rest) m = walk ?rest m1"
      using walks_result [OF wk Inr] by blast
    have names: "\<forall>y \<in> set xs. fst (fst y) \<noteq> name" using Cons.prems(2) x by (force simp: comp_def)
    note IH = Cons.IH [of m1]
    show ?thesis
    proof (cases "rmap (\<lambda>((name, child), a'). rbind (spec a' child) (\<lambda>r. Inr (name, child, r))) xs")
      case (Inl e)
      then show ?thesis using IH m1(3) Inr x Cons.prems by simp
    next
      case rs: (Inr rs)
      then obtain m' where m': "\<forall>q. (\<forall>x \<in> set xs. \<not> prefix (pos @ [fst (fst x)]) q) \<longrightarrow> m' q = m1 q"
        "list_all2 (\<lambda>x r. r = (fst (fst x), snd (fst x), snd (snd r)) \<and>
            m' (pos @ [fst (fst x)]) = Some (snd (snd r))) xs rs"
        "walk ?rest m1 = walk pending m'"
        using IH Cons.prems by auto
      have "m' (pos @ [name]) = Some r"
        using m'(1) m1(2) names by auto
      moreover have "\<forall>q. (\<forall>y \<in> set (x # xs). \<not> prefix (pos @ [fst (fst y)]) q) \<longrightarrow> m' q = m q"
        using m'(1) m1(1) x by (simp add: covers_def)
      ultimately show ?thesis
        using m'(2,3) m1(3) Inr rs x by auto
    qed
  qed
qed

lemma walks_all: "tree_ok n \<Longrightarrow> walks n"
proof (induction n rule: node_induct)
  case (FileNode b)
  have "\<exists>m'. covers pos m m' \<and> m' pos = Some r \<and> walk pending (m(pos \<mapsto> r)) = walk pending m'"
    for pos m r pending
    by (rule exI [of _ "m(pos \<mapsto> r)"]) (auto simp: covers_def)
  then show ?case
    by (auto simp: walks_def walk_file spec_file split: sum.splits)
next
  case (DirNode cs)
  show ?case
    unfolding walks_def
  proof (intro allI)
    fix pos :: position and a and pending and m :: "position \<Rightarrow> 'r option"
    show "case spec a (DirNode cs) of
          Inl e \<Rightarrow> walk ((pos, DirNode cs, a, False) # pending) m = Inl e
        | Inr r \<Rightarrow> \<exists>m'. covers pos m m' \<and> m' pos = Some r \<and>
            walk ((pos, DirNode cs, a, False) # pending) m = walk pending m'"
    proof (cases "expand a cs")
      case (Inl e)
      then show ?thesis by (simp add: spec_dir walk_open)
    next
      case ex: (Inr as)
      let ?xs = "zip (order cs) as"
      let ?close = "(pos, DirNode cs, a, True) # pending"
      have len: "length as = length (order cs)" using ex by (rule expand_length)
      have children: "\<forall>((name, child), a) \<in> set ?xs. walks child"
        using DirNode by (fastforce dest!: set_zip_leftD simp: order_set)
      have "map (fst \<circ> fst) ?xs = map fst (order cs)"
        using len by (metis map_fst_zip map_map)
      then have "distinct (map (fst \<circ> fst) ?xs)"
        using DirNode.prems by (simp add: order_distinct)
      note sib = walk_siblings [OF children this, of pos ?close m]
      show ?thesis
      proof (cases "rmap (\<lambda>((name, child), a'). rbind (spec a' child) (\<lambda>r. Inr (name, child, r))) ?xs")
        case (Inl e)
        then show ?thesis using sib ex by (simp add: spec_dir walk_open)
      next
        case rs: (Inr rs)
        then obtain m' where m': "\<forall>q. (\<forall>x \<in> set ?xs. \<not> prefix (pos @ [fst (fst x)]) q) \<longrightarrow> m' q = m q"
          "list_all2 (\<lambda>x r. r = (fst (fst x), snd (fst x), snd (snd r)) \<and>
            m' (pos @ [fst (fst x)]) = Some (snd (snd r))) ?xs rs"
          "walk (map (\<lambda>((name, child), a'). (pos @ [name], child, a', False)) ?xs @ ?close) m =
            walk ?close m'"
          using sib by auto
        have "list_all2 (\<lambda>nc r. r = (fst nc, snd nc, snd (snd r)) \<and>
            m' (pos @ [fst nc]) = Some (snd (snd r))) (map fst ?xs) rs"
          using m'(2) by (simp add: list.rel_map)
        then have "list_all2 (\<lambda>nc r. (case nc of (name, child) \<Rightarrow> case m' (pos @ [name]) of
              None \<Rightarrow> Inl key_error | Some r \<Rightarrow> Inr (name, child, r)) = Inr r) (order cs) rs"
          using len by (simp add: map_fst_zip) (erule list.rel_mono_strong, auto)
        then have close: "walk ?close m' = rbind (combine rs) (\<lambda>r. walk pending (m'(pos \<mapsto> r)))"
          by (simp add: walk_close flip: rmap_Inr_iff)
        have "covers pos m (m'(pos \<mapsto> r))" for r
          using m'(1) by (auto simp: covers_def dest: append_prefixD)
        then show ?thesis
          using ex rs m'(3) close
          by (auto simp: spec_dir walk_open split: sum.splits intro!: exI [of _ "m'(pos \<mapsto> _)"])
      qed
    qed
  qed
qed

theorem walk_spec:
  assumes "tree_ok n"
  shows "rbind (walk [([], n, a, False)] m) (\<lambda>m'. case m' [] of None \<Rightarrow> Inl e | Some r \<Rightarrow> Inr r) = spec a n"
proof (cases "spec a n")
  case (Inl e')
  then show ?thesis using walks_error [OF walks_all [OF assms]] by simp
next
  case (Inr r)
  obtain m' where "m' [] = Some r" "walk [([], n, a, False)] m = walk [] m'"
    using walks_result [OF walks_all [OF assms] Inr, where pos = "[]" and m = m and pending = "[]"] by blast
  with Inr show ?thesis by (simp add: walk_end)
qed

end

text \<open>The cost of a stack: an unvisited entry is popped, pushed back visited and popped again.\<close>

definition stack_cost :: "(node \<times> bool) list \<Rightarrow> nat" where
  "stack_cost st = sum_list (map (\<lambda>(n, visited). if visited then 1 else 2 * nodes n) st)"

lemma stack_cost_simps [simp]:
  "stack_cost [] = 0"
  "stack_cost ((n, visited) # st) = (if visited then 1 else 2 * nodes n) + stack_cost st"
  "stack_cost (st @ st') = stack_cost st + stack_cost st'"
  "stack_cost (rev st) = stack_cost st"
  by (simp_all add: stack_cost_def sum_list.rev flip: rev_map)

section \<open>Hashing\<close>

type_synonym hash_entry = "position \<times> node \<times> bool"

definition hash_children :: "position \<Rightarrow> (pystr \<times> node) list \<Rightarrow> hash_entry list" where
  "hash_children pos cs = map (\<lambda>(name, child). (pos @ [name], child, False)) cs"

lemma hash_children_cost [simp]:
  "stack_cost (map snd (hash_children pos cs)) = 2 * sum_list (map (\<lambda>(name, child). nodes child) cs)"
  by (induction cs) (auto simp: hash_children_def)

definition stored_hashes ::
  "(position \<Rightarrow> content_hash option) \<Rightarrow> position \<Rightarrow> (pystr \<times> node) list \<Rightarrow> child_hash list result" where
  "stored_hashes hashes pos cs =
     rmap (\<lambda>(name, child). case hashes (pos @ [name]) of
             None \<Rightarrow> Inl key_error | Some h \<Rightarrow> Inr (name, node_kind child, h)) cs"

function hash_loop ::
  "hash_entry list \<Rightarrow> (position \<Rightarrow> content_hash option) \<Rightarrow> (position \<Rightarrow> content_hash option) result" where
  "hash_loop [] hashes = Inr hashes"
| "hash_loop ((pos, current, visited) # pending) hashes =
     (case current of
        FileNode b \<Rightarrow> hash_loop pending (hashes(pos \<mapsto> from_bytes b))
      | DirNode cs \<Rightarrow>
          if \<not> visited
          then hash_loop (rev (hash_children pos cs) @ (pos, current, True) # pending) hashes
          else rbind (stored_hashes hashes pos cs) (\<lambda>hs.
               rbind (hash_directory hs) (\<lambda>h. hash_loop pending (hashes(pos \<mapsto> h)))))"
  by pat_completeness auto
termination
  by (relation "measure (\<lambda>(pending, hashes). stack_cost (map snd pending))")
     (auto simp: rev_map [symmetric])

definition node_hash :: "node \<Rightarrow> content_hash result" where
  "node_hash n =
     (case n of
        FileNode b \<Rightarrow> Inr (from_bytes b)
      | DirNode _ \<Rightarrow>
          rbind (hash_loop [([], n, False)] (\<lambda>_. None)) (\<lambda>hashes.
            case hashes [] of None \<Rightarrow> Inl key_error | Some h \<Rightarrow> Inr h))"

text \<open>The hash by structural recursion; children are hashed last to first, as the stack pops them.\<close>

fun hash_rec :: "node \<Rightarrow> content_hash result" where
  "hash_rec (FileNode b) = Inr (from_bytes b)"
| "hash_rec (DirNode cs) =
     rbind (rmap (\<lambda>(name, child). rbind (hash_rec child) (\<lambda>h. Inr (name, node_kind child, h))) (rev cs))
       hash_directory"

lemma rmap_rev:
  assumes "\<And>x e'. x \<in> set xs \<Longrightarrow> f x = Inl e' \<Longrightarrow> e' = e"
  shows "rmap f (rev xs) = (case rmap f xs of Inl e \<Rightarrow> Inl e | Inr ys \<Rightarrow> Inr (rev ys))"
  using assms
proof (induction xs)
  case Nil
  then show ?case by simp
next
  case (Cons x xs)
  have err: "rmap f xs = Inl e' \<Longrightarrow> e' = e" for e'
    using Cons.prems by (induction xs) (auto simp: rbind_Inl_iff)
  have "rmap f (rev xs) = (case rmap f xs of Inl e \<Rightarrow> Inl e | Inr ys \<Rightarrow> Inr (rev ys))"
    by (rule Cons.IH) (rule Cons.prems, auto)
  moreover have "f x = Inl e' \<Longrightarrow> e' = e" for e' by (rule Cons.prems [of x]) simp
  ultimately show ?case
    using err by (cases "f x"; cases "rmap f xs") (simp_all add: rmap_append)
qed

definition hash_combine :: "(pystr \<times> node \<times> content_hash) list \<Rightarrow> content_hash result" where
  "hash_combine rs = hash_directory (map (\<lambda>(name, child, h). (name, node_kind child, h)) rs)"

definition drop_aux :: "(position \<times> node \<times> unit \<times> bool) list \<Rightarrow> hash_entry list" where
  "drop_aux st = map (\<lambda>(pos, n, _, v). (pos, n, v)) st"

lemma rmap_map: "rmap f (map g xs) = rmap (f \<circ> g) xs"
  by (induction xs) auto

lemma rmap_post:
  "rmap (\<lambda>x. rbind (f x) (\<lambda>y. Inr (h y))) xs = rbind (rmap f xs) (\<lambda>ys. Inr (map h ys))"
  by (induction xs) (auto simp: rbind_assoc rbind_def split: sum.splits)

lemma hash_close:
  "rbind (stored_hashes hashes pos cs) hash_directory =
   rbind (rmap (\<lambda>(name, child). case hashes (pos @ [name]) of
             None \<Rightarrow> Inl key_error | Some r \<Rightarrow> Inr (name, child, r)) (rev cs)) hash_combine"
proof -
  let ?f = "\<lambda>(name, child). case hashes (pos @ [name]) of
             None \<Rightarrow> Inl key_error | Some r \<Rightarrow> Inr (name, child, r)"
  have "stored_hashes hashes pos cs =
      rmap (\<lambda>x. rbind (?f x) (\<lambda>y. Inr ((\<lambda>(name, child, h). (name, node_kind child, h)) y))) cs"
    unfolding stored_hashes_def by (intro rmap_cong) (auto split: option.splits)
  then have "rbind (stored_hashes hashes pos cs) hash_directory = rbind (rmap ?f cs) hash_combine"
    by (simp add: rmap_post rbind_assoc hash_combine_def [abs_def])
  also have "\<dots> = rbind (rmap ?f (rev cs)) hash_combine"
  proof -
    have "hash_combine (rev ys) = hash_combine ys" for ys
      unfolding hash_combine_def by (rule hash_directory_mset) (simp add: rev_map)
    moreover have "rmap ?f (rev cs) = (case rmap ?f cs of Inl e \<Rightarrow> Inl e | Inr ys \<Rightarrow> Inr (rev ys))"
      by (rule rmap_rev [where e = key_error]) (auto split: option.splits)
    ultimately show ?thesis by (simp split: sum.splits)
  qed
  finally show ?thesis .
qed

interpretation hash_walk: stack_walk rev "\<lambda>(_::unit) b. Inr (from_bytes b)"
    "\<lambda>_ cs. Inr (replicate (length cs) ())" hash_combine "\<lambda>st. hash_loop (drop_aux st)" "\<lambda>_. hash_rec"
proof unfold_locales
  show "dict_ok cs \<Longrightarrow> distinct (map fst (rev cs))" for cs :: directory
    by (simp add: dict_ok_def rev_map [symmetric])
next
  fix pos :: position and cs :: directory and a pending m
  have "drop_aux (map (\<lambda>((name, child), a'). (pos @ [name], child, a', False))
      (zip (rev cs) (replicate (length cs) ()))) = rev (hash_children pos cs)"
    by (simp add: drop_aux_def hash_children_def zip_replicate2 rev_map comp_def case_prod_unfold)
  then show "hash_loop (drop_aux ((pos, DirNode cs, a, False) # pending)) m =
      rbind (Inr (replicate (length cs) ())) (\<lambda>as. hash_loop (drop_aux
        (map (\<lambda>((name, child), a'). (pos @ [name], child, a', False)) (zip (rev cs) as) @
         (pos, DirNode cs, a, True) # pending)) m)"
    by (simp add: drop_aux_def)
next
  fix pos :: position and cs :: directory and a pending m
  show "hash_loop (drop_aux ((pos, DirNode cs, a, True) # pending)) m =
      rbind (rmap (\<lambda>(name, child). case m (pos @ [name]) of
                 None \<Rightarrow> Inl key_error | Some r \<Rightarrow> Inr (name, child, r)) (rev cs)) (\<lambda>rs.
      rbind (hash_combine rs) (\<lambda>r. hash_loop (drop_aux pending) (m(pos \<mapsto> r))))"
    using arg_cong [OF hash_close [of m pos cs], of "\<lambda>r. rbind r (\<lambda>h. hash_loop (drop_aux pending) (m(pos \<mapsto> h)))"]
    by (simp add: drop_aux_def rbind_assoc)
next
  fix a :: unit and cs :: directory
  have "rmap (\<lambda>((name, child), a'). rbind (hash_rec child) (\<lambda>r. Inr (name, child, r)))
      (zip (rev cs) (replicate (length cs) ())) =
     rmap (\<lambda>(name, child). rbind (hash_rec child) (\<lambda>r. Inr (name, child, r))) (rev cs)"
    by (simp add: zip_replicate2 rmap_map comp_def case_prod_unfold)
  moreover have "rmap (\<lambda>(name, child). rbind (hash_rec child) (\<lambda>h. Inr (name, node_kind child, h))) (rev cs) =
      rmap (\<lambda>x. rbind ((\<lambda>(name, child). rbind (hash_rec child) (\<lambda>r. Inr (name, child, r))) x)
        (\<lambda>y. Inr ((\<lambda>(name, child, h). (name, node_kind child, h)) y))) (rev cs)"
    by (intro rmap_cong) (auto simp: rbind_assoc)
  ultimately show "hash_rec (DirNode cs) = rbind (Inr (replicate (length cs) ())) (\<lambda>as.
      rbind (rmap (\<lambda>((name, child), a'). rbind (hash_rec child) (\<lambda>r. Inr (name, child, r)))
        (zip (rev cs) as)) hash_combine)"
    by (simp add: rmap_post rbind_assoc hash_combine_def [abs_def])
qed (simp_all add: drop_aux_def)

lemma node_hash_eq: "tree_ok n \<Longrightarrow> node_hash n = hash_rec n"
  using hash_walk.walk_spec [of n "()" "\<lambda>_. None" key_error]
  by (cases n) (simp_all add: node_hash_def drop_aux_def del: hash_loop.simps tree_ok.simps hash_rec.simps(2))

end
