(* ===== verification/Node_Measure.thy ===== *)
theory Node_Measure
  imports Node_Walks
begin

text \<open>
  \<open>_measure_node\<close> of \<open>workspace/memory.py\<close>: the loop of the source, its structural recursion
  (another instance of \<open>stack_walk\<close>), and what a successful measurement means: the byte nnodes,
  node nnodes and hash are those of the tree, and every file and path is within the limits.
\<close>

section \<open>The loop\<close>

type_synonym measure = "int \<times> int \<times> content_hash"
type_synonym measure_entry = "position \<times> node \<times> sandbox_path \<times> bool"

definition join_child :: "workspace_limits \<Rightarrow> sandbox_path \<Rightarrow> pystr \<Rightarrow> sandbox_path result" where
  "join_child l path name = path_join path [name] (max_path_bytes l) (max_segment_bytes l)"

definition file_too_large :: "workspace_limits \<Rightarrow> sandbox_path \<Rightarrow> int \<Rightarrow> sandbox_error" where
  "file_too_large l path sz =
     Raise (Workspace FileSizeLimitExceededError)
       (path_value path @ pstr '' contains '' @ str_int sz @ pstr '' bytes; limit is ''
        @ str_int (max_file_bytes l) @ pstr '' bytes'')"

fun push_children ::
  "workspace_limits \<Rightarrow> position \<Rightarrow> sandbox_path \<Rightarrow> (pystr \<times> node) list \<Rightarrow> measure_entry list
     \<Rightarrow> measure_entry list result" where
  "push_children l pos path [] pending = Inr pending"
| "push_children l pos path ((name, child) # cs) pending =
     rbind (join_child l path name) (\<lambda>p.
     push_children l pos path cs ((pos @ [name], child, p, False) # pending))"

text \<open>The totals over the children, in name order, read from the results stored so far.\<close>

fun sum_children ::
  "(position \<Rightarrow> measure option) \<Rightarrow> position \<Rightarrow> (pystr \<times> node) list \<Rightarrow> int \<Rightarrow> int \<Rightarrow> child_hash list
     \<Rightarrow> (int \<times> int \<times> child_hash list) result" where
  "sum_children measured pos [] nbytes nnodes hashes = Inr (nbytes, nnodes, hashes)"
| "sum_children measured pos ((name, child) # cs) nbytes nnodes hashes =
     (case measured (pos @ [name]) of
        None \<Rightarrow> Inl key_error
      | Some (child_bytes, child_nodes, child_hash) \<Rightarrow>
          sum_children measured pos cs (nbytes + child_bytes) (nnodes + child_nodes)
            (hashes @ [(name, node_kind child, child_hash)]))"

definition entry_cost :: "measure_entry list \<Rightarrow> nat" where
  "entry_cost pending = stack_cost (map (\<lambda>(pos, n, p, v). (n, v)) pending)"

lemma entry_cost_simps [simp]:
  "entry_cost [] = 0"
  "entry_cost ((pos, n, p, v) # pending) = (if v then 1 else 2 * nodes n) + entry_cost pending"
  by (simp_all add: entry_cost_def)

lemma push_children_cost:
  "push_children l pos path cs pending = Inr pending' \<Longrightarrow>
     entry_cost pending' = entry_cost pending + 2 * sum_list (map (\<lambda>(name, child). nodes child) cs)"
  by (induction l pos path cs pending rule: push_children.induct) (auto simp: rbind_Inr_iff)

lemma sum_list_rev_sorted [simp]:
  "sum_list (map g (rev (sort_key f cs))) = sum_list (map g cs)" for g :: "'a \<Rightarrow> nat"
  by (simp add: sum_list.rev flip: rev_map)

function measure_loop ::
  "workspace_limits \<Rightarrow> measure_entry list \<Rightarrow> (position \<Rightarrow> measure option)
     \<Rightarrow> (position \<Rightarrow> measure option) result" where
  "measure_loop l [] measured = Inr measured"
| "measure_loop l ((pos, current, path, visited) # pending) measured =
     (case current of
        FileNode b \<Rightarrow>
          (if int (length b) > max_file_bytes l
           then Inl (file_too_large l path (int (length b)))
           else measure_loop l pending (measured(pos \<mapsto> (int (length b), 1, from_bytes b))))
      | DirNode cs \<Rightarrow>
          if \<not> visited
          then rbind (push_children l pos path (rev (sort_key fst cs))
                        ((pos, current, path, True) # pending)) (\<lambda>pending'.
               measure_loop l pending' measured)
          else rbind (sum_children measured pos (sort_key fst cs) 0 1 []) (\<lambda>(nbytes, nnodes, hs).
               rbind (hash_directory hs) (\<lambda>h.
               measure_loop l pending (measured(pos \<mapsto> (nbytes, nnodes, h))))))"
  by pat_completeness auto
termination
  by (relation "measure (\<lambda>(l, pending, measured). entry_cost pending)")
     (auto dest!: push_children_cost)

definition measure_node :: "node \<Rightarrow> sandbox_path \<Rightarrow> workspace_limits \<Rightarrow> measure result" where
  "measure_node n path l =
     rbind (measure_loop l [([], n, path, False)] (\<lambda>_. None)) (\<lambda>measured.
       case measured [] of None \<Rightarrow> Inl key_error | Some m \<Rightarrow> Inr m)"

section \<open>The recursion\<close>

definition join_children :: "workspace_limits \<Rightarrow> sandbox_path \<Rightarrow> (pystr \<times> node) list \<Rightarrow> sandbox_path list result" where
  "join_children l path cs =
     rbind (rmap (\<lambda>(name, child). join_child l path name) (rev (sort_key fst cs))) (\<lambda>ps. Inr (rev ps))"

definition measure_leaf :: "workspace_limits \<Rightarrow> sandbox_path \<Rightarrow> byte list \<Rightarrow> measure result" where
  "measure_leaf l path b =
     (if int (length b) > max_file_bytes l then Inl (file_too_large l path (int (length b)))
      else Inr (int (length b), 1, from_bytes b))"

definition measure_combine :: "(pystr \<times> node \<times> measure) list \<Rightarrow> measure result" where
  "measure_combine rs =
     rbind (hash_directory (map (\<lambda>(name, child, _, _, h). (name, node_kind child, h)) rs)) (\<lambda>h.
     Inr (sum_list (map (\<lambda>(_, _, b, _, _). b) rs), 1 + sum_list (map (\<lambda>(_, _, _, k, _). k) rs), h))"

function measure_rec :: "workspace_limits \<Rightarrow> sandbox_path \<Rightarrow> node \<Rightarrow> measure result" where
  "measure_rec l path (FileNode b) = measure_leaf l path b"
| "measure_rec l path (DirNode cs) =
     rbind (join_children l path cs) (\<lambda>ps.
     rbind (rmap (\<lambda>((name, child), p). rbind (measure_rec l p child) (\<lambda>r. Inr (name, child, r)))
              (zip (sort_key fst cs) ps)) measure_combine)"
  by pat_completeness auto
termination
proof (relation "measure (\<lambda>(l, path, n). size n)", goal_cases)
  case 1
  then show ?case by simp
next
  case (2 l path cs ps x nc p name child)
  then have "(name, child) \<in> set cs" by (auto dest: set_zip_leftD)
  then show ?case using child_size by (simp add: less_Suc_eq_le)
qed

lemma join_children_length: "join_children l path cs = Inr ps \<Longrightarrow> length ps = length cs"
  by (auto simp: join_children_def rbind_Inr_iff rmap_Inr_iff dest!: list_all2_lengthD)

lemma push_children_eq:
  "push_children l pos path (rev xs) pending =
     rbind (rmap (\<lambda>(name, child). join_child l path name) (rev xs)) (\<lambda>ps.
     Inr (map (\<lambda>((name, child), p). (pos @ [name], child, p, False)) (zip xs (rev ps)) @ pending))"
proof (induction xs arbitrary: pending rule: rev_induct)
  case Nil
  then show ?case by simp
next
  case (snoc x xs)
  have zs: "length ps = length xs \<Longrightarrow> zip (xs @ [x]) (rev ps @ [p]) = zip xs (rev ps) @ [(x, p)]" for p ps
    by simp
  have len: "rmap f (rev xs) = Inr ps \<Longrightarrow> length ps = length xs" for f and ps :: "sandbox_path list"
    by (auto simp: rmap_Inr_iff dest!: list_all2_lengthD)
  show ?case
    by (cases x; cases "join_child l path (fst x)";
        cases "rmap (\<lambda>(name, child). join_child l path name) (rev xs)")
       (simp_all add: snoc zs len)
qed

lemma sum_children_eq:
  "sum_children measured pos cs nbytes nnodes hashes =
     rbind (rmap (\<lambda>(name, child). case measured (pos @ [name]) of
              None \<Rightarrow> Inl key_error | Some r \<Rightarrow> Inr (name, child, r)) cs) (\<lambda>rs.
     Inr (nbytes + sum_list (map (\<lambda>(_, _, b, _, _). b) rs), nnodes + sum_list (map (\<lambda>(_, _, _, k, _). k) rs),
          hashes @ map (\<lambda>(name, child, _, _, h). (name, node_kind child, h)) rs))"
  by (induction measured pos cs nbytes nnodes hashes rule: sum_children.induct)
     (auto simp: rbind_assoc add.assoc split: option.splits)

interpretation measure_walk: stack_walk "sort_key fst" "measure_leaf l" "join_children l"
    measure_combine "measure_loop l" "measure_rec l" for l
proof unfold_locales
  show "dict_ok cs \<Longrightarrow> distinct (map fst (sort_key fst cs))" for cs :: directory
    by (simp add: dict_ok_def)
next
  fix pos :: position and cs :: directory and a pending m
  show "measure_loop l ((pos, DirNode cs, a, False) # pending) m =
      rbind (join_children l a cs) (\<lambda>as. measure_loop l
        (map (\<lambda>((name, child), a'). (pos @ [name], child, a', False)) (zip (sort_key fst cs) as) @
         (pos, DirNode cs, a, True) # pending) m)"
    by (simp add: push_children_eq join_children_def rbind_assoc)
next
  fix pos :: position and cs :: directory and a pending m
  show "measure_loop l ((pos, DirNode cs, a, True) # pending) m =
      rbind (rmap (\<lambda>(name, child). case m (pos @ [name]) of
                 None \<Rightarrow> Inl key_error | Some r \<Rightarrow> Inr (name, child, r)) (sort_key fst cs)) (\<lambda>rs.
      rbind (measure_combine rs) (\<lambda>r. measure_loop l pending (m(pos \<mapsto> r))))"
    by (simp add: sum_children_eq measure_combine_def rbind_assoc)
qed (auto simp: measure_leaf_def dest: join_children_length)

lemma measure_node_eq: "tree_ok n \<Longrightarrow> measure_node n path l = measure_rec l path n"
  using measure_walk.walk_spec [of n l path "\<lambda>_. None" key_error]
  by (simp add: measure_node_def)

section \<open>What a measurement means\<close>

text \<open>Every file and every path below a node is within the limits.\<close>

fun inside :: "workspace_limits \<Rightarrow> pystr list \<Rightarrow> node \<Rightarrow> bool" where
  "inside l ps (FileNode b) = (int (length b) \<le> max_file_bytes l)"
| "inside l ps (DirNode cs) =
     (\<forall>(name, child) \<in> set cs. fits l (path_of (ps @ [name])) \<and> inside l (ps @ [name]) child)"

lemma join_child_ok:
  assumes "list_all seg_ok ps" and "seg_ok name" and "limits_ok l"
  shows "join_child l (path_of ps) name = Inr p \<longleftrightarrow> p = path_of (ps @ [name]) \<and> fits l p"
  using assms path_join_segment [OF assms(1,2)] by (auto simp: join_child_def fits_def limits_ok_def)

lemma rmap_Inr_projr: "rmap f xs = Inr ys \<longleftrightarrow> (\<forall>x \<in> set xs. \<not> isl (f x)) \<and> ys = map (projr \<circ> f) xs"
  by (induction xs arbitrary: ys) (auto simp: rbind_Inr_iff isl_def split: sum.splits)

lemma isl_rbind_ret [simp]:
  "isl (rbind m (\<lambda>x. Inr (g x))) = isl m"
  "\<not> isl m \<Longrightarrow> projr (rbind m (\<lambda>x. Inr (g x))) = g (projr m)"
  by (cases m; simp)+

lemma hash_rec_DirNode:
  "hash_rec (DirNode cs) = Inr h \<longleftrightarrow>
     (\<forall>(name, child) \<in> set cs. \<not> isl (hash_rec child)) \<and>
     hash_directory (map (\<lambda>(name, child). (name, node_kind child, projr (hash_rec child))) cs) = Inr h"
proof -
  let ?f = "\<lambda>x. rbind (hash_rec (snd x)) (\<lambda>h. Inr (fst x, node_kind (snd x), h)) :: child_hash result"
  let ?g = "\<lambda>x. (fst x, node_kind (snd x), projr (hash_rec (snd x)))"
  have same: "hash_directory (map (projr \<circ> ?f) (rev cs)) = hash_directory (map ?g cs)"
    if "\<forall>x \<in> set cs. \<not> isl (hash_rec (snd x))"
  proof -
    have "map (projr \<circ> ?f) cs = map ?g cs" using that by (intro map_cong) simp_all
    then have "map (projr \<circ> ?f) (rev cs) = rev (map ?g cs)" by (simp flip: rev_map)
    then show ?thesis by (intro hash_directory_mset) simp
  qed
  have "hash_rec (DirNode cs) = Inr h \<longleftrightarrow>
      (\<forall>x \<in> set cs. \<not> isl (hash_rec (snd x))) \<and> hash_directory (map (projr \<circ> ?f) (rev cs)) = Inr h"
    by (simp add: rbind_Inr_iff rmap_Inr_projr case_prod_unfold)
  then show ?thesis using same by (auto simp: case_prod_unfold)
qed

lemma join_children_ok:
  assumes "list_all seg_ok ps" and "\<forall>(name, child) \<in> set cs. seg_ok name" and "limits_ok l"
  shows "join_children l (path_of ps) cs = Inr qs \<longleftrightarrow>
     (\<forall>(name, child) \<in> set cs. fits l (path_of (ps @ [name]))) \<and>
     qs = map (\<lambda>(name, child). path_of (ps @ [name])) (sort_key fst cs)"
proof -
  have "list_all2 (\<lambda>x p. (case x of (name, child) \<Rightarrow> join_child l (path_of ps) name) = Inr p) xs ys \<longleftrightarrow>
      (\<forall>(name, child) \<in> set xs. fits l (path_of (ps @ [name]))) \<and>
      ys = map (\<lambda>(name, child). path_of (ps @ [name])) xs"
    if "set xs \<subseteq> set cs" for xs ys
    using that assms
    by (induction xs arbitrary: ys) (auto simp: list_all2_Cons1 join_child_ok split: prod.splits)
  from this [of "rev (sort_key fst cs)"] show ?thesis
    by (auto simp: join_children_def rbind_Inr_iff rmap_Inr_iff rev_map)
qed

lemma hash_directory_sorted:
  "hash_directory (map g (sort_key f cs)) = hash_directory (map g cs)"
  by (rule hash_directory_mset) simp

lemma measure_rec_ok:
  assumes "tree_ok n" and "list_all seg_ok ps" and "limits_ok l"
  shows "measure_rec l (path_of ps) n = Inr r \<longleftrightarrow>
     inside l ps n \<and> \<not> isl (hash_rec n) \<and>
     r = (int (content_bytes n), int (nodes n), projr (hash_rec n))"
  using assms(1,2)
proof (induction n arbitrary: ps r rule: node_induct)
  case (FileNode b)
  then show ?case by (auto simp: measure_leaf_def)
next
  case (DirNode cs)
  let ?S = "sort_key fst cs"
  let ?f = "\<lambda>(name, child). rbind (measure_rec l (path_of (ps @ [name])) child) (\<lambda>r. Inr (name, child, r)) ::
    (pystr \<times> node \<times> measure) result"
  let ?r = "\<lambda>(name, child). (name, child, int (content_bytes child), int (nodes child), projr (hash_rec child))"
  have seg: "\<forall>(name, child) \<in> set cs. seg_ok name" using DirNode.prems by auto
  have IH: "measure_rec l (path_of (ps @ [name])) child = Inr r \<longleftrightarrow>
      inside l (ps @ [name]) child \<and> \<not> isl (hash_rec child) \<and>
      r = (int (content_bytes child), int (nodes child), projr (hash_rec child))"
    if "(name, child) \<in> set cs" for name child r
    using DirNode.IH [OF that, of "ps @ [name]" r] DirNode.prems that by auto
  have f: "?f x = Inr y \<longleftrightarrow> inside l (ps @ [fst x]) (snd x) \<and> \<not> isl (hash_rec (snd x)) \<and> y = ?r x"
    if "x \<in> set cs" for x y
    using IH [of "fst x" "snd x"] that by (cases x) (auto simp: rbind_Inr_iff)
  have all: "rmap ?f xs = Inr rs \<longleftrightarrow>
      (\<forall>x \<in> set xs. inside l (ps @ [fst x]) (snd x) \<and> \<not> isl (hash_rec (snd x))) \<and> rs = map ?r xs"
    if "set xs \<subseteq> set cs" for xs rs
    using that
  proof (induction xs arbitrary: rs)
    case Nil
    then show ?case by auto
  next
    case (Cons x xs)
    then show ?case using f [of x] by (auto simp: rbind_Inr_iff)
  qed
  have zip: "rmap (\<lambda>((name, child), p). rbind (measure_rec l p child) (\<lambda>r. Inr (name, child, r)))
      (zip ?S (map (\<lambda>(name, child). path_of (ps @ [name])) ?S)) = rmap ?f ?S"
    by (simp add: zip_map2 zip_same_conv_map rmap_map comp_def case_prod_unfold)
  have comb: "measure_combine (map ?r ?S) = Inr q \<longleftrightarrow>
      (\<exists>h. hash_directory (map (\<lambda>(name, child). (name, node_kind child, projr (hash_rec child))) cs) = Inr h \<and>
        q = (int (content_bytes (DirNode cs)), int (nodes (DirNode cs)), h))" for q
    by (auto simp: measure_combine_def rbind_Inr_iff comp_def case_prod_unfold
        hash_directory_sorted sum_list_of_nat [symmetric])
  have "measure_rec l (path_of ps) (DirNode cs) = Inr r \<longleftrightarrow>
      inside l ps (DirNode cs) \<and> (\<exists>h. hash_rec (DirNode cs) = Inr h \<and>
        r = (int (content_bytes (DirNode cs)), int (nodes (DirNode cs)), h))"
    unfolding measure_rec.simps hash_rec_DirNode
    by (auto simp: rbind_Inr_iff join_children_ok [OF DirNode.prems(2) seg assms(3)] zip all comb
        simp del: nodes.simps content_bytes.simps)
  then show ?case
    by (cases "hash_rec (DirNode cs)") (auto simp del: nodes.simps content_bytes.simps hash_rec.simps)
qed

end
