(* ===== verification/Text_Patch.thy ===== *)
theory Text_Patch
  imports Workspace_Models
begin

text \<open>
  \<open>workspace/text.py\<close> and \<open>workspace/patching.py\<close>: the line semantics of text files, the parser
  of the constrained unified-diff format and its applicator. A loop over \<open>lines[index]\<close> is a
  recursion on the lines that are left; the decimal digits outside ASCII, which \<open>\d\<close> and \<open>int\<close>
  accept, are the parameter \<open>nd\<close>.
\<close>

section \<open>Lines\<close>

definition normalize_line_endings :: "pystr \<Rightarrow> pystr" where
  "normalize_line_endings t = replace_cr (replace_crlf t)"

definition split_normalized_lines :: "pystr \<Rightarrow> pystr list \<times> bool" where
  "split_normalized_lines t =
     (let normalized = normalize_line_endings t in
      if normalized = [] then ([], False)
      else
        let had_trailing_newline = endswith normalized [lf];
            ls = split_on lf normalized
        in (if had_trailing_newline then butlast ls else ls, had_trailing_newline))"

definition render_lines :: "pystr list \<Rightarrow> bool \<Rightarrow> pystr" where
  "render_lines ls trailing = join_with [lf] ls @ (if trailing then [lf] else [])"

lemma cr_normalized [simp]: "cr \<notin> set (normalize_line_endings t)"
  by (simp add: normalize_line_endings_def)

lemma normalize_id: "cr \<notin> set t \<Longrightarrow> normalize_line_endings t = t"
  by (simp add: normalize_line_endings_def replace_crlf_id replace_cr_id)

lemma split_on_snoc_sep: "split_on c (xs @ [c]) = split_on c xs @ [[]]"
  by (induction xs) (auto split: list.splits)

lemma split_render:
  assumes "\<forall>l \<in> set ls. lf \<notin> set l \<and> cr \<notin> set l" and "ls \<noteq> []" and "trailing \<or> last ls \<noteq> []"
  shows "split_normalized_lines (render_lines ls trailing) = (ls, trailing)"
proof -
  have "cr \<notin> set (render_lines ls trailing)"
    using assms(1) set_join_with [of lf ls] by (auto simp: render_lines_def)
  then have norm: "normalize_line_endings (render_lines ls trailing) = render_lines ls trailing"
    by (rule normalize_id)
  have split: "split_on lf (join_with [lf] ls) = ls"
    using assms(1,2) by (intro split_join) auto
  have ends: "endswith (render_lines ls trailing) [lf] \<longleftrightarrow> trailing"
  proof (cases trailing)
    case True
    then show ?thesis by (simp add: render_lines_def endswith_def)
  next
    case False
    have "last ls \<in> set ls" using assms(2) by simp
    then have "lf \<notin> set (last ls)" using assms(1) by blast
    moreover have "\<exists>u. join_with [lf] ls = u @ last ls"
      using assms(2) by (induction ls) (auto simp: join_with_Cons)
    ultimately show ?thesis
      using False assms(3) by (auto simp: render_lines_def endswith_def suffix_def)
        (metis append_butlast_last_id last_appendR last_in_set last_snoc)
  qed
  have "render_lines ls trailing \<noteq> []"
    using assms(2,3) split by (cases ls) (auto simp: render_lines_def join_with_Cons split: if_splits)
  then show ?thesis
    using norm split ends
    by (cases trailing) (auto simp: split_normalized_lines_def render_lines_def split_on_snoc_sep)
qed

section \<open>Patches\<close>

record patch_line =
  pl_prefix :: nat
  pl_content :: pystr

record patch_hunk =
  ph_old_start :: int
  ph_old_count :: int
  ph_new_start :: int
  ph_new_count :: int
  ph_lines :: "patch_line list"

record file_patch =
  fp_path :: sandbox_path
  fp_hunks :: "patch_hunk list"

abbreviation (input) space :: nat where "space \<equiv> 32"
abbreviation (input) plus_sign :: nat where "plus_sign \<equiv> 43"
abbreviation (input) minus_sign :: nat where "minus_sign \<equiv> 45"

definition invalid_patch :: "pystr \<Rightarrow> sandbox_error" where
  "invalid_patch m = Raise (Workspace InvalidPatchError) m"

section \<open>Parsing\<close>

text \<open>The run of digits (\<open>\d+\<close>) at the start of a text, and what follows.\<close>

definition take_digits :: "(nat \<Rightarrow> nat option) \<Rightarrow> pystr \<Rightarrow> pystr \<times> pystr" where
  "take_digits nd s =
     (takeWhile (\<lambda>c. is_ascii_digit c \<or> (128 \<le> c \<and> nd c \<noteq> None)) s,
      dropWhile (\<lambda>c. is_ascii_digit c \<or> (128 \<le> c \<and> nd c \<noteq> None)) s)"

text \<open>A start and an optional count, \<open>(\d+)(?:,(\d+))?\<close>: the groups and the rest of the text.\<close>

definition match_range ::
  "(nat \<Rightarrow> nat option) \<Rightarrow> pystr \<Rightarrow> (pystr \<times> pystr option \<times> pystr) option" where
  "match_range nd s =
     (case take_digits nd s of (start, rest) \<Rightarrow>
        if start = [] then None
        else if startswith rest (pstr '','') then
          (case take_digits nd (tl rest) of (cnt, rest') \<Rightarrow>
             if cnt = [] then Some (start, None, rest) else Some (start, Some cnt, rest'))
        else Some (start, None, rest))"

definition match_literal :: "pystr \<Rightarrow> pystr \<Rightarrow> pystr option" where
  "match_literal lit s = (if startswith s lit then Some (drop (length lit) s) else None)"

text \<open>\<open>_HUNK_HEADER.fullmatch\<close>; every part of the pattern is deterministic.\<close>

definition match_hunk_header ::
  "(nat \<Rightarrow> nat option) \<Rightarrow> pystr \<Rightarrow> (pystr \<times> pystr option \<times> pystr \<times> pystr option) option" where
  "match_hunk_header nd line =
     Option.bind (match_literal (pstr ''@@ -'') line) (\<lambda>s1.
     Option.bind (match_range nd s1) (\<lambda>(old_start, old_count, s2).
     Option.bind (match_literal (pstr '' +'') s2) (\<lambda>s3.
     Option.bind (match_range nd s3) (\<lambda>(new_start, new_count, s4).
     Option.bind (match_literal (pstr '' @@'') s4) (\<lambda>s5.
       if s5 = [] \<or> (startswith s5 [space] \<and> lf \<notin> set s5)
       then Some (old_start, old_count, new_start, new_count) else None)))))"

text \<open>
  \<open>int(digits)\<close>. CPython refuses a decimal text of more than 4300 digits with a \<open>ValueError\<close>.
\<close>

definition max_str_digits :: nat where
  "max_str_digits = 4300"

definition int_of_digits :: "(nat \<Rightarrow> nat option) \<Rightarrow> pystr \<Rightarrow> int result" where
  "int_of_digits nd s =
     (if max_str_digits < length s
      then throw (Builtin ValueError)
             (pstr ''Exceeds the limit (4300 digits) for integer string conversion'')
      else (case py_int nd 10 s of
              Some i \<Rightarrow> Inr i
            | None \<Rightarrow> throw (Builtin ValueError) (pstr ''invalid literal for int() with base 10'')))"

definition validate_hunk_range :: "int \<Rightarrow> int \<Rightarrow> int \<Rightarrow> int \<Rightarrow> unit result" where
  "validate_hunk_range old_start old_count new_start new_count =
     (if old_count < 0 \<or> new_count < 0
      then Inl (invalid_patch (pstr ''patch hunk counts must be non-negative''))
      else if old_start < (if old_count = 0 then 0 else 1)
      then Inl (invalid_patch (pstr ''patch hunk old range is invalid''))
      else if new_start < (if new_count = 0 then 0 else 1)
      then Inl (invalid_patch (pstr ''patch hunk new range is invalid''))
      else Inr ())"

definition parse_header_path ::
  "(pystr \<Rightarrow> sandbox_path result) \<Rightarrow> pystr \<Rightarrow> pystr \<Rightarrow> sandbox_path result" where
  "parse_header_path resolve_path line pre =
     (let raw_path = hd (split_on 9 (drop (length pre) line)) in
      if raw_path = []
      then Inl (invalid_patch (pstr ''patch file header path must not be empty''))
      else if raw_path = pstr ''/dev/null''
      then Inl (invalid_patch (pstr ''file creation and deletion patches are unsupported''))
      else
        let raw_path' = (if startswith raw_path (pstr ''a/'') \<or> startswith raw_path (pstr ''b/'')
                         then drop 2 raw_path else raw_path)
        in case resolve_path raw_path' of
             Inr p \<Rightarrow> Inr p
           | Inl e \<Rightarrow>
               if is_sandbox_error e \<or> err_class e \<in> {Builtin TypeError, Builtin ValueError,
                    Builtin UnicodeEncodeError, Builtin UnicodeDecodeError}
               then Inl (invalid_patch (pstr ''patch contains an invalid workspace path''))
               else Inl e)"

text \<open>The body of one hunk: its lines, whether it changes anything, and the lines left.\<close>

fun parse_hunk_lines ::
  "int \<Rightarrow> int \<Rightarrow> pystr list \<Rightarrow> int \<Rightarrow> int \<Rightarrow> bool \<Rightarrow> patch_line list
     \<Rightarrow> (patch_line list \<times> bool \<times> pystr list) result" where
  "parse_hunk_lines old_count new_count [] old_seen new_seen has_change acc =
     (if old_seen < old_count \<or> new_seen < new_count
      then Inl (invalid_patch (pstr ''patch hunk ended before its declared line counts''))
      else Inr (acc, has_change, []))"
| "parse_hunk_lines old_count new_count (line # rest) old_seen new_seen has_change acc =
     (if old_seen < old_count \<or> new_seen < new_count
      then
        if line = 92 # pstr '' No newline at end of file''
        then parse_hunk_lines old_count new_count rest old_seen new_seen has_change acc
        else if line = [] \<or> hd line \<notin> {space, minus_sign, plus_sign}
        then Inl (invalid_patch (pstr ''patch hunk contains an unsupported line''))
        else
          let pre = hd line;
              acc' = acc @ [\<lparr>pl_prefix = pre, pl_content = tl line\<rparr>];
              old_seen' = (if pre \<in> {space, minus_sign} then old_seen + 1 else old_seen);
              new_seen' = (if pre \<in> {space, plus_sign} then new_seen + 1 else new_seen);
              has_change' = (has_change \<or> pre \<in> {minus_sign, plus_sign})
          in if old_seen' > old_count \<or> new_seen' > new_count
             then Inl (invalid_patch (pstr ''patch hunk exceeds its declared line counts''))
             else parse_hunk_lines old_count new_count rest old_seen' new_seen' has_change' acc'
      else Inr (acc, has_change, line # rest))"

definition parse_hunk ::
  "(nat \<Rightarrow> nat option) \<Rightarrow> pystr \<Rightarrow> pystr list \<Rightarrow> (patch_hunk \<times> pystr list) result" where
  "parse_hunk nd line rest =
     (case match_hunk_header nd line of
        None \<Rightarrow> Inl (invalid_patch (pstr ''invalid unified-diff hunk header''))
      | Some (os, oc, ns, nc) \<Rightarrow>
          rbind (int_of_digits nd os) (\<lambda>old_start.
          rbind (int_of_digits nd (case oc of Some c \<Rightarrow> c | None \<Rightarrow> pstr ''1'')) (\<lambda>old_count.
          rbind (int_of_digits nd ns) (\<lambda>new_start.
          rbind (int_of_digits nd (case nc of Some c \<Rightarrow> c | None \<Rightarrow> pstr ''1'')) (\<lambda>new_count.
          rbind (validate_hunk_range old_start old_count new_start new_count) (\<lambda>_.
          rbind (parse_hunk_lines old_count new_count rest 0 0 False []) (\<lambda>(ls, has_change, rest').
            if \<not> has_change
            then Inl (invalid_patch (pstr ''patch hunk must contain at least one change''))
            else Inr (\<lparr>ph_old_start = old_start, ph_old_count = old_count,
                       ph_new_start = new_start, ph_new_count = new_count, ph_lines = ls\<rparr>,
                      rest'))))))))"

lemma parse_hunk_lines_length:
  "parse_hunk_lines oc nc ls os ns ch acc = Inr (acc', ch', rest) \<Longrightarrow> length rest \<le> length ls"
  by (induction ls arbitrary: os ns ch acc) (auto simp: Let_def le_SucI split: if_splits)

lemma parse_hunk_length: "parse_hunk nd line rest = Inr (h, rest') \<Longrightarrow> length rest' \<le> length rest"
  by (auto simp: parse_hunk_def rbind_Inr_iff dest!: parse_hunk_lines_length
      split: option.splits if_splits prod.splits)

function parse_hunks ::
  "(nat \<Rightarrow> nat option) \<Rightarrow> pystr list \<Rightarrow> patch_hunk list \<Rightarrow> (patch_hunk list \<times> pystr list) result" where
  "parse_hunks nd [] hunks = Inr (hunks, [])"
| "parse_hunks nd (line # rest) hunks =
     (if startswith line (pstr ''@@'')
      then rbind (parse_hunk nd line rest) (\<lambda>(h, rest'). parse_hunks nd rest' (hunks @ [h]))
      else Inr (hunks, line # rest))"
  by pat_completeness auto
termination
  by (relation "measure (\<lambda>(nd, ls, hunks). length ls)") (auto dest: parse_hunk_length)

lemma parse_hunks_length: "parse_hunks nd ls hunks = Inr (hs, rest) \<Longrightarrow> length rest \<le> length ls"
proof (induction nd ls hunks rule: parse_hunks.induct)
  case (1 nd hunks)
  then show ?case by simp
next
  case (2 nd line rest0 hunks)
  show ?case
  proof (cases "startswith line (pstr ''@@'')")
    case True
    with "2.prems" obtain h rest' where "parse_hunk nd line rest0 = Inr (h, rest')"
      "parse_hunks nd rest' (hunks @ [h]) = Inr (hs, rest)"
      by (auto simp: rbind_Inr_iff)
    then show ?thesis
      using "2.IH" [OF True, of "(h, rest')" h rest'] parse_hunk_length by fastforce
  next
    case False
    with "2.prems" show ?thesis by simp
  qed
qed

function parse_files ::
  "(nat \<Rightarrow> nat option) \<Rightarrow> (pystr \<Rightarrow> sandbox_path result) \<Rightarrow> pystr list \<Rightarrow> file_patch list
     \<Rightarrow> sandbox_path list \<Rightarrow> file_patch list result" where
  "parse_files nd resolve_path [] files seen = Inr files"
| "parse_files nd resolve_path (line # rest) files seen =
     (if \<not> startswith line (pstr ''--- '')
      then Inl (invalid_patch (pstr ''file section must begin with a --- header''))
      else
        rbind (parse_header_path resolve_path line (pstr ''--- '')) (\<lambda>old_path.
          case rest of
            [] \<Rightarrow> Inl (invalid_patch (pstr ''--- header must be followed by a +++ header''))
          | line' # rest' \<Rightarrow>
              if \<not> startswith line' (pstr ''+++ '')
              then Inl (invalid_patch (pstr ''--- header must be followed by a +++ header''))
              else
                rbind (parse_header_path resolve_path line' (pstr ''+++ '')) (\<lambda>new_path.
                  if old_path \<noteq> new_path
                  then Inl (invalid_patch (pstr ''file rename, creation, and deletion are unsupported''))
                  else if old_path \<in> set seen
                  then Inl (invalid_patch
                         (pstr ''patch contains duplicate file section for '' @ path_value old_path))
                  else
                    rbind (parse_hunks nd rest' []) (\<lambda>(hunks, rest'').
                      if hunks = []
                      then Inl (invalid_patch (pstr ''file section must contain at least one hunk''))
                      else if rest'' \<noteq> [] \<and> \<not> startswith (hd rest'') (pstr ''--- '')
                      then Inl (invalid_patch
                             (pstr ''unexpected content between patch file sections''))
                      else
                        parse_files nd resolve_path rest''
                          (files @ [\<lparr>fp_path = old_path, fp_hunks = hunks\<rparr>])
                          (old_path # seen)))))"
  by pat_completeness auto
termination
  by (relation "measure (\<lambda>(nd, r, ls, files, seen). length ls)") (auto dest!: parse_hunks_length)

definition parse_unified_diff ::
  "(nat \<Rightarrow> nat option) \<Rightarrow> (pystr \<Rightarrow> sandbox_path result) \<Rightarrow> pystr \<Rightarrow> file_patch list result" where
  "parse_unified_diff nd resolve_path patch =
     (let ls0 = split_on lf (normalize_line_endings patch);
          ls = (if last ls0 = [] then butlast ls0 else ls0)
      in if ls = []
         then Inl (invalid_patch (pstr ''patch must contain at least one file section''))
         else parse_files nd resolve_path ls [] [])"

section \<open>Applying\<close>

definition context_mismatch :: "pystr \<Rightarrow> sandbox_error" where
  "context_mismatch m = Raise (Workspace PatchContextMismatchError) m"

text \<open>The lines of a hunk; the state is the result so far and the index into the source lines.\<close>

fun apply_lines ::
  "sandbox_path \<Rightarrow> pystr list \<Rightarrow> patch_line list \<Rightarrow> pystr list \<Rightarrow> nat \<Rightarrow> (pystr list \<times> nat) result" where
  "apply_lines path source [] out source_index = Inr (out, source_index)"
| "apply_lines path source (line # ls) out source_index =
     (if pl_prefix line = plus_sign
      then apply_lines path source ls (out @ [pl_content line]) source_index
      else if source_index \<ge> length source
      then Inl (context_mismatch
             (pstr ''patch context for '' @ path_value path @ pstr '' extends beyond end of file''))
      else
        let actual = source ! source_index in
        if actual \<noteq> pl_content line
        then Inl (context_mismatch
               (pstr ''patch context for '' @ path_value path @ pstr '' does not match at line ''
                @ str_int (int source_index + 1)))
        else apply_lines path source ls
               (if pl_prefix line = space then out @ [actual] else out) (source_index + 1))"

definition target_index :: "patch_hunk \<Rightarrow> int" where
  "target_index h = (if ph_old_count h = 0 then ph_old_start h else ph_old_start h - 1)"

definition expected_new_index :: "patch_hunk \<Rightarrow> int" where
  "expected_new_index h = (if ph_new_count h = 0 then ph_new_start h else ph_new_start h - 1)"

fun apply_hunks ::
  "sandbox_path \<Rightarrow> pystr list \<Rightarrow> patch_hunk list \<Rightarrow> pystr list \<Rightarrow> nat \<Rightarrow> (pystr list \<times> nat) result" where
  "apply_hunks path source [] out source_index = Inr (out, source_index)"
| "apply_hunks path source (h # hs) out source_index =
     (if target_index h < int source_index \<or> target_index h > int (length source)
      then Inl (context_mismatch
             (pstr ''patch hunk for '' @ path_value path
              @ pstr '' targets an invalid or overlapping range''))
      else
        let t = nat (target_index h);
            out' = out @ take (t - source_index) (drop source_index source)
        in if int (length out') \<noteq> expected_new_index h
           then Inl (invalid_patch
                  (pstr ''patch hunk for '' @ path_value path
                   @ pstr '' has inconsistent new line numbers''))
           else rbind (apply_lines path source (ph_lines h) out' t) (\<lambda>(out'', i).
                apply_hunks path source hs out'' i))"

definition patch_source_lines :: "sandbox_path \<Rightarrow> patch_hunk list \<Rightarrow> pystr list \<Rightarrow> pystr list result" where
  "patch_source_lines path hunks source =
     rbind (apply_hunks path source hunks [] 0) (\<lambda>(out, i). Inr (out @ drop i source))"

definition apply_file_patch :: "pystr \<Rightarrow> file_patch \<Rightarrow> pystr result" where
  "apply_file_patch text_content fp =
     (case split_normalized_lines text_content of (source, had_trailing_newline) \<Rightarrow>
        rbind (patch_source_lines (fp_path fp) (fp_hunks fp) source) (\<lambda>out.
        Inr (render_lines out had_trailing_newline)))"

section \<open>What a patch does\<close>

text \<open>The two sides of a hunk, and both texts woven from the gaps between the hunks.\<close>

definition old_side :: "patch_line list \<Rightarrow> pystr list" where
  "old_side ls = map pl_content (filter (\<lambda>l. pl_prefix l \<noteq> plus_sign) ls)"

definition new_side :: "patch_line list \<Rightarrow> pystr list" where
  "new_side ls = map pl_content (filter (\<lambda>l. pl_prefix l = plus_sign \<or> pl_prefix l = space) ls)"

fun weave :: "(patch_line list \<Rightarrow> pystr list) \<Rightarrow> (pystr list \<times> patch_hunk) list \<Rightarrow> pystr list" where
  "weave side [] = []"
| "weave side ((gap, h) # ghs) = gap @ side (ph_lines h) @ weave side ghs"

fun placed :: "nat \<Rightarrow> nat \<Rightarrow> (pystr list \<times> patch_hunk) list \<Rightarrow> bool" where
  "placed i j [] = True"
| "placed i j ((gap, h) # ghs) =
     (target_index h = int (i + length gap) \<and> expected_new_index h = int (j + length gap) \<and>
      placed (i + length gap + length (old_side (ph_lines h)))
        (j + length gap + length (new_side (ph_lines h))) ghs)"

definition patches :: "patch_hunk list \<Rightarrow> pystr list \<Rightarrow> pystr list \<Rightarrow> bool" where
  "patches hunks source out \<longleftrightarrow>
     (\<exists>gaps rest. length gaps = length hunks \<and> placed 0 0 (zip gaps hunks) \<and>
        source = weave old_side (zip gaps hunks) @ rest \<and> out = weave new_side (zip gaps hunks) @ rest)"

lemma apply_lines_ok:
  "i \<le> length source \<Longrightarrow>
   apply_lines path source ls out i = Inr (out', i') \<longleftrightarrow>
     (\<exists>post. drop i source = old_side ls @ post) \<and> out' = out @ new_side ls \<and>
     i' = i + length (old_side ls)"
proof (induction ls arbitrary: out i)
  case Nil
  then show ?case by (auto simp: old_side_def new_side_def)
next
  case (Cons line ls)
  show ?case
  proof (cases "pl_prefix line = plus_sign")
    case True
    with Cons show ?thesis by (auto simp: old_side_def new_side_def)
  next
    case notplus: False
    show ?thesis
    proof (cases "i < length source")
      case True
      then have "drop i source = source ! i # drop (Suc i) source" by (simp add: Cons_nth_drop_Suc)
      with True notplus Cons.IH [of "Suc i"] show ?thesis
        by (auto simp: old_side_def new_side_def Let_def)
    next
      case False
      with notplus Cons.prems show ?thesis by (auto simp: old_side_def)
    qed
  qed
qed

lemma drop_split:
  assumes "drop t s = a @ b" and "t \<le> length s"
  shows "t + length a \<le> length s" and "drop (t + length a) s = b"
proof -
  have "length s - t = length a + length b"
    using assms(1) by (metis length_append length_drop)
  then show "t + length a \<le> length s" using assms(2) by linarith
  have "drop (t + length a) s = drop (length a) (drop t s)" by (simp add: add.commute)
  then show "drop (t + length a) s = b" using assms(1) by simp
qed

lemma apply_hunks_ok:
  "i \<le> length source \<Longrightarrow>
   apply_hunks path source hs out i = Inr (out', i') \<longleftrightarrow>
     (\<exists>gaps rest. length gaps = length hs \<and> placed i (length out) (zip gaps hs) \<and>
        drop i source = weave old_side (zip gaps hs) @ rest \<and>
        out' = out @ weave new_side (zip gaps hs) \<and> i' = i + length (weave old_side (zip gaps hs)))"
proof (induction hs arbitrary: out i)
  case Nil
  then show ?case by auto
next
  case (Cons h hs)
  let ?L = "ph_lines h"
  show ?case (is "?lhs \<longleftrightarrow> ?rhs")
  proof
    assume ?lhs
    then obtain out1 i1 where step:
      "int i \<le> target_index h" "target_index h \<le> int (length source)"
      "int (length (out @ take (nat (target_index h) - i) (drop i source))) = expected_new_index h"
      "apply_lines path source ?L (out @ take (nat (target_index h) - i) (drop i source))
         (nat (target_index h)) = Inr (out1, i1)"
      "apply_hunks path source hs out1 i1 = Inr (out', i')"
      by (auto simp: Let_def rbind_Inr_iff split: if_splits)
    define t where "t = nat (target_index h)"
    define gap where "gap = take (t - i) (drop i source)"
    have t: "i \<le> t" "t \<le> length source" "target_index h = int t"
      using step(1,2) by (auto simp: t_def)
    then have gap: "length gap = t - i" "drop i source = gap @ drop t source"
      using append_take_drop_id [of "t - i" "drop i source"] by (simp_all add: gap_def)
    obtain post where post: "drop t source = old_side ?L @ post" "out1 = (out @ gap) @ new_side ?L"
      "i1 = t + length (old_side ?L)"
      using step(4) apply_lines_ok [OF t(2), of path ?L "out @ gap" out1 i1]
      by (auto simp: t_def gap_def)
    have i1: "i1 \<le> length source" "drop i1 source = post"
      using drop_split [OF post(1) t(2)] post(3) by simp_all
    obtain gaps rest where IH: "length gaps = length hs" "placed i1 (length out1) (zip gaps hs)"
      "post = weave old_side (zip gaps hs) @ rest" "out' = out1 @ weave new_side (zip gaps hs)"
      "i' = i1 + length (weave old_side (zip gaps hs))"
      using Cons.IH [OF i1(1), of out1] step(5) i1(2) by auto
    have new: "expected_new_index h = int (length out + length gap)"
      using step(3) by (simp add: gap_def t_def)
    have il: "i + length gap = t" using gap(1) t(1) by simp
    have o1: "length out1 = length out + length gap + length (new_side ?L)" using post(2) by simp
    have "placed i (length out) (zip (gap # gaps) (h # hs))"
      using t(3) new IH(2) post(3) by (simp add: il o1)
    moreover have "drop i source = weave old_side (zip (gap # gaps) (h # hs)) @ rest"
      using gap(2) post(1) IH(3) by simp
    moreover have "out' = out @ weave new_side (zip (gap # gaps) (h # hs))"
      using IH(4) post(2) by simp
    moreover have "i' = i + length (weave old_side (zip (gap # gaps) (h # hs)))"
      using IH(5) post(3) il by simp
    ultimately show ?rhs using IH(1) by (intro exI [of _ "gap # gaps"] exI [of _ rest]) simp
  next
    assume ?rhs
    then obtain gap gaps rest where r: "length gaps = length hs"
      "placed i (length out) ((gap, h) # zip gaps hs)"
      "drop i source = gap @ old_side ?L @ weave old_side (zip gaps hs) @ rest"
      "out' = out @ gap @ new_side ?L @ weave new_side (zip gaps hs)"
      "i' = i + length gap + length (old_side ?L) + length (weave old_side (zip gaps hs))"
      by (auto simp: length_Suc_conv)
    define t where "t = i + length gap"
    have len: "length source = i + length (gap @ old_side ?L @ weave old_side (zip gaps hs) @ rest)"
      using arg_cong [OF r(3), of length] Cons.prems by simp
    have dt: "drop t source = old_side ?L @ weave old_side (zip gaps hs) @ rest"
      using arg_cong [OF r(3), of "drop (length gap)"] by (simp add: t_def add.commute)
    have tk: "take (t - i) (drop i source) = gap" using r(3) by (simp add: t_def)
    have t: "target_index h = int t" "expected_new_index h = int (length (out @ gap))" "t \<le> length source"
      using r(2) len by (simp_all add: t_def)
    define i1 where "i1 = t + length (old_side ?L)"
    have "apply_lines path source ?L (out @ gap) t = Inr ((out @ gap) @ new_side ?L, i1)"
      using apply_lines_ok [OF t(3)] dt by (simp add: i1_def)
    moreover have "i1 \<le> length source" using len by (simp add: i1_def t_def)
    moreover have "drop i1 source = weave old_side (zip gaps hs) @ rest"
      using arg_cong [OF dt, of "drop (length (old_side ?L))"] by (simp add: i1_def add.commute)
    moreover have "placed i1 (length ((out @ gap) @ new_side ?L)) (zip gaps hs)"
      using r(2) by (simp add: i1_def t_def add.assoc)
    ultimately have "apply_lines path source ?L (out @ gap) t = Inr ((out @ gap) @ new_side ?L, i1)"
      and "apply_hunks path source hs ((out @ gap) @ new_side ?L) i1 = Inr (out', i')"
      using Cons.IH r(1,4,5) by (auto simp: i1_def t_def)
    moreover have "i \<le> t" "t - i = length gap" "take (length gap) (drop i source) = gap"
      using tk by (simp_all add: t_def)
    ultimately show ?lhs
      using t by (simp add: Let_def)
  qed
qed

lemma patch_source_lines_ok [ok_iff]:
  "patch_source_lines path hunks source = Inr out \<longleftrightarrow> patches hunks source out" (is "?l \<longleftrightarrow> ?r")
proof
  assume ?l
  then obtain o1 i where run: "apply_hunks path source hunks [] 0 = Inr (o1, i)"
    "out = o1 @ drop i source"
    by (auto simp: patch_source_lines_def rbind_Inr_iff)
  then obtain gaps rest where g: "length gaps = length hunks" "placed 0 0 (zip gaps hunks)"
    "source = weave old_side (zip gaps hunks) @ rest" "o1 = weave new_side (zip gaps hunks)"
    "i = length (weave old_side (zip gaps hunks))"
    using apply_hunks_ok [of 0 source path hunks "[]" o1 i] by auto
  then have "out = weave new_side (zip gaps hunks) @ rest" using run(2) by simp
  with g show ?r unfolding patches_def by blast
next
  assume ?r
  then obtain gaps rest where g: "length gaps = length hunks" "placed 0 0 (zip gaps hunks)"
    "source = weave old_side (zip gaps hunks) @ rest" "out = weave new_side (zip gaps hunks) @ rest"
    unfolding patches_def by blast
  then have "apply_hunks path source hunks [] 0 =
      Inr (weave new_side (zip gaps hunks), length (weave old_side (zip gaps hunks)))"
    using apply_hunks_ok [of 0 source path hunks "[]"] by auto
  with g(3,4) show ?l by (simp add: patch_source_lines_def)
qed

section \<open>Well-formed hunks and their inverse\<close>

definition prefixes_ok :: "patch_line list \<Rightarrow> bool" where
  "prefixes_ok ls \<longleftrightarrow> list_all (\<lambda>l. pl_prefix l \<in> {space, minus_sign, plus_sign}) ls"

definition hunk_ok :: "patch_hunk \<Rightarrow> bool" where
  "hunk_ok h \<longleftrightarrow>
     prefixes_ok (ph_lines h) \<and>
     int (length (old_side (ph_lines h))) = ph_old_count h \<and>
     int (length (new_side (ph_lines h))) = ph_new_count h \<and>
     (\<exists>l \<in> set (ph_lines h). pl_prefix l \<noteq> space) \<and>
     (if ph_old_count h = 0 then 0 else 1) \<le> ph_old_start h \<and>
     (if ph_new_count h = 0 then 0 else 1) \<le> ph_new_start h"

definition file_patch_ok :: "file_patch \<Rightarrow> bool" where
  "file_patch_ok fp \<longleftrightarrow> fp_hunks fp \<noteq> [] \<and> list_all hunk_ok (fp_hunks fp)"

definition inverse_line :: "patch_line \<Rightarrow> patch_line" where
  "inverse_line l =
     l\<lparr>pl_prefix := (if pl_prefix l = plus_sign then minus_sign
                     else if pl_prefix l = minus_sign then plus_sign else pl_prefix l)\<rparr>"

definition inverse_hunk :: "patch_hunk \<Rightarrow> patch_hunk" where
  "inverse_hunk h =
     \<lparr>ph_old_start = ph_new_start h, ph_old_count = ph_new_count h,
      ph_new_start = ph_old_start h, ph_new_count = ph_old_count h,
      ph_lines = map inverse_line (ph_lines h)\<rparr>"

lemma sides_Cons:
  "old_side (l # ls) = (if pl_prefix l = plus_sign then [] else [pl_content l]) @ old_side ls"
  "new_side (l # ls) =
     (if pl_prefix l = plus_sign \<or> pl_prefix l = space then [pl_content l] else []) @ new_side ls"
  "old_side [] = []" "new_side [] = []"
  by (simp_all add: old_side_def new_side_def)

lemma sides_snoc:
  "old_side (ls @ [l]) = old_side ls @ (if pl_prefix l = plus_sign then [] else [pl_content l])"
  "new_side (ls @ [l]) =
     new_side ls @ (if pl_prefix l = plus_sign \<or> pl_prefix l = space then [pl_content l] else [])"
  by (simp_all add: old_side_def new_side_def)



lemma inverse_line_involution: "inverse_line (inverse_line l) = l"
  by (simp add: inverse_line_def)

lemma inverse_hunk_involution: "inverse_hunk (inverse_hunk h) = h"
  by (simp add: inverse_hunk_def comp_def inverse_line_involution)




section \<open>What the parser guarantees\<close>

lemma parse_hunk_lines_ok:
  assumes "parse_hunk_lines oc nc ls os ns ch acc = Inr (acc', ch', rest)"
    and "prefixes_ok acc" and "int (length (old_side acc)) = os" and "int (length (new_side acc)) = ns"
    and "ch \<longleftrightarrow> (\<exists>l \<in> set acc. pl_prefix l \<noteq> space)" and "os \<le> oc" and "ns \<le> nc"
  shows "prefixes_ok acc' \<and> int (length (old_side acc')) = oc \<and> int (length (new_side acc')) = nc \<and>
    (ch' \<longleftrightarrow> (\<exists>l \<in> set acc'. pl_prefix l \<noteq> space))"
  using assms
proof (induction ls arbitrary: os ns ch acc)
  case Nil
  then show ?case by (auto split: if_splits)
next
  case (Cons line rest0)
  show ?case
  proof (cases "(os < oc \<or> ns < nc) \<and> line \<noteq> 92 # pstr '' No newline at end of file''")
    case True
    let ?pre = "hd line"
    let ?acc = "acc @ [\<lparr>pl_prefix = ?pre, pl_content = tl line\<rparr>]"
    let ?os = "if ?pre \<in> {space, minus_sign} then os + 1 else os"
    let ?ns = "if ?pre \<in> {space, plus_sign} then ns + 1 else ns"
    have run: "?pre \<in> {space, minus_sign, plus_sign}" "\<not> ?os > oc" "\<not> ?ns > nc"
      "parse_hunk_lines oc nc rest0 ?os ?ns (ch \<or> ?pre \<in> {minus_sign, plus_sign}) ?acc
         = Inr (acc', ch', rest)"
      using Cons.prems(1) True by (auto simp: Let_def split: if_splits)
    have acc: "prefixes_ok ?acc" using Cons.prems(2) run(1) by (simp add: prefixes_ok_def)
    have old: "int (length (old_side ?acc)) = ?os"
      using Cons.prems(3) run(1) by (auto simp: sides_snoc)
    have new: "int (length (new_side ?acc)) = ?ns"
      using Cons.prems(4) run(1) by (auto simp: sides_snoc)
    have change: "(ch \<or> ?pre \<in> {minus_sign, plus_sign}) \<longleftrightarrow> (\<exists>l \<in> set ?acc. pl_prefix l \<noteq> space)"
      using Cons.prems(5) run(1) by auto
    have "?os \<le> oc" "?ns \<le> nc" using run(2,3) by simp_all
    then show ?thesis by (rule Cons.IH [OF run(4) acc old new change])
  next
    case False
    then show ?thesis
      using Cons.prems Cons.IH [of os ns ch acc] by (auto split: if_splits)
  qed
qed

lemma parse_hunk_steps:
  assumes "parse_hunk nd line rest = Inr (h, rest')"
  obtains oc nc ls where "validate_hunk_range (ph_old_start h) oc (ph_new_start h) nc = Inr ()"
    "parse_hunk_lines oc nc rest 0 0 False [] = Inr (ls, True, rest')"
    "ph_lines h = ls" "ph_old_count h = oc" "ph_new_count h = nc"
proof -
  obtain os oc ns nc where m: "match_hunk_header nd line = Some (os, oc, ns, nc)"
    using assms by (cases "match_hunk_header nd line") (auto simp: parse_hunk_def)
  show ?thesis
    using assms that unfolding parse_hunk_def m
    by (auto simp: rbind_Inr_iff split: if_splits)
qed

lemma parse_hunk_ok: "parse_hunk nd line rest = Inr (h, rest') \<Longrightarrow> hunk_ok h"
proof (elim parse_hunk_steps)
  fix oc nc ls
  assume v: "validate_hunk_range (ph_old_start h) oc (ph_new_start h) nc = Inr ()"
    and run: "parse_hunk_lines oc nc rest 0 0 False [] = Inr (ls, True, rest')"
    and h: "ph_lines h = ls" "ph_old_count h = oc" "ph_new_count h = nc"
  have "0 \<le> oc" "0 \<le> nc" using v by (auto simp: validate_hunk_range_def split: if_splits)
  then have "prefixes_ok ls \<and> int (length (old_side ls)) = oc \<and> int (length (new_side ls)) = nc \<and>
      (True \<longleftrightarrow> (\<exists>l \<in> set ls. pl_prefix l \<noteq> space))"
    by (intro parse_hunk_lines_ok [OF run]) (simp_all add: prefixes_ok_def sides_Cons)
  with v h show ?thesis
    by (auto simp: hunk_ok_def validate_hunk_range_def split: if_splits)
qed

lemma parse_hunks_ok:
  "parse_hunks nd ls hunks = Inr (hs, rest) \<Longrightarrow> list_all hunk_ok hunks \<Longrightarrow> list_all hunk_ok hs"
proof (induction nd ls hunks rule: parse_hunks.induct)
  case (1 nd hunks)
  then show ?case by simp
next
  case (2 nd line rest0 hunks)
  show ?case
  proof (cases "startswith line (pstr ''@@'')")
    case True
    with "2.prems" obtain h rest' where "parse_hunk nd line rest0 = Inr (h, rest')"
      "parse_hunks nd rest' (hunks @ [h]) = Inr (hs, rest)"
      by (auto simp: rbind_Inr_iff)
    then show ?thesis
      using "2.IH" [OF True, of "(h, rest')" h rest'] parse_hunk_ok "2.prems"(2) by fastforce
  next
    case False
    with "2.prems" show ?thesis by simp
  qed
qed

lemma parse_header_path_resolved:
  "parse_header_path r line pre = Inr p \<Longrightarrow> \<exists>v. r v = Inr p"
  by (auto simp: parse_header_path_def Let_def split: if_splits sum.splits)

lemma parse_files_step:
  assumes "parse_files nd r (line # rest) files seen = Inr fs"
  obtains p hunks rest'' where "p \<notin> set seen" "\<exists>v. r v = Inr p" "hunks \<noteq> []" "list_all hunk_ok hunks"
    "length rest'' \<le> length rest"
    "parse_files nd r rest'' (files @ [\<lparr>fp_path = p, fp_hunks = hunks\<rparr>]) (p # seen) = Inr fs"
proof -
  have line: "startswith line (pstr ''--- '')"
    using assms by (auto split: if_splits)
  then obtain p where p: "parse_header_path r line (pstr ''--- '') = Inr p"
    using assms by (cases "parse_header_path r line (pstr ''--- '')") auto
  then obtain line' rest' where rest: "rest = line' # rest'"
    using assms line by (cases rest) auto
  have line': "startswith line' (pstr ''+++ '')"
    using assms line p rest by (auto split: if_splits)
  then have p': "parse_header_path r line' (pstr ''+++ '') = Inr p"
    using assms line p rest
    by (cases "parse_header_path r line' (pstr ''+++ '')") (auto split: if_splits)
  obtain hunks rest'' where hunks: "parse_hunks nd rest' [] = Inr (hunks, rest'')"
    using assms line p rest line' p'
    by (cases "parse_hunks nd rest' []") (auto split: if_splits)
  then have st: "rest = line' # rest'" "p \<notin> set seen" "hunks \<noteq> []"
    "parse_hunks nd rest' [] = Inr (hunks, rest'')"
    "parse_files nd r rest'' (files @ [\<lparr>fp_path = p, fp_hunks = hunks\<rparr>]) (p # seen) = Inr fs"
    using assms line p rest line' p' by (auto split: if_splits)
  show ?thesis
    using that [OF st(2) parse_header_path_resolved [OF p] st(3) _ _ st(5)] parse_hunks_ok [OF st(4)] parse_hunks_length [OF st(4)] st(1)
    by simp
qed

lemma parse_files_ok:
  assumes "parse_files nd r ls files seen = Inr fs"
    and "set seen = fp_path ` set files" and "distinct (map fp_path files)"
    and "list_all file_patch_ok files"
  shows "distinct (map fp_path fs) \<and> list_all file_patch_ok fs \<and> prefix files fs \<and>
    (ls \<noteq> [] \<longrightarrow> fs \<noteq> [])"
  using assms
proof (induction "length ls" arbitrary: ls files seen rule: less_induct)
  case less
  show ?case
  proof (cases ls)
    case Nil
    with less.prems show ?thesis by simp
  next
    case (Cons line rest)
    obtain p hunks rest'' where st: "p \<notin> set seen" "hunks \<noteq> []" "list_all hunk_ok hunks"
      "length rest'' \<le> length rest"
      "parse_files nd r rest'' (files @ [\<lparr>fp_path = p, fp_hunks = hunks\<rparr>]) (p # seen) = Inr fs"
      using parse_files_step less.prems(1) Cons by metis
    let ?files = "files @ [\<lparr>fp_path = p, fp_hunks = hunks\<rparr>]"
    have "distinct (map fp_path fs) \<and> list_all file_patch_ok fs \<and> prefix ?files fs \<and>
        (rest'' \<noteq> [] \<longrightarrow> fs \<noteq> [])"
      using less.prems st Cons
      by (intro less.hyps [OF _ st(5)]) (auto simp: file_patch_ok_def)
    then show ?thesis by (auto dest: append_prefixD)
  qed
qed

lemma parse_files_paths:
  "parse_files nd r ls files seen = Inr fs \<Longrightarrow> \<forall>fp \<in> set files. \<exists>v. r v = Inr (fp_path fp) \<Longrightarrow>
     \<forall>fp \<in> set fs. \<exists>v. r v = Inr (fp_path fp)"
proof (induction "length ls" arbitrary: ls files seen rule: less_induct)
  case less
  show ?case
  proof (cases ls)
    case Nil
    with less.prems show ?thesis by simp
  next
    case (Cons line rest)
    obtain p hunks rest'' where st: "\<exists>v. r v = Inr p" "length rest'' \<le> length rest"
      "parse_files nd r rest'' (files @ [\<lparr>fp_path = p, fp_hunks = hunks\<rparr>]) (p # seen) = Inr fs"
      using parse_files_step less.prems(1) Cons by metis
    then show ?thesis using less.hyps [OF _ st(3)] less.prems(2) Cons by simp
  qed
qed

lemma parse_unified_diff_paths:
  assumes "parse_unified_diff nd r patch = Inr files" and "fp \<in> set files"
  shows "\<exists>v. r v = Inr (fp_path fp)"
proof -
  obtain ls where "parse_files nd r ls [] [] = Inr files"
    using assms(1) by (auto simp: parse_unified_diff_def Let_def split: if_splits)
  with parse_files_paths [of nd r ls "[]" "[]" files] assms(2) show ?thesis by simp
qed

section \<open>Properties\<close>

text \<open>
  C17: a parsed patch is well formed: at least one file section, no path twice, every section
  with at least one hunk, and every hunk with exactly the declared numbers of old and new
  lines, only context, removal and addition lines, at least one change and valid starts.
\<close>

theorem parsed_patch_well_formed:
  assumes "parse_unified_diff nd resolve_path patch = Inr files"
  shows "files \<noteq> [] \<and> distinct (map fp_path files) \<and> list_all file_patch_ok files"
proof -
  obtain ls where "ls \<noteq> []" "parse_files nd resolve_path ls [] [] = Inr files"
    using assms by (auto simp: parse_unified_diff_def Let_def split: if_splits)
  with parse_files_ok [of nd resolve_path ls "[]" "[]" files] show ?thesis by simp
qed

definition sample_patch :: pystr where
  "sample_patch =
     pstr ''--- a/f'' @ [lf] @ pstr ''+++ b/f'' @ [lf] @ pstr ''@@ -1 +1,2 @@'' @ [lf]
       @ pstr '' x'' @ [lf] @ pstr ''+y'' @ [lf]"

lemma parsed_patch_well_formed_witness:
  "\<exists>files. parse_unified_diff (\<lambda>_. None) (\<lambda>_. Inr root_path) sample_patch = Inr files \<and>
     distinct (map fp_path files) \<and> list_all file_patch_ok files"
proof -
  have "\<exists>files. parse_unified_diff (\<lambda>_. None) (\<lambda>_. Inr root_path) sample_patch = Inr files"
    by (simp add: parse_unified_diff_def sample_patch_def pstr_simps normalize_line_endings_def
        parse_header_path_def startswith_def parse_hunk_def match_hunk_header_def match_literal_def
        match_range_def take_digits_def is_ascii_digit_def int_of_digits_def max_str_digits_def
        validate_hunk_range_def replace_cr_def Let_def py_int_def int_nonempty_def
        is_ascii_letter_def int_unsigned_def strip_chars_def is_space_def digit_of_def)
  then show ?thesis using parsed_patch_well_formed by blast
qed

text \<open>
  C15: applying a patch is exactly the substitution it denotes: it succeeds when the file's
  lines are the old sides of the hunks woven with unchanged gaps, each hunk at its declared old
  and new line number, and then returns the new sides woven with the same gaps, with the
  trailing newline kept; in every other case it raises.
\<close>

theorem apply_file_patch_returns:
  "apply_file_patch text_content fp = Inr out_text \<longleftrightarrow>
     (\<exists>out. patches (fp_hunks fp) (fst (split_normalized_lines text_content)) out \<and>
            out_text = render_lines out (snd (split_normalized_lines text_content)))"
  by (auto simp: apply_file_patch_def rbind_Inr_iff patch_source_lines_ok split: prod.splits)



text \<open>
  Removing every line of a file that ends with a newline leaves one newline, not an empty file.
\<close>

lemma delete_all_lines_leaves_newline:
  "apply_file_patch [97, lf]
     \<lparr>fp_path = p, fp_hunks = [\<lparr>ph_old_start = 1, ph_old_count = 1, ph_new_start = 0,
        ph_new_count = 0, ph_lines = [\<lparr>pl_prefix = minus_sign, pl_content = [97]\<rparr>]\<rparr>]\<rparr> =
   Inr [lf]"
  by (simp add: apply_file_patch_def split_normalized_lines_def normalize_line_endings_def
      replace_crlf_id replace_cr_id endswith_def patch_source_lines_def target_index_def
      expected_new_index_def render_lines_def suffix_def)

end
