(* ===== verification/Memory_Workspace.thy ===== *)
theory Memory_Workspace
  imports Node_Measure Text_Patch
begin

text \<open>
  \<open>MemoryWorkspace\<close> of \<open>workspace/memory.py\<close>: its state, its reads and its mutations. The async
  lock makes every operation run alone, so an operation is a function of the state. A mutation
  is an action: the outcome and the state left behind, whichever way it ends; that an error
  leaves the state as it was is proved, not built in.
\<close>

section \<open>State\<close>

record workspace_state =
  st_root :: directory
  st_stats :: workspace_stats

record restore_payload =
  pp_state :: workspace_state
  pp_expected_stats :: workspace_stats

record memory_workspace =
  ws_limits :: workspace_limits
  ws_state :: workspace_state
  ws_restore_token :: nat
  ws_restore_candidates :: "(nat, restore_payload) dict"
  ws_next_capability :: nat

type_synonym 'a ws_action = "(memory_workspace, sandbox_error, 'a) action"

abbreviation ws_root :: "memory_workspace \<Rightarrow> directory" where
  "ws_root w \<equiv> st_root (ws_state w)"

abbreviation ws_stats :: "memory_workspace \<Rightarrow> workspace_stats" where
  "ws_stats w \<equiv> st_stats (ws_state w)"

definition resolve_path :: "workspace_limits \<Rightarrow> pystr \<Rightarrow> sandbox_path option \<Rightarrow> sandbox_path result" where
  "resolve_path l v cwd = resolve v cwd (max_path_bytes l) (max_segment_bytes l)"

definition validate_path :: "workspace_limits \<Rightarrow> sandbox_path \<Rightarrow> sandbox_path result" where
  "validate_path l p = rbind (resolve_path l (path_value p) None) (\<lambda>_. Inr p)"

definition state_for_root :: "workspace_limits \<Rightarrow> directory \<Rightarrow> revision \<Rightarrow> workspace_state result" where
  "state_for_root l root_dir revn =
     rbind (measure_node (DirNode root_dir) root_path l) (\<lambda>(nbytes, nnodes, h).
     if nbytes > max_total_bytes l
     then throw (Workspace WorkspaceSizeLimitExceededError)
            (pstr ''workspace contains '' @ str_int nbytes @ pstr '' bytes; limit is ''
             @ str_int (max_total_bytes l) @ pstr '' bytes'')
     else if nnodes > max_nodes l
     then throw (Workspace NodeLimitExceededError)
            (pstr ''workspace contains '' @ str_int nnodes @ pstr '' nodes; limit is ''
             @ str_int (max_nodes l) @ pstr '' nodes'')
     else Inr \<lparr>st_root = root_dir,
               st_stats = \<lparr>total_bytes = nbytes, node_count = nnodes, ws_revision = revn, root_hash = h\<rparr>\<rparr>)"

definition workspace_new :: "workspace_limits \<Rightarrow> nat \<Rightarrow> memory_workspace result" where
  "workspace_new l token =
     rbind (state_for_root l [] revision_initial) (\<lambda>st.
     Inr \<lparr>ws_limits = l, ws_state = st, ws_restore_token = token, ws_restore_candidates = [],
          ws_next_capability = 0\<rparr>)"

definition commit :: "directory \<Rightarrow> workspace_state ws_action" where
  "commit root_dir = (\<lambda>w.
     case state_for_root (ws_limits w) root_dir (revision_next (ws_revision (ws_stats w))) of
       Inl e \<Rightarrow> (Inl e, w)
     | Inr st \<Rightarrow> (Inr st, w\<lparr>ws_state := st\<rparr>))"

section \<open>Reads\<close>

definition decode_utf8 :: "sandbox_path \<Rightarrow> byte list \<Rightarrow> pystr result" where
  "decode_utf8 p b =
     (case utf8_decode b of
        Inr t \<Rightarrow> Inr t
      | Inl _ \<Rightarrow> throw (Workspace FileEncodingError) (path_value p @ pstr '' is not valid UTF-8''))"

definition entry :: "sandbox_path \<Rightarrow> node \<Rightarrow> revision \<Rightarrow> workspace_entry result" where
  "entry p n revn =
     rbind (node_hash n) (\<lambda>h.
     Inr \<lparr>we_path = p, we_kind = node_kind n,
          we_size_bytes = (case n of FileNode b \<Rightarrow> int (length b) | DirNode _ \<Rightarrow> 0),
          we_content_hash = h, we_revision = revn\<rparr>)"

definition ws_stat :: "memory_workspace \<Rightarrow> sandbox_path \<Rightarrow> workspace_entry result" where
  "ws_stat w p =
     rbind (validate_path (ws_limits w) p) (\<lambda>_.
     rbind (get_node (ws_root w) p) (\<lambda>n.
     entry p n (ws_revision (ws_stats w))))"

definition ws_list :: "memory_workspace \<Rightarrow> sandbox_path \<Rightarrow> workspace_entry list result" where
  "ws_list w p =
     rbind (validate_path (ws_limits w) p) (\<lambda>_.
     rbind (get_node (ws_root w) p) (\<lambda>n.
       case n of
         FileNode _ \<Rightarrow> Inl (not_a_directory p)
       | DirNode cs \<Rightarrow>
           rmap (\<lambda>(name, child).
             rbind (join_child (ws_limits w) p name) (\<lambda>q. entry q child (ws_revision (ws_stats w))))
             (sort_key fst cs)))"

definition ws_read_bytes :: "memory_workspace \<Rightarrow> sandbox_path \<Rightarrow> binary_result result" where
  "ws_read_bytes w p =
     rbind (validate_path (ws_limits w) p) (\<lambda>_.
     rbind (get_node (ws_root w) p) (\<lambda>n.
     rbind (require_file n p) (\<lambda>b.
     Inr \<lparr>br_path = p, br_content = b, br_content_hash = from_bytes b,
          br_revision = ws_revision (ws_stats w)\<rparr>)))"

definition ws_read_text :: "memory_workspace \<Rightarrow> sandbox_path \<Rightarrow> text_result result" where
  "ws_read_text w p =
     rbind (validate_path (ws_limits w) p) (\<lambda>_.
     rbind (get_node (ws_root w) p) (\<lambda>n.
     rbind (require_file n p) (\<lambda>b.
     rbind (decode_utf8 p b) (\<lambda>t.
     Inr \<lparr>tr_path = p, tr_content = t, tr_content_hash = from_bytes b,
          tr_revision = ws_revision (ws_stats w)\<rparr>))))"

text \<open>\<open>text.encode("utf-8")\<close>, which raises \<open>UnicodeEncodeError\<close> on a surrogate.\<close>

definition encode_utf8 :: "pystr \<Rightarrow> byte list result" where
  "encode_utf8 t =
     (case utf8_encode t of
        Some bs \<Rightarrow> Inr bs
      | None \<Rightarrow> throw (Builtin UnicodeEncodeError) (pstr ''surrogates not allowed''))"

definition read_limit_error :: "int \<Rightarrow> pystr \<Rightarrow> int \<Rightarrow> sandbox_error" where
  "read_limit_error n unit limit =
     Raise (Workspace ReadLimitExceededError)
       (pstr ''range contains '' @ str_int n @ pstr '' '' @ unit @ pstr ''; limit is ''
        @ str_int limit @ pstr '' '' @ unit)"

definition ws_read_range :: "memory_workspace \<Rightarrow> range_request \<Rightarrow> range_result result" where
  "ws_read_range w r =
     rbind (validate_path (ws_limits w) (rq_path r)) (\<lambda>_.
     rbind (get_node (ws_root w) (rq_path r)) (\<lambda>n.
     rbind (require_file n (rq_path r)) (\<lambda>b.
     rbind (decode_utf8 (rq_path r) b) (\<lambda>t.
       let ls = fst (split_normalized_lines t);
           total_lines = int (length ls)
       in if total_lines = 0
          then Inr \<lparr>rr_path = rq_path r, rr_content = [], rr_start_line = 1, rr_end_line = 0,
                    rr_total_lines = 0, rr_content_hash = from_bytes b,
                    rr_revision = ws_revision (ws_stats w)\<rparr>
          else if rq_start_line r > total_lines
          then throw (Workspace InvalidRangeError)
                 (pstr ''start line '' @ str_int (rq_start_line r) @ pstr '' is outside a ''
                  @ str_int total_lines @ pstr ''-line file'')
          else
            let end_line = min (case rq_end_line r of None \<Rightarrow> total_lines
                                | Some e \<Rightarrow> if e = 0 then total_lines else e) total_lines;
                line_count = end_line - rq_start_line r + 1
            in if line_count > max_read_lines (ws_limits w)
               then Inl (read_limit_error line_count (pstr ''lines'') (max_read_lines (ws_limits w)))
               else
                 let text_content = join_with [lf]
                       (take (nat (end_line - (rq_start_line r - 1))) (drop (nat (rq_start_line r - 1)) ls))
                 in rbind (encode_utf8 text_content) (\<lambda>bs.
                    if int (length bs) > max_read_bytes (ws_limits w)
                    then Inl (read_limit_error (int (length bs)) (pstr ''bytes'')
                                (max_read_bytes (ws_limits w)))
                    else Inr \<lparr>rr_path = rq_path r, rr_content = text_content,
                              rr_start_line = rq_start_line r, rr_end_line = end_line,
                              rr_total_lines = total_lines, rr_content_hash = from_bytes b,
                              rr_revision = ws_revision (ws_stats w)\<rparr>)))))"

section \<open>Mutations\<close>

definition already_exists :: "sandbox_path \<Rightarrow> sandbox_error" where
  "already_exists p = Raise (Workspace PathAlreadyExistsError) (path_value p @ pstr '' already exists'')"

definition file_limit_error :: "workspace_limits \<Rightarrow> byte list \<Rightarrow> sandbox_error" where
  "file_limit_error l b =
     Raise (Workspace FileSizeLimitExceededError)
       (pstr ''file contains '' @ str_int (int (length b)) @ pstr '' bytes; limit is ''
        @ str_int (max_file_bytes l) @ pstr '' bytes'')"

definition ws_mkdir :: "mkdir_request \<Rightarrow> workspace_mutation ws_action" where
  "ws_mkdir r =
     act_bind (act_get (\<lambda>w. w)) (\<lambda>w.
     act_bind (act_lift (validate_path (ws_limits w) (mk_path r))) (\<lambda>_.
     act_bind (act_lift (try_get_node (ws_root w) (mk_path r))) (\<lambda>existing.
       case existing of
         Some n \<Rightarrow>
           if mk_exist_ok r \<and> node_kind n = DIRECTORY
           then act_bind (act_lift (node_hash n)) (\<lambda>h.
                act_ret \<lparr>wm_path = mk_path r, wm_created = False, wm_changed = False,
                         wm_previous_hash = Some h, wm_current_hash = Some h,
                         wm_stats = ws_stats w\<rparr>)
           else act_lift (Inl (already_exists (mk_path r)))
       | None \<Rightarrow>
           act_bind (act_lift (clone_directory (ws_root w) (max_nodes (ws_limits w)))) (\<lambda>root1.
           act_bind (act_lift (ensure_parent root1 (mk_path r) (mk_create_parents r) (ws_limits w))) (\<lambda>root2.
           act_bind (commit (put_child root2 (mk_path r) (DirNode []))) (\<lambda>next_state.
           act_bind (act_lift (rbind (get_node (st_root next_state) (mk_path r)) node_hash)) (\<lambda>h.
           act_ret \<lparr>wm_path = mk_path r, wm_created = True, wm_changed = True,
                    wm_previous_hash = None, wm_current_hash = Some h,
                    wm_stats = st_stats next_state\<rparr>)))))))"

definition validate_write_precondition ::
  "sandbox_path \<Rightarrow> node option \<Rightarrow> write_precondition \<Rightarrow> content_hash option result" where
  "validate_write_precondition p existing pre =
     (case existing of
        Some (DirNode _) \<Rightarrow> Inl (not_a_file p)
      | None \<Rightarrow>
          (case pre of
             ContentHashMustEqual _ \<Rightarrow> Inl (not_found p)
           | PathMustNotExist \<Rightarrow> Inr None
           | AnyCurrentState \<Rightarrow> Inr None)
      | Some (FileNode b) \<Rightarrow>
          (case pre of
             PathMustNotExist \<Rightarrow> Inl (already_exists p)
           | ContentHashMustEqual h \<Rightarrow>
               if from_bytes b \<noteq> h
               then throw (Workspace StaleContentError)
                      (path_value p @ pstr '' content hash does not match the expected hash'')
               else Inr (Some (from_bytes b))
           | AnyCurrentState \<Rightarrow> Inr (Some (from_bytes b))))"

text \<open>The part \<open>write\<close> and \<open>append\<close> share: put the file, commit, report.\<close>

definition put_file_and_commit ::
  "memory_workspace \<Rightarrow> write_request \<Rightarrow> node option \<Rightarrow> content_hash option \<Rightarrow> byte list
     \<Rightarrow> workspace_mutation ws_action" where
  "put_file_and_commit w r existing previous_hash b =
     act_bind (act_lift (clone_directory (ws_root w) (max_nodes (ws_limits w)))) (\<lambda>root1.
     act_bind (act_lift (ensure_parent root1 (wr_path r) (wr_create_parents r) (ws_limits w))) (\<lambda>root2.
     act_bind (commit (put_child root2 (wr_path r) (FileNode b))) (\<lambda>next_state.
     act_ret \<lparr>wm_path = wr_path r, wm_created = (existing = None), wm_changed = True,
              wm_previous_hash = previous_hash, wm_current_hash = Some (from_bytes b),
              wm_stats = st_stats next_state\<rparr>)))"

definition ws_write :: "write_request \<Rightarrow> workspace_mutation ws_action" where
  "ws_write r =
     act_bind (act_get (\<lambda>w. w)) (\<lambda>w.
     act_bind (act_lift (validate_path (ws_limits w) (wr_path r))) (\<lambda>_.
     act_bind (act_lift (guard (\<not> is_root (wr_path r)) (not_a_file (wr_path r)))) (\<lambda>_.
     act_bind (act_lift (guard (\<not> int (length (wr_content r)) > max_file_bytes (ws_limits w))
                           (file_limit_error (ws_limits w) (wr_content r)))) (\<lambda>_.
     act_bind (act_lift (try_get_node (ws_root w) (wr_path r))) (\<lambda>existing.
     act_bind (act_lift (validate_write_precondition (wr_path r) existing (wr_precondition r))) (\<lambda>previous_hash.
     put_file_and_commit w r existing previous_hash (wr_content r)))))))"

definition ws_append :: "append_request \<Rightarrow> workspace_mutation ws_action" where
  "ws_append r =
     act_bind (act_get (\<lambda>w. w)) (\<lambda>w.
     act_bind (act_lift (validate_path (ws_limits w) (wr_path r))) (\<lambda>_.
     act_bind (act_lift (guard (\<not> is_root (wr_path r)) (not_a_file (wr_path r)))) (\<lambda>_.
     act_bind (act_lift (try_get_node (ws_root w) (wr_path r))) (\<lambda>existing.
     act_bind (act_lift (validate_write_precondition (wr_path r) existing (wr_precondition r))) (\<lambda>previous_hash.
       let b = (case existing of Some (FileNode b0) \<Rightarrow> b0 | _ \<Rightarrow> []) @ wr_content r in
       act_bind (act_lift (guard (\<not> int (length b) > max_file_bytes (ws_limits w))
                             (file_limit_error (ws_limits w) b))) (\<lambda>_.
       put_file_and_commit w r existing previous_hash b))))))"

definition ws_remove :: "remove_request \<Rightarrow> workspace_mutation ws_action" where
  "ws_remove r =
     act_bind (act_get (\<lambda>w. w)) (\<lambda>w.
     act_bind (act_lift (validate_path (ws_limits w) (rm_path r))) (\<lambda>_.
     act_bind (act_lift (guard (\<not> is_root (rm_path r))
       (Raise (Workspace RootModificationError) (pstr ''the workspace root cannot be removed'')))) (\<lambda>_.
     act_bind (act_lift (try_get_node (ws_root w) (rm_path r))) (\<lambda>existing.
       case existing of
         None \<Rightarrow>
           if rm_missing_ok r
           then act_ret \<lparr>wm_path = rm_path r, wm_created = False, wm_changed = False,
                         wm_previous_hash = None, wm_current_hash = None, wm_stats = ws_stats w\<rparr>
           else act_lift (Inl (not_found (rm_path r)))
       | Some n \<Rightarrow>
           act_bind (act_lift (guard (\<not> (node_kind n = DIRECTORY \<and> children n \<noteq> [] \<and> \<not> rm_recursive r))
             (Raise (Workspace DirectoryNotEmptyError) (path_value (rm_path r) @ pstr '' is not empty'')))) (\<lambda>_.
           act_bind (act_lift (node_hash n)) (\<lambda>previous_hash.
           act_bind (act_lift (clone_directory (ws_root w) (max_nodes (ws_limits w)))) (\<lambda>root1.
           act_bind (act_lift (del_child root1 (rm_path r))) (\<lambda>root2.
           act_bind (commit root2) (\<lambda>next_state.
           act_ret \<lparr>wm_path = rm_path r, wm_created = False, wm_changed = True,
                    wm_previous_hash = Some previous_hash, wm_current_hash = None,
                    wm_stats = st_stats next_state\<rparr>)))))))))"

definition validate_transfer_paths :: "sandbox_path \<Rightarrow> sandbox_path \<Rightarrow> unit result" where
  "validate_transfer_paths source destination =
     (if is_root source \<or> is_root destination
      then throw (Workspace RootModificationError)
             (pstr ''the workspace root cannot be copied or moved'')
      else if source = destination
      then throw (Workspace SamePathError) (pstr ''source and destination must differ'')
      else if is_ancestor_of source destination \<or> is_ancestor_of destination source
      then throw (Workspace DestinationWithinSourceError)
             (pstr ''source and destination paths must not overlap'')
      else Inr ())"

definition hash_of_existing :: "node option \<Rightarrow> content_hash option result" where
  "hash_of_existing existing =
     (case existing of None \<Rightarrow> Inr None | Some n \<Rightarrow> rbind (node_hash n) (\<lambda>h. Inr (Some h)))"

definition ws_copy :: "transfer_request \<Rightarrow> workspace_mutation ws_action" where
  "ws_copy r =
     act_bind (act_get (\<lambda>w. w)) (\<lambda>w.
     act_bind (act_lift (validate_path (ws_limits w) (tf_source r))) (\<lambda>_.
     act_bind (act_lift (validate_path (ws_limits w) (tf_destination r))) (\<lambda>_.
     act_bind (act_lift (validate_transfer_paths (tf_source r) (tf_destination r))) (\<lambda>_.
     act_bind (act_lift (get_node (ws_root w) (tf_source r))) (\<lambda>source.
     act_bind (act_lift (try_get_node (ws_root w) (tf_destination r))) (\<lambda>existing.
     act_bind (act_lift (guard (\<not> (existing \<noteq> None \<and> \<not> tf_overwrite r))
                           (already_exists (tf_destination r)))) (\<lambda>_.
     act_bind (act_lift (hash_of_existing existing)) (\<lambda>previous_hash.
     act_bind (act_lift (clone_directory (ws_root w) (max_nodes (ws_limits w)))) (\<lambda>root1.
     act_bind (act_lift (ensure_parent root1 (tf_destination r) (tf_create_parents r) (ws_limits w))) (\<lambda>root2.
     act_bind (act_lift (clone_node source (max_nodes (ws_limits w)))) (\<lambda>source'.
     act_bind (commit (put_child root2 (tf_destination r) source')) (\<lambda>next_state.
     act_bind (act_lift (rbind (get_node (st_root next_state) (tf_destination r)) node_hash)) (\<lambda>h.
     act_ret \<lparr>wm_path = tf_destination r, wm_created = (existing = None), wm_changed = True,
              wm_previous_hash = previous_hash, wm_current_hash = Some h,
              wm_stats = st_stats next_state\<rparr>)))))))))))))"

text \<open>
  \<open>move\<close> takes the source node from the clone, creates the destination's parents, deletes the
  source and only then puts the node. The destination's parent survives the deletion, because
  the source is no ancestor of the destination, so its position still denotes it.
\<close>

definition ws_move :: "transfer_request \<Rightarrow> workspace_mutation ws_action" where
  "ws_move r =
     act_bind (act_get (\<lambda>w. w)) (\<lambda>w.
     act_bind (act_lift (validate_path (ws_limits w) (tf_source r))) (\<lambda>_.
     act_bind (act_lift (validate_path (ws_limits w) (tf_destination r))) (\<lambda>_.
     act_bind (act_lift (validate_transfer_paths (tf_source r) (tf_destination r))) (\<lambda>_.
     act_bind (act_lift (get_node (ws_root w) (tf_source r))) (\<lambda>_.
     act_bind (act_lift (try_get_node (ws_root w) (tf_destination r))) (\<lambda>existing.
     act_bind (act_lift (guard (\<not> (existing \<noteq> None \<and> \<not> tf_overwrite r))
                           (already_exists (tf_destination r)))) (\<lambda>_.
     act_bind (act_lift (hash_of_existing existing)) (\<lambda>previous_hash.
     act_bind (act_lift (clone_directory (ws_root w) (max_nodes (ws_limits w)))) (\<lambda>root1.
     act_bind (act_lift (get_node root1 (tf_source r))) (\<lambda>source_node.
     act_bind (act_lift (ensure_parent root1 (tf_destination r) (tf_create_parents r) (ws_limits w))) (\<lambda>root2.
     act_bind (act_lift (del_child root2 (tf_source r))) (\<lambda>root3.
     act_bind (commit (put_child root3 (tf_destination r) source_node)) (\<lambda>next_state.
     act_bind (act_lift (rbind (get_node (st_root next_state) (tf_destination r)) node_hash)) (\<lambda>h.
     act_ret \<lparr>wm_path = tf_destination r, wm_created = (existing = None), wm_changed = True,
              wm_previous_hash = previous_hash, wm_current_hash = Some h,
              wm_stats = st_stats next_state\<rparr>))))))))))))))"

section \<open>Patches\<close>

record file_update =
  fu_path :: sandbox_path
  fu_content :: "byte list"
  fu_previous_hash :: content_hash
  fu_current_hash :: content_hash

text \<open>One turn of the loop over the file patches: nothing is written yet.\<close>

definition patch_one ::
  "memory_workspace \<Rightarrow> (sandbox_path \<Rightarrow> content_hash option) \<Rightarrow> file_patch \<Rightarrow> file_update result" where
  "patch_one w expected fp =
     rbind (get_node (ws_root w) (fp_path fp)) (\<lambda>n.
     rbind (require_file n (fp_path fp)) (\<lambda>b.
     rbind (guard (\<not> (\<exists>h. expected (fp_path fp) = Some h \<and> h \<noteq> from_bytes b))
       (Raise (Workspace StaleContentError)
          (path_value (fp_path fp) @ pstr '' content hash does not match the expected hash''))) (\<lambda>_.
     rbind (decode_utf8 (fp_path fp) b) (\<lambda>t.
     rbind (apply_file_patch t fp) (\<lambda>patched_text.
     rbind (encode_utf8 patched_text) (\<lambda>patched.
       if int (length patched) > max_file_bytes (ws_limits w)
       then Inl (file_too_large (ws_limits w) (fp_path fp) (int (length patched)))
       else Inr \<lparr>fu_path = fp_path fp, fu_content = patched, fu_previous_hash = from_bytes b,
                 fu_current_hash = from_bytes patched\<rparr>))))))"

fun write_updates :: "directory \<Rightarrow> file_update list \<Rightarrow> directory result" where
  "write_updates root_dir [] = Inr root_dir"
| "write_updates root_dir (u # us) =
     rbind (get_parent root_dir (fu_path u)) (\<lambda>_.
     write_updates (put_child root_dir (fu_path u) (FileNode (fu_content u))) us)"

definition ws_patch :: "(nat \<Rightarrow> nat option) \<Rightarrow> patch_request \<Rightarrow> patch_result ws_action" where
  "ws_patch nd r =
     act_bind (act_get (\<lambda>w. w)) (\<lambda>w.
     act_bind (act_lift (case utf8_encode (pr_patch r) of
         None \<Rightarrow> Inl (invalid_patch (pstr ''patch must be valid UTF-8 text''))
       | Some bs \<Rightarrow>
           guard (\<not> int (length bs) > max_patch_bytes (ws_limits w))
             (invalid_patch (pstr ''patch contains '' @ str_int (int (length bs))
                @ pstr '' bytes; limit is '' @ str_int (max_patch_bytes (ws_limits w))
                @ pstr '' bytes'')))) (\<lambda>_.
     act_bind (act_lift (parse_unified_diff nd
       (\<lambda>v. resolve_path (ws_limits w) v (Some root_path)) (pr_patch r))) (\<lambda>file_patches.
     let expected = map_of (rev (map (\<lambda>x. (ef_path x, ef_content_hash x)) (pr_expected_hashes r))) in
     act_bind (act_lift (guard (ef_path ` set (pr_expected_hashes r) \<subseteq> fp_path ` set file_patches)
       (invalid_patch (pstr ''expected hash supplied for a path not present in the patch'')))) (\<lambda>_.
     act_bind (act_lift (rmap (patch_one w expected) file_patches)) (\<lambda>updates.
     act_bind (act_lift (clone_directory (ws_root w) (max_nodes (ws_limits w)))) (\<lambda>root1.
     act_bind (act_lift (write_updates root1 updates)) (\<lambda>root2.
     act_bind (commit root2) (\<lambda>next_state.
     act_ret \<lparr>pt_files = map (\<lambda>u. \<lparr>pf_path = fu_path u, pf_previous_hash = fu_previous_hash u,
                                pf_current_hash = fu_current_hash u\<rparr>) updates,
              pt_stats = st_stats next_state\<rparr>))))))))"

end
