(* ===== verification/Workspace_Invariant.thy ===== *)
theory Workspace_Invariant
  imports Memory_Workspace
begin

text \<open>
  The invariant of \<open>MemoryWorkspace\<close> and what every operation does to it. \<open>ws_inv\<close> says that the
  committed counters, hash and limits are those of the tree. Each mutation is shown to be a
  \<open>step\<close>: it either leaves the workspace exactly as it was or publishes one measured tree under
  the next revision. Atomicity, the invariant and the revision discipline follow for all of them.
\<close>

declare tree_ok.simps(2) [simp del] nodes.simps(2) [simp del] content_bytes.simps(2) [simp del]
  inside.simps(2) [simp del] hash_rec.simps(2) [simp del]

lemma tree_ok_empty [simp]: "tree_ok (DirNode [])"
  by (simp add: tree_ok.simps)

section \<open>The invariant\<close>

definition state_ok :: "workspace_limits \<Rightarrow> workspace_state \<Rightarrow> bool" where
  "state_ok l st \<longleftrightarrow>
     tree_ok (DirNode (st_root st)) \<and> inside l [] (DirNode (st_root st)) \<and>
     hash_rec (DirNode (st_root st)) = Inr (root_hash (st_stats st)) \<and>
     total_bytes (st_stats st) = int (content_bytes (DirNode (st_root st))) \<and>
     node_count (st_stats st) = int (nodes (DirNode (st_root st))) \<and>
     total_bytes (st_stats st) \<le> max_total_bytes l \<and> node_count (st_stats st) \<le> max_nodes l \<and>
     revision_ok (ws_revision (st_stats st))"

definition candidate_ok :: "workspace_limits \<Rightarrow> restore_payload \<Rightarrow> bool" where
  "candidate_ok l p \<longleftrightarrow> state_ok l (pp_state p) \<and> pp_expected_stats p = st_stats (pp_state p)"

definition ws_inv :: "memory_workspace \<Rightarrow> bool" where
  "ws_inv w \<longleftrightarrow>
     limits_ok (ws_limits w) \<and> state_ok (ws_limits w) (ws_state w) \<and>
     dict_ok (ws_restore_candidates w) \<and>
     (\<forall>(c, p) \<in> set (ws_restore_candidates w).
        c < ws_next_capability w \<and> candidate_ok (ws_limits w) p)"

lemma state_ok_tree: "state_ok l st \<Longrightarrow> tree_ok (DirNode (st_root st))"
  by (simp add: state_ok_def)

lemma ws_inv_tree: "ws_inv w \<Longrightarrow> tree_ok (DirNode (ws_root w))"
  by (simp add: ws_inv_def state_ok_def)

lemma ws_inv_limits: "ws_inv w \<Longrightarrow> limits_ok (ws_limits w)"
  by (simp add: ws_inv_def)

lemma state_for_root_ok:
  assumes "tree_ok (DirNode d)" and "limits_ok l"
  shows "state_for_root l d revn = Inr st \<longleftrightarrow>
     inside l [] (DirNode d) \<and> \<not> isl (hash_rec (DirNode d)) \<and>
     int (content_bytes (DirNode d)) \<le> max_total_bytes l \<and> int (nodes (DirNode d)) \<le> max_nodes l \<and>
     st = \<lparr>st_root = d,
           st_stats = \<lparr>total_bytes = int (content_bytes (DirNode d)), node_count = int (nodes (DirNode d)),
                       ws_revision = revn, root_hash = projr (hash_rec (DirNode d))\<rparr>\<rparr>"
proof -
  have "measure_node (DirNode d) root_path l = Inr r \<longleftrightarrow>
      inside l [] (DirNode d) \<and> \<not> isl (hash_rec (DirNode d)) \<and>
      r = (int (content_bytes (DirNode d)), int (nodes (DirNode d)), projr (hash_rec (DirNode d)))" for r
    using measure_rec_ok [OF assms(1) _ assms(2), of "[]" r] assms(1)
    by (simp add: measure_node_eq del: measure_rec.simps)
  then show ?thesis
    by (auto simp: state_for_root_def rbind_Inr_iff split: if_splits)
qed

lemma state_for_root_state_ok:
  assumes "state_for_root l d revn = Inr st" and "tree_ok (DirNode d)" and "limits_ok l"
    and "revision_ok revn"
  shows "state_ok l st" and "st_root st = d" and "ws_revision (st_stats st) = revn"
  using assms state_for_root_ok [OF assms(2,3), of revn st]
  by (auto simp: state_ok_def)

section \<open>Steps\<close>

definition step :: "memory_workspace \<Rightarrow> (sandbox_error + 'a) \<times> memory_workspace \<Rightarrow> bool" where
  "step w res \<longleftrightarrow>
     (case res of
        (Inl e, w') \<Rightarrow> w' = w
      | (Inr _, w') \<Rightarrow> w' = w \<or>
          (\<exists>d st. tree_ok (DirNode d) \<and>
             state_for_root (ws_limits w) d (revision_next (ws_revision (ws_stats w))) = Inr st \<and>
             w' = w\<lparr>ws_state := st\<rparr>))"

lemma step_get [intro]: "step w (f w w) \<Longrightarrow> step w (act_bind (act_get (\<lambda>w. w)) f w)"
  by simp

lemma step_lift [intro]:
  "(\<And>x. m = Inr x \<Longrightarrow> step w (f x w)) \<Longrightarrow> step w (act_bind (act_lift m) f w)"
  by (cases m) (simp_all add: step_def)

lemma step_ret [intro]: "step w (act_ret x w)"
  by (simp add: step_def)

lemma step_raise [intro]: "step w (act_lift (Inl e) w)"
  by (simp add: step_def)

lemma step_commit:
  assumes "tree_ok (DirNode d)"
    and "\<And>st. state_for_root (ws_limits w) d (revision_next (ws_revision (ws_stats w))) = Inr st \<Longrightarrow>
      \<exists>y. f st (w\<lparr>ws_state := st\<rparr>) = (Inr y, w\<lparr>ws_state := st\<rparr>)"
  shows "step w (act_bind (commit d) f w)"
proof (cases "state_for_root (ws_limits w) d (revision_next (ws_revision (ws_stats w)))")
  case (Inl e)
  then show ?thesis by (simp add: commit_def act_bind_def step_def)
next
  case (Inr st)
  then obtain y where "f st (w\<lparr>ws_state := st\<rparr>) = (Inr y, w\<lparr>ws_state := st\<rparr>)"
    using assms(2) by blast
  with Inr assms(1) show ?thesis
    by (auto simp: commit_def act_bind_def step_def)
qed

lemma step_commit_ret:
  "tree_ok (DirNode d) \<Longrightarrow> step w (act_bind (commit d) (\<lambda>st. act_ret (g st)) w)"
  by (rule step_commit) simp_all

lemma step_inv:
  assumes "step w (out, w')" and "ws_inv w"
  shows "ws_inv w'" and "ws_limits w' = ws_limits w"
    and "ws_restore_token w' = ws_restore_token w"
    and "ws_restore_candidates w' = ws_restore_candidates w"
    and "w' = w \<or> ws_revision (ws_stats w') = revision_next (ws_revision (ws_stats w))"
    and "isl out \<Longrightarrow> w' = w"
proof -
  have "w' = w \<or> (\<exists>d st. tree_ok (DirNode d) \<and>
             state_for_root (ws_limits w) d (revision_next (ws_revision (ws_stats w))) = Inr st \<and>
             w' = w\<lparr>ws_state := st\<rparr>)"
    using assms(1) by (cases out) (auto simp: step_def)
  then have "ws_inv w' \<and> ws_limits w' = ws_limits w \<and> ws_restore_token w' = ws_restore_token w \<and>
    ws_restore_candidates w' = ws_restore_candidates w \<and>
    (w' = w \<or> ws_revision (ws_stats w') = revision_next (ws_revision (ws_stats w)))"
  proof
    assume "w' = w"
    then show ?thesis using assms(2) by simp
  next
    assume "\<exists>d st. tree_ok (DirNode d) \<and>
             state_for_root (ws_limits w) d (revision_next (ws_revision (ws_stats w))) = Inr st \<and>
             w' = w\<lparr>ws_state := st\<rparr>"
    then obtain d st where d: "tree_ok (DirNode d)"
      "state_for_root (ws_limits w) d (revision_next (ws_revision (ws_stats w))) = Inr st"
      "w' = w\<lparr>ws_state := st\<rparr>"
      by blast
    have "revision_ok (revision_next (ws_revision (ws_stats w)))"
      using assms(2) by (simp add: ws_inv_def state_ok_def)
    then show ?thesis
      using d assms(2) state_for_root_state_ok [OF d(2,1)] by (simp add: ws_inv_def)
  qed
  then show "ws_inv w'" and "ws_limits w' = ws_limits w"
    and "ws_restore_token w' = ws_restore_token w"
    and "ws_restore_candidates w' = ws_restore_candidates w"
    and "w' = w \<or> ws_revision (ws_stats w') = revision_next (ws_revision (ws_stats w))"
    by blast+
  show "isl out \<Longrightarrow> w' = w"
    using assms(1) by (cases out) (auto simp: step_def)
qed

section \<open>Navigation on well-formed trees\<close>

lemma try_get_loop_Inr: "try_get_loop path n segs = Inr found \<Longrightarrow> found = lookup n segs"
  by (induction path n segs rule: try_get_loop.induct)
     (auto simp: rbind_Inr_iff split: node.splits option.splits)

lemma try_get_loop_Some: "lookup n segs = Some m \<Longrightarrow> try_get_loop path n segs = Inr (Some m)"
proof (induction n segs rule: lookup.induct)
  case (3 cs s ss)
  then show ?case by (cases "map_of cs s") simp_all
qed simp_all

lemma get_node_ok [ok_iff]: "get_node d p = Inr n \<longleftrightarrow> lookup (DirNode d) (path_parts p) = Some n"
  using try_get_loop_Inr [of p "DirNode d" "path_parts p"] try_get_loop_Some [of "DirNode d" "path_parts p"]
  by (auto simp: get_node_def try_get_node_def rbind_Inr_iff split: option.splits)

lemma try_get_node_Inr: "try_get_node d p = Inr found \<Longrightarrow> found = lookup (DirNode d) (path_parts p)"
  unfolding try_get_node_def by (rule try_get_loop_Inr)

lemma path_ok_snoc:
  assumes "path_ok p" and "\<not> is_root p"
  obtains ps k where "p = path_of (ps @ [k])" "path_parts p = ps @ [k]" "list_all seg_ok ps" "seg_ok k"
    "path_name p = k" "butlast (path_parts p) = ps"
proof -
  obtain qs where qs: "p = path_of qs" "list_all seg_ok qs" using assms(1) by (rule path_ok_obtain)
  then have "qs \<noteq> []" using assms(2) by auto
  then obtain ps k where pk: "qs = ps @ [k]" by (cases qs rule: rev_cases) auto
  with qs have "path_parts p = ps @ [k]" "list_all seg_ok ps" "seg_ok k"
    using path_parts_of_ok [of "ps @ [k]"] by auto
  moreover have "path_name p = k" using qs pk by (simp add: path_name_path_of)
  ultimately show ?thesis using that [of ps k] qs pk by simp
qed

lemma get_parent_ok:
  assumes "path_ok p"
  shows "get_parent d p = Inr e \<longleftrightarrow> lookup (DirNode d) (butlast (path_parts p)) = Some (DirNode e)"
proof -
  obtain ps where ps: "p = path_of ps" "list_all seg_ok ps" using assms by (rule path_ok_obtain)
  then have b: "list_all seg_ok (butlast ps)" by (auto simp: list_all_iff dest: in_set_butlastD)
  have "get_parent d p = Inr e \<longleftrightarrow>
      (\<exists>n. get_node d (path_of (butlast ps)) = Inr n \<and> n = DirNode e)"
    using ps by (cases "get_node d (path_of (butlast ps))")
      (auto simp: get_parent_def split: node.splits)
  then show ?thesis using ps b by (auto simp: get_node_ok)
qed

lemma lookup_at_put:
  "lookup (DirNode d) p = Some (DirNode e) \<Longrightarrow> lookup (DirNode (at_dir (dict_put k n) p d)) (p @ [k]) = Some n"
proof (induction p arbitrary: d)
  case Nil
  then show ?case by simp
next
  case (Cons s p)
  then obtain d' where "map_of d s = Some (DirNode d')" "lookup (DirNode d') p = Some (DirNode e)"
    by (cases p) (auto split: option.splits elim: lookup.elims)
  with Cons.IH show ?case by simp
qed

text \<open>What \<open>_ensure_parent\<close> does: the directories on the way exist afterwards, nothing else moves.\<close>

lemma ensure_loop_step:
  assumes "ensure_loop c l p d (s # segs) = Inr d'"
  obtains p' cs' cs'' where "ensure_loop c l p' cs' segs = Inr cs''" "d' = dict_put s (DirNode cs'') d"
    "map_of d s = Some (DirNode cs') \<or> (map_of d s = None \<and> c \<and> cs' = [])"
proof -
  obtain p' where p': "path_join p [s] (max_path_bytes l) (max_segment_bytes l) = Inr p'"
    using assms by (auto simp: rbind_Inr_iff)
  show ?thesis
  proof (cases "map_of d s")
    case None
    then show ?thesis using assms p' that [of p' "[]"] by (auto simp: rbind_Inr_iff split: if_splits)
  next
    case (Some n)
    then show ?thesis using assms p' that by (cases n) (auto simp: rbind_Inr_iff)
  qed
qed

lemma ensure_loop_ok:
  assumes "ensure_loop c l p d segs = Inr d'" and "tree_ok (DirNode d)" and "list_all seg_ok segs"
  shows "tree_ok (DirNode d') \<and> (\<exists>e. lookup (DirNode d') segs = Some (DirNode e)) \<and>
    (\<forall>q. flat (DirNode d') q = (if prefix q segs then Some FlatDir else flat (DirNode d) q))"
  using assms
proof (induction segs arbitrary: p d d')
  case Nil
  then show ?case by simp
next
  case (Cons s segs)
  obtain p' cs' cs'' where st: "ensure_loop c l p' cs' segs = Inr cs''" "d' = dict_put s (DirNode cs'') d"
    "map_of d s = Some (DirNode cs') \<or> (map_of d s = None \<and> c \<and> cs' = [])"
    using ensure_loop_step [OF Cons.prems(1)] by blast
  have "tree_ok (DirNode cs')"
    using st(3) tree_ok_child [OF Cons.prems(2), of s] by auto
  then have IH: "tree_ok (DirNode cs'')" "\<exists>e. lookup (DirNode cs'') segs = Some (DirNode e)"
    "\<forall>q. flat (DirNode cs'') q = (if prefix q segs then Some FlatDir else flat (DirNode cs') q)"
    using Cons.IH [OF st(1)] Cons.prems(3) by (auto)
  have "tree_ok (DirNode d')"
    using tree_ok_put [OF Cons.prems(2) IH(1)] Cons.prems(3) st(2) by simp
  moreover have "\<exists>e. lookup (DirNode d') (s # segs) = Some (DirNode e)"
    using IH(2) st(2) by simp
  moreover have "flat (DirNode d') q = (if prefix q (s # segs) then Some FlatDir else flat (DirNode d) q)" for q
  proof (cases q)
    case Nil
    then show ?thesis by simp
  next
    case (Cons t q')
    have "flat (DirNode []) r = (if r = [] then Some FlatDir else None)" for r
      by (cases r) (simp_all add: flat_Cons)
    then show ?thesis
      using IH(3) st(2,3) Cons by (auto simp: flat_Cons)
  qed
  ultimately show ?case by blast
qed

text \<open>Without \<open>create_parents\<close> the tree is unchanged.\<close>

lemma ensure_loop_nocreate: "ensure_loop False l p d segs = Inr d' \<Longrightarrow> d' = d"
proof (induction segs arbitrary: p d d')
  case Nil
  then show ?case by simp
next
  case (Cons s segs)
  from Cons.prems show ?case
    by (elim ensure_loop_step) (auto dest: Cons.IH intro: dict_put_id)
qed

lemma ensure_parent_ok:
  assumes "ensure_parent d p c l = Inr d'" and "tree_ok (DirNode d)" and "path_ok p"
  shows "tree_ok (DirNode d')" and "\<exists>e. lookup (DirNode d') (butlast (path_parts p)) = Some (DirNode e)"
    and "flat (DirNode d') q =
      (if prefix q (butlast (path_parts p)) then Some FlatDir else flat (DirNode d) q)"
proof -
  have "list_all seg_ok (butlast (path_parts p))"
    using path_ok_parts [OF assms(3)] by (auto simp: list_all_iff dest: in_set_butlastD)
  note ensure_loop_ok [OF assms(1) [unfolded ensure_parent_def] assms(2) this]
  then show "tree_ok (DirNode d')" and "\<exists>e. lookup (DirNode d') (butlast (path_parts p)) = Some (DirNode e)"
    and "flat (DirNode d') q =
      (if prefix q (butlast (path_parts p)) then Some FlatDir else flat (DirNode d) q)"
    by (simp_all)
qed

section \<open>Putting and deleting a child\<close>

lemma tree_ok_put_child:
  assumes "tree_ok (DirNode d)" and "tree_ok n" and "path_ok p" and "\<not> is_root p"
  shows "tree_ok (DirNode (put_child d p n))"
proof -
  obtain ps k where "p = path_of (ps @ [k])" "seg_ok k" "path_name p = k"
    using path_ok_snoc [OF assms(3,4)] by metis
  then show ?thesis
    unfolding put_child_def using assms(1,2) by (intro tree_ok_at_dir) (simp_all add: tree_ok_put)
qed

lemma lookup_put_child:
  assumes "path_ok p" and "\<not> is_root p"
    and "lookup (DirNode d) (butlast (path_parts p)) = Some (DirNode e)"
  shows "lookup (DirNode (put_child d p n)) (path_parts p) = Some n"
proof -
  obtain ps k where p: "path_parts p = ps @ [k]" "path_name p = k" "butlast (path_parts p) = ps"
    using path_ok_snoc [OF assms(1,2)] by metis
  then show ?thesis using lookup_at_put [of d ps e k n] assms(3) by (simp add: put_child_def)
qed

lemma flat_put_child:
  assumes "path_ok p" and "\<not> is_root p"
    and "lookup (DirNode d) (butlast (path_parts p)) = Some (DirNode e)"
  shows "flat (DirNode (put_child d p n)) q =
    (if prefix (path_parts p) q then flat n (drop (length (path_parts p)) q) else flat (DirNode d) q)"
proof -
  obtain ps k where p: "path_parts p = ps @ [k]" "path_name p = k" "butlast (path_parts p) = ps"
    using path_ok_snoc [OF assms(1,2)] by metis
  then show ?thesis using flat_at_put [of d ps e k n q] assms(3) by (simp add: put_child_def)
qed

lemma del_child_ok:
  assumes "del_child d p = Inr d'" and "tree_ok (DirNode d)" and "path_ok p" and "\<not> is_root p"
  shows "tree_ok (DirNode d')"
    and "flat (DirNode d') q = (if prefix (path_parts p) q then None else flat (DirNode d) q)"
proof -
  obtain ps k where p: "path_parts p = ps @ [k]" "path_name p = k" "butlast (path_parts p) = ps"
    using path_ok_snoc [OF assms(3,4)] by metis
  obtain e where e: "lookup (DirNode d) ps = Some (DirNode e)" "d' = at_dir (dict_del k) ps d"
    using assms(1) get_parent_ok [OF assms(3), of d] p
    by (auto simp: del_child_def rbind_Inr_iff split: option.splits)
  show "tree_ok (DirNode d')"
    unfolding e(2) using assms(2) by (intro tree_ok_at_dir tree_ok_del)
  show "flat (DirNode d') q = (if prefix (path_parts p) q then None else flat (DirNode d) q)"
    using flat_at_del [OF e(1), of k q] by (simp add: e(2) p(1))
qed

lemma hash_rec_lookup:
  "\<not> isl (hash_rec n) \<Longrightarrow> lookup n p = Some m \<Longrightarrow> \<not> isl (hash_rec m)"
proof (induction n p rule: lookup.induct)
  case (3 cs s ss)
  obtain c where c: "map_of cs s = Some c" "lookup c ss = Some m"
    using "3.prems"(2) by (auto split: option.splits)
  obtain h where "hash_rec (DirNode cs) = Inr h"
    using "3.prems"(1) by (cases "hash_rec (DirNode cs)") auto
  then have "\<not> isl (hash_rec c)"
    using map_of_SomeD [OF c(1)] by (auto simp: hash_rec_DirNode)
  with "3.IH" c show ?case by simp
qed simp_all

text \<open>After a commit the node at a path can be found and hashed: reporting it never fails.\<close>

lemma report_after_commit:
  assumes "state_for_root l d revn = Inr st" and "tree_ok (DirNode d)" and "limits_ok l"
    and "lookup (DirNode d) (path_parts p) = Some n"
  shows "\<exists>h. rbind (get_node (st_root st) p) node_hash = Inr h"
proof -
  have d: "st_root st = d" "\<not> isl (hash_rec (DirNode d))"
    using assms(1) state_for_root_ok [OF assms(2,3), of revn st] by auto
  have "\<not> isl (hash_rec n)" using hash_rec_lookup [OF d(2) assms(4)] .
  moreover have "tree_ok n" using tree_ok_lookup [OF assms(2,4)] .
  ultimately show ?thesis
    using assms(4) d(1) by (cases "hash_rec n") (auto simp: rbind_Inr_iff get_node_ok node_hash_eq)
qed

section \<open>Every mutation is a step\<close>

lemma validate_path_ok: "validate_path l p = Inr q \<Longrightarrow> q = p"
  by (auto simp: validate_path_def rbind_Inr_iff)

lemma clone_directory_Inr:
  "clone_directory d m = Inr d' \<Longrightarrow> tree_ok (DirNode d) \<Longrightarrow> 1 \<le> m \<Longrightarrow> d' = d"
  by (simp add: clone_directory_eq split: if_splits)

lemma clone_node_Inr: "clone_node n m = Inr n' \<Longrightarrow> tree_ok n \<Longrightarrow> 1 \<le> m \<Longrightarrow> n' = n"
  by (auto simp: clone_node_eq split: node.splits if_splits)

lemma limits_ok_nodes: "limits_ok l \<Longrightarrow> 1 \<le> max_nodes l"
  by (simp add: limits_ok_def)

lemma cloned_root:
  "ws_inv w \<Longrightarrow> clone_directory (ws_root w) (max_nodes (ws_limits w)) = Inr d \<Longrightarrow> d = ws_root w"
  using clone_directory_Inr ws_inv_tree ws_inv_limits limits_ok_nodes by blast

lemma root_exists: "path_ok p \<Longrightarrow> lookup (DirNode d) (path_parts p) = None \<Longrightarrow> \<not> is_root p"
  by (auto simp: path_parts_def)

lemma step_put_report:
  assumes inv: "ws_inv w" and p: "path_ok p" "\<not> is_root p" and n: "tree_ok n"
    and cl: "clone_directory (ws_root w) (max_nodes (ws_limits w)) = Inr root1"
    and en: "ensure_parent root1 p c (ws_limits w) = Inr root2"
  shows "step w (act_bind (commit (put_child root2 p n)) (\<lambda>st.
      act_bind (act_lift (rbind (get_node (st_root st) p) node_hash)) (\<lambda>h. act_ret (g st h))) w)"
proof -
  note e = ensure_parent_ok [OF en [unfolded cloned_root [OF inv cl]] ws_inv_tree [OF inv] p(1)]
  have t: "tree_ok (DirNode (put_child root2 p n))"
    using e(1) n p by (intro tree_ok_put_child)
  have l: "lookup (DirNode (put_child root2 p n)) (path_parts p) = Some n"
    using e(2) lookup_put_child [OF p] by blast
  show ?thesis
    using report_after_commit [OF _ t ws_inv_limits [OF inv] l]
    by (intro step_commit [OF t]) fastforce
qed

lemma step_put:
  assumes inv: "ws_inv w" and p: "path_ok p" "\<not> is_root p" and n: "tree_ok n"
    and cl: "clone_directory (ws_root w) (max_nodes (ws_limits w)) = Inr root1"
    and en: "ensure_parent root1 p c (ws_limits w) = Inr root2"
  shows "step w (act_bind (commit (put_child root2 p n)) (\<lambda>st. act_ret (g st)) w)"
  using ensure_parent_ok(1) [OF en [unfolded cloned_root [OF inv cl]] ws_inv_tree [OF inv] p(1)] n p
  by (intro step_commit_ret tree_ok_put_child)

lemmas step_intros = step_get step_lift step_ret step_raise

text \<open>The monad's own rewriting is switched off: the rules above follow the code step by step.\<close>

declare act_bind_lift [simp del] act_bind_get [simp del] act_simps [simp del]

lemma step_mkdir:
  assumes inv: "ws_inv w" and ok: "path_ok (mk_path r)"
  shows "step w (ws_mkdir r w)"
  unfolding ws_mkdir_def
proof (intro step_get step_lift, goal_cases)
  case (1 q existing)
  have "existing = None \<Longrightarrow> \<not> is_root (mk_path r)"
    using try_get_node_Inr [OF 1(2)] root_exists [OF ok] by simp
  then show ?case
    using inv ok by (auto split: option.split intro!: step_intros intro: step_put_report)
qed

lemma step_put_file:
  assumes "ws_inv w" and "path_ok (wr_path r)" and "\<not> is_root (wr_path r)"
  shows "step w (put_file_and_commit w r existing previous_hash b w)"
  unfolding put_file_and_commit_def using assms by (auto intro!: step_intros intro: step_put)

lemma step_write: "ws_inv w \<Longrightarrow> path_ok (wr_path r) \<Longrightarrow> step w (ws_write r w)"
  unfolding ws_write_def by (intro step_intros step_put_file) simp_all

lemma step_append: "ws_inv w \<Longrightarrow> path_ok (wr_path r) \<Longrightarrow> step w (ws_append r w)"
  unfolding ws_append_def Let_def by (intro step_intros step_put_file) simp_all

lemma step_remove:
  assumes inv: "ws_inv w" and ok: "path_ok (rm_path r)"
  shows "step w (ws_remove r w)"
  unfolding ws_remove_def
proof (intro step_get step_lift, goal_cases)
  case (1 q u existing)
  then have nr: "\<not> is_root (rm_path r)" by simp
  have "step w (act_bind (commit d') (\<lambda>st. act_ret (g st)) w)"
    if "clone_directory (ws_root w) (max_nodes (ws_limits w)) = Inr d" "del_child d (rm_path r) = Inr d'"
    for d d' and g :: "workspace_state \<Rightarrow> workspace_mutation"
    using that del_child_ok(1) [OF _ ws_inv_tree [OF inv] ok nr] cloned_root [OF inv]
    by (intro step_commit_ret) blast
  then show ?case by (auto split: option.split intro!: step_intros)
qed

lemma step_copy:
  assumes inv: "ws_inv w" and ok: "path_ok (tf_source r)" "path_ok (tf_destination r)"
  shows "step w (ws_copy r w)"
  unfolding ws_copy_def
proof (intro step_get step_lift, goal_cases)
  case (1 q q' u source existing u' previous root1 root2 source')
  have "tree_ok source'"
    using 1(4,10) tree_ok_lookup [OF ws_inv_tree [OF inv]] clone_node_Inr
      limits_ok_nodes [OF ws_inv_limits [OF inv]] by (metis get_node_ok)
  moreover have "\<not> is_root (tf_destination r)"
    using 1(3) by (auto simp: validate_transfer_paths_def split: if_splits)
  ultimately show ?case using inv ok 1 by (intro step_put_report)
qed

lemma validate_transfer_paths_ok:
  assumes "validate_transfer_paths p q = Inr u" and "path_ok p" and "path_ok q"
  shows "\<not> is_root p" and "\<not> is_root q" and "\<not> prefix (path_parts p) (path_parts q)"
    and "\<not> prefix (path_parts q) (path_parts p)"
proof -
  have "\<not> strict_prefix (path_parts p) (path_parts q)" "\<not> strict_prefix (path_parts q) (path_parts p)"
    using assms is_ancestor_of_path_of path_ok_parts [OF assms(2)] path_ok_parts [OF assms(3)]
    by (metis (no_types, lifting) Inl_Inr_False validate_transfer_paths_def)+
  moreover have "path_parts p \<noteq> path_parts q"
    using assms path_parts_inject by (auto simp: validate_transfer_paths_def split: if_splits)
  ultimately show "\<not> prefix (path_parts p) (path_parts q)" "\<not> prefix (path_parts q) (path_parts p)"
    by (auto simp: strict_prefix_def)
  show "\<not> is_root p" "\<not> is_root q"
    using assms(1) by (auto simp: validate_transfer_paths_def split: if_splits)
qed

lemma flat_FlatDir: "flat n q = Some FlatDir \<longleftrightarrow> (\<exists>e. lookup n q = Some (DirNode e))"
  by (auto simp: flat_def elim: flat_of.elims)

text \<open>The tree of a move: the parents, the deletion, then the node at the destination.\<close>

lemma move_trees:
  assumes "tree_ok (DirNode d)" and "path_ok p" and "path_ok q" and "validate_transfer_paths p q = Inr u"
    and "ensure_parent d q c l = Inr d2" and "del_child d2 p = Inr d3"
  shows "tree_ok (DirNode d3)" and "\<exists>e. lookup (DirNode d3) (butlast (path_parts q)) = Some (DirNode e)"
    and "flat (DirNode d3) x =
      (if prefix (path_parts p) x then None
       else if prefix x (butlast (path_parts q)) then Some FlatDir else flat (DirNode d) x)"
proof -
  note v = validate_transfer_paths_ok [OF assms(4,2,3)]
  note en = ensure_parent_ok [OF assms(5,1,3)]
  note dl = del_child_ok [OF assms(6) en(1) assms(2) v(1)]
  show "tree_ok (DirNode d3)" by (rule dl(1))
  show flat3: "flat (DirNode d3) x =
      (if prefix (path_parts p) x then None
       else if prefix x (butlast (path_parts q)) then Some FlatDir else flat (DirNode d) x)" for x
    using dl(2) en(3) by simp
  have "\<not> prefix (path_parts p) (butlast (path_parts q))"
    using v(3) prefix_order.trans [OF _ prefixeq_butlast] by blast
  then show "\<exists>e. lookup (DirNode d3) (butlast (path_parts q)) = Some (DirNode e)"
    using flat3 [of "butlast (path_parts q)"] by (simp add: flat_FlatDir)
qed

lemma step_move:
  assumes inv: "ws_inv w" and ok: "path_ok (tf_source r)" "path_ok (tf_destination r)"
  shows "step w (ws_move r w)"
  unfolding ws_move_def
proof (intro step_get step_lift, goal_cases)
  case (1 q q' u source existing u' previous root1 source_node root2 root3)
  have root1: "root1 = ws_root w" using 1(8) cloned_root [OF inv] by simp
  have src: "tree_ok source_node"
    using 1(9) root1 tree_ok_lookup [OF ws_inv_tree [OF inv]] by (simp add: get_node_ok)
  note mv = move_trees [OF ws_inv_tree [OF inv] ok 1(3) 1(10) [unfolded root1] 1(11)]
  have dst: "\<not> is_root (tf_destination r)" using validate_transfer_paths_ok(2) [OF 1(3) ok] .
  let ?d = "put_child root3 (tf_destination r) source_node"
  have t: "tree_ok (DirNode ?d)" using tree_ok_put_child [OF mv(1) src ok(2) dst] .
  have l: "lookup (DirNode ?d) (path_parts (tf_destination r)) = Some source_node"
    using mv(2) lookup_put_child [OF ok(2) dst] by blast
  show ?case
    using report_after_commit [OF _ t ws_inv_limits [OF inv] l]
    by (intro step_commit [OF t]) (fastforce simp: act_bind_lift act_simps)
qed

text \<open>Patches write files whose parents exist.\<close>

lemma write_updates_ok:
  assumes "write_updates d us = Inr d'" and "tree_ok (DirNode d)"
    and "\<forall>u \<in> set us. path_ok (fu_path u) \<and> \<not> is_root (fu_path u)"
  shows "tree_ok (DirNode d')"
  using assms
proof (induction us arbitrary: d)
  case Nil
  then show ?case by simp
next
  case (Cons u us)
  then have "tree_ok (DirNode (put_child d (fu_path u) (FileNode (fu_content u))))"
    by (intro tree_ok_put_child) simp_all
  then show ?case using Cons by (auto simp: rbind_Inr_iff)
qed

lemma require_file_ok [ok_iff]: "require_file n p = Inr b \<longleftrightarrow> n = FileNode b"
  by (cases n) (auto simp: require_file_def)

lemma if_Inl_Inr [ok_iff]: "(if c then Inl e else m) = Inr y \<longleftrightarrow> \<not> c \<and> m = Inr y"
  by simp

lemma patch_one_ok:
  assumes "patch_one w expected fp = Inr u"
  obtains b t t' where "lookup (DirNode (ws_root w)) (path_parts (fp_path fp)) = Some (FileNode b)"
    "\<forall>h. expected (fp_path fp) = Some h \<longrightarrow> h = from_bytes b" "decode_utf8 (fp_path fp) b = Inr t"
    "apply_file_patch t fp = Inr t'" "encode_utf8 t' = Inr (fu_content u)" "fu_path u = fp_path fp"
    "int (length (fu_content u)) \<le> max_file_bytes (ws_limits w)" "fu_previous_hash u = from_bytes b"
    "fu_current_hash u = from_bytes (fu_content u)"
  using assms unfolding patch_one_def ok_iff by auto

lemma patch_updates:
  assumes "rmap (patch_one w expected) fps = Inr us"
  shows "map fu_path us = map fp_path fps"
    and "\<forall>u \<in> set us. \<exists>b. lookup (DirNode (ws_root w)) (path_parts (fu_path u)) = Some (FileNode b)"
proof -
  have "list_all2 (\<lambda>fp u. patch_one w expected fp = Inr u) fps us"
    using assms by (simp add: rmap_Inr_iff)
  then show "map fu_path us = map fp_path fps"
    by (induction rule: list_all2_induct) (auto elim: patch_one_ok)
  have "list_all2 (\<lambda>fp u. patch_one w expected fp = Inr u) fps us"
    using assms by (simp add: rmap_Inr_iff)
  then show "\<forall>u \<in> set us. \<exists>b. lookup (DirNode (ws_root w)) (path_parts (fu_path u)) = Some (FileNode b)"
    by (induction rule: list_all2_induct) (auto elim!: patch_one_ok)
qed

lemma patch_update_paths:
  assumes "parse_unified_diff nd (\<lambda>v. resolve_path l v (Some root_path)) patch = Inr fps"
    and "rmap (patch_one w expected) fps = Inr us" and "u \<in> set us"
  shows "path_ok (fu_path u)" and "\<not> is_root (fu_path u)"
proof -
  have "fu_path u \<in> set (map fp_path fps)"
    using patch_updates(1) [OF assms(2)] assms(3) by (metis image_eqI list.set_map)
  then obtain fp where "fp \<in> set fps" "fu_path u = fp_path fp" by auto
  then obtain v where "resolve_path l v (Some root_path) = Inr (fu_path u)"
    using parse_unified_diff_paths [OF assms(1)] by metis
  then show "path_ok (fu_path u)"
    unfolding resolve_path_def by (rule resolve_path_ok) simp
  show "\<not> is_root (fu_path u)"
    using patch_updates(2) [OF assms(2)] assms(3) by (auto simp: path_parts_def)
qed

lemma step_patch:
  assumes inv: "ws_inv w"
  shows "step w (ws_patch nd r w)"
  unfolding ws_patch_def Let_def
proof (intro step_get step_lift, goal_cases)
  case (1 u fps u' us root1 root2)
  have "root1 = ws_root w" using 1(5) cloned_root [OF inv] by simp
  then have "tree_ok (DirNode root2)"
    using write_updates_ok [OF 1(6)] ws_inv_tree [OF inv] patch_update_paths [OF 1(2,4)] by blast
  then show ?case by (rule step_commit_ret)
qed

end
