(* ===== verification/Workspace_Refinement.thy ===== *)
theory Workspace_Refinement
  imports Workspace_Invariant
begin

text \<open>
  What the mutations of \<open>MemoryWorkspace\<close> mean. The abstract file system is the map from
  positions to files and directories (\<open>view\<close>); \<open>fs_op\<close> gives every operation as an update of
  that map, and the detailed model refines it. The operations of one workspace are serialised
  by its lock, so a run is a sequence of them; what holds of every run is proved by rule
  induction over the reachable states.
\<close>

section \<open>The abstract file system\<close>

type_synonym fs = "position \<Rightarrow> flat_node option"

datatype ws_op =
    Mkdir mkdir_request
  | Write write_request
  | Append append_request
  | Remove remove_request
  | Copy transfer_request
  | Move transfer_request
  | Patch patch_request

datatype ws_result = Mutated workspace_mutation | Patched patch_result

definition view :: "memory_workspace \<Rightarrow> fs" where
  "view w = flat (DirNode (ws_root w))"

definition fs_mkdirs :: "fs \<Rightarrow> position \<Rightarrow> fs" where
  "fs_mkdirs fs ps = (\<lambda>q. if prefix q ps then Some FlatDir else fs q)"

definition fs_put_file :: "fs \<Rightarrow> position \<Rightarrow> byte list \<Rightarrow> fs" where
  "fs_put_file fs ps b = (fs_mkdirs fs (butlast ps))(ps \<mapsto> FlatFile b)"

definition fs_content :: "fs \<Rightarrow> position \<Rightarrow> byte list" where
  "fs_content fs ps = (case fs ps of Some (FlatFile b) \<Rightarrow> b | _ \<Rightarrow> [])"

definition fs_remove :: "fs \<Rightarrow> position \<Rightarrow> fs" where
  "fs_remove fs ps = (\<lambda>q. if prefix ps q then None else fs q)"

text \<open>Put a copy of the subtree of \<open>fs0\<close> at \<open>src\<close> at \<open>dst\<close>.\<close>

definition fs_graft :: "fs \<Rightarrow> position \<Rightarrow> position \<Rightarrow> fs \<Rightarrow> fs" where
  "fs_graft fs0 src dst fs = (\<lambda>q. if prefix dst q then fs0 (src @ drop (length dst) q) else fs q)"

definition patched_bytes :: "file_patch \<Rightarrow> byte list \<Rightarrow> byte list" where
  "patched_bytes fp b =
     (case utf8_decode b of
        Inl _ \<Rightarrow> b
      | Inr t \<Rightarrow> (case apply_file_patch t fp of
                    Inl _ \<Rightarrow> b
                  | Inr t' \<Rightarrow> (case utf8_encode t' of None \<Rightarrow> b | Some b' \<Rightarrow> b')))"

definition fs_patch_files :: "fs \<Rightarrow> file_patch list \<Rightarrow> fs" where
  "fs_patch_files fs fps =
     fold (\<lambda>fp fs'. fs'(path_parts (fp_path fp) \<mapsto>
       FlatFile (patched_bytes fp (fs_content fs (path_parts (fp_path fp)))))) fps fs"

fun fs_op :: "(nat \<Rightarrow> nat option) \<Rightarrow> workspace_limits \<Rightarrow> ws_op \<Rightarrow> fs \<Rightarrow> fs" where
  "fs_op nd l (Mkdir r) fs =
     (if fs (path_parts (mk_path r)) = None then fs_mkdirs fs (path_parts (mk_path r)) else fs)"
| "fs_op nd l (Write r) fs = fs_put_file fs (path_parts (wr_path r)) (wr_content r)"
| "fs_op nd l (Append r) fs =
     fs_put_file fs (path_parts (wr_path r)) (fs_content fs (path_parts (wr_path r)) @ wr_content r)"
| "fs_op nd l (Remove r) fs = fs_remove fs (path_parts (rm_path r))"
| "fs_op nd l (Copy r) fs =
     fs_graft fs (path_parts (tf_source r)) (path_parts (tf_destination r))
       (fs_mkdirs fs (butlast (path_parts (tf_destination r))))"
| "fs_op nd l (Move r) fs =
     fs_graft fs (path_parts (tf_source r)) (path_parts (tf_destination r))
       (fs_remove (fs_mkdirs fs (butlast (path_parts (tf_destination r)))) (path_parts (tf_source r)))"
| "fs_op nd l (Patch r) fs =
     (case parse_unified_diff nd (\<lambda>v. resolve_path l v (Some root_path)) (pr_patch r) of
        Inl _ \<Rightarrow> fs
      | Inr fps \<Rightarrow> fs_patch_files fs fps)"

text \<open>The operations of the model, and the paths of a request.\<close>

definition wrap :: "(sandbox_error + 'a) \<times> memory_workspace \<Rightarrow> ('a \<Rightarrow> ws_result)
    \<Rightarrow> (sandbox_error + ws_result) \<times> memory_workspace" where
  "wrap res f = (case fst res of Inl e \<Rightarrow> Inl e | Inr x \<Rightarrow> Inr (f x), snd res)"

fun run_op :: "(nat \<Rightarrow> nat option) \<Rightarrow> ws_op \<Rightarrow> memory_workspace \<Rightarrow> (sandbox_error + ws_result) \<times> memory_workspace" where
  "run_op nd (Mkdir r) w = wrap (ws_mkdir r w) Mutated"
| "run_op nd (Write r) w = wrap (ws_write r w) Mutated"
| "run_op nd (Append r) w = wrap (ws_append r w) Mutated"
| "run_op nd (Remove r) w = wrap (ws_remove r w) Mutated"
| "run_op nd (Copy r) w = wrap (ws_copy r w) Mutated"
| "run_op nd (Move r) w = wrap (ws_move r w) Mutated"
| "run_op nd (Patch r) w = wrap (ws_patch nd r w) Patched"

fun op_paths_ok :: "ws_op \<Rightarrow> bool" where
  "op_paths_ok (Mkdir r) = path_ok (mk_path r)"
| "op_paths_ok (Write r) = path_ok (wr_path r)"
| "op_paths_ok (Append r) = path_ok (wr_path r)"
| "op_paths_ok (Remove r) = path_ok (rm_path r)"
| "op_paths_ok (Copy r) = (path_ok (tf_source r) \<and> path_ok (tf_destination r))"
| "op_paths_ok (Move r) = (path_ok (tf_source r) \<and> path_ok (tf_destination r))"
| "op_paths_ok (Patch r) = True"

lemma wrap_Inr: "wrap res f = (Inr y, w') \<longleftrightarrow> (\<exists>x. res = (Inr x, w') \<and> y = f x)"
  by (cases res; cases "fst res") (auto simp: wrap_def)

lemma wrap_Inl: "wrap res f = (Inl e, w') \<longleftrightarrow> res = (Inl e, w')"
  by (cases res; cases "fst res") (auto simp: wrap_def)

lemma step_wrap: "step w res \<Longrightarrow> step w (wrap res f)"
  by (cases res; cases "fst res") (auto simp: step_def wrap_def)

lemma step_run_op: "ws_inv w \<Longrightarrow> op_paths_ok op \<Longrightarrow> step w (run_op nd op w)"
  by (cases op) (auto intro!: step_wrap step_mkdir step_write step_append step_remove step_copy
      step_move step_patch)

section \<open>Refinement\<close>

lemma act_lift_Inr [ok_iff]: "act_lift m w = (Inr x, w') \<longleftrightarrow> m = Inr x \<and> w' = w"
  by (auto simp: act_simps)

lemma act_ret_Inr [ok_iff]: "act_ret x w = (Inr y, w') \<longleftrightarrow> y = x \<and> w' = w"
  by (auto simp: act_simps)

lemma act_get_Inr [ok_iff]: "act_get f w = (Inr y, w') \<longleftrightarrow> y = f w \<and> w' = w"
  by (auto simp: act_simps)

lemma commit_Inr:
  "commit d w = (Inr st, w') \<longleftrightarrow>
     state_for_root (ws_limits w) d (revision_next (ws_revision (ws_stats w))) = Inr st \<and>
     w' = w\<lparr>ws_state := st\<rparr>"
  by (auto simp: commit_def split: sum.splits)

lemma committed_view:
  assumes "commit d w = (Inr st, w')" and "tree_ok (DirNode d)" and "ws_inv w"
  shows "view w' = flat (DirNode d)"
  using assms state_for_root_ok [OF assms(2) ws_inv_limits [OF assms(3)]]
  by (auto simp: commit_Inr view_def)

lemma flat_below_file: "lookup n ps = Some (FileNode b) \<Longrightarrow> r \<noteq> [] \<Longrightarrow> flat n (ps @ r) = None"
  by (cases r) (simp_all add: flat_def lookup_append)

lemma flat_below_missing: "lookup n ps = None \<Longrightarrow> flat n (ps @ r) = None"
  by (simp add: flat_def lookup_append)

lemma put_file_view:
  assumes inv: "ws_inv w" and p: "path_ok p" "\<not> is_root p"
    and en: "ensure_parent (ws_root w) p c l = Inr d2"
    and ex: "\<And>e. lookup (DirNode (ws_root w)) (path_parts p) \<noteq> Some (DirNode e)"
  shows "flat (DirNode (put_child d2 p (FileNode b))) = fs_put_file (view w) (path_parts p) b"
proof
  fix q
  note e = ensure_parent_ok [OF en ws_inv_tree [OF inv] p(1)]
  obtain x where x: "lookup (DirNode d2) (butlast (path_parts p)) = Some (DirNode x)" using e(2) by blast
  have ne: "path_parts p \<noteq> []" using path_ok_snoc [OF p] by (metis snoc_eq_iff_butlast)
  have below: "view w (path_parts p @ r) = None" if "r \<noteq> []" for r
    using that ex by (cases "lookup (DirNode (ws_root w)) (path_parts p)"; cases "the (lookup (DirNode (ws_root w)) (path_parts p))")
      (auto simp: view_def flat_below_file flat_below_missing)
  show "flat (DirNode (put_child d2 p (FileNode b))) q = fs_put_file (view w) (path_parts p) b q"
  proof (cases "prefix (path_parts p) q")
    case True
    then obtain r where q: "q = path_parts p @ r" by (auto simp: prefix_def)
    have np: "\<not> prefix q (butlast (path_parts p))"
      using q ne prefix_length_le [of q "butlast (path_parts p)"] by (cases "path_parts p") auto
    show ?thesis
      using flat_put_child [OF p x, of "FileNode b" q] q np below [of r]
      by (cases r) (auto simp: fs_put_file_def fs_mkdirs_def)
  next
    case False
    then show ?thesis
      using flat_put_child [OF p x, of "FileNode b" q] e(3) [of q]
      by (auto simp: fs_put_file_def fs_mkdirs_def view_def)
  qed
qed

lemma validate_write_precondition_node:
  "validate_write_precondition p existing pre = Inr h \<Longrightarrow> existing \<noteq> Some (DirNode e)"
  by (auto simp: validate_write_precondition_def)

lemma put_file_and_commit_view:
  assumes inv: "ws_inv w" and p: "path_ok (wr_path r)" "\<not> is_root (wr_path r)"
    and run: "put_file_and_commit w r existing previous b w = (Inr m, w')"
    and ex: "\<And>e. lookup (DirNode (ws_root w)) (path_parts (wr_path r)) \<noteq> Some (DirNode e)"
  shows "view w' = fs_put_file (view w) (path_parts (wr_path r)) b"
proof -
  obtain d1 d2 st where st: "clone_directory (ws_root w) (max_nodes (ws_limits w)) = Inr d1"
    "ensure_parent d1 (wr_path r) (wr_create_parents r) (ws_limits w) = Inr d2"
    "commit (put_child d2 (wr_path r) (FileNode b)) w = (Inr st, w')"
    using run unfolding put_file_and_commit_def ok_iff by blast
  have en: "ensure_parent (ws_root w) (wr_path r) (wr_create_parents r) (ws_limits w) = Inr d2"
    using st(2) cloned_root [OF inv st(1)] by simp
  have "tree_ok (DirNode (put_child d2 (wr_path r) (FileNode b)))"
    using ensure_parent_ok(1) [OF en ws_inv_tree [OF inv] p(1)] p by (intro tree_ok_put_child) simp_all
  then show ?thesis using committed_view [OF st(3) _ inv] put_file_view [OF inv p en ex] by simp
qed

lemma write_view:
  assumes inv: "ws_inv w" and ok: "path_ok (wr_path r)" and run: "ws_write r w = (Inr m, w')"
  shows "view w' = fs_put_file (view w) (path_parts (wr_path r)) (wr_content r)"
proof -
  obtain existing h where st: "\<not> is_root (wr_path r)"
    "try_get_node (ws_root w) (wr_path r) = Inr existing"
    "validate_write_precondition (wr_path r) existing (wr_precondition r) = Inr h"
    "put_file_and_commit w r existing h (wr_content r) w = (Inr m, w')"
    using run unfolding ws_write_def ok_iff by blast
  show ?thesis
    using put_file_and_commit_view [OF inv ok st(1,4)] validate_write_precondition_node [OF st(3)]
      try_get_node_Inr [OF st(2)] by simp
qed

lemma append_view:
  assumes inv: "ws_inv w" and ok: "path_ok (wr_path r)" and run: "ws_append r w = (Inr m, w')"
  shows "view w' = fs_put_file (view w) (path_parts (wr_path r))
     (fs_content (view w) (path_parts (wr_path r)) @ wr_content r)"
proof -
  obtain existing h where st: "\<not> is_root (wr_path r)"
    "try_get_node (ws_root w) (wr_path r) = Inr existing"
    "validate_write_precondition (wr_path r) existing (wr_precondition r) = Inr h"
    "put_file_and_commit w r existing h
       ((case existing of Some (FileNode b0) \<Rightarrow> b0 | _ \<Rightarrow> []) @ wr_content r) w = (Inr m, w')"
    using run unfolding ws_append_def Let_def ok_iff by blast
  have "fs_content (view w) (path_parts (wr_path r)) = (case existing of Some (FileNode b0) \<Rightarrow> b0 | _ \<Rightarrow> [])"
    using try_get_node_Inr [OF st(2)]
    by (auto simp: fs_content_def view_def flat_def split: option.splits node.splits)
  then show ?thesis
    using put_file_and_commit_view [OF inv ok st(1,4)] validate_write_precondition_node [OF st(3)]
      try_get_node_Inr [OF st(2)] by simp
qed

lemma prefix_butlast_cases: "ps \<noteq> [] \<Longrightarrow> prefix q ps \<longleftrightarrow> q = ps \<or> prefix q (butlast ps)"
  by (metis append_butlast_last_id prefix_snoc)

lemma flat_empty_dir: "flat (DirNode []) r = (if r = [] then Some FlatDir else None)"
  by (cases r) (simp_all add: flat_Cons)

lemma mkdir_view:
  assumes inv: "ws_inv w" and ok: "path_ok (mk_path r)" and run: "ws_mkdir r w = (Inr m, w')"
  shows "view w' = fs_op nd l (Mkdir r) (view w)"
proof -
  obtain existing where ex: "try_get_node (ws_root w) (mk_path r) = Inr existing"
    using run unfolding ws_mkdir_def ok_iff by blast
  note exl = try_get_node_Inr [OF ex]
  show ?thesis
  proof (cases existing)
    case (Some n)
    then have "w' = w"
      using run ex unfolding ws_mkdir_def ok_iff
      by (auto simp: act_bind_Inr act_lift_Inr act_ret_Inr act_get_Inr split: if_splits)
    moreover have "lookup (DirNode (ws_root w)) (path_parts (mk_path r)) = Some n"
      using exl Some by simp
    then have "view w (path_parts (mk_path r)) \<noteq> None" by (simp add: view_def flat_def)
    ultimately show ?thesis by auto
  next
    case None
    then have nr: "\<not> is_root (mk_path r)" using exl root_exists [OF ok] by simp
    obtain d1 d2 st where st: "clone_directory (ws_root w) (max_nodes (ws_limits w)) = Inr d1"
      "ensure_parent d1 (mk_path r) (mk_create_parents r) (ws_limits w) = Inr d2"
      "commit (put_child d2 (mk_path r) (DirNode [])) w = (Inr st, w')"
      using run ex None unfolding ws_mkdir_def
      by (auto simp: act_bind_Inr act_lift_Inr act_ret_Inr act_get_Inr)
    have en: "ensure_parent (ws_root w) (mk_path r) (mk_create_parents r) (ws_limits w) = Inr d2"
      using st(2) cloned_root [OF inv st(1)] by simp
    note e = ensure_parent_ok [OF en ws_inv_tree [OF inv] ok]
    obtain x where x: "lookup (DirNode d2) (butlast (path_parts (mk_path r))) = Some (DirNode x)"
      using e(2) by blast
    have "tree_ok (DirNode (put_child d2 (mk_path r) (DirNode [])))"
      using e(1) ok nr by (intro tree_ok_put_child) simp_all
    then have v: "view w' = flat (DirNode (put_child d2 (mk_path r) (DirNode [])))"
      using committed_view [OF st(3) _ inv] by simp
    have ne: "path_parts (mk_path r) \<noteq> []" using path_ok_snoc [OF ok nr] by (metis snoc_eq_iff_butlast)
    have none: "view w (path_parts (mk_path r) @ y) = None" for y
      using exl None by (simp add: view_def flat_below_missing)
    have "view w' q = fs_mkdirs (view w) (path_parts (mk_path r)) q" for q
    proof (cases "prefix (path_parts (mk_path r)) q")
      case True
      then obtain y where q: "q = path_parts (mk_path r) @ y" by (auto simp: prefix_def)
      then show ?thesis
        using flat_put_child [OF ok nr x, of "DirNode []" q] none [of y]
        by (auto simp: v fs_mkdirs_def flat_empty_dir)
    next
      case False
      then show ?thesis
        using flat_put_child [OF ok nr x, of "DirNode []" q] e(3) [of q] prefix_butlast_cases [OF ne, of q]
        by (auto simp: v fs_mkdirs_def view_def [of w])
    qed
    then show ?thesis using none [of "[]"] by auto
  qed
qed

lemma remove_view:
  assumes inv: "ws_inv w" and ok: "path_ok (rm_path r)" and run: "ws_remove r w = (Inr m, w')"
  shows "view w' = fs_remove (view w) (path_parts (rm_path r))"
proof -
  obtain existing where nr: "\<not> is_root (rm_path r)"
    and ex: "try_get_node (ws_root w) (rm_path r) = Inr existing"
    using run unfolding ws_remove_def ok_iff by blast
  note exl = try_get_node_Inr [OF ex]
  show ?thesis
  proof (cases existing)
    case None
    then have "w' = w"
      using run ex unfolding ws_remove_def
      by (auto simp: act_bind_Inr act_lift_Inr act_ret_Inr act_get_Inr split: if_splits)
    moreover have "view w q = None" if "prefix (path_parts (rm_path r)) q" for q
      using that exl None by (auto simp: view_def flat_below_missing prefix_def)
    ultimately show ?thesis by (auto simp: fs_remove_def)
  next
    case (Some n)
    obtain d1 d2 st where st: "clone_directory (ws_root w) (max_nodes (ws_limits w)) = Inr d1"
      "del_child d1 (rm_path r) = Inr d2" "commit d2 w = (Inr st, w')"
      using run ex Some unfolding ws_remove_def
      by (auto simp: act_bind_Inr act_lift_Inr act_ret_Inr act_get_Inr)
    have dl: "del_child (ws_root w) (rm_path r) = Inr d2"
      using st(2) cloned_root [OF inv st(1)] by simp
    note d = del_child_ok [OF dl ws_inv_tree [OF inv] ok nr]
    show ?thesis
      using committed_view [OF st(3) d(1) inv] d(2) by (auto simp: fs_remove_def view_def)
  qed
qed

lemma copy_view:
  assumes inv: "ws_inv w" and ok: "path_ok (tf_source r)" "path_ok (tf_destination r)"
    and run: "ws_copy r w = (Inr m, w')"
  shows "view w' = fs_op nd l (Copy r) (view w)"
proof
  fix q
  let ?src = "path_parts (tf_source r)" and ?dst = "path_parts (tf_destination r)"
  obtain u n d1 d2 n' st where st: "validate_transfer_paths (tf_source r) (tf_destination r) = Inr u"
    "get_node (ws_root w) (tf_source r) = Inr n"
    "clone_directory (ws_root w) (max_nodes (ws_limits w)) = Inr d1"
    "ensure_parent d1 (tf_destination r) (tf_create_parents r) (ws_limits w) = Inr d2"
    "clone_node n (max_nodes (ws_limits w)) = Inr n'"
    "commit (put_child d2 (tf_destination r) n') w = (Inr st, w')"
    using run unfolding ws_copy_def act_bind_Inr act_lift_Inr act_ret_Inr act_get_Inr by blast
  have n: "lookup (DirNode (ws_root w)) ?src = Some n" using st(2) by (simp add: get_node_ok)
  then have tn: "tree_ok n" using tree_ok_lookup [OF ws_inv_tree [OF inv]] by blast
  then have n': "n' = n"
    using clone_node_Inr [OF st(5)] limits_ok_nodes [OF ws_inv_limits [OF inv]] by simp
  have en: "ensure_parent (ws_root w) (tf_destination r) (tf_create_parents r) (ws_limits w) = Inr d2"
    using st(4) cloned_root [OF inv st(3)] by simp
  note e = ensure_parent_ok [OF en ws_inv_tree [OF inv] ok(2)]
  have nr: "\<not> is_root (tf_destination r)" using validate_transfer_paths_ok(2) [OF st(1) ok] .
  obtain x where x: "lookup (DirNode d2) (butlast ?dst) = Some (DirNode x)" using e(2) by blast
  have "tree_ok (DirNode (put_child d2 (tf_destination r) n'))"
    using e(1) ok(2) nr tn n' by (intro tree_ok_put_child) simp_all
  then have "view w' = flat (DirNode (put_child d2 (tf_destination r) n))"
    using committed_view [OF st(6) _ inv] n' by simp
  then show "view w' q = fs_op nd l (Copy r) (view w) q"
    using flat_put_child [OF ok(2) nr x, of n q] e(3) [of q] flat_sub [OF n, of "drop (length ?dst) q"]
    by (simp add: fs_graft_def fs_mkdirs_def view_def)
qed

lemma move_view:
  assumes inv: "ws_inv w" and ok: "path_ok (tf_source r)" "path_ok (tf_destination r)"
    and run: "ws_move r w = (Inr m, w')"
  shows "view w' = fs_op nd l (Move r) (view w)"
proof
  fix q
  let ?src = "path_parts (tf_source r)" and ?dst = "path_parts (tf_destination r)"
  obtain u d1 n d2 d3 st where st: "validate_transfer_paths (tf_source r) (tf_destination r) = Inr u"
    "clone_directory (ws_root w) (max_nodes (ws_limits w)) = Inr d1"
    "get_node d1 (tf_source r) = Inr n"
    "ensure_parent d1 (tf_destination r) (tf_create_parents r) (ws_limits w) = Inr d2"
    "del_child d2 (tf_source r) = Inr d3"
    "commit (put_child d3 (tf_destination r) n) w = (Inr st, w')"
    using run unfolding ws_move_def act_bind_Inr act_lift_Inr act_ret_Inr act_get_Inr by blast
  have d1: "d1 = ws_root w" using cloned_root [OF inv st(2)] .
  have n: "lookup (DirNode (ws_root w)) ?src = Some n" using st(3) d1 by (simp add: get_node_ok)
  then have tn: "tree_ok n" using tree_ok_lookup [OF ws_inv_tree [OF inv]] by blast
  note mv = move_trees [OF ws_inv_tree [OF inv] ok st(1) st(4) [unfolded d1] st(5)]
  have nr: "\<not> is_root (tf_destination r)" using validate_transfer_paths_ok(2) [OF st(1) ok] .
  obtain x where x: "lookup (DirNode d3) (butlast ?dst) = Some (DirNode x)" using mv(2) by blast
  have "tree_ok (DirNode (put_child d3 (tf_destination r) n))"
    using mv(1) ok(2) nr tn by (intro tree_ok_put_child) simp_all
  then have "view w' = flat (DirNode (put_child d3 (tf_destination r) n))"
    using committed_view [OF st(6) _ inv] by simp
  then show "view w' q = fs_op nd l (Move r) (view w) q"
    using flat_put_child [OF ok(2) nr x, of n q] mv(3) [of q] flat_sub [OF n, of "drop (length ?dst) q"]
    by (simp add: fs_graft_def fs_mkdirs_def fs_remove_def view_def)
qed

lemma flat_FlatFile: "flat n q = Some (FlatFile b) \<longleftrightarrow> lookup n q = Some (FileNode b)"
  by (auto simp: flat_def elim: flat_of.elims)

lemma put_existing_file:
  assumes "tree_ok (DirNode d)" and p: "path_ok p" "\<not> is_root p"
    and ex: "flat (DirNode d) (path_parts p) = Some (FlatFile b0)" and gp: "get_parent d p = Inr e"
  shows "flat (DirNode (put_child d p (FileNode b))) = (flat (DirNode d))(path_parts p \<mapsto> FlatFile b)"
proof
  fix q
  have x: "lookup (DirNode d) (butlast (path_parts p)) = Some (DirNode e)"
    using gp get_parent_ok [OF p(1)] by simp
  have f: "lookup (DirNode d) (path_parts p) = Some (FileNode b0)" using ex by (simp add: flat_FlatFile)
  show "flat (DirNode (put_child d p (FileNode b))) q = ((flat (DirNode d))(path_parts p \<mapsto> FlatFile b)) q"
  proof (cases "prefix (path_parts p) q")
    case True
    then obtain r where q: "q = path_parts p @ r" by (auto simp: prefix_def)
    then show ?thesis
      using flat_put_child [OF p x, of "FileNode b" q] flat_below_file [OF f, of r] by (cases r) auto
  next
    case False
    then show ?thesis using flat_put_child [OF p x, of "FileNode b" q] by auto
  qed
qed

lemma write_updates_view:
  assumes "write_updates d us = Inr d'" and "tree_ok (DirNode d)"
    and "\<forall>u \<in> set us. path_ok (fu_path u) \<and> \<not> is_root (fu_path u) \<and>
      (\<exists>b. flat (DirNode d) (path_parts (fu_path u)) = Some (FlatFile b))"
  shows "flat (DirNode d') =
    fold (\<lambda>u fs. fs(path_parts (fu_path u) \<mapsto> FlatFile (fu_content u))) us (flat (DirNode d))"
  using assms
proof (induction us arbitrary: d)
  case Nil
  then show ?case by simp
next
  case (Cons u us)
  let ?d = "put_child d (fu_path u) (FileNode (fu_content u))"
  obtain e where e: "get_parent d (fu_path u) = Inr e" "write_updates ?d us = Inr d'"
    using Cons.prems(1) by (auto simp: rbind_Inr_iff)
  obtain b where b: "flat (DirNode d) (path_parts (fu_path u)) = Some (FlatFile b)"
    and p: "path_ok (fu_path u)" "\<not> is_root (fu_path u)"
    using Cons.prems(3) by auto
  note put = put_existing_file [OF Cons.prems(2) p b e(1), of "fu_content u"]
  have "tree_ok (DirNode ?d)" using Cons.prems(2) p by (intro tree_ok_put_child) simp_all
  then show ?case using Cons.IH [OF e(2)] Cons.prems(3) put by auto
qed

lemma patched_updates:
  assumes "list_all2 (\<lambda>fp u. patch_one w expected fp = Inr u) fps us"
  shows "fold (\<lambda>u fs. fs(path_parts (fu_path u) \<mapsto> FlatFile (fu_content u))) us fs =
     fold (\<lambda>fp fs'. fs'(path_parts (fp_path fp) \<mapsto>
       FlatFile (patched_bytes fp (fs_content (view w) (path_parts (fp_path fp)))))) fps fs"
  using assms
proof (induction arbitrary: fs rule: list_all2_induct)
  case Nil
  then show ?case by simp
next
  case (Cons fp fps u us)
  obtain b t t' where b: "lookup (DirNode (ws_root w)) (path_parts (fp_path fp)) = Some (FileNode b)"
    "decode_utf8 (fp_path fp) b = Inr t" "apply_file_patch t fp = Inr t'"
    "encode_utf8 t' = Inr (fu_content u)" "fu_path u = fp_path fp"
    using Cons.hyps(1) by (rule patch_one_ok)
  have "fs_content (view w) (path_parts (fp_path fp)) = b"
    using b(1) by (simp add: fs_content_def view_def flat_def)
  moreover have "patched_bytes fp b = fu_content u"
    using b(2,3,4) by (auto simp: patched_bytes_def decode_utf8_def encode_utf8_def
        split: sum.splits option.splits)
  ultimately show ?case using Cons.IH b(5) by (simp only: fold_simps)
qed

lemma patch_view:
  assumes inv: "ws_inv w" and run: "ws_patch nd r w = (Inr m, w')"
  shows "view w' = fs_op nd (ws_limits w) (Patch r) (view w)"
proof -
  obtain fps expected us d1 d2 st where st:
    "parse_unified_diff nd (\<lambda>v. resolve_path (ws_limits w) v (Some root_path)) (pr_patch r) = Inr fps"
    "rmap (patch_one w expected) fps = Inr us"
    "clone_directory (ws_root w) (max_nodes (ws_limits w)) = Inr d1"
    "write_updates d1 us = Inr d2" "commit d2 w = (Inr st, w')"
    using run unfolding ws_patch_def Let_def act_bind_Inr act_lift_Inr act_ret_Inr act_get_Inr by blast
  have d1: "d1 = ws_root w" using cloned_root [OF inv st(3)] .
  have us: "\<forall>u \<in> set us. path_ok (fu_path u) \<and> \<not> is_root (fu_path u) \<and>
      (\<exists>b. flat (DirNode d1) (path_parts (fu_path u)) = Some (FlatFile b))"
    using patch_update_paths [OF st(1,2)] patch_updates(2) [OF st(2)] d1 by (simp add: flat_FlatFile)
  have "tree_ok (DirNode d2)"
    using write_updates_ok [OF st(4)] us d1 ws_inv_tree [OF inv] by blast
  then have "view w' = flat (DirNode d2)" using committed_view [OF st(5) _ inv] by simp
  also have "\<dots> = fold (\<lambda>u fs. fs(path_parts (fu_path u) \<mapsto> FlatFile (fu_content u))) us (view w)"
    using write_updates_view [OF st(4) _ us] d1 ws_inv_tree [OF inv] by (simp add: view_def)
  also have "\<dots> = fs_patch_files (view w) fps"
    using patched_updates st(2) by (simp add: fs_patch_files_def rmap_Inr_iff)
  finally show ?thesis using st(1) by simp
qed

lemma run_op_view:
  "ws_inv w \<Longrightarrow> op_paths_ok op \<Longrightarrow> run_op nd op w = (Inr x, w') \<Longrightarrow>
     view w' = fs_op nd (ws_limits w) op (view w)"
  by (cases op)
     (auto simp: wrap_Inr simp del: fs_op.simps(1,5,6,7)
       intro: mkdir_view copy_view move_view patch_view dest: write_view append_view remove_view)

section \<open>Runs\<close>

text \<open>One operation of a well-formed request, and the states a workspace can reach.\<close>

inductive ws_step :: "(nat \<Rightarrow> nat option) \<Rightarrow> memory_workspace \<Rightarrow> ws_op \<Rightarrow> memory_workspace \<Rightarrow> bool"
  for nd where
  succeed: "op_paths_ok op \<Longrightarrow> run_op nd op w = (Inr x, w') \<Longrightarrow> ws_step nd w op w'"
| fail: "op_paths_ok op \<Longrightarrow> run_op nd op w = (Inl e, w') \<Longrightarrow> ws_step nd w op w'"

inductive ws_run :: "(nat \<Rightarrow> nat option) \<Rightarrow> memory_workspace \<Rightarrow> ws_op list \<Rightarrow> memory_workspace \<Rightarrow> bool"
  for nd where
  start: "ws_run nd w [] w"
| extend: "ws_run nd w ops w' \<Longrightarrow> ws_step nd w' op w'' \<Longrightarrow> ws_run nd w (ops @ [op]) w''"

inductive_cases ws_stepE: "ws_step nd w op w'"
inductive_simps ws_run_Nil: "ws_run nd w [] w'"

lemma ws_step_iff: "ws_step nd w op w' \<longleftrightarrow> op_paths_ok op \<and> snd (run_op nd op w) = w'"
proof
  assume "op_paths_ok op \<and> snd (run_op nd op w) = w'"
  then show "ws_step nd w op w'"
    by (cases "run_op nd op w"; cases "fst (run_op nd op w)") (auto intro: ws_step.intros)
qed (auto elim: ws_stepE)

lemma ws_step_step: "ws_step nd w op w' \<Longrightarrow> ws_inv w \<Longrightarrow> step w (run_op nd op w)"
  by (auto elim: ws_stepE intro: step_run_op)

lemma ws_step_facts:
  assumes "ws_step nd w op w'" and "ws_inv w"
  shows "ws_inv w'" and "ws_limits w' = ws_limits w"
    and "w' = w \<or> ws_revision (ws_stats w') = revision_next (ws_revision (ws_stats w))"
proof -
  have "step w (fst (run_op nd op w), w')"
    using step_run_op [OF assms(2), of op nd] assms(1) by (simp add: ws_step_iff) (metis prod.collapse)
  note f = step_inv [OF this assms(2)]
  show "ws_inv w'" "ws_limits w' = ws_limits w"
    "w' = w \<or> ws_revision (ws_stats w') = revision_next (ws_revision (ws_stats w))"
    using f by blast+
qed

lemma ws_run_facts:
  assumes "ws_run nd w ops w'" and "ws_inv w"
  shows "ws_inv w' \<and> ws_limits w' = ws_limits w \<and>
    rev_value (ws_revision (ws_stats w)) \<le> rev_value (ws_revision (ws_stats w')) \<and>
    rev_value (ws_revision (ws_stats w')) \<le> rev_value (ws_revision (ws_stats w)) + int (length ops)"
  using assms
proof (induction rule: ws_run.induct)
  case (start w)
  then show ?case by simp
next
  case (extend w ops w' op w'')
  then show ?case
    using ws_step_facts [OF extend.hyps(2)] by (auto simp: revision_next_def)
qed

end
