(* ===== verification/Workspace_Entries.thy ===== *)
theory Workspace_Entries
  imports Workspace_Refinement
begin

text \<open>
  The flat form of a tree that the codecs read and write: \<open>_snapshot_entries\<close> and
  \<open>_root_from_entries\<close> of \<open>workspace/memory.py\<close>. The explicit-stack walk is proved equal to a
  structural recursion over the tree with sorted children, and rebuilding a tree from the entries
  of a tree gives that tree with sorted children, which has the same view.
\<close>

section \<open>Tree to entries\<close>

type_synonym entry_stack = "(sandbox_path \<times> node) list"

text \<open>
  The comprehensions join from the last name to the first and \<open>pop\<close> takes from the end, so the
  stack, top first, has the children in name order.
\<close>

definition child_stack :: "workspace_limits \<Rightarrow> sandbox_path \<Rightarrow> directory \<Rightarrow> entry_stack result" where
  "child_stack l path cs =
     rbind (rmap (\<lambda>(name, child). rbind (join_child l path name) (\<lambda>p. Inr (p, child)))
              (rev (sort_key fst cs))) (\<lambda>ps. Inr (rev ps))"

lemma child_stack_nodes:
  assumes "child_stack l path cs = Inr st"
  shows "sum_list (map (\<lambda>(p, n). nodes n) st) = sum_list (map (\<lambda>(name, child). nodes child) cs)"
proof -
  have "map (\<lambda>(p, n). nodes n) ps = map (\<lambda>(name, child). nodes child) xs"
    if "list_all2 (\<lambda>x y. (case x of (name, child) \<Rightarrow> rbind (join_child l path name) (\<lambda>p. Inr (p, child))) = Inr y) xs ps"
    for xs ps
    using that by (induction rule: list_all2_induct) (auto simp: rbind_Inr_iff)
  then have "map (\<lambda>(p, n). nodes n) (rev st) = map (\<lambda>(name, child). nodes child) (rev (sort_key fst cs))"
    using assms by (auto simp: child_stack_def rbind_Inr_iff rmap_Inr_iff)
  then have "map (\<lambda>(p, n). nodes n) st = map (\<lambda>(name, child). nodes child) (sort_key fst cs)"
    by (simp add: rev_map [symmetric])
  then show ?thesis by simp
qed

function snapshot_loop ::
  "workspace_limits \<Rightarrow> entry_stack \<Rightarrow> snapshot_entry list \<Rightarrow> snapshot_entry list result" where
  "snapshot_loop l [] entries = Inr entries"
| "snapshot_loop l ((path, child) # pending) entries =
     (case child of
        FileNode b \<Rightarrow>
          rbind (snapshot_entry_new path FILE (Some b)) (\<lambda>e.
          snapshot_loop l pending (entries @ [e]))
      | DirNode cs \<Rightarrow>
          rbind (snapshot_entry_new path DIRECTORY None) (\<lambda>e.
          rbind (child_stack l path cs) (\<lambda>st.
          snapshot_loop l (st @ pending) (entries @ [e]))))"
  by pat_completeness auto
termination
  by (relation "measure (\<lambda>(l, pending, entries). sum_list (map (\<lambda>(p, n). nodes n) pending))")
     (auto simp: child_stack_nodes nodes.simps nodes_pos)

definition snapshot_entries :: "directory \<Rightarrow> sandbox_path \<Rightarrow> workspace_limits \<Rightarrow> snapshot_entry list result" where
  "snapshot_entries d path l =
     rbind (child_stack l path d) (\<lambda>st. snapshot_loop l st [])"

text \<open>The same by structural recursion, over the tree with the children in name order.\<close>

fun sorted_tree :: "node \<Rightarrow> node" where
  "sorted_tree (FileNode b) = FileNode b"
| "sorted_tree (DirNode cs) = DirNode (sort_key fst (map (\<lambda>(s, c). (s, sorted_tree c)) cs))"

fun tree_entries :: "position \<Rightarrow> node \<Rightarrow> snapshot_entry list" where
  "tree_entries ps (FileNode b) = [\<lparr>se_path = path_of ps, se_kind = FILE, se_content = Some b\<rparr>]"
| "tree_entries ps (DirNode cs) =
     \<lparr>se_path = path_of ps, se_kind = DIRECTORY, se_content = None\<rparr> #
     concat (map (\<lambda>(s, c). tree_entries (ps @ [s]) c) cs)"

lemma insort_key_map_snd:
  "insort_key fst (s, f c) (map (\<lambda>(s, c). (s, f c)) xs) = map (\<lambda>(s, c). (s, f c)) (insort_key fst (s, c) xs)"
  by (induction xs) (auto split: prod.splits)

lemma sort_key_map_snd:
  "sort_key fst (map (\<lambda>(s, c). (s, f c)) cs) = map (\<lambda>(s, c). (s, f c)) (sort_key fst cs)"
  by (induction cs) (auto simp: insort_key_map_snd)

lemma child_stack_ok:
  assumes "tree_ok (DirNode cs)" and "list_all seg_ok ps" and "limits_ok l" and "inside l ps (DirNode cs)"
  shows "child_stack l (path_of ps) cs = Inr (map (\<lambda>(s, c). (path_of (ps @ [s]), c)) (sort_key fst cs))"
proof -
  have "rmap (\<lambda>(name, child). rbind (join_child l (path_of ps) name) (\<lambda>p. Inr (p, child)))
      (rev (sort_key fst cs)) = Inr (map (\<lambda>(s, c). (path_of (ps @ [s]), c)) (rev (sort_key fst cs)))"
  proof (rule rmap_all_Inr)
    fix x assume "x \<in> set (rev (sort_key fst cs))"
    then have "x \<in> set cs" by simp
    moreover obtain s c where "x = (s, c)" by (rule prod.exhaust)
    ultimately have x: "x = (s, c)" "(s, c) \<in> set cs" by simp_all
    have "join_child l (path_of ps) s = Inr (path_of (ps @ [s]))"
      using assms x(2) join_child_ok [of ps s l] by (fastforce simp: tree_ok.simps inside.simps)
    then show "(case x of (name, child) \<Rightarrow> rbind (join_child l (path_of ps) name) (\<lambda>p. Inr (p, child))) =
        Inr (case x of (s, c) \<Rightarrow> (path_of (ps @ [s]), c))"
      using x by simp
  qed
  then show ?thesis by (simp add: child_stack_def rev_map)
qed

lemma concat_entries_sorted:
  "concat (map (\<lambda>(ps, n). tree_entries ps (sorted_tree n)) (map (\<lambda>(s, c). (qs @ [s], c)) (sort_key fst cs))) =
   concat (map (\<lambda>(s, c). tree_entries (qs @ [s]) c) (sort_key fst (map (\<lambda>(s, c). (s, sorted_tree c)) cs)))"
  by (simp add: sort_key_map_snd comp_def case_prod_beta)

definition stack_ok :: "workspace_limits \<Rightarrow> (position \<times> node) list \<Rightarrow> bool" where
  "stack_ok l st \<longleftrightarrow>
     (\<forall>(ps, n) \<in> set st. ps \<noteq> [] \<and> list_all seg_ok ps \<and> tree_ok n \<and> inside l ps n)"

lemma snapshot_loop_ok:
  assumes "limits_ok l" and "stack_ok l st"
  shows "snapshot_loop l (map (\<lambda>(ps, n). (path_of ps, n)) st) acc =
     Inr (acc @ concat (map (\<lambda>(ps, n). tree_entries ps (sorted_tree n)) st))"
  using assms(2)
proof (induction "sum_list (map (\<lambda>(ps, n). nodes n) st)" arbitrary: st acc rule: less_induct)
  case less
  show ?case
  proof (cases st)
    case Nil
    then show ?thesis by simp
  next
    case (Cons pn st')
    obtain ps n where pn: "pn = (ps, n)" by (cases pn)
    have ok: "ps \<noteq> []" "list_all seg_ok ps" "tree_ok n" "inside l ps n" "stack_ok l st'"
      using less.prems Cons pn by (auto simp: stack_ok_def)
    show ?thesis
    proof (cases n)
      case (FileNode b)
      have "sum_list (map (\<lambda>(ps, n). nodes n) st') < sum_list (map (\<lambda>(ps, n). nodes n) st)"
        using Cons pn nodes_pos [of n] by simp
      from less.hyps [OF this ok(5)] show ?thesis
        using Cons pn FileNode ok by (simp add: snapshot_entry_new_def)
    next
      case (DirNode cs)
      let ?cs = "map (\<lambda>(s, c). (ps @ [s], c)) (sort_key fst cs)"
      have st: "child_stack l (path_of ps) cs = Inr (map (\<lambda>(ps, n). (path_of ps, n)) ?cs)"
        using child_stack_ok [of cs ps l] ok assms(1) DirNode by (simp add: comp_def case_prod_beta)
      have "map (\<lambda>(ps, n). nodes n) ?cs = map (\<lambda>(s, c). nodes c) (sort_key fst cs)"
        by (simp add: comp_def case_prod_beta)
      then have "sum_list (map (\<lambda>(ps, n). nodes n) ?cs) = sum_list (map (\<lambda>(s, c). nodes c) cs)"
        by (simp del: map_map)
      then have small: "sum_list (map (\<lambda>(ps, n). nodes n) (?cs @ st')) < sum_list (map (\<lambda>(ps, n). nodes n) st)"
        using Cons pn DirNode by (simp add: nodes.simps del: map_map)
      have "stack_ok l (?cs @ st')"
        using ok DirNode by (auto simp: stack_ok_def tree_ok.simps inside.simps)
      from less.hyps [OF small this] show ?thesis
        using Cons pn DirNode ok(1) st concat_entries_sorted [of ps cs]
        by (simp add: snapshot_entry_new_def del: map_map)
    qed
  qed
qed

lemma snapshot_entries_ok:
  assumes "tree_ok (DirNode d)" and "limits_ok l" and "inside l [] (DirNode d)"
  shows "snapshot_entries d root_path l = Inr (tl (tree_entries [] (sorted_tree (DirNode d))))"
proof -
  let ?cs = "map (\<lambda>(s, c). ([s], c)) (sort_key fst d)"
  have "child_stack l root_path d = Inr (map (\<lambda>(ps, n). (path_of ps, n)) ?cs)"
    using child_stack_ok [OF assms(1) _ assms(2,3)] by (simp add: comp_def case_prod_beta)
  moreover have "stack_ok l ?cs"
    using assms by (auto simp: stack_ok_def tree_ok.simps inside.simps)
  ultimately show ?thesis
    using snapshot_loop_ok [OF assms(2), of ?cs "[]"] concat_entries_sorted [of "[]" d]
    by (simp add: snapshot_entries_def del: map_map)
qed

section \<open>Entries to tree\<close>

fun root_from :: "directory \<Rightarrow> snapshot_entry list \<Rightarrow> directory result" where
  "root_from r [] = Inr r"
| "root_from r (e # es) =
     rbind (get_parent r (se_path e)) (\<lambda>_.
       case se_kind e of
         DIRECTORY \<Rightarrow> root_from (put_child r (se_path e) (DirNode [])) es
       | FILE \<Rightarrow>
           (case se_content e of
              None \<Rightarrow> throw (Builtin AssertionError) []
            | Some b \<Rightarrow> root_from (put_child r (se_path e) (FileNode b)) es))"

definition root_from_entries :: "snapshot_entry list \<Rightarrow> directory result" where
  "root_from_entries entries = root_from [] entries"

lemma lookup_at_dir:
  "lookup (DirNode d) p = Some (DirNode e) \<Longrightarrow> lookup (DirNode (at_dir f p d)) p = Some (DirNode (f e))"
proof (induction p arbitrary: d)
  case Nil
  then show ?case by simp
next
  case (Cons s p)
  then obtain d' where "map_of d s = Some (DirNode d')" "lookup (DirNode d') p = Some (DirNode e)"
    by (cases p) (auto split: option.splits elim: lookup.elims)
  with Cons.IH show ?case by simp
qed

lemma at_dir_cong_at:
  "lookup (DirNode d) p = Some (DirNode e) \<Longrightarrow> f e = g e \<Longrightarrow> at_dir f p d = at_dir g p d"
proof (induction p arbitrary: d)
  case Nil
  then show ?case by simp
next
  case (Cons s p)
  then obtain d' where "map_of d s = Some (DirNode d')" "lookup (DirNode d') p = Some (DirNode e)"
    by (cases p) (auto split: option.splits elim: lookup.elims)
  with Cons.IH Cons.prems(2) show ?case by simp
qed

lemma dict_put_new: "k \<notin> fst ` set d \<Longrightarrow> dict_put k v d = d @ [(k, v)]"
  by (induction d) auto

lemma put_child_path_of:
  "list_all seg_ok ps \<Longrightarrow> seg_ok s \<Longrightarrow> put_child r (path_of (ps @ [s])) n = at_dir (dict_put s n) ps r"
  by (simp add: put_child_def path_name_path_of)

lemma get_parent_path_of:
  assumes "list_all seg_ok ps" and "seg_ok s" and "lookup (DirNode r) ps = Some (DirNode e)"
  shows "get_parent r (path_of (ps @ [s])) = Inr e"
  using assms get_parent_ok [of "path_of (ps @ [s])" r e] path_of_ok [of "ps @ [s]"]
  by simp

lemma root_from_tree:
  assumes "tree_ok n" and "list_all seg_ok ps" and "seg_ok s"
    and "lookup (DirNode r) ps = Some (DirNode e)" and "s \<notin> fst ` set e"
  shows "root_from r (tree_entries (ps @ [s]) n @ es) = root_from (at_dir (dict_put s n) ps r) es"
  using assms
proof (induction n arbitrary: ps s r e es rule: node_induct)
  case (FileNode b)
  then show ?case by (simp add: get_parent_path_of put_child_path_of)
next
  case (DirNode cs)
  have children: "root_from r' (concat (map (\<lambda>(t, c). tree_entries ((ps @ [s]) @ [t]) c) xs) @ es) =
      root_from (at_dir (\<lambda>d. d @ xs) (ps @ [s]) r') es"
    if "set xs \<subseteq> set cs" "dict_ok xs" "lookup (DirNode r') (ps @ [s]) = Some (DirNode acc)"
      "fst ` set acc \<inter> fst ` set xs = {}" for xs r' acc
    using that
  proof (induction xs arbitrary: r' acc)
    case Nil
    have "at_dir (\<lambda>d. d @ []) (ps @ [s]) r' = r'"
    proof -
      have "at_dir (\<lambda>d. d) p d = d" for p d
        by (induction p arbitrary: d) (auto split: option.splits node.splits intro: dict_put_id)
      then show ?thesis by simp
    qed
    then show ?case by simp
  next
    case (Cons tc xs)
    obtain t c where tc: "tc = (t, c)" by (rule prod.exhaust)
    have c: "(t, c) \<in> set cs" "tree_ok c" "seg_ok t"
      using Cons.prems(1) tc DirNode.prems(1) by (auto simp: tree_ok.simps)
    have new: "t \<notin> fst ` set acc" using Cons.prems(4) tc by auto
    let ?r = "at_dir (dict_put t c) (ps @ [s]) r'"
    have look: "lookup (DirNode ?r) (ps @ [s]) = Some (DirNode (acc @ [(t, c)]))"
      using lookup_at_dir [OF Cons.prems(3)] dict_put_new [OF new] by simp
    have "root_from r' (concat (map (\<lambda>(t, c). tree_entries ((ps @ [s]) @ [t]) c) (tc # xs)) @ es) =
        root_from ?r (concat (map (\<lambda>(t, c). tree_entries ((ps @ [s]) @ [t]) c) xs) @ es)"
      using DirNode.IH [OF c(1,2) _ c(3) Cons.prems(3) new] DirNode.prems(2,3) tc by simp
    also have "\<dots> = root_from (at_dir (\<lambda>d. d @ xs) (ps @ [s]) ?r) es"
      using Cons.IH [OF _ _ look] Cons.prems tc by auto
    also have "at_dir (\<lambda>d. d @ xs) (ps @ [s]) ?r = at_dir (\<lambda>d. d @ tc # xs) (ps @ [s]) r'"
      using at_dir_compose [of "\<lambda>d. d @ xs" "ps @ [s]" "dict_put t c" r'] dict_put_new [OF new, of c] tc
      by (simp add: at_dir_cong_at [OF Cons.prems(3), of "(\<lambda>d. d @ xs) \<circ> dict_put t c" "\<lambda>d. d @ tc # xs"])
    finally show ?case .
  qed
  let ?r = "at_dir (dict_put s (DirNode [])) ps r"
  have look: "lookup (DirNode ?r) (ps @ [s]) = Some (DirNode [])"
    using lookup_at_put [OF DirNode.prems(4)] .
  have "root_from r (tree_entries (ps @ [s]) (DirNode cs) @ es) =
      root_from ?r (concat (map (\<lambda>(t, c). tree_entries ((ps @ [s]) @ [t]) c) cs) @ es)"
    using DirNode.prems by (simp add: get_parent_path_of put_child_path_of)
  also have "\<dots> = root_from (at_dir (\<lambda>d. d @ cs) (ps @ [s]) ?r) es"
    using children [OF _ _ look] DirNode.prems(1) by (simp add: tree_ok.simps)
  also have "at_dir (\<lambda>d. d @ cs) (ps @ [s]) ?r = at_dir (dict_put s (DirNode cs)) ps r"
    by (simp add: at_dir_append at_dir_compose comp_def)
  finally show ?case .
qed

lemma map_of_map_snd: "map_of (map (\<lambda>(s, c). (s, f c)) cs) s = map_option f (map_of cs s)"
  by (induction cs) auto

lemma tree_ok_sorted_tree: "tree_ok n \<Longrightarrow> tree_ok (sorted_tree n)"
proof (induction n rule: node_induct)
  case (FileNode b)
  then show ?case by simp
next
  case (DirNode cs)
  then show ?case
    by (auto simp: tree_ok.simps dict_ok_def comp_def case_prod_beta' split: prod.splits)
qed

lemma flat_sorted_tree: "tree_ok n \<Longrightarrow> flat (sorted_tree n) = flat n"
proof (induction n rule: node_induct)
  case (FileNode b)
  then show ?case by simp
next
  case (DirNode cs)
  let ?ds = "map (\<lambda>(s, c). (s, sorted_tree c)) cs"
  have ok: "dict_ok ?ds" using DirNode.prems by (simp add: tree_ok.simps dict_ok_def comp_def case_prod_beta')
  have "flat (sorted_tree (DirNode cs)) q = flat (DirNode cs) q" for q
  proof (cases q)
    case Nil
    then show ?thesis by simp
  next
    case (Cons s q')
    show ?thesis
    proof (cases "map_of cs s")
      case None
      then show ?thesis using Cons ok by (simp add: flat_Cons map_of_sort_key map_of_map_snd)
    next
      case (Some c)
      then have "flat (sorted_tree c) = flat c"
        using DirNode.IH [of s c] DirNode.prems by (auto simp: tree_ok.simps dest: map_of_SomeD)
      then show ?thesis using Cons ok Some by (simp add: flat_Cons map_of_sort_key map_of_map_snd)
    qed
  qed
  then show ?case by blast
qed

lemma root_from_snapshot:
  assumes "tree_ok (DirNode d)"
  shows "root_from_entries (tl (tree_entries [] (sorted_tree (DirNode d)))) =
     Inr (children (sorted_tree (DirNode d)))"
proof -
  obtain ds where ds: "sorted_tree (DirNode d) = DirNode ds" by simp
  have ok: "tree_ok (DirNode ds)" using tree_ok_sorted_tree [OF assms] ds by simp
  have "root_from acc (concat (map (\<lambda>(t, c). tree_entries [t] c) xs)) = Inr (acc @ xs)"
    if "set xs \<subseteq> set ds" "dict_ok xs" "fst ` set acc \<inter> fst ` set xs = {}" for xs acc
    using that
  proof (induction xs arbitrary: acc)
    case Nil
    then show ?case by simp
  next
    case (Cons tc xs)
    obtain t c where tc: "tc = (t, c)" by (rule prod.exhaust)
    have c: "tree_ok c" "seg_ok t" "t \<notin> fst ` set acc"
      using Cons.prems tc ok by (auto simp: tree_ok.simps)
    have "root_from acc (tree_entries ([] @ [t]) c @ concat (map (\<lambda>(t, c). tree_entries [t] c) xs)) =
        root_from (at_dir (dict_put t c) [] acc) (concat (map (\<lambda>(t, c). tree_entries [t] c) xs))"
      using c by (intro root_from_tree) simp_all
    then show ?case
      using Cons.IH [of "acc @ [(t, c)]"] Cons.prems tc c(3) by (auto simp: dict_put_new)
  qed
  from this [of ds "[]"] ok ds show ?thesis
    by (simp add: root_from_entries_def tree_ok.simps)
qed

end
