(* ===== verification/Snapshot_Tree.thy ===== *)
theory Snapshot_Tree
  imports Workspace_Entries
begin

text \<open>
  \<open>workspace/snapshot_tree.py\<close>: the codec's own measurement of a list of entries. It builds a
  tree of the entries in path order and reports its bytes, nodes and hash. Its nodes
  (\<open>_TreeDirectory\<close> and \<open>bytes\<close>) have the shape of the workspace's, so the type is shared. The
  tree is the one \<open>_root_from_entries\<close> builds, and the report is what that tree measures.
\<close>

definition corrupt :: "pystr \<Rightarrow> sandbox_error" where
  "corrupt m = Raise (Workspace SnapshotCorruptError) m"

fun walk_parents :: "sandbox_path \<Rightarrow> directory \<Rightarrow> pystr list \<Rightarrow> directory result" where
  "walk_parents path parent [] = Inr parent"
| "walk_parents path parent (segment # segments) =
     (case map_of parent segment of
        Some (DirNode child) \<Rightarrow> walk_parents path child segments
      | _ \<Rightarrow> Inl (corrupt (pstr ''snapshot parent directory is missing for '' @ path_value path)))"

definition tree_insert :: "directory \<Rightarrow> int \<Rightarrow> snapshot_entry \<Rightarrow> (directory \<times> int) result" where
  "tree_insert r total_so_far e =
     rbind (walk_parents (se_path e) r (butlast (path_parts (se_path e)))) (\<lambda>parent.
       if path_name (se_path e) \<in> fst ` set parent
       then Inl (corrupt (pstr ''snapshot path is duplicated: '' @ path_value (se_path e)))
       else case se_kind e of
              DIRECTORY \<Rightarrow> Inr (put_child r (se_path e) (DirNode []), total_so_far)
            | FILE \<Rightarrow>
                (case se_content e of
                   None \<Rightarrow> throw (Builtin AssertionError) []
                 | Some b \<Rightarrow>
                     Inr (put_child r (se_path e) (FileNode b), total_so_far + int (length b))))"

fun tree_build :: "directory \<Rightarrow> int \<Rightarrow> snapshot_entry list \<Rightarrow> (directory \<times> int) result" where
  "tree_build r n [] = Inr (r, n)"
| "tree_build r n (e # es) = rbind (tree_insert r n e) (\<lambda>(r', n'). tree_build r' n' es)"

text \<open>\<open>_tree_node_hash\<close> is the loop of \<open>_node_hash\<close> on the other node type.\<close>

definition tree_node_hash :: "node \<Rightarrow> content_hash result" where
  "tree_node_hash n =
     (case n of
        FileNode b \<Rightarrow> Inr (from_bytes b)
      | DirNode _ \<Rightarrow>
          rbind (hash_loop [([], n, False)] (\<lambda>_. None)) (\<lambda>hashes.
            case hashes [] of None \<Rightarrow> Inl key_error | Some h \<Rightarrow> Inr h))"

definition entry_order :: "snapshot_entry \<Rightarrow> pystr" where
  "entry_order e = path_value (se_path e)"

definition measure_workspace_entries :: "snapshot_entry list \<Rightarrow> tree_stats result" where
  "measure_workspace_entries entries =
     rbind (tree_build [] 0 (sort_key entry_order entries)) (\<lambda>(r, n).
     rbind (tree_node_hash (DirNode r)) (\<lambda>h.
     Inr \<lparr>ts_total_bytes = n, ts_node_count = int (length entries) + 1, ts_root_hash = h\<rparr>))"

section \<open>What an insertion adds\<close>

text \<open>Both measures of a directory are sums over its children.\<close>

lemma sum_dict_put:
  fixes f :: "'k \<times> 'v \<Rightarrow> nat"
  assumes "map_of d k = Some w"
  shows "sum_list (map f (dict_put k v d)) + f (k, w) = sum_list (map f d) + f (k, v)"
  using assms by (induction d) (auto split: if_splits)

lemma sum_dict_put_new:
  fixes f :: "'k \<times> 'v \<Rightarrow> nat"
  assumes "map_of d k = None"
  shows "sum_list (map f (dict_put k v d)) = sum_list (map f d) + f (k, v)"
  using assms by (induction d) (auto split: if_splits)

lemma sum_at_dir:
  assumes m: "\<And>cs. m (DirNode cs) = k + sum_list (map (\<lambda>(s, c). m c) cs)"
    and "lookup (DirNode d) ps = Some (DirNode e)" and "map_of e s = None"
  shows "(m (DirNode (at_dir (dict_put s n) ps d)) :: nat) = m (DirNode d) + m n"
  using assms(2)
proof (induction ps arbitrary: d)
  case Nil
  then show ?case using assms(3) by (simp add: m sum_dict_put_new)
next
  case (Cons t ps)
  then obtain d' where d': "map_of d t = Some (DirNode d')" "lookup (DirNode d') ps = Some (DirNode e)"
    by (cases ps) (auto split: option.splits elim: lookup.elims)
  show ?case
    using sum_dict_put [OF d'(1), of "\<lambda>(s, c). m c" "DirNode (at_dir (dict_put s n) ps d')"]
      Cons.IH [OF d'(2)] d'(1)
    by (simp add: m)
qed

lemma nodes_at_dir:
  "lookup (DirNode d) ps = Some (DirNode e) \<Longrightarrow> map_of e s = None \<Longrightarrow>
     nodes (DirNode (at_dir (dict_put s n) ps d)) = nodes (DirNode d) + nodes n"
  by (rule sum_at_dir [where k = 1]) (simp_all add: nodes.simps)

lemma content_bytes_at_dir:
  "lookup (DirNode d) ps = Some (DirNode e) \<Longrightarrow> map_of e s = None \<Longrightarrow>
     content_bytes (DirNode (at_dir (dict_put s n) ps d)) = content_bytes (DirNode d) + content_bytes n"
  by (rule sum_at_dir [where k = 0]) (simp_all add: content_bytes.simps)

lemma walk_parents_ok [ok_iff]:
  "walk_parents path d ps = Inr e \<longleftrightarrow> lookup (DirNode d) ps = Some (DirNode e)"
  by (induction path d ps rule: walk_parents.induct) (auto split: option.splits node.splits elim: lookup.elims)

section \<open>The two builders\<close>

definition entry_ok :: "snapshot_entry \<Rightarrow> bool" where
  "entry_ok e \<longleftrightarrow> path_ok (se_path e) \<and> snapshot_entry_new (se_path e) (se_kind e) (se_content e) = Inr e"

lemma entry_ok_facts:
  assumes "entry_ok e"
  shows "path_ok (se_path e)" and "\<not> is_root (se_path e)" and "se_kind e = FILE \<longleftrightarrow> se_content e \<noteq> None"
  using assms by (auto simp: entry_ok_def snapshot_entry_new_ok)

lemma tree_insert_ok:
  assumes "entry_ok e" and "tree_ok (DirNode r)" and "tree_insert r n e = Inr (r', n')"
  shows "root_from r (e # es) = root_from r' es" and "tree_ok (DirNode r')"
    and "nodes (DirNode r') = nodes (DirNode r) + 1"
    and "n' - int (content_bytes (DirNode r')) = n - int (content_bytes (DirNode r))"
proof -
  note e = entry_ok_facts [OF assms(1)]
  obtain node parent where st: "lookup (DirNode r) (butlast (path_parts (se_path e))) = Some (DirNode parent)"
    "path_name (se_path e) \<notin> fst ` set parent" "r' = put_child r (se_path e) node"
    "(se_kind e = DIRECTORY \<and> node = DirNode [] \<and> n' = n) \<or>
     (\<exists>b. se_kind e = FILE \<and> se_content e = Some b \<and> node = FileNode b \<and> n' = n + int (length b))"
    using assms(3) by (auto simp: tree_insert_def ok_iff split: if_splits node_kind.splits option.splits)
  have ok: "tree_ok node" "nodes node = 1" "n' = n + int (content_bytes node)"
    using st(4) by (auto simp: nodes.simps content_bytes.simps)
  show "root_from r (e # es) = root_from r' es"
    using get_parent_ok [OF e(1), of r parent] st by auto
  show "tree_ok (DirNode r')"
    using tree_ok_put_child [OF assms(2) ok(1) e(1,2)] st(3) by simp
  have new: "map_of parent (path_name (se_path e)) = None" using st(2) by (simp add: map_of_eq_None_iff)
  show "nodes (DirNode r') = nodes (DirNode r) + 1"
    using nodes_at_dir [OF st(1) new, of node] st(3) ok(2) by (simp add: put_child_def)
  show "n' - int (content_bytes (DirNode r')) = n - int (content_bytes (DirNode r))"
    using content_bytes_at_dir [OF st(1) new, of node] st(3) ok(3) by (simp add: put_child_def)
qed

lemma tree_build_ok:
  assumes "list_all entry_ok es" and "tree_ok (DirNode r)" and "tree_build r n es = Inr (r', n')"
  shows "root_from r es = Inr r' \<and> tree_ok (DirNode r') \<and>
    nodes (DirNode r') = nodes (DirNode r) + length es \<and>
    n' - int (content_bytes (DirNode r')) = n - int (content_bytes (DirNode r))"
  using assms
proof (induction es arbitrary: r n)
  case Nil
  then show ?case by simp
next
  case (Cons e es)
  then obtain r1 n1 where st: "tree_insert r n e = Inr (r1, n1)" "tree_build r1 n1 es = Inr (r', n')"
    by (auto simp: rbind_Inr_iff)
  have "entry_ok e" "list_all entry_ok es" using Cons.prems(1) by simp_all
  note i = tree_insert_ok [OF this(1) Cons.prems(2) st(1)]
  show ?case
    using Cons.IH [OF \<open>list_all entry_ok es\<close> i(2) st(2)] i by simp
qed

lemma tree_node_hash_eq: "tree_node_hash n = node_hash n"
  by (simp add: tree_node_hash_def node_hash_def)

lemma measured_entries:
  assumes "list_all entry_ok es" and "sorted (map entry_order es)"
    and "measure_workspace_entries es = Inr ts"
  obtains d where "root_from_entries es = Inr d" "tree_ok (DirNode d)"
    "ts_total_bytes ts = int (content_bytes (DirNode d))" "ts_node_count ts = int (nodes (DirNode d))"
    "hash_rec (DirNode d) = Inr (ts_root_hash ts)"
proof -
  have "sort_key entry_order es = es" using assms(2) by (rule sort_key_id_if_sorted)
  then obtain r n h where st: "tree_build [] 0 es = Inr (r, n)" "node_hash (DirNode r) = Inr h"
    "ts = \<lparr>ts_total_bytes = n, ts_node_count = int (length es) + 1, ts_root_hash = h\<rparr>"
    using assms(3) by (auto simp: measure_workspace_entries_def rbind_Inr_iff tree_node_hash_eq)
  note b = tree_build_ok [OF assms(1) tree_ok_empty st(1)]
  show thesis
  proof
    show "root_from_entries es = Inr r" "tree_ok (DirNode r)"
      using b by (simp_all add: root_from_entries_def)
    show "ts_total_bytes ts = int (content_bytes (DirNode r))" "ts_node_count ts = int (nodes (DirNode r))"
      using b st(3) by (simp_all add: nodes.simps content_bytes.simps)
    show "hash_rec (DirNode r) = Inr (ts_root_hash ts)"
      using st(2,3) node_hash_eq [of "DirNode r"] b by simp
  qed
qed

end
