(* ===== verification/Workspace_Restore.thy ===== *)
theory Workspace_Restore
  imports Snapshot_Tree
begin

text \<open>
  Restoring a workspace (\<open>_prepare_restore_candidate\<close> and \<open>commit_restore\<close> of
  \<open>workspace/memory.py\<close>). A candidate is prepared without touching the live state and is keyed by
  a fresh capability; committing it removes it and publishes its state. The dictionary of
  candidates is weak in the source: an entry whose capability nobody holds is dropped, which no
  caller can observe, so the model keeps it. Between the pop and the publication other
  operations may run; the publication replaces the whole state, so the operation takes effect there.
\<close>

section \<open>Operations\<close>

definition copy_workspace_stats :: "workspace_stats \<Rightarrow> workspace_stats result" where
  "copy_workspace_stats s =
     rbind (revision_new (rev_value (ws_revision s))) (\<lambda>r.
     rbind (content_hash_new (hash_value (root_hash s))) (\<lambda>h.
     Inr \<lparr>total_bytes = total_bytes s, node_count = node_count s, ws_revision = r, root_hash = h\<rparr>))"

definition prepare_restore_candidate ::
  "snapshot_entry list \<Rightarrow> workspace_stats \<Rightarrow> sandbox_path \<Rightarrow> prepared_restore ws_action" where
  "prepare_restore_candidate entries stats required_directory =
     act_bind (act_get (\<lambda>w. w)) (\<lambda>w.
     act_bind (act_lift (root_from_entries entries)) (\<lambda>r.
     act_bind (act_lift (state_for_root (ws_limits w) r (ws_revision stats))) (\<lambda>candidate.
     act_bind (act_lift (guard (st_stats candidate = stats)
       (corrupt (pstr ''snapshot counters or hashes do not match reconstructed state'')))) (\<lambda>_.
     act_bind (act_lift (get_node (st_root candidate) required_directory)) (\<lambda>required_node.
     act_bind (act_lift (guard (node_kind required_node = DIRECTORY)
       (not_a_directory required_directory))) (\<lambda>_.
     let prepared = issue (ws_restore_token w) (ws_next_capability w) in
     act_bind (act_put (\<lambda>w. w\<lparr>ws_next_capability := ws_next_capability w + 1\<rparr>)) (\<lambda>_.
       case capability_for prepared (ws_restore_token w) of
         None \<Rightarrow> act_lift (throw (Builtin RuntimeError)
                   (pstr ''issued restore candidate is missing its capability''))
       | Some c \<Rightarrow>
           act_bind (act_lift (copy_workspace_stats (st_stats candidate))) (\<lambda>expected.
           act_bind (act_put (\<lambda>w. w\<lparr>ws_restore_candidates :=
               dict_put c \<lparr>pp_state = candidate, pp_expected_stats = expected\<rparr>
                 (ws_restore_candidates w)\<rparr>)) (\<lambda>_.
           act_ret prepared)))))))))"

definition restore_invalid :: "pystr \<Rightarrow> sandbox_error" where
  "restore_invalid m = Raise (Workspace PreparedRestoreInvalid) m"

text \<open>\<open>except (SandboxError, AttributeError, TypeError, ValueError)\<close>\<close>

definition restore_caught :: "sandbox_error \<Rightarrow> bool" where
  "restore_caught e \<longleftrightarrow> is_sandbox_error e \<or>
     err_class e \<in> {Builtin TypeError, Builtin ValueError, Builtin UnicodeEncodeError, Builtin UnicodeDecodeError}"

definition detached_state :: "workspace_limits \<Rightarrow> directory \<Rightarrow> workspace_stats \<Rightarrow> workspace_state result" where
  "detached_state l candidate_root expected =
     (case rbind (revision_new (rev_value (ws_revision expected))) (\<lambda>sealed_revision.
           rbind (clone_directory candidate_root (max_nodes l)) (\<lambda>r.
           state_for_root l r sealed_revision)) of
        Inr st \<Rightarrow> Inr st
      | Inl e \<Rightarrow>
          if restore_caught e
          then Inl (restore_invalid (pstr ''restore candidate contains invalid workspace state''))
          else Inl e)"

definition commit_restore :: "prepared_restore \<Rightarrow> unit ws_action" where
  "commit_restore candidate =
     act_bind (act_get (\<lambda>w. w)) (\<lambda>w.
     act_bind (act_lift (guard (belongs_to candidate (ws_restore_token w))
       (Raise (Workspace RestoreCandidateMismatch)
          (pstr ''restore candidate belongs to another workspace'')))) (\<lambda>_.
       case capability_for candidate (ws_restore_token w) of
         None \<Rightarrow> act_lift (Inl (restore_invalid
                   (pstr ''restore candidate contains invalid workspace state'')))
       | Some c \<Rightarrow>
           act_bind (act_get (\<lambda>w. map_of (ws_restore_candidates w) c)) (\<lambda>popped.
           act_bind (act_put (\<lambda>w. w\<lparr>ws_restore_candidates := dict_del c (ws_restore_candidates w)\<rparr>)) (\<lambda>_.
             case popped of
               None \<Rightarrow> act_lift (Inl (restore_invalid
                         (pstr ''restore candidate contains invalid workspace state'')))
             | Some prepared \<Rightarrow>
                 act_bind (act_lift (guard (st_stats (pp_state prepared) = pp_expected_stats prepared)
                   (restore_invalid (pstr ''restore candidate metadata changed after preparation'')))) (\<lambda>_.
                 act_bind (act_lift (detached_state (ws_limits w) (st_root (pp_state prepared))
                   (pp_expected_stats prepared))) (\<lambda>st.
                 act_bind (act_lift (guard (st_stats st = pp_expected_stats prepared)
                   (restore_invalid (pstr ''restore candidate changed after preparation'')))) (\<lambda>_.
                 act_put (\<lambda>w. w\<lparr>ws_state := st\<rparr>))))))))"

section \<open>Preparing\<close>

lemma root_from_tree_ok:
  "root_from r es = Inr r' \<Longrightarrow> list_all entry_ok es \<Longrightarrow> tree_ok (DirNode r) \<Longrightarrow> tree_ok (DirNode r')"
proof (induction r es rule: root_from.induct)
  case (1 r)
  then show ?case by simp
next
  case (2 r e es)
  have e: "path_ok (se_path e)" "\<not> is_root (se_path e)"
    using 2(4) entry_ok_facts [of e] by simp_all
  have "tree_ok (DirNode (put_child r (se_path e) n))" if "tree_ok n" for n
    using tree_ok_put_child [OF 2(5) that e] .
  then show ?case
    using 2 by (auto simp: rbind_Inr_iff split: node_kind.splits option.splits)
qed

lemma state_ok_again:
  assumes "state_ok l st" and "limits_ok l"
  shows "state_for_root l (st_root st) (ws_revision (st_stats st)) = Inr st"
  using assms state_for_root_ok [of "st_root st" l "ws_revision (st_stats st)" st]
  by (auto simp: state_ok_def)

lemma copy_workspace_stats_Inr: "copy_workspace_stats s = Inr s' \<Longrightarrow> s' = s"
  by (cases "ws_revision s"; cases "root_hash s") (auto simp: copy_workspace_stats_def ok_iff)

lemma hash_rec_hash_ok: "hash_rec n = Inr h \<Longrightarrow> hash_ok h"
  by (cases n) (auto simp: hash_rec.simps rbind_Inr_iff hash_directory_eq)

lemma copy_workspace_stats_ok:
  assumes "state_ok l st"
  shows "copy_workspace_stats (st_stats st) = Inr (st_stats st)"
proof -
  have "hash_ok (root_hash (st_stats st))" "revision_ok (ws_revision (st_stats st))"
    using assms hash_rec_hash_ok by (auto simp: state_ok_def)
  then show ?thesis
    by (cases "ws_revision (st_stats st)"; cases "root_hash (st_stats st)")
       (auto simp: copy_workspace_stats_def ok_iff)
qed

lemma prepare_returns:
  assumes "root_from_entries es = Inr d" and "state_for_root (ws_limits w) d (ws_revision stats) = Inr st"
    and "st_stats st = stats" and "state_ok (ws_limits w) st" and "st_root st = d"
    and "lookup (DirNode d) (path_parts req) = Some (DirNode e)"
  shows "prepare_restore_candidate es stats req w =
     (Inr \<lparr>workspace_token = ws_restore_token w, capability = ws_next_capability w\<rparr>,
      w\<lparr>ws_next_capability := ws_next_capability w + 1,
        ws_restore_candidates := dict_put (ws_next_capability w)
          \<lparr>pp_state = st, pp_expected_stats = stats\<rparr> (ws_restore_candidates w)\<rparr>)"
  using assms copy_workspace_stats_ok [OF assms(4)]
  by (auto simp: prepare_restore_candidate_def act_bind_get act_bind_lift act_simps act_bind_put issue_def
      capability_for_def Let_def get_node_ok [THEN iffD2])

text \<open>What a preparation does: nothing when it raises, otherwise one more candidate.\<close>

lemma prepare_cases:
  assumes "prepare_restore_candidate es stats req w = (out, w')"
    and "ws_inv w" and "list_all entry_ok es" and "revision_ok (ws_revision stats)"
  obtains e where "out = Inl e" "w' = w"
  | d st where "root_from_entries es = Inr d" "state_for_root (ws_limits w) d (ws_revision stats) = Inr st"
      "st_stats st = stats" "state_ok (ws_limits w) st" "st_root st = d"
      "\<exists>e. lookup (DirNode d) (path_parts req) = Some (DirNode e)"
      "out = Inr \<lparr>workspace_token = ws_restore_token w, capability = ws_next_capability w\<rparr>"
      "w' = w\<lparr>ws_next_capability := ws_next_capability w + 1,
             ws_restore_candidates := dict_put (ws_next_capability w)
               \<lparr>pp_state = st, pp_expected_stats = stats\<rparr> (ws_restore_candidates w)\<rparr>"
proof -
  note run = assms(1) [unfolded prepare_restore_candidate_def]
  show thesis
  proof (cases "rbind (root_from_entries es) (\<lambda>d. state_for_root (ws_limits w) d (ws_revision stats))")
    case (Inl e)
    then have "out = Inl e \<and> w' = w"
      using run by (auto simp: act_bind_get act_bind_lift rbind_Inl_iff act_simps)
    then show thesis using that(1) by blast
  next
    case (Inr st)
    then obtain d where d: "root_from_entries es = Inr d" "state_for_root (ws_limits w) d (ws_revision stats) = Inr st"
      by (auto simp: rbind_Inr_iff)
    have "tree_ok (DirNode d)"
      using d(1) root_from_tree_ok [OF _ assms(3) tree_ok_empty] by (simp add: root_from_entries_def)
    note st = state_for_root_state_ok [OF d(2) this ws_inv_limits [OF assms(2)] assms(4)]
    show thesis
    proof (cases "st_stats st = stats \<and> (\<exists>n. get_node d req = Inr n \<and> node_kind n = DIRECTORY)")
      case True
      then obtain n where n: "lookup (DirNode d) (path_parts req) = Some n" "node_kind n = DIRECTORY"
        by (auto simp: get_node_ok)
      then obtain e where "lookup (DirNode d) (path_parts req) = Some (DirNode e)" by (cases n) auto
      with True show thesis
        using that(2) [of d st] prepare_returns [OF d _ st(1,2)] d st assms(1) by auto
    next
      case False
      then have "\<exists>e. out = Inl e \<and> w' = w"
        using run d st(2)
        by (cases "get_node d req")
           (auto simp: act_bind_get act_bind_lift act_simps guard_def split: if_splits)
      then show thesis using that(1) by blast
    qed
  qed
qed

lemma prepare_inv:
  assumes "prepare_restore_candidate es stats req w = (out, w')"
    and "ws_inv w" and "list_all entry_ok es" and "revision_ok (ws_revision stats)"
  shows "ws_inv w'" and "ws_state w' = ws_state w" and "ws_limits w' = ws_limits w"
    and "ws_restore_token w' = ws_restore_token w" and "ws_next_capability w \<le> ws_next_capability w'"
    and "c < ws_next_capability w \<Longrightarrow> map_of (ws_restore_candidates w') c = map_of (ws_restore_candidates w) c"
proof -
  have "ws_inv w' \<and> ws_state w' = ws_state w \<and> ws_limits w' = ws_limits w \<and>
      ws_restore_token w' = ws_restore_token w \<and> ws_next_capability w \<le> ws_next_capability w' \<and>
      (c < ws_next_capability w \<longrightarrow> map_of (ws_restore_candidates w') c = map_of (ws_restore_candidates w) c)"
    using assms
  proof (cases rule: prepare_cases)
    case (1 e)
    then show ?thesis using assms(2) by simp
  next
    case (2 d st)
    then show ?thesis
      using assms(2) by (fastforce simp: ws_inv_def candidate_ok_def set_dict_put)
  qed
  then show "ws_inv w'" "ws_state w' = ws_state w" "ws_limits w' = ws_limits w"
    "ws_restore_token w' = ws_restore_token w" "ws_next_capability w \<le> ws_next_capability w'"
    "c < ws_next_capability w \<Longrightarrow> map_of (ws_restore_candidates w') c = map_of (ws_restore_candidates w) c"
    by blast+
qed

section \<open>Committing\<close>

lemma detached_state_ok:
  assumes "state_ok l st" and "limits_ok l"
  shows "detached_state l (st_root st) (st_stats st) = Inr st"
proof -
  have "revision_new (rev_value (ws_revision (st_stats st))) = Inr (ws_revision (st_stats st))"
    using assms(1) by (cases "ws_revision (st_stats st)") (simp add: state_ok_def revision_new_ok_iff)
  moreover have "clone_directory (st_root st) (max_nodes l) = Inr (st_root st)"
    using assms limits_ok_nodes [OF assms(2)] by (simp add: clone_directory_eq state_ok_def)
  ultimately show ?thesis
    using state_ok_again [OF assms] by (simp add: detached_state_def)
qed

lemma commit_restore_cases:
  assumes "ws_inv w"
  shows "commit_restore c w =
    (if workspace_token c \<noteq> ws_restore_token w
     then (throw (Workspace RestoreCandidateMismatch) (pstr ''restore candidate belongs to another workspace''), w)
     else case map_of (ws_restore_candidates w) (capability c) of
            None \<Rightarrow>
              (Inl (restore_invalid (pstr ''restore candidate contains invalid workspace state'')), w)
          | Some p \<Rightarrow>
              (Inr (), w\<lparr>ws_restore_candidates := dict_del (capability c) (ws_restore_candidates w),
                        ws_state := pp_state p\<rparr>))"
proof (cases "map_of (ws_restore_candidates w) (capability c)")
  case None
  then have "dict_del (capability c) (ws_restore_candidates w) = ws_restore_candidates w"
    by (auto simp: dict_del_def map_of_eq_None_iff image_iff intro!: filter_True)
  with None show ?thesis
    by (simp add: commit_restore_def act_bind_get act_bind_lift act_bind_put act_simps belongs_to_def capability_for_def guard_def)
next
  case (Some p)
  then have "candidate_ok (ws_limits w) p"
    using assms by (auto simp: ws_inv_def dest: map_of_SomeD)
  then have "detached_state (ws_limits w) (st_root (pp_state p)) (pp_expected_stats p) = Inr (pp_state p)"
    "st_stats (pp_state p) = pp_expected_stats p"
    using detached_state_ok [OF _ ws_inv_limits [OF assms]] by (auto simp: candidate_ok_def)
  with Some show ?thesis
    by (simp add: commit_restore_def act_bind_get act_bind_lift act_bind_put act_simps belongs_to_def capability_for_def guard_def)
qed

lemma dict_del_subset: "kv \<in> set (dict_del k d) \<Longrightarrow> kv \<in> set d"
  by (simp add: dict_del_def)

lemma commit_restore_inv:
  assumes "commit_restore c w = (out, w')" and "ws_inv w"
  shows "ws_inv w'" and "ws_limits w' = ws_limits w" and "ws_restore_token w' = ws_restore_token w"
    and "ws_next_capability w' = ws_next_capability w" and "isl out \<Longrightarrow> w' = w"
    and "map_of (ws_restore_candidates w) k = None \<Longrightarrow> map_of (ws_restore_candidates w') k = None"
proof -
  have *: "ws_inv w' \<and> ws_limits w' = ws_limits w \<and> ws_restore_token w' = ws_restore_token w \<and>
    ws_next_capability w' = ws_next_capability w \<and> (isl out \<longrightarrow> w' = w) \<and>
    (map_of (ws_restore_candidates w) k = None \<longrightarrow> map_of (ws_restore_candidates w') k = None)"
  proof (cases "workspace_token c = ws_restore_token w \<and> map_of (ws_restore_candidates w) (capability c) \<noteq> None")
    case True
    then obtain p where p: "map_of (ws_restore_candidates w) (capability c) = Some p" by blast
    then have "state_ok (ws_limits w) (pp_state p)"
      using assms(2) by (auto simp: ws_inv_def candidate_ok_def dest: map_of_SomeD)
    then show ?thesis
      using assms commit_restore_cases [OF assms(2), of c] True p
      by (auto simp: ws_inv_def dest!: dict_del_subset)
  next
    case False
    then show ?thesis
      using assms commit_restore_cases [OF assms(2), of c] by (auto split: if_splits option.splits)
  qed
  then show "ws_inv w'" "ws_limits w' = ws_limits w" "ws_restore_token w' = ws_restore_token w"
    "ws_next_capability w' = ws_next_capability w" "isl out \<Longrightarrow> w' = w"
    "map_of (ws_restore_candidates w) k = None \<Longrightarrow> map_of (ws_restore_candidates w') k = None"
    by blast+
qed

section \<open>Lives of a workspace\<close>

text \<open>
  Everything that happens to one workspace: mutations, preparations and commits, in any order,
  successful or not. \<open>committed c\<close> marks the event of a successful commit of candidate \<open>c\<close>.
\<close>

datatype life_event =
    Mutate ws_op
  | Prepare "snapshot_entry list" workspace_stats sandbox_path
  | Committed prepared_restore
  | Rejected prepared_restore

inductive life_step ::
  "(nat \<Rightarrow> nat option) \<Rightarrow> memory_workspace \<Rightarrow> life_event \<Rightarrow> memory_workspace \<Rightarrow> bool" for nd where
  mutate: "ws_step nd w op w' \<Longrightarrow> life_step nd w (Mutate op) w'"
| prepare: "list_all entry_ok es \<Longrightarrow> revision_ok (ws_revision stats) \<Longrightarrow>
    prepare_restore_candidate es stats req w = (out, w') \<Longrightarrow> life_step nd w (Prepare es stats req) w'"
| commit: "commit_restore c w = (Inr u, w') \<Longrightarrow> life_step nd w (Committed c) w'"
| reject: "commit_restore c w = (Inl e, w') \<Longrightarrow> life_step nd w (Rejected c) w'"

inductive life :: "(nat \<Rightarrow> nat option) \<Rightarrow> memory_workspace \<Rightarrow> life_event list \<Rightarrow> memory_workspace \<Rightarrow> bool"
  for nd where
  start: "life nd w [] w"
| next_event: "life_step nd w ev w' \<Longrightarrow> life nd w' evs w'' \<Longrightarrow> life nd w (ev # evs) w''"

inductive_cases life_stepE: "life_step nd w ev w'"
inductive_cases life_ConsE: "life nd w (ev # evs) w''"
inductive_simps life_Nil [simp]: "life nd w [] w'"

lemma mutate_candidates:
  assumes "ws_step nd w op w'" and "ws_inv w"
  shows "ws_restore_candidates w' = ws_restore_candidates w" and "ws_next_capability w' = ws_next_capability w"
    and "ws_restore_token w' = ws_restore_token w"
  using ws_step_step [OF assms] assms(1)
  by (cases "run_op nd op w"; auto simp: ws_step_iff step_def split: sum.splits)+

text \<open>A capability below the next one that is not among the candidates never returns.\<close>

lemma life_step_facts:
  assumes "life_step nd w ev w'" and "ws_inv w"
  shows "ws_inv w'" and "ws_limits w' = ws_limits w" and "ws_restore_token w' = ws_restore_token w"
    and "ws_next_capability w \<le> ws_next_capability w'"
    and "k < ws_next_capability w \<Longrightarrow> map_of (ws_restore_candidates w) k = None \<Longrightarrow>
      map_of (ws_restore_candidates w') k = None"
proof -
  have "ws_inv w' \<and> ws_limits w' = ws_limits w \<and> ws_restore_token w' = ws_restore_token w \<and>
      ws_next_capability w \<le> ws_next_capability w' \<and>
      (k < ws_next_capability w \<longrightarrow> map_of (ws_restore_candidates w) k = None \<longrightarrow>
        map_of (ws_restore_candidates w') k = None)"
    using assms(1)
  proof cases
    case (mutate op)
    then show ?thesis
      using ws_step_facts [OF mutate(2) assms(2)] mutate_candidates [OF mutate(2) assms(2)] by simp
  next
    case (prepare es stats req out)
    then show ?thesis using prepare_inv [OF prepare(4) assms(2) prepare(2,3)] by simp
  next
    case (commit c u)
    then show ?thesis using commit_restore_inv [OF commit(2) assms(2)] by simp
  next
    case (reject c e)
    then show ?thesis using commit_restore_inv [OF reject(2) assms(2)] by simp
  qed
  then show "ws_inv w'" "ws_limits w' = ws_limits w" "ws_restore_token w' = ws_restore_token w"
    "ws_next_capability w \<le> ws_next_capability w'"
    "k < ws_next_capability w \<Longrightarrow> map_of (ws_restore_candidates w) k = None \<Longrightarrow>
      map_of (ws_restore_candidates w') k = None"
    by blast+
qed

lemma life_facts:
  assumes "life nd w evs w'" and "ws_inv w"
  shows "ws_inv w' \<and> ws_limits w' = ws_limits w \<and> ws_restore_token w' = ws_restore_token w \<and>
    ws_next_capability w \<le> ws_next_capability w' \<and>
    (k < ws_next_capability w \<longrightarrow> map_of (ws_restore_candidates w) k = None \<longrightarrow>
      map_of (ws_restore_candidates w') k = None)"
  using assms
proof (induction rule: life.induct)
  case (start w)
  then show ?case by simp
next
  case (next_event w ev w' evs w'')
  note f = life_step_facts [OF next_event.hyps(1) next_event.prems]
  show ?case using next_event.IH [OF f(1)] f(2-4) f(5) [of k] by auto
qed

lemma committed_facts:
  assumes "commit_restore c w = (Inr u, w')" and "ws_inv w"
  obtains p where "workspace_token c = ws_restore_token w"
    "map_of (ws_restore_candidates w) (capability c) = Some p" "capability c < ws_next_capability w"
    "ws_state w' = pp_state p" "map_of (ws_restore_candidates w') (capability c) = None"
proof -
  obtain p where p: "workspace_token c = ws_restore_token w"
    "map_of (ws_restore_candidates w) (capability c) = Some p"
    "w' = w\<lparr>ws_restore_candidates := dict_del (capability c) (ws_restore_candidates w),
            ws_state := pp_state p\<rparr>"
    using assms(1) commit_restore_cases [OF assms(2), of c] by (auto split: if_splits option.splits)
  moreover have "capability c < ws_next_capability w"
    using assms(2) p(2) by (auto simp: ws_inv_def dest: map_of_SomeD)
  ultimately show thesis using that by simp
qed

lemma committed_once:
  assumes "life nd w evs w'" and "ws_inv w" and "capability c < ws_next_capability w"
    and "map_of (ws_restore_candidates w) (capability c) = None"
  shows "Committed c \<notin> set evs"
  using assms
proof (induction rule: life.induct)
  case (start w)
  then show ?case by simp
next
  case (next_event w ev w' evs w'')
  note f = life_step_facts [OF next_event.hyps(1) next_event.prems(1)]
  have "ev \<noteq> Committed c"
    using next_event.hyps(1) next_event.prems committed_facts
    by (auto elim!: life_stepE) (metis option.distinct(1))
  then show ?case
    using next_event.IH [OF f(1)] f(4) f(5) [of "capability c"] next_event.prems by auto
qed

end
