(* ===== verification/Transactional.thy ===== *)
theory Transactional
  imports Prelude
begin

text \<open>
  The contract of an object whose operations are serialised and all-or-nothing: a failed
  operation leaves the state as it was, a successful one performs its abstract update. A run
  of operations then is the fold of the abstract updates of those that succeeded.
\<close>

text \<open>Executing a list of operations, keeping going after failures, and those that succeeded.\<close>

fun exec_all :: "('op \<Rightarrow> 's \<Rightarrow> ('e + 'r) \<times> 's) \<Rightarrow> 'op list \<Rightarrow> 's \<Rightarrow> 's" where
  "exec_all exec [] s = s"
| "exec_all exec (op # ops) s = exec_all exec ops (snd (exec op s))"

fun succeeded :: "('op \<Rightarrow> 's \<Rightarrow> ('e + 'r) \<times> 's) \<Rightarrow> 'op list \<Rightarrow> 's \<Rightarrow> 'op list" where
  "succeeded exec [] s = []"
| "succeeded exec (op # ops) s =
     (if isl (fst (exec op s)) then [] else [op]) @ succeeded exec ops (snd (exec op s))"

locale transactional =
  fixes inv :: "'s \<Rightarrow> bool"
    and wf :: "'op \<Rightarrow> bool"
    and exec :: "'op \<Rightarrow> 's \<Rightarrow> ('e + 'r) \<times> 's"
    and abs :: "'s \<Rightarrow> 'a"
    and spec :: "'op \<Rightarrow> 'a \<Rightarrow> 'a"
  assumes exec_error: "inv s \<Longrightarrow> wf op \<Longrightarrow> exec op s = (Inl e, s') \<Longrightarrow> s' = s"
    and exec_ok: "inv s \<Longrightarrow> wf op \<Longrightarrow> exec op s = (Inr r, s') \<Longrightarrow> inv s' \<and> abs s' = spec op (abs s)"
begin

lemma exec_cases:
  assumes "inv s" and "wf op"
  obtains e where "exec op s = (Inl e, s)"
  | r s' where "exec op s = (Inr r, s')" "inv s'" "abs s' = spec op (abs s)"
proof (cases "exec op s")
  case (Pair out s')
  then show ?thesis
    using that assms exec_error [of s op _ s'] exec_ok [of s op _ s'] by (cases out) auto
qed

lemma exec_inv:
  assumes "inv s" and "wf op"
  shows "inv (snd (exec op s))"
  using assms by (cases rule: exec_cases [OF assms]) simp_all

lemma exec_abs:
  "inv s \<Longrightarrow> wf op \<Longrightarrow>
     abs (snd (exec op s)) = (if isl (fst (exec op s)) then abs s else spec op (abs s))"
  by (erule (1) exec_cases) simp_all

lemma exec_all_refines:
  "inv s \<Longrightarrow> list_all wf ops \<Longrightarrow>
     inv (exec_all exec ops s) \<and>
     abs (exec_all exec ops s) = fold spec (succeeded exec ops s) (abs s)"
proof (induction ops arbitrary: s)
  case Nil
  then show ?case by simp
next
  case (Cons op ops)
  then have "inv (snd (exec op s))" by (simp add: exec_inv)
  from Cons.IH [OF this] Cons.prems show ?case by (simp add: exec_abs)
qed

lemma exec_all_append: "exec_all exec (ops @ ops') s = exec_all exec ops' (exec_all exec ops s)"
  by (induction ops arbitrary: s) simp_all

lemma nothing_succeeded: "inv s \<Longrightarrow> list_all wf ops \<Longrightarrow> succeeded exec ops s = [] \<Longrightarrow> exec_all exec ops s = s"
proof (induction ops)
  case Nil
  then show ?case by simp
next
  case (Cons op ops)
  then have "inv s" "wf op" by simp_all
  then show ?case
  proof (cases rule: exec_cases)
    case (1 e)
    with Cons show ?thesis by simp
  next
    case (2 r s')
    with Cons.prems show ?thesis by simp
  qed
qed

end

end
