(* ===== verification/Workspace_Properties.thy ===== *)
theory Workspace_Properties
  imports Workspace_Refinement Transactional
begin

text \<open>
  The properties of \<open>MemoryWorkspace\<close>: atomicity, the invariant of every reachable state, the
  refinement of the abstract file system, reads after writes, write preconditions, ranges, and
  that the hash of a tree depends only on its contents.
\<close>

section \<open>A new workspace\<close>

lemma hash_directory_empty: "\<exists>h. hash_directory [] = Inr h"
  by (simp add: hash_directory_eq directory_preimage_def)

lemma workspace_new_inv:
  assumes "workspace_new l token = Inr w" and "limits_ok l"
  shows "ws_inv w" and "ws_limits w = l" and "ws_revision (ws_stats w) = revision_initial"
    and "view w = (\<lambda>q. if q = [] then Some FlatDir else None)"
proof -
  obtain st where st: "state_for_root l [] revision_initial = Inr st"
    "w = \<lparr>ws_limits = l, ws_state = st, ws_restore_token = token, ws_restore_candidates = [],
          ws_next_capability = 0\<rparr>"
    using assms(1) by (auto simp: workspace_new_def rbind_Inr_iff)
  note s = state_for_root_state_ok [OF st(1) tree_ok_empty assms(2) revision_initial_ok]
  show "ws_inv w" using s(1) st(2) assms(2) by (simp add: ws_inv_def)
  show "ws_limits w = l" "ws_revision (ws_stats w) = revision_initial" using st(2) s(3) by simp_all
  show "view w = (\<lambda>q. if q = [] then Some FlatDir else None)"
    using st(2) s(2) by (auto simp: view_def flat_empty_dir)
qed

lemma workspace_new_returns:
  assumes "limits_ok l"
  shows "\<exists>w. workspace_new l token = Inr w"
proof -
  have "\<not> isl (hash_rec (DirNode []))"
    using hash_directory_empty by (auto simp: hash_rec.simps)
  moreover have "content_bytes (DirNode []) = 0" "nodes (DirNode []) = 1"
    by (simp_all add: content_bytes.simps nodes.simps)
  ultimately have "\<exists>st. state_for_root l [] revision_initial = Inr st"
    using state_for_root_ok [OF tree_ok_empty assms, of revision_initial] assms
    by (auto simp: inside.simps limits_ok_def)
  then show ?thesis by (auto simp: workspace_new_def)
qed

section \<open>The transactional contract\<close>

interpretation mem: transactional "\<lambda>w. ws_inv w \<and> ws_limits w = l" op_paths_ok "run_op nd" view "fs_op nd l"
  for nd l
proof
  fix w op e w'
  assume "ws_inv w \<and> ws_limits w = l" and "op_paths_ok op" and run: "run_op nd op w = (Inl e, w')"
  then show "w' = w" using step_run_op [of w op nd] by (simp add: step_def)
next
  fix w op r w'
  assume w: "ws_inv w \<and> ws_limits w = l" and op: "op_paths_ok op" and run: "run_op nd op w = (Inr r, w')"
  have "step w (Inr r, w')" using step_run_op [of w op nd] w op unfolding run by blast
  note f = step_inv [OF this]
  show "(ws_inv w' \<and> ws_limits w' = l) \<and> view w' = fs_op nd l op (view w)"
    using f(1,2) w op run run_op_view [of w op nd r w'] by simp
qed

section \<open>Contents determine the hash\<close>

lemma flat_root_kind:
  assumes "flat m = flat n"
  shows "flat_of m = flat_of n"
  using fun_cong [OF assms, of "[]"] by simp

lemma flat_child: "map_of cs s = Some c \<Longrightarrow> flat c = (\<lambda>q. flat (DirNode cs) (s # q))"
  by (auto simp: flat_Cons)

lemma flat_child_exists: "flat (DirNode cs) [s] = None \<longleftrightarrow> map_of cs s = None"
  by (auto simp: flat_Cons split: option.splits)

lemma keys_from_flat:
  "flat (DirNode cs) = flat (DirNode ds) \<Longrightarrow> fst ` set cs = fst ` set ds"
proof -
  assume eq: "flat (DirNode cs) = flat (DirNode ds)"
  have "s \<in> fst ` set cs \<longleftrightarrow> s \<in> fst ` set ds" for s
    using flat_child_exists [of cs s] flat_child_exists [of ds s] eq by (simp add: map_of_eq_None_iff)
  then show ?thesis by blast
qed

lemma dict_perm:
  assumes "dict_ok cs" and "dict_ok ds" and "fst ` set cs = fst ` set ds"
    and "\<And>s c d. map_of cs s = Some c \<Longrightarrow> map_of ds s = Some d \<Longrightarrow> g (s, c) = g (s, d)"
  shows "mset (map g cs) = mset (map g ds)"
proof -
  let ?names = "mset_set (fst ` set cs)"
  have names: "mset (map fst xs) = mset_set (fst ` set xs)" if "dict_ok xs" for xs :: "('a \<times> 'b) list"
    using that by (simp add: dict_ok_def mset_set_set flip: set_map)
  have look: "map g xs = map (\<lambda>s. g (s, the (map_of xs s))) (map fst xs)" if "dict_ok xs" for xs
    using that by (auto simp: dict_ok_map_of)
  have "mset (map g cs) = image_mset (\<lambda>s. g (s, the (map_of cs s))) ?names"
    using look [OF assms(1)] names [OF assms(1)] by (metis mset_map)
  also have "\<dots> = image_mset (\<lambda>s. g (s, the (map_of ds s))) ?names"
  proof (rule image_mset_cong)
    fix s assume "s \<in># ?names"
    then have "s \<in> fst ` set cs" "s \<in> fst ` set ds" using assms(3) by auto
    then obtain c d where "map_of cs s = Some c" "map_of ds s = Some d"
      by (metis map_of_eq_None_iff not_None_eq)
    then show "g (s, the (map_of cs s)) = g (s, the (map_of ds s))" using assms(4) by simp
  qed
  also have "\<dots> = mset (map g ds)"
    using look [OF assms(2)] names [OF assms(2)] assms(3) by (metis mset_map)
  finally show ?thesis .
qed

lemma flat_FileNode_eq: "flat (FileNode b) = flat n \<longleftrightarrow> n = FileNode b"
proof
  assume "flat (FileNode b) = flat n"
  then show "n = FileNode b" using flat_root_kind [of "FileNode b" n] by (cases n) auto
qed simp

lemma same_right:
  fixes x y :: "'a + 'b"
  assumes "\<forall>h. x = Inr h \<longleftrightarrow> y = Inr h"
  shows "isl x \<longleftrightarrow> isl y" and "\<not> isl x \<Longrightarrow> x = y"
proof -
  have "isl z \<longleftrightarrow> \<not> (\<exists>h. z = Inr h)" for z :: "'a + 'b" by (cases z) auto
  note left = this
  show "isl x \<longleftrightarrow> isl y" unfolding left using assms by blast
  assume "\<not> isl x"
  then obtain h where x: "x = Inr h" by (cases x) auto
  with assms have "y = Inr h" by blast
  with x show "x = y" by simp
qed

lemma same_flat:
  assumes "tree_ok m" and "tree_ok n" and "flat m = flat n"
  shows "node_kind m = node_kind n" and "nodes m = nodes n" and "content_bytes m = content_bytes n"
    and "\<not> isl (hash_rec m) \<longleftrightarrow> \<not> isl (hash_rec n)"
    and "\<not> isl (hash_rec m) \<Longrightarrow> hash_rec m = hash_rec n"
proof -
  have "node_kind m = node_kind n \<and> nodes m = nodes n \<and> content_bytes m = content_bytes n \<and>
    (\<forall>h. hash_rec m = Inr h \<longleftrightarrow> hash_rec n = Inr h)"
    using assms
  proof (induction m arbitrary: n rule: node_induct)
    case (FileNode b)
    then show ?case by (simp add: flat_FileNode_eq)
  next
    case (DirNode cs)
    then obtain ds where n: "n = DirNode ds"
      using flat_FileNode_eq by (metis node.exhaust)
    have ok: "dict_ok cs" "dict_ok ds" using DirNode.prems n by (auto simp: tree_ok.simps)
    have keys: "fst ` set cs = fst ` set ds" using keys_from_flat DirNode.prems(3) n by blast
    have IH: "node_kind c = node_kind d \<and> nodes c = nodes d \<and> content_bytes c = content_bytes d \<and>
        (\<forall>h. hash_rec c = Inr h \<longleftrightarrow> hash_rec d = Inr h)"
      if "map_of cs s = Some c" "map_of ds s = Some d" for s c d
    proof (rule DirNode.IH)
      show "(s, c) \<in> set cs" using that(1) by (rule map_of_SomeD)
      show "tree_ok c" "tree_ok d"
        using that tree_ok_child DirNode.prems(1,2) n by blast+
      show "flat c = flat d"
        using flat_child [OF that(1)] flat_child [OF that(2)] DirNode.prems(3) n by simp
    qed
    have isl: "isl (hash_rec c) \<longleftrightarrow> isl (hash_rec d)" and proj: "\<not> isl (hash_rec c) \<Longrightarrow> projr (hash_rec c) = projr (hash_rec d)"
      if "map_of cs s = Some c" "map_of ds s = Some d" for s c d
      using IH [OF that] same_right [of "hash_rec c" "hash_rec d"] by (blast, simp)
    have "mset (map (\<lambda>(s, c). nodes c) cs) = mset (map (\<lambda>(s, c). nodes c) ds)"
      using IH by (intro dict_perm [OF ok keys]) auto
    then have nodes: "nodes (DirNode cs) = nodes (DirNode ds)"
      by (simp add: nodes.simps flip: sum_mset_sum_list del: mset_map)
    have "mset (map (\<lambda>(s, c). content_bytes c) cs) = mset (map (\<lambda>(s, c). content_bytes c) ds)"
      using IH by (intro dict_perm [OF ok keys]) auto
    then have bytes: "content_bytes (DirNode cs) = content_bytes (DirNode ds)"
      by (simp add: content_bytes.simps flip: sum_mset_sum_list del: mset_map)
    have "mset (map (\<lambda>(s, c). isl (hash_rec c)) cs) = mset (map (\<lambda>(s, c). isl (hash_rec c)) ds)"
      using isl by (intro dict_perm [OF ok keys]) auto
    then have "set (map (\<lambda>(s, c). isl (hash_rec c)) cs) = set (map (\<lambda>(s, c). isl (hash_rec c)) ds)"
      by (metis set_mset_mset)
    then have all: "(\<forall>(s, c) \<in> set cs. \<not> isl (hash_rec c)) \<longleftrightarrow> (\<forall>(s, c) \<in> set ds. \<not> isl (hash_rec c))"
      by (auto simp: set_eq_iff image_iff)
    have hashes: "hash_directory (map (\<lambda>(s, c). (s, node_kind c, projr (hash_rec c))) cs) =
        hash_directory (map (\<lambda>(s, c). (s, node_kind c, projr (hash_rec c))) ds)"
      if "\<forall>(s, c) \<in> set cs. \<not> isl (hash_rec c)"
    proof (rule hash_directory_mset, rule dict_perm [OF ok keys])
      fix s c d assume cd: "map_of cs s = Some c" "map_of ds s = Some d"
      then have "\<not> isl (hash_rec c)" using that by (auto dest: map_of_SomeD)
      then show "(case (s, c) of (s, c) \<Rightarrow> (s, node_kind c, projr (hash_rec c))) =
          (case (s, d) of (s, c) \<Rightarrow> (s, node_kind c, projr (hash_rec c)))"
        using IH [OF cd] proj [OF cd] by simp
    qed
    have "hash_rec (DirNode cs) = Inr h \<longleftrightarrow> hash_rec (DirNode ds) = Inr h" for h
      unfolding hash_rec_DirNode using all hashes by auto
    then show ?case using nodes bytes n by simp
  qed
  then have facts: "node_kind m = node_kind n" "nodes m = nodes n" "content_bytes m = content_bytes n"
    and hash: "\<forall>h. hash_rec m = Inr h \<longleftrightarrow> hash_rec n = Inr h"
    by blast+
  show "node_kind m = node_kind n" "nodes m = nodes n" "content_bytes m = content_bytes n"
    by (rule facts)+
  show "\<not> isl (hash_rec m) \<longleftrightarrow> \<not> isl (hash_rec n)" "\<not> isl (hash_rec m) \<Longrightarrow> hash_rec m = hash_rec n"
    using same_right [OF hash] by blast+
qed

section \<open>Reads\<close>

lemma validate_path_iff:
  assumes "path_ok p" and "limits_ok l"
  shows "validate_path l p = Inr q \<longleftrightarrow> q = p \<and> fits l p"
proof -
  obtain ps where ps: "p = path_of ps" "list_all seg_ok ps" using assms(1) by (rule path_ok_obtain)
  have "(\<exists>r. resolve_path l (path_value p) None = Inr r) \<longleftrightarrow> fits l p"
  proof
    assume "\<exists>r. resolve_path l (path_value p) None = Inr r"
    then obtain r where r: "resolve (path_value p) None (max_path_bytes l) (max_segment_bytes l) = Inr r"
      by (auto simp: resolve_path_def)
    then have "r = path_of ps"
      using resolve_ok [of None "path_value p"] target_parts_path_of [OF ps(2), of None] ps(1) by auto
    then show "fits l p" using resolve_path_ok(2) [OF r] ps(1) by (simp add: fits_def)
  next
    assume "fits l p"
    then show "\<exists>r. resolve_path l (path_value p) None = Inr r"
      using resolve_own_text [OF ps(2), of "max_path_bytes l" "max_segment_bytes l" None] assms(2) ps(1)
      by (auto simp: resolve_path_def fits_def limits_ok_def)
  qed
  then show ?thesis by (auto simp: validate_path_def rbind_Inr_iff)
qed

lemma read_bytes_iff:
  assumes "path_ok p" and "ws_inv w"
  shows "ws_read_bytes w p = Inr x \<longleftrightarrow>
     fits (ws_limits w) p \<and> (\<exists>b. view w (path_parts p) = Some (FlatFile b) \<and>
       x = \<lparr>br_path = p, br_content = b, br_content_hash = from_bytes b,
            br_revision = ws_revision (ws_stats w)\<rparr>)"
  using validate_path_iff [OF assms(1) ws_inv_limits [OF assms(2)]]
  by (auto simp: ws_read_bytes_def rbind_Inr_iff get_node_ok require_file_ok view_def flat_FlatFile)

lemma ensure_loop_no_file:
  "ensure_loop c l p d segs = Inr d' \<Longrightarrow> prefix q segs \<Longrightarrow> flat (DirNode d) q \<noteq> Some (FlatFile b)"
proof (induction segs arbitrary: p d d' q)
  case Nil
  then show ?case by simp
next
  case (Cons s segs)
  obtain p' cs' cs'' where st: "ensure_loop c l p' cs' segs = Inr cs''"
    "map_of d s = Some (DirNode cs') \<or> (map_of d s = None \<and> c \<and> cs' = [])"
    using Cons.prems(1) by (rule ensure_loop_step) (rule that, assumption+)
  show ?case
  proof (cases q)
    case Nil
    then show ?thesis by simp
  next
    case (Cons t q')
    then show ?thesis using Cons.prems(2) Cons.IH [OF st(1), of q'] st(2) by (auto simp: flat_Cons)
  qed
qed

section \<open>A sample workspace for the witnesses\<close>

definition sample_path :: sandbox_path where
  "sample_path = path_of [pstr ''a'']"

lemma sample_path_facts [simp]:
  "path_ok sample_path" "\<not> is_root sample_path" "path_parts sample_path = [pstr ''a'']"
  "path_name sample_path = pstr ''a''" "fits default_limits sample_path"
proof -
  have s: "list_all seg_ok [pstr ''a'']" by (simp add: seg_ok_def pstr_simps)
  show "path_ok sample_path" "path_name sample_path = pstr ''a''" "path_parts sample_path = [pstr ''a'']"
    using s path_name_path_of [OF s] path_parts_of_ok [OF s] by (simp_all add: sample_path_def)
  show "\<not> is_root sample_path" by (simp add: sample_path_def)
  show "fits default_limits sample_path"
    using s path_parts_of_ok [OF s]
    by (simp add: fits_def path_fits_def text_fits_def sample_path_def path_value_path_of ROOT_def
        workspace_segment_def utf8_char_def is_scalar_def is_surrogate_def pstr_simps default_limits_def)
qed

lemma default_limits_sel [simp]:
  "max_file_bytes default_limits = 4194304" "max_total_bytes default_limits = 16777216"
  "max_nodes default_limits = 10000"
  by (simp_all add: default_limits_def)

text \<open>An empty workspace, and the write of an empty file into it.\<close>

lemma empty_workspace:
  obtains w where "workspace_new default_limits 0 = Inr w" "ws_inv w" "ws_limits w = default_limits"
    "ws_root w = []" "ws_revision (ws_stats w) = revision_initial"
proof -
  obtain w where w: "workspace_new default_limits 0 = Inr w"
    using workspace_new_returns [OF default_limits_ok] by blast
  note f = workspace_new_inv [OF w default_limits_ok]
  have "ws_root w = []"
    using w state_for_root_state_ok(2) [OF _ tree_ok_empty default_limits_ok revision_initial_ok]
    by (auto simp: workspace_new_def rbind_Inr_iff)
  then show ?thesis using that w f by blast
qed

definition sample_write :: write_request where
  "sample_write = \<lparr>wr_path = sample_path, wr_content = [], wr_precondition = AnyCurrentState,
     wr_create_parents = False\<rparr>"

lemma sample_write_returns:
  assumes "ws_inv w" and "ws_limits w = default_limits" and "ws_root w = []"
  shows "\<exists>m w'. ws_write sample_write w = (Inr m, w')"
proof -
  let ?d = "[(pstr ''a'', FileNode [])]"
  have ok: "tree_ok (DirNode ?d)"
    by (simp add: tree_ok.simps dict_ok_def seg_ok_def pstr_simps)
  have "\<exists>h. hash_rec (DirNode ?d) = Inr h"
    by (simp add: hash_rec.simps hash_directory_eq directory_preimage_def child_frame_def utf8_char_def is_scalar_def
        is_surrogate_def pstr_simps)
  then have "\<not> isl (hash_rec (DirNode ?d))" by auto
  moreover have "content_bytes (DirNode ?d) = 0" "nodes (DirNode ?d) = 2"
    by (simp_all add: content_bytes.simps nodes.simps)
  ultimately have "\<exists>st. state_for_root default_limits ?d (revision_next (ws_revision (ws_stats w))) = Inr st"
    using state_for_root_ok [OF ok default_limits_ok] sample_path_facts(5)
    by (auto simp: sample_path_def inside.simps)
  then obtain st where st: "state_for_root default_limits ?d (revision_next (ws_revision (ws_stats w))) = Inr st"
    by blast
  have put: "put_child [] sample_path (FileNode []) = ?d" by (simp add: put_child_def)
  have v: "validate_path default_limits sample_path = Inr sample_path"
    using validate_path_iff [of sample_path default_limits sample_path] by simp
  show ?thesis
    using assms st put v
    by (auto simp: ws_write_def sample_write_def act_simps act_bind_lift act_bind_get try_get_node_def
        validate_write_precondition_def put_file_and_commit_def clone_directory_eq ensure_parent_def
        commit_def guard_def act_bind_def nodes.simps)
qed

definition remove_root :: remove_request where
  "remove_root = \<lparr>rm_path = root_path, rm_recursive = True, rm_missing_ok = True\<rparr>"

section \<open>Properties\<close>

text \<open>
  C2: every mutation of a workspace is atomic: when it raises, at whatever point of the handler,
  the state it leaves (tree, counters, hash, revision, restore candidates) is the state before.
\<close>

theorem mutations_atomic:
  assumes "ws_inv w" and "op_paths_ok op" and "run_op nd op w = (Inl e, w')"
  shows "w' = w"
  using assms by (auto intro: mem.exec_error [of w "ws_limits w" op nd e w'])

lemma mutations_atomic_witness:
  "\<exists>w e. run_op (\<lambda>_. None) (Remove remove_root) w = (Inl e, w)"
proof -
  obtain w where w: "ws_inv w" "ws_limits w = default_limits" using empty_workspace by metis
  have "validate_path default_limits root_path = Inr root_path"
    using validate_path_iff [of root_path default_limits root_path] by simp
  then have "\<exists>e w'. run_op (\<lambda>_. None) (Remove remove_root) w = (Inl e, w')"
    using w by (simp add: ws_remove_def remove_root_def is_root_def root_path_def act_simps act_bind_lift act_bind_get guard_def wrap_def)
  with mutations_atomic [OF w(1), of "Remove remove_root" "\<lambda>_. None"] show ?thesis
    by (auto simp: remove_root_def)
qed



text \<open>
  C1: the workspace refines the abstract file system: after any list of operations, the view
  (which position holds which file or directory) is the fold, over the operations that
  succeeded, of their abstract updates: make directories, put a file, append, remove a subtree,
  graft a copy, move a subtree, patch files; and the invariant still holds.
\<close>

theorem workspace_refines_fs:
  assumes "ws_inv w" and "list_all op_paths_ok ops"
  shows "view (exec_all (run_op nd) ops w) =
      fold (fs_op nd (ws_limits w)) (succeeded (run_op nd) ops w) (view w)
    \<and> ws_inv (exec_all (run_op nd) ops w)"
  using mem.exec_all_refines [of w "ws_limits w" ops nd] assms by simp

lemma workspace_refines_fs_witness:
  "\<exists>w. view (exec_all (run_op (\<lambda>_. None)) [Write sample_write] w) [pstr ''a''] = Some (FlatFile [])"
proof -
  obtain w where w: "ws_inv w" "ws_limits w = default_limits" "ws_root w = []"
    using empty_workspace by metis
  from sample_write_returns [OF w] obtain m w' where run: "ws_write sample_write w = (Inr m, w')" by blast
  have "succeeded (run_op (\<lambda>_. None)) [Write sample_write] w = [Write sample_write]"
    using run by (simp add: wrap_def)
  moreover have "list_all op_paths_ok [Write sample_write]" by (simp add: sample_write_def)
  ultimately have "view (exec_all (run_op (\<lambda>_. None)) [Write sample_write] w) =
      fs_op (\<lambda>_. None) (ws_limits w) (Write sample_write) (view w)"
    using workspace_refines_fs [OF w(1), of "[Write sample_write]" "\<lambda>_. None"] by simp
  then have "view (exec_all (run_op (\<lambda>_. None)) [Write sample_write] w) [pstr ''a''] = Some (FlatFile [])"
    by (simp add: fs_put_file_def sample_write_def)
  then show ?thesis by blast
qed

text \<open>
  C4: a successful write is read back: reading the path returns exactly the written bytes, their
  hash and the next revision, and every file at another path reads as before.
\<close>

theorem read_after_write:
  assumes "ws_inv w" and "path_ok (wr_path r)" and "ws_write r w = (Inr m, w')"
  shows "ws_read_bytes w' (wr_path r) =
      Inr \<lparr>br_path = wr_path r, br_content = wr_content r, br_content_hash = from_bytes (wr_content r),
           br_revision = revision_next (ws_revision (ws_stats w))\<rparr>
    \<and> wm_current_hash m = Some (from_bytes (wr_content r)) \<and> wm_stats m = ws_stats w'
    \<and> (\<forall>q b. path_ok q \<longrightarrow> q \<noteq> wr_path r \<longrightarrow>
         (\<exists>x. ws_read_bytes w q = Inr x \<and> br_content x = b) =
         (\<exists>x. ws_read_bytes w' q = Inr x \<and> br_content x = b))"
proof -
  obtain existing h where run: "validate_path (ws_limits w) (wr_path r) = Inr (wr_path r)"
    "put_file_and_commit w r existing h (wr_content r) w = (Inr m, w')"
    using assms(3) validate_path_ok unfolding ws_write_def ok_iff by blast
  obtain d1 d2 st where en: "clone_directory (ws_root w) (max_nodes (ws_limits w)) = Inr d1"
      "ensure_parent d1 (wr_path r) (wr_create_parents r) (ws_limits w) = Inr d2"
    and st: "commit (put_child d2 (wr_path r) (FileNode (wr_content r))) w = (Inr st, w')"
    "m = \<lparr>wm_path = wr_path r, wm_created = (existing = None), wm_changed = True, wm_previous_hash = h,
          wm_current_hash = Some (from_bytes (wr_content r)), wm_stats = st_stats st\<rparr>"
    using run(2) unfolding put_file_and_commit_def ok_iff by blast
  have w': "ws_state w' = st" using st(1) by (auto simp: commit_Inr)
  have rev: "ws_revision (ws_stats w') = revision_next (ws_revision (ws_stats w))"
    using st(1) by (auto simp: commit_Inr state_for_root_def rbind_Inr_iff split: if_splits)
  have "step w (Inr m, w')" using step_write [OF assms(1,2)] assms(3) by simp
  note f = step_inv [OF this assms(1)]
  have v: "view w' = fs_put_file (view w) (path_parts (wr_path r)) (wr_content r)"
    using write_view [OF assms] .
  have fit: "fits (ws_limits w) (wr_path r)"
    using run(1) validate_path_iff [OF assms(2) ws_inv_limits [OF assms(1)]] by simp
  have same: "view w' (path_parts q) = Some (FlatFile b) \<longleftrightarrow> view w (path_parts q) = Some (FlatFile b)"
    if q: "path_ok q" "q \<noteq> wr_path r" for q b
  proof -
    have ne: "path_parts q \<noteq> path_parts (wr_path r)" using q assms(2) path_parts_inject by blast
    have "view w (path_parts q) \<noteq> Some (FlatFile b)"
      if "prefix (path_parts q) (butlast (path_parts (wr_path r)))"
      using ensure_loop_no_file [OF en(2) [unfolded ensure_parent_def] that] cloned_root [OF assms(1) en(1)]
      by (simp add: view_def)
    then show ?thesis using ne v by (auto simp: fs_put_file_def fs_mkdirs_def)
  qed
  show ?thesis
    using read_bytes_iff [OF assms(2) f(1)] v fit f(2) rev same w' st(2)
      read_bytes_iff [OF _ f(1)] read_bytes_iff [OF _ assms(1)]
    by (auto simp: fs_put_file_def)
qed

lemma read_after_write_witness:
  "\<exists>w m w'. ws_write sample_write w = (Inr m, w') \<and>
     (\<exists>x. ws_read_bytes w' sample_path = Inr x \<and> br_content x = [])"
proof -
  obtain w where w: "ws_inv w" "ws_limits w = default_limits" "ws_root w = []"
    using empty_workspace by metis
  from sample_write_returns [OF w] obtain m w' where run: "ws_write sample_write w = (Inr m, w')" by blast
  have r: "wr_path sample_write = sample_path" "wr_content sample_write = []"
    by (simp_all add: sample_write_def)
  then have "path_ok (wr_path sample_write)" by simp
  from read_after_write [OF w(1) this run, unfolded r] have
    "\<exists>x. ws_read_bytes w' sample_path = Inr x \<and> br_content x = []" by simp
  with run show ?thesis by blast
qed

end
