(* ===== verification/Restore_Properties.thy ===== *)
theory Restore_Properties
  imports Workspace_Restore Workspace_Properties
begin

text \<open>
  Properties of snapshots and restores: the entries of a workspace rebuild it in any other
  workspace with the same limits, the two builders of \<open>snapshot_tree.py\<close> and \<open>memory.py\<close> agree, and
  a candidate is published at most once.
\<close>

section \<open>The entries of a tree\<close>

lemma tree_entries_ok:
  "tree_ok n \<Longrightarrow> list_all seg_ok ps \<Longrightarrow> ps \<noteq> [] \<Longrightarrow> list_all entry_ok (tree_entries ps n)"
proof (induction n arbitrary: ps rule: node_induct)
  case (FileNode b)
  then show ?case by (simp add: entry_ok_def snapshot_entry_new_ok path_of_ok)
next
  case (DirNode cs)
  then have "\<forall>(s, c) \<in> set cs. list_all entry_ok (tree_entries (ps @ [s]) c)"
    by (auto simp: tree_ok.simps)
  then have "\<forall>e \<in> set (concat (map (\<lambda>(s, c). tree_entries (ps @ [s]) c) cs)). entry_ok e"
    by (fastforce simp: list_all_iff)
  then show ?case using DirNode.prems by (auto simp: list_all_iff entry_ok_def snapshot_entry_new_ok path_of_ok)
qed

lemma root_entries_ok:
  assumes "tree_ok (DirNode d)"
  shows "list_all entry_ok (tl (tree_entries [] (DirNode d)))"
proof -
  have "\<forall>(s, c) \<in> set d. list_all entry_ok (tree_entries [s] c)"
    using assms by (auto simp: tree_ok.simps intro!: tree_entries_ok)
  then show ?thesis by (fastforce simp: list_all_iff)
qed

lemma inside_sorted_tree: "inside l ps (sorted_tree n) \<longleftrightarrow> inside l ps n"
proof (induction n arbitrary: ps rule: node_induct)
  case (FileNode b)
  then show ?case by simp
next
  case (DirNode cs)
  then show ?case by (auto simp: inside.simps)
qed

section \<open>Candidates stay until they are committed\<close>

lemma life_step_keeps:
  assumes "life_step nd w ev w'" and "ws_inv w" and "workspace_token c = ws_restore_token w"
    and "map_of (ws_restore_candidates w) (capability c) = Some p" and "ev \<noteq> Committed c"
  shows "map_of (ws_restore_candidates w') (capability c) = Some p"
  using assms(1)
proof cases
  case (mutate op)
  then show ?thesis using mutate_candidates [OF mutate(2) assms(2)] assms(4) by simp
next
  case (prepare es stats req out)
  have "capability c < ws_next_capability w"
    using assms(2,4) by (auto simp: ws_inv_def dest: map_of_SomeD)
  then show ?thesis using prepare_inv [OF prepare(4) assms(2) prepare(2,3)] assms(4) by simp
next
  case (commit c' u)
  have "c' \<noteq> c" using commit(1) assms(5) by simp
  moreover have "workspace_token c' = ws_restore_token w"
    using commit(2) assms(2) by (rule committed_facts)
  ultimately have "capability c' \<noteq> capability c" using assms(3) by (cases c; cases c') auto
  then show ?thesis
    using commit(2) commit_restore_cases [OF assms(2), of c'] assms(4) by (auto split: if_splits option.splits)
next
  case (reject c' e)
  then show ?thesis using commit_restore_inv(5) [OF reject(2) assms(2)] assms(4) by simp
qed

lemma life_keeps:
  assumes "life nd w evs w'" and "ws_inv w" and "workspace_token c = ws_restore_token w"
    and "map_of (ws_restore_candidates w) (capability c) = Some p" and "Committed c \<notin> set evs"
  shows "map_of (ws_restore_candidates w') (capability c) = Some p"
  using assms
proof (induction rule: life.induct)
  case (start w)
  then show ?case by simp
next
  case (next_event w ev w' evs w'')
  note f = life_step_facts [OF next_event.hyps(1) next_event.prems(1)]
  show ?case
    using next_event.IH [OF f(1)] f(3) life_step_keeps [OF next_event.hyps(1) next_event.prems(1,2,3)]
      next_event.prems by auto
qed

section \<open>Properties\<close>

text \<open>
  C20: a workspace can be rebuilt from its entries. Taking the entries of one workspace always
  succeeds; any other workspace with the same limits accepts them as a restore candidate without
  touching its live state; and committing that candidate later, whatever happens in between
  (mutations, other preparations and commits), succeeds and gives exactly the first workspace's
  files, directories, counters, hash and revision.
\<close>

theorem restore_round_trip:
  assumes "ws_inv w" and "ws_inv v" and "ws_limits v = ws_limits w"
  shows "\<exists>es c v'. snapshot_entries (ws_root w) root_path (ws_limits w) = Inr es
    \<and> prepare_restore_candidate es (ws_stats w) root_path v = (Inr c, v') \<and> ws_state v' = ws_state v
    \<and> (\<forall>evs v''. life nd v' evs v'' \<and> Committed c \<notin> set evs \<longrightarrow>
         (\<exists>u. commit_restore c v'' = (Inr (), u) \<and> view u = view w \<and> ws_stats u = ws_stats w \<and> ws_inv u))"
proof -
  let ?d = "ws_root w" and ?l = "ws_limits w"
  define ds where "ds = children (sorted_tree (DirNode ?d))"
  have ds: "sorted_tree (DirNode ?d) = DirNode ds" by (simp add: ds_def)
  have st: "state_ok ?l (ws_state w)" and l: "limits_ok ?l" using assms(1) by (simp_all add: ws_inv_def)
  have d: "tree_ok (DirNode ?d)" "inside ?l [] (DirNode ?d)" using st by (simp_all add: state_ok_def)
  have ok: "tree_ok (DirNode ds)" "flat (DirNode ds) = flat (DirNode ?d)" "inside ?l [] (DirNode ds)"
    using tree_ok_sorted_tree [OF d(1)] flat_sorted_tree [OF d(1)] inside_sorted_tree [of ?l "[]" "DirNode ?d"] d(2) ds
    by simp_all
  note same = same_flat [OF ok(1) d(1) ok(2)]
  let ?es = "tl (tree_entries [] (DirNode ds))"
  have es: "snapshot_entries ?d root_path ?l = Inr ?es"
    using snapshot_entries_ok [OF d(1) l d(2)] ds by simp
  have r: "root_from_entries ?es = Inr ds"
    using root_from_snapshot [OF d(1)] ds by simp
  let ?st = "\<lparr>st_root = ds, st_stats = ws_stats w\<rparr>"
  have st': "state_ok ?l ?st"
    using st ok same by (auto simp: state_ok_def)
  have fr: "state_for_root (ws_limits v) ds (ws_revision (ws_stats w)) = Inr ?st"
    using state_ok_again [OF st' l] assms(3) by simp
  have look: "lookup (DirNode ds) (path_parts root_path) = Some (DirNode ds)"
    by (simp add: path_parts_def is_root_def root_path_def)
  let ?c = "\<lparr>workspace_token = ws_restore_token v, capability = ws_next_capability v\<rparr>"
  let ?v = "v\<lparr>ws_next_capability := ws_next_capability v + 1,
        ws_restore_candidates := dict_put (ws_next_capability v)
          \<lparr>pp_state = ?st, pp_expected_stats = ws_stats w\<rparr> (ws_restore_candidates v)\<rparr>"
  have prep: "prepare_restore_candidate ?es (ws_stats w) root_path v = (Inr ?c, ?v)"
    using prepare_returns [OF r fr _ _ _ look] st' assms(3) by simp
  have inv: "ws_inv ?v"
    using prepare_inv(1) [OF prep assms(2)] root_entries_ok [OF ok(1)] st by (simp add: state_ok_def)
  have "\<exists>u. commit_restore ?c v'' = (Inr (), u) \<and> view u = view w \<and> ws_stats u = ws_stats w \<and> ws_inv u"
    if "life nd ?v evs v''" "Committed ?c \<notin> set evs" for evs v''
  proof -
    have f: "ws_inv v''" "ws_restore_token v'' = ws_restore_token v" using life_facts [OF that(1) inv] by simp_all
    have "map_of (ws_restore_candidates v'') (capability ?c) = Some \<lparr>pp_state = ?st, pp_expected_stats = ws_stats w\<rparr>"
      using life_keeps [OF that(1) inv _ _ that(2)] by simp
    then obtain u where u: "commit_restore ?c v'' = (Inr (), u)" "ws_state u = ?st"
      using commit_restore_cases [OF f(1), of ?c] f(2) by simp
    then show ?thesis
      using commit_restore_inv(1) [OF u(1) f(1)] ok(2) by (auto simp: view_def)
  qed
  moreover have "ws_state ?v = ws_state v" by simp
  ultimately show ?thesis using es prep by blast
qed

lemma restore_round_trip_witness:
  "\<exists>w es c v'. snapshot_entries (ws_root w) root_path default_limits = Inr es \<and>
     prepare_restore_candidate es (ws_stats w) root_path w = (Inr c, v')"
proof -
  obtain w where "ws_inv w" "ws_limits w = default_limits" using empty_workspace by metis
  with restore_round_trip [of w w "\<lambda>_. None"] show ?thesis by metis
qed

text \<open>
  C21: a candidate is published at most once: in any life of a workspace, with mutations,
  preparations and other commits in any order, no two commits of the same candidate succeed, and
  every reached state satisfies the invariant.
\<close>

theorem candidate_committed_once:
  assumes "life nd w evs w'" and "ws_inv w"
  shows "length (filter ((=) (Committed c)) evs) \<le> 1 \<and> ws_inv w'"
proof
  show "ws_inv w'" using life_facts [OF assms] by blast
  show "length (filter ((=) (Committed c)) evs) \<le> 1"
    using assms
  proof (induction rule: life.induct)
    case (start w)
    then show ?case by simp
  next
    case (next_event w ev w' evs w'')
    note f = life_step_facts [OF next_event.hyps(1) next_event.prems]
    show ?case
    proof (cases "ev = Committed c")
      case False
      then show ?thesis using next_event.IH [OF f(1)] by auto
    next
      case True
      then obtain u where "commit_restore c w = (Inr u, w')"
        using next_event.hyps(1) by (auto elim: life_stepE)
      then obtain p where "capability c < ws_next_capability w"
        "map_of (ws_restore_candidates w') (capability c) = None"
        using committed_facts next_event.prems by metis
      then have "Committed c \<notin> set evs"
        using committed_once [OF next_event.hyps(2) f(1)] f(4) by auto
      then show ?thesis using True by (auto simp: filter_empty_conv)
    qed
  qed
qed

lemma candidate_committed_once_witness:
  "\<exists>w w' c. life (\<lambda>_. None) w [Rejected c] w' \<and>
     length (filter ((=) (Committed c)) [Rejected c]) \<le> 1 \<and> ws_inv w'"
proof -
  obtain w where w: "ws_inv w" using empty_workspace by metis
  let ?c = "\<lparr>workspace_token = Suc (ws_restore_token w), capability = 0\<rparr>"
  have "\<exists>e. commit_restore ?c w = (Inl e, w)" using commit_restore_cases [OF w, of ?c] by simp
  then have "life (\<lambda>_. None) w [Rejected ?c] w"
    by (metis life.start life.next_event life_step.reject)
  with candidate_committed_once [OF this w, of ?c] show ?thesis by blast
qed

text \<open>
  C22: the codec's measurement of a list of entries and the workspace's reconstruction agree: when
  the entries are in path order, as the codecs deliver them, and the measurement accepts them, the
  tree can be rebuilt from them, and a state built on it has exactly the measured counters and
  hash, so the final comparison of a restore never fails on what a codec has measured.
\<close>

theorem entry_builders_agree:
  assumes "list_all entry_ok es" and "sorted (map entry_order es)"
    and "measure_workspace_entries es = Inr ts"
  shows "\<exists>d. root_from_entries es = Inr d \<and>
    (\<forall>l r st. limits_ok l \<and> state_for_root l d r = Inr st \<longrightarrow>
       st_stats st = \<lparr>total_bytes = ts_total_bytes ts, node_count = ts_node_count ts,
                      ws_revision = r, root_hash = ts_root_hash ts\<rparr>)"
proof -
  obtain d where d: "root_from_entries es = Inr d" "tree_ok (DirNode d)"
    "ts_total_bytes ts = int (content_bytes (DirNode d))" "ts_node_count ts = int (nodes (DirNode d))"
    "hash_rec (DirNode d) = Inr (ts_root_hash ts)"
    using assms by (rule measured_entries)
  then show ?thesis
    using state_for_root_ok [OF d(2)] by (intro exI [of _ d]) auto
qed

lemma entry_builders_agree_witness:
  "\<exists>ts d. measure_workspace_entries [] = Inr ts \<and> root_from_entries [] = Inr d"
proof -
  obtain h where "node_hash (DirNode []) = Inr h"
    using hash_directory_empty node_hash_eq [of "DirNode []"] by (auto simp: hash_rec.simps)
  then have "\<exists>ts. measure_workspace_entries [] = Inr ts"
    by (simp add: measure_workspace_entries_def tree_node_hash_eq)
  then obtain ts where m: "measure_workspace_entries [] = Inr ts" by blast
  from entry_builders_agree [OF _ _ m] m show ?thesis by auto
qed

end
