(* ===== verification/Command_Models.thy ===== *)
theory Command_Models
  imports Sandbox_Path Identifiers
begin

text \<open>
  \<open>command_executor/models.py\<close>: the values of the command language, each with the checks of its
  constructor. A class and its constructor are a record and a function that returns it or
  raises; the \<open>isinstance\<close> checks are the types. A secret bound to a name in an overlay is
  what \<open>reveal_text\<close> returns or raises at the time of the execution. A protection is the
  record of its three methods.
\<close>

section \<open>Names and texts\<close>

datatype command_failure_code =
    COMMAND_NOT_FOUND | INVALID_ARGUMENT | NO_MATCH | WORKSPACE_FAILURE | PIPELINE_LIMIT_EXCEEDED
  | REDIRECTION_FAILURE | PROTECTED_VALUE_REJECTED

fun failure_code_value :: "command_failure_code \<Rightarrow> string" where
  "failure_code_value COMMAND_NOT_FOUND = ''command_not_found''"
| "failure_code_value INVALID_ARGUMENT = ''invalid_argument''"
| "failure_code_value NO_MATCH = ''no_match''"
| "failure_code_value WORKSPACE_FAILURE = ''workspace_failure''"
| "failure_code_value PIPELINE_LIMIT_EXCEEDED = ''pipeline_limit_exceeded''"
| "failure_code_value REDIRECTION_FAILURE = ''redirection_failure''"
| "failure_code_value PROTECTED_VALUE_REJECTED = ''protected_value_rejected''"

abbreviation value_error :: "pystr \<Rightarrow> sandbox_error" where
  "value_error m \<equiv> Raise (Builtin ValueError) m"

text \<open>The patterns \<open>[A-Za-z_][A-Za-z0-9_]*\Z\<close> and \<open>[A-Za-z0-9_.-]+\Z\<close> on a whole text.\<close>

definition name_start :: "nat \<Rightarrow> bool" where
  "name_start c \<longleftrightarrow> c = 95 \<or> is_ascii_letter c"

definition name_char :: "nat \<Rightarrow> bool" where
  "name_char c \<longleftrightarrow> name_start c \<or> is_ascii_digit c"

definition environment_name :: "pystr \<Rightarrow> bool" where
  "environment_name s \<longleftrightarrow> s \<noteq> [] \<and> name_start (hd s) \<and> list_all name_char (tl s)"

definition command_name :: "pystr \<Rightarrow> bool" where
  "command_name s \<longleftrightarrow> s \<noteq> [] \<and> list_all (\<lambda>c. name_char c \<or> c = 46 \<or> c = 45) s"

definition require_environment_name :: "pystr \<Rightarrow> unit result" where
  "require_environment_name s =
     guard (environment_name s) (value_error (pstr ''environment name must use shell variable syntax''))"

definition require_utf8_text :: "pystr \<Rightarrow> pystr \<Rightarrow> unit result" where
  "require_utf8_text name s =
     guard (utf8_encode s \<noteq> None) (value_error (name @ pstr '' must be valid UTF-8 text''))"

definition require_command_name :: "pystr \<Rightarrow> unit result" where
  "require_command_name s =
     guard (command_name s)
       (value_error (pstr ''command name must contain only letters, digits, '' @ [39, 46, 39] @ pstr '', ''
          @ [39, 95, 39] @ pstr '', or '' @ [39, 45, 39]))"

section \<open>Environments\<close>

record environment_value =
  ev_name :: pystr
  ev_value :: pystr

definition environment_value_new :: "pystr \<Rightarrow> pystr \<Rightarrow> environment_value result" where
  "environment_value_new name v =
     rbind (require_environment_name name) (\<lambda>_.
     rbind (require_utf8_text (pstr ''environment value'') v) (\<lambda>_.
     Inr \<lparr>ev_name = name, ev_value = v\<rparr>))"

type_synonym command_environment = "environment_value list"

fun require_environment_values :: "pystr list \<Rightarrow> environment_value list \<Rightarrow> unit result" where
  "require_environment_values seen [] = Inr ()"
| "require_environment_values seen (item # rest) =
     (if ev_name item \<in> set seen
      then Inl (value_error (pstr ''duplicate environment name: '' @ ev_name item))
      else require_environment_values (ev_name item # seen) rest)"

definition command_environment_new :: "environment_value list \<Rightarrow> command_environment result" where
  "command_environment_new vs = rbind (require_environment_values [] vs) (\<lambda>_. Inr vs)"

fun first_value :: "pystr \<Rightarrow> environment_value list \<Rightarrow> pystr option" where
  "first_value name [] = None"
| "first_value name (item # rest) =
     (if ev_name item = name then Some (ev_value item) else first_value name rest)"

definition environment_get :: "command_environment \<Rightarrow> pystr \<Rightarrow> pystr \<Rightarrow> pystr result" where
  "environment_get env name default_value =
     rbind (require_environment_name name) (\<lambda>_.
     Inr (case first_value name env of Some v \<Rightarrow> v | None \<Rightarrow> default_value))"

record environment_change =
  ch_name :: pystr
  ch_value :: "pystr option"

definition environment_change_new :: "pystr \<Rightarrow> pystr option \<Rightarrow> environment_change result" where
  "environment_change_new name v =
     rbind (require_environment_name name) (\<lambda>_.
     rbind (case v of None \<Rightarrow> Inr () | Some t \<Rightarrow> require_utf8_text (pstr ''environment change value'') t) (\<lambda>_.
     Inr \<lparr>ch_name = name, ch_value = v\<rparr>))"

record overlay_entry =
  oe_name :: pystr
  oe_value :: "pystr result"

definition overlay_entry_new :: "pystr \<Rightarrow> pystr result \<Rightarrow> overlay_entry result" where
  "overlay_entry_new name v =
     rbind (require_environment_name name) (\<lambda>_.
     rbind (guard (name \<noteq> pstr ''PWD'') (value_error (pstr ''PWD cannot be overlaid''))) (\<lambda>_.
     Inr \<lparr>oe_name = name, oe_value = v\<rparr>))"

type_synonym environment_overlay = "overlay_entry list"

fun require_overlay_names :: "pystr list \<Rightarrow> overlay_entry list \<Rightarrow> unit result" where
  "require_overlay_names seen [] = Inr ()"
| "require_overlay_names seen (entry # rest) =
     (if oe_name entry \<in> set seen
      then Inl (value_error (pstr ''duplicate overlay environment name: '' @ oe_name entry))
      else require_overlay_names (oe_name entry # seen) rest)"

definition overlay_new :: "overlay_entry list \<Rightarrow> environment_overlay result" where
  "overlay_new entries =
     rbind (require_overlay_names [] entries) (\<lambda>_. Inr (sort_key oe_name entries))"

fun first_overlay :: "pystr \<Rightarrow> overlay_entry list \<Rightarrow> pystr option result" where
  "first_overlay name [] = Inr None"
| "first_overlay name (entry # rest) =
     (if oe_name entry = name then rbind (oe_value entry) (\<lambda>t. Inr (Some t)) else first_overlay name rest)"

definition overlay_get :: "environment_overlay \<Rightarrow> pystr \<Rightarrow> pystr option result" where
  "overlay_get ov name = rbind (require_environment_name name) (\<lambda>_. first_overlay name ov)"

definition overlay_contains :: "environment_overlay \<Rightarrow> pystr \<Rightarrow> bool result" where
  "overlay_contains ov name =
     rbind (require_environment_name name) (\<lambda>_. Inr (\<exists>e \<in> set ov. oe_name e = name))"

record environment_view =
  vw_base :: command_environment
  vw_overlay :: environment_overlay

definition view_get :: "environment_view \<Rightarrow> pystr \<Rightarrow> pystr \<Rightarrow> pystr result" where
  "view_get v name default_value =
     rbind (require_environment_name name) (\<lambda>_.
     rbind (overlay_get (vw_overlay v) name) (\<lambda>overlaid.
       case overlaid of
         Some t \<Rightarrow> Inr t
       | None \<Rightarrow> environment_get (vw_base v) name default_value))"

record view_entry =
  ve_name :: pystr
  ve_value :: pystr

definition view_entry_new :: "pystr \<Rightarrow> pystr \<Rightarrow> view_entry result" where
  "view_entry_new name v =
     rbind (require_environment_name name) (\<lambda>_.
     rbind (require_utf8_text (pstr ''environment view value'') v) (\<lambda>_.
     Inr \<lparr>ve_name = name, ve_value = v\<rparr>))"

fun overlay_onto :: "(pystr, pystr) dict \<Rightarrow> overlay_entry list \<Rightarrow> (pystr, pystr) dict result" where
  "overlay_onto current [] = Inr current"
| "overlay_onto current (entry # rest) =
     rbind (oe_value entry) (\<lambda>t. overlay_onto (dict_put (oe_name entry) t current) rest)"

definition base_dict :: "command_environment \<Rightarrow> (pystr, pystr) dict" where
  "base_dict env = fold (\<lambda>item. dict_put (ev_name item) (ev_value item)) env []"

definition view_values :: "environment_view \<Rightarrow> view_entry list result" where
  "view_values v =
     rbind (overlay_onto (base_dict (vw_base v)) (vw_overlay v)) (\<lambda>current.
     rmap (\<lambda>(name, t). view_entry_new name t) (sort_key fst current))"

definition is_overlay_name :: "environment_view \<Rightarrow> pystr \<Rightarrow> bool result" where
  "is_overlay_name v name = overlay_contains (vw_overlay v) name"

section \<open>Limits, requests and results\<close>

record command_limits =
  max_command_bytes :: int
  max_argv_entries :: int
  max_argument_bytes :: int
  max_stdout_bytes :: int
  max_stderr_bytes :: int
  max_pipeline_stages :: int
  max_pipeline_intermediate_bytes :: int
  max_pipeline_aggregate_bytes :: int
  max_secret_bindings :: int
  cl_timeout_seconds :: py_float

definition default_command_limits :: command_limits where
  "default_command_limits =
     \<lparr>max_command_bytes = 32 * 1024, max_argv_entries = 256, max_argument_bytes = 8 * 1024,
      max_stdout_bytes = 256 * 1024, max_stderr_bytes = 256 * 1024, max_pipeline_stages = 8,
      max_pipeline_intermediate_bytes = 256 * 1024, max_pipeline_aggregate_bytes = 1024 * 1024,
      max_secret_bindings = 16, cl_timeout_seconds = Finite 30\<rparr>"

fun require_all_positive :: "(pystr \<times> int) list \<Rightarrow> unit result" where
  "require_all_positive [] = Inr ()"
| "require_all_positive ((name, v) # rest) =
     (if v \<le> 0 then Inl (value_error (name @ pstr '' must be positive'')) else require_all_positive rest)"

definition require_timeout :: "py_float \<Rightarrow> unit result" where
  "require_timeout v =
     guard (case v of Finite q \<Rightarrow> 0 < q | _ \<Rightarrow> False)
       (value_error (pstr ''timeout_seconds must be positive and finite''))"

definition command_limits_new :: "command_limits \<Rightarrow> command_limits result" where
  "command_limits_new l =
     rbind (require_all_positive
       [(pstr ''max_command_bytes'', max_command_bytes l), (pstr ''max_argv_entries'', max_argv_entries l),
        (pstr ''max_argument_bytes'', max_argument_bytes l), (pstr ''max_stdout_bytes'', max_stdout_bytes l),
        (pstr ''max_stderr_bytes'', max_stderr_bytes l), (pstr ''max_pipeline_stages'', max_pipeline_stages l),
        (pstr ''max_pipeline_intermediate_bytes'', max_pipeline_intermediate_bytes l),
        (pstr ''max_pipeline_aggregate_bytes'', max_pipeline_aggregate_bytes l),
        (pstr ''max_secret_bindings'', max_secret_bindings l)]) (\<lambda>_.
     rbind (require_timeout (cl_timeout_seconds l)) (\<lambda>_. Inr l))"

definition command_limits_ok :: "command_limits \<Rightarrow> bool" where
  "command_limits_ok l \<longleftrightarrow>
     0 < max_command_bytes l \<and> 0 < max_argv_entries l \<and> 0 < max_argument_bytes l \<and>
     0 < max_stdout_bytes l \<and> 0 < max_stderr_bytes l \<and> 0 < max_pipeline_stages l \<and>
     0 < max_pipeline_intermediate_bytes l \<and> 0 < max_pipeline_aggregate_bytes l \<and>
     0 < max_secret_bindings l \<and> (\<exists>q. cl_timeout_seconds l = Finite q \<and> 0 < q)"

lemma command_limits_new_ok [ok_iff]: "command_limits_new l = Inr m \<longleftrightarrow> m = l \<and> command_limits_ok l"
  by (auto simp: command_limits_new_def command_limits_ok_def rbind_Inr_iff require_timeout_def
      split: py_float.splits)

record value_protection =
  redact_text :: "pystr \<Rightarrow> pystr"
  redact_bytes :: "byte list \<Rightarrow> byte list"
  contains_protected_text :: "pystr \<Rightarrow> bool"

definition no_op_protection :: value_protection where
  "no_op_protection =
     \<lparr>redact_text = (\<lambda>t. t), redact_bytes = (\<lambda>b. b), contains_protected_text = (\<lambda>t. False)\<rparr>"

record execute_request =
  xr_command :: pystr
  xr_cwd :: sandbox_path
  xr_environment :: command_environment
  xr_limits :: command_limits
  xr_overlay :: environment_overlay

definition execute_request_new ::
  "pystr \<Rightarrow> sandbox_path \<Rightarrow> command_environment \<Rightarrow> command_limits \<Rightarrow> environment_overlay
     \<Rightarrow> execute_request result" where
  "execute_request_new command cwd env l ov =
     rbind (guard (\<not> int (length ov) > max_secret_bindings l)
       (value_error (pstr ''overlay exceeds limits.max_secret_bindings''))) (\<lambda>_.
     Inr \<lparr>xr_command = command, xr_cwd = cwd, xr_environment = env, xr_limits = l, xr_overlay = ov\<rparr>)"

definition require_result_fields ::
  "int \<Rightarrow> command_failure_code option \<Rightarrow> pystr \<Rightarrow> pystr \<Rightarrow> unit result" where
  "require_result_fields exit_code failure_code stdout stderr =
     rbind (guard (0 \<le> exit_code) (value_error (pstr ''exit_code must be non-negative''))) (\<lambda>_.
     rbind (guard (\<not> (exit_code = 0 \<and> failure_code \<noteq> None))
       (value_error (pstr ''successful results must not have a failure code''))) (\<lambda>_.
     rbind (guard (\<not> (exit_code \<noteq> 0 \<and> failure_code = None))
       (value_error (pstr ''non-zero results must have a failure code''))) (\<lambda>_.
     rbind (require_utf8_text (pstr ''stdout'') stdout) (\<lambda>_.
     require_utf8_text (pstr ''stderr'') stderr))))"

record execute_result =
  xs_exit_code :: int
  xs_failure_code :: "command_failure_code option"
  xs_stdout :: pystr
  xs_stderr :: pystr
  xs_stdout_original_bytes :: int
  xs_stderr_original_bytes :: int
  xs_stdout_truncated :: bool
  xs_stderr_truncated :: bool
  xs_duration_ms :: py_float
  xs_resulting_cwd :: sandbox_path
  xs_environment_changes :: "environment_change list"

definition require_non_negative :: "pystr \<Rightarrow> int \<Rightarrow> unit result" where
  "require_non_negative name v = guard (0 \<le> v) (value_error (name @ pstr '' must be non-negative''))"

definition require_non_negative_finite :: "pystr \<Rightarrow> py_float \<Rightarrow> unit result" where
  "require_non_negative_finite name v =
     guard (case v of Finite q \<Rightarrow> 0 \<le> q | _ \<Rightarrow> False)
       (value_error (name @ pstr '' must be non-negative and finite''))"

definition execute_result_new :: "execute_result \<Rightarrow> execute_result result" where
  "execute_result_new r =
     rbind (require_result_fields (xs_exit_code r) (xs_failure_code r) (xs_stdout r) (xs_stderr r)) (\<lambda>_.
     rbind (require_non_negative (pstr ''stdout_original_bytes'') (xs_stdout_original_bytes r)) (\<lambda>_.
     rbind (require_non_negative (pstr ''stderr_original_bytes'') (xs_stderr_original_bytes r)) (\<lambda>_.
     rbind (require_non_negative_finite (pstr ''duration_ms'') (xs_duration_ms r)) (\<lambda>_. Inr r))))"

record command_request =
  cr_argv :: "pystr list"
  cr_stdin :: pystr
  cr_stdin_connected :: bool

definition command_request_new :: "pystr list \<Rightarrow> pystr \<Rightarrow> bool \<Rightarrow> command_request result" where
  "command_request_new argv stdin is_piped =
     rbind (guard (argv \<noteq> []) (value_error (pstr ''argv must not be empty''))) (\<lambda>_.
     Inr \<lparr>cr_argv = argv, cr_stdin = stdin, cr_stdin_connected = is_piped\<rparr>)"

record command_result =
  rs_exit_code :: int
  rs_failure_code :: "command_failure_code option"
  rs_stdout :: pystr
  rs_stderr :: pystr
  rs_resulting_cwd :: "sandbox_path option"
  rs_environment_changes :: "environment_change list"

definition command_result_new ::
  "int \<Rightarrow> command_failure_code option \<Rightarrow> pystr \<Rightarrow> pystr \<Rightarrow> sandbox_path option
     \<Rightarrow> environment_change list \<Rightarrow> command_result result" where
  "command_result_new exit_code failure_code stdout stderr cwd changes =
     rbind (require_result_fields exit_code failure_code stdout stderr) (\<lambda>_.
     Inr \<lparr>rs_exit_code = exit_code, rs_failure_code = failure_code, rs_stdout = stdout,
          rs_stderr = stderr, rs_resulting_cwd = cwd, rs_environment_changes = changes\<rparr>)"

definition command_success :: "pystr \<Rightarrow> pystr \<Rightarrow> sandbox_path option \<Rightarrow> command_result result" where
  "command_success stdout stderr cwd = command_result_new 0 None stdout stderr cwd []"

text \<open>The results that the constructor accepts.\<close>

definition command_result_ok :: "command_result \<Rightarrow> bool" where
  "command_result_ok r \<longleftrightarrow>
     0 \<le> rs_exit_code r \<and> (rs_exit_code r = 0 \<longleftrightarrow> rs_failure_code r = None) \<and>
     utf8_encode (rs_stdout r) \<noteq> None \<and> utf8_encode (rs_stderr r) \<noteq> None"

lemma require_result_fields_ok [ok_iff]:
  "require_result_fields x f so se = Inr u \<longleftrightarrow>
     0 \<le> x \<and> (x = 0 \<longleftrightarrow> f = None) \<and> utf8_encode so \<noteq> None \<and> utf8_encode se \<noteq> None"
  by (auto simp: require_result_fields_def rbind_Inr_iff require_utf8_text_def)

lemma command_result_new_ok [ok_iff]:
  "command_result_new x f so se cwd chs = Inr r \<longleftrightarrow>
     r = \<lparr>rs_exit_code = x, rs_failure_code = f, rs_stdout = so, rs_stderr = se,
          rs_resulting_cwd = cwd, rs_environment_changes = chs\<rparr> \<and> command_result_ok r"
  by (auto simp: command_result_new_def rbind_Inr_iff require_result_fields_ok command_result_ok_def)

text \<open>
  \<open>CommandExecutionContext\<close> and \<open>CommandContext\<close>. Of the cancellation signal they hold whether
  there is one: what \<open>is_set\<close> returns at each call is a reading of the execution's state.
\<close>

record execution_context =
  xc_session_id :: "session_id option"
  xc_operation_id :: "operation_id option"
  xc_cancellation :: bool
  xc_protection :: value_protection

record command_context =
  cx_cwd :: sandbox_path
  cx_environment :: environment_view
  cx_cancellation :: bool
  cx_session_id :: "session_id option"
  cx_operation_id :: "operation_id option"
  cx_protection :: value_protection

record command_descriptor =
  dc_name :: pystr
  dc_aliases :: "pystr list"
  dc_summary :: pystr
  dc_usage :: pystr
  dc_permits_stdout_redirection :: bool
  dc_accepts_stdin :: bool
  dc_pipeline_safe :: bool

fun require_aliases :: "pystr list \<Rightarrow> pystr list \<Rightarrow> unit result" where
  "require_aliases seen [] = Inr ()"
| "require_aliases seen (alias # rest) =
     rbind (require_command_name alias) (\<lambda>_.
       if alias \<in> set seen
       then Inl (value_error (pstr ''duplicate command name or alias: '' @ alias))
       else require_aliases (alias # seen) rest)"

definition command_descriptor_new :: "command_descriptor \<Rightarrow> command_descriptor result" where
  "command_descriptor_new d =
     rbind (require_command_name (dc_name d)) (\<lambda>_.
     rbind (require_aliases [dc_name d] (dc_aliases d)) (\<lambda>_.
     rbind (guard (\<not> list_all is_space (dc_summary d))
       (value_error (pstr ''summary must not be empty''))) (\<lambda>_.
     rbind (guard (\<not> list_all is_space (dc_usage d))
       (value_error (pstr ''usage must not be empty''))) (\<lambda>_. Inr d))))"

section \<open>Plans\<close>

datatype connector = ALWAYS | ON_SUCCESS

datatype redirection_mode = REPLACE_MODE | APPEND_MODE

record word_fragment =
  wf_text :: pystr
  wf_expands :: bool

datatype command_word = CommandWord (fragments: "word_fragment list")

record stdout_redirection =
  sr_mode :: redirection_mode
  sr_destination :: command_word

datatype command_stage = CommandStage (stage_words: "command_word list")

definition command_stage_new :: "command_word list \<Rightarrow> command_stage result" where
  "command_stage_new ws =
     rbind (guard (ws \<noteq> []) (value_error (pstr ''command stage words must not be empty''))) (\<lambda>_.
     Inr (CommandStage ws))"

record plan_unit =
  pu_connector :: connector
  pu_stages :: "command_stage list"
  pu_redirection :: "stdout_redirection option"

definition plan_unit_new ::
  "connector \<Rightarrow> command_stage list \<Rightarrow> stdout_redirection option \<Rightarrow> plan_unit result" where
  "plan_unit_new c stages redirection =
     rbind (guard (stages \<noteq> []) (value_error (pstr ''plan unit stages must not be empty''))) (\<lambda>_.
     Inr \<lparr>pu_connector = c, pu_stages = stages, pu_redirection = redirection\<rparr>)"

datatype execution_plan = ExecutionPlan (plan_units: "plan_unit list")

definition execution_plan_new :: "plan_unit list \<Rightarrow> execution_plan result" where
  "execution_plan_new units =
     rbind (guard (units \<noteq> []) (value_error (pstr ''execution plan units must not be empty''))) (\<lambda>_.
     Inr (ExecutionPlan units))"

section \<open>Environments as maps\<close>

definition environment_ok :: "command_environment \<Rightarrow> bool" where
  "environment_ok env \<longleftrightarrow> distinct (map ev_name env) \<and>
     list_all (\<lambda>v. environment_name (ev_name v) \<and> utf8_encode (ev_value v) \<noteq> None) env"

lemma require_environment_values_ok:
  "require_environment_values seen vs = Inr u \<longleftrightarrow> distinct (map ev_name vs) \<and> set seen \<inter> ev_name ` set vs = {}"
  by (induction seen vs rule: require_environment_values.induct) auto

lemma require_overlay_names_ok:
  "require_overlay_names seen es = Inr u \<longleftrightarrow> distinct (map oe_name es) \<and> set seen \<inter> oe_name ` set es = {}"
  by (induction seen es rule: require_overlay_names.induct) auto

lemma first_value_map_of: "first_value name env = map_of (map (\<lambda>v. (ev_name v, ev_value v)) env) name"
  by (induction env) auto

end
