(* ===== verification/Command_Registry.thy ===== *)
theory Command_Registry
  imports Command_Models Memory_Workspace
begin

text \<open>
  \<open>command_executor/registry.py\<close>: commands and the lookup by name or alias. A handler is a
  function of the request, the context and the state of the workspace whose port it holds.
\<close>

type_synonym command_handler =
  "command_request \<Rightarrow> command_context \<Rightarrow> command_result ws_action"

record virtual_command =
  vc_descriptor :: command_descriptor
  vc_execute :: command_handler

record command_registry =
  cg_lookup :: "(pystr, virtual_command) dict"
  cg_descriptions :: "command_descriptor list"

definition descriptor_names :: "command_descriptor \<Rightarrow> pystr list" where
  "descriptor_names d = dc_name d # dc_aliases d"

fun register_names ::
  "virtual_command \<Rightarrow> pystr list \<Rightarrow> (pystr, virtual_command) dict \<Rightarrow> (pystr, virtual_command) dict result" where
  "register_names command [] table = Inr table"
| "register_names command (name # names) table =
     (if name \<in> fst ` set table
      then Inl (value_error (pstr ''duplicate command name or alias: '' @ name))
      else register_names command names (dict_put name command table))"

fun register_commands ::
  "virtual_command list \<Rightarrow> (pystr, virtual_command) dict \<Rightarrow> (pystr, virtual_command) dict result" where
  "register_commands [] table = Inr table"
| "register_commands (command # commands) table =
     rbind (register_names command (descriptor_names (vc_descriptor command)) table)
       (register_commands commands)"

definition command_registry_new :: "virtual_command list \<Rightarrow> command_registry result" where
  "command_registry_new commands =
     rbind (register_commands commands []) (\<lambda>table.
     Inr \<lparr>cg_lookup = table, cg_descriptions = map vc_descriptor commands\<rparr>)"

definition registry_resolve :: "command_registry \<Rightarrow> pystr \<Rightarrow> virtual_command option" where
  "registry_resolve reg name = map_of (cg_lookup reg) name"

section \<open>Catching\<close>

definition act_catch ::
  "('s, 'e, 'a) action \<Rightarrow> ('e \<Rightarrow> ('s, 'e, 'a) action) \<Rightarrow> ('s, 'e, 'a) action" where
  "act_catch m h = (\<lambda>s. case m s of (Inl e, s') \<Rightarrow> h e s' | (Inr x, s') \<Rightarrow> (Inr x, s'))"

text \<open>\<open>_EXPECTED_WORKSPACE_FAILURES\<close>\<close>

definition expected_workspace_failure :: "sandbox_error \<Rightarrow> bool" where
  "expected_workspace_failure e \<longleftrightarrow>
     is_core_error InvalidRequestError e \<or> is_core_error NotFoundError e \<or> is_core_error ConflictError e \<or>
     is_core_error QuotaExceededError e \<or> is_core_error UnsupportedOperationError e"

section \<open>Resolution\<close>

definition all_names :: "virtual_command list \<Rightarrow> (pystr \<times> virtual_command) list" where
  "all_names commands = concat (map (\<lambda>c. map (\<lambda>n. (n, c)) (descriptor_names (vc_descriptor c))) commands)"

lemma dict_put_new_key: "k \<notin> fst ` set d \<Longrightarrow> dict_put k v d = d @ [(k, v)]"
  by (induction d) auto

lemma register_names_iff:
  "register_names c ns d = Inr d' \<longleftrightarrow>
     distinct ns \<and> set ns \<inter> fst ` set d = {} \<and> d' = d @ map (\<lambda>n. (n, c)) ns"
  by (induction c ns d rule: register_names.induct) (auto simp: dict_put_new_key)

lemma all_names_simps [simp]:
  "all_names [] = []"
  "all_names (c # cs) = map (\<lambda>n. (n, c)) (descriptor_names (vc_descriptor c)) @ all_names cs"
  by (simp_all add: all_names_def)

lemma register_commands_iff:
  "register_commands cs d = Inr d' \<longleftrightarrow>
     distinct (map fst (all_names cs)) \<and> fst ` set (all_names cs) \<inter> fst ` set d = {} \<and> d' = d @ all_names cs"
proof (induction cs arbitrary: d)
  case (Cons c cs)
  define ns where "ns = descriptor_names (vc_descriptor c)"
  define mine where "mine = map (\<lambda>n. (n, c)) ns"
  have mine: "map fst mine = ns" "fst ` set mine = set ns" by (simp_all add: mine_def comp_def image_image)
  have "register_commands (c # cs) d = Inr d' \<longleftrightarrow>
      distinct ns \<and> set ns \<inter> fst ` set d = {} \<and> register_commands cs (d @ mine) = Inr d'"
    by (auto simp: rbind_Inr_iff register_names_iff ns_def mine_def)
  also have "\<dots> \<longleftrightarrow> distinct (map fst (mine @ all_names cs)) \<and>
      fst ` set (mine @ all_names cs) \<inter> fst ` set d = {} \<and> d' = d @ mine @ all_names cs"
    unfolding Cons.IH by (auto simp: mine image_Un)
  finally show ?case by (simp add: mine_def ns_def)
qed auto

text \<open>
  The registry is built exactly when no two names or aliases of its commands are equal, and then
  a name resolves to a command if and only if it is the name or an alias of that command; the
  descriptions are those of the commands, in their order.
\<close>

theorem registry_lookup:
  "((\<exists>reg. command_registry_new commands = Inr reg) \<longleftrightarrow> distinct (map fst (all_names commands))) \<and>
   (\<forall>reg. command_registry_new commands = Inr reg \<longrightarrow>
      cg_descriptions reg = map vc_descriptor commands \<and>
      (\<forall>name c. registry_resolve reg name = Some c \<longleftrightarrow>
         c \<in> set commands \<and> name \<in> set (descriptor_names (vc_descriptor c))))"
proof (intro conjI allI impI)
  show "(\<exists>reg. command_registry_new commands = Inr reg) \<longleftrightarrow> distinct (map fst (all_names commands))"
    by (auto simp: command_registry_new_def rbind_Inr_iff register_commands_iff)
next
  fix reg name c
  assume "command_registry_new commands = Inr reg"
  then have reg: "cg_lookup reg = all_names commands" "distinct (map fst (all_names commands))"
    "cg_descriptions reg = map vc_descriptor commands"
    by (auto simp: command_registry_new_def rbind_Inr_iff register_commands_iff)
  show "cg_descriptions reg = map vc_descriptor commands" by (rule reg)
  have "registry_resolve reg name = Some c \<longleftrightarrow> (name, c) \<in> set (all_names commands)"
    using reg by (simp add: registry_resolve_def map_of_eq_Some_iff)
  then show "registry_resolve reg name = Some c \<longleftrightarrow>
      c \<in> set commands \<and> name \<in> set (descriptor_names (vc_descriptor c))"
    by (auto simp: all_names_def)
qed

end
