(* ===== verification/Command_Output.thy ===== *)
theory Command_Output
  imports Command_Models
begin

text \<open>
  \<open>command_executor/output.py\<close>: the collector of bounded output. It keeps whole characters of
  what is emitted until the first character that does not fit, and counts the bytes emitted.
  An emission that cannot be encoded raises before the collector changes.
\<close>

record bounded_text =
  bt_text :: pystr
  bt_original_bytes :: int
  bt_truncated :: bool

record output_collector =
  oc_max_bytes :: int
  oc_parts :: "pystr list"
  oc_retained_bytes :: int
  oc_original_bytes :: int
  oc_truncated :: bool
  oc_retention_closed :: bool

definition require_max_bytes :: "int \<Rightarrow> unit result" where
  "require_max_bytes v = guard (0 < v) (value_error (pstr ''max_bytes must be positive''))"

definition output_collector_new :: "int \<Rightarrow> output_collector result" where
  "output_collector_new m =
     rbind (require_max_bytes m) (\<lambda>_.
     Inr \<lparr>oc_max_bytes = m, oc_parts = [], oc_retained_bytes = 0, oc_original_bytes = 0,
          oc_truncated = False, oc_retention_closed = False\<rparr>)"

definition encode_text :: "pystr \<Rightarrow> byte list result" where
  "encode_text t =
     (case utf8_encode t of
        Some bs \<Rightarrow> Inr bs
      | None \<Rightarrow> throw (Builtin UnicodeEncodeError) (pstr ''surrogates not allowed''))"

text \<open>The loop on \<open>prefix\<close>: the text it decodes to and the bytes that remain of it.\<close>

function decode_prefix :: "byte list \<Rightarrow> pystr \<times> byte list" where
  "decode_prefix bs =
     (if bs = [] then ([], [])
      else case utf8_decode bs of
             Inr t \<Rightarrow> (t, bs)
           | Inl start \<Rightarrow> decode_prefix (take start bs))"
  by pat_completeness auto
termination
  by (relation "measure length") (auto dest: utf8_decode_error)

declare decode_prefix.simps [simp del]

definition collector_append :: "output_collector \<Rightarrow> pystr \<Rightarrow> output_collector result" where
  "collector_append c text =
     rbind (encode_text text) (\<lambda>encoded.
       let c = c\<lparr>oc_original_bytes := oc_original_bytes c + int (length encoded)\<rparr>;
           remaining = oc_max_bytes c - oc_retained_bytes c
       in Inr
         (if oc_retention_closed c then c\<lparr>oc_truncated := oc_truncated c \<or> encoded \<noteq> []\<rparr>
          else if remaining \<le> 0
          then c\<lparr>oc_truncated := oc_truncated c \<or> encoded \<noteq> [], oc_retention_closed := encoded \<noteq> []\<rparr>
          else if int (length encoded) \<le> remaining
          then c\<lparr>oc_parts := oc_parts c @ [text],
                 oc_retained_bytes := oc_retained_bytes c + int (length encoded)\<rparr>
          else
            let (retained, kept) = decode_prefix (take (nat remaining) encoded)
            in c\<lparr>oc_parts := oc_parts c @ [retained],
                 oc_retained_bytes := oc_retained_bytes c + int (length kept),
                 oc_truncated := True, oc_retention_closed := True\<rparr>))"

definition collector_result :: "output_collector \<Rightarrow> bounded_text" where
  "collector_result c =
     \<lparr>bt_text = concat (oc_parts c), bt_original_bytes = oc_original_bytes c,
      bt_truncated = oc_truncated c\<rparr>"

definition bound_text :: "pystr \<Rightarrow> int \<Rightarrow> bounded_text result" where
  "bound_text text m =
     rbind (output_collector_new m) (\<lambda>c.
     rbind (collector_append c text) (\<lambda>c'. Inr (collector_result c')))"

section \<open>What the collector keeps\<close>

definition text_bytes :: "pystr \<Rightarrow> nat" where
  "text_bytes t = (case utf8_encode t of Some bs \<Rightarrow> length bs | None \<Rightarrow> 0)"

definition char_bytes :: "nat \<Rightarrow> nat" where
  "char_bytes c = (case utf8_char c of Some bs \<Rightarrow> length bs | None \<Rightarrow> 0)"

text \<open>The characters of a text up to the first that does not fit into \<open>m\<close> bytes.\<close>

fun fitting :: "nat \<Rightarrow> pystr \<Rightarrow> pystr" where
  "fitting m [] = []"
| "fitting m (c # cs) =
     (if char_bytes c \<le> m then c # fitting (m - char_bytes c) cs else [])"

definition encodable :: "pystr \<Rightarrow> bool" where
  "encodable t \<longleftrightarrow> utf8_encode t \<noteq> None"

lemma encodable_iff: "encodable t \<longleftrightarrow> (\<forall>c \<in> set t. is_scalar c)"
  unfolding encodable_def utf8_encode_Some_iff [symmetric] by auto

lemma encodable_simps [simp]:
  "encodable []" "encodable (c # cs) \<longleftrightarrow> is_scalar c \<and> encodable cs"
  "encodable (s @ t) \<longleftrightarrow> encodable s \<and> encodable t"
  by (auto simp: encodable_iff)

lemma encode_text_ok [ok_iff]: "encode_text t = Inr bs \<longleftrightarrow> utf8_encode t = Some bs"
  by (auto simp: encode_text_def split: option.splits)

lemma text_bytes_simps [simp]:
  "text_bytes [] = 0"
  "encodable s \<Longrightarrow> encodable t \<Longrightarrow> text_bytes (s @ t) = text_bytes s + text_bytes t"
  by (auto simp: text_bytes_def encodable_def utf8_encode_append split: option.splits)

lemma text_bytes_Cons:
  "is_scalar c \<Longrightarrow> encodable cs \<Longrightarrow> text_bytes (c # cs) = char_bytes c + text_bytes cs"
  by (auto simp: text_bytes_def char_bytes_def encodable_def utf8_char_def split: option.splits)

lemma utf8_encode_bytes: "utf8_encode t = Some bs \<Longrightarrow> encodable t \<and> text_bytes t = length bs"
  by (simp add: encodable_def text_bytes_def)

lemma fitting_prefix: "prefix (fitting m t) t"
  by (induction m t rule: fitting.induct) auto

lemma fitting_encodable: "encodable t \<Longrightarrow> encodable (fitting m t)"
  by (induction m t rule: fitting.induct) auto

lemma fitting_bytes: "encodable t \<Longrightarrow> text_bytes (fitting m t) \<le> m"
proof (induction m t rule: fitting.induct)
  case (2 m c cs)
  then have "is_scalar c" "encodable cs" by simp_all
  with 2 fitting_encodable [of cs] show ?case by (auto simp: text_bytes_Cons)
qed simp

lemma fitting_maximal: "encodable t \<Longrightarrow> prefix u t \<Longrightarrow> text_bytes u \<le> m \<Longrightarrow> prefix u (fitting m t)"
proof (induction m t arbitrary: u rule: fitting.induct)
  case (2 m c cs)
  show ?case
  proof (cases u)
    case (Cons d u')
    then have u: "d = c" "prefix u' cs" using 2 by simp_all
    have e: "is_scalar c" "encodable cs" using 2 by simp_all
    then have "encodable u'" using u(2) by (auto simp: prefix_def)
    then have "text_bytes (c # u') = char_bytes c + text_bytes u'" using e by (simp add: text_bytes_Cons)
    then show ?thesis using 2 u e Cons by simp
  qed simp
qed simp

lemma fitting_whole: "encodable t \<Longrightarrow> fitting m t = t \<longleftrightarrow> text_bytes t \<le> m"
  using fitting_bytes [of t m] fitting_maximal [of t t m] fitting_prefix [of m t]
  by (metis prefix_order.antisym prefix_order.refl)

lemma fitting_append:
  "encodable s \<Longrightarrow> encodable t \<Longrightarrow>
     fitting m (s @ t) = (if text_bytes s \<le> m then s @ fitting (m - text_bytes s) t else fitting m s)"
proof (induction m s rule: fitting.induct)
  case (2 m c cs)
  then have "is_scalar c" "encodable cs" by simp_all
  with 2 show ?case by (auto simp: text_bytes_Cons)
qed simp

text \<open>Decoding a prefix that ends inside a character stops at the start of that character.\<close>

lemma utf8_decode_at_append:
  "utf8_encode x = Some a \<Longrightarrow>
     utf8_decode_at i (a @ b) = rbind (utf8_decode_at (i + length a) b) (\<lambda>cs. Inr (x @ cs))"
proof (induction x arbitrary: a i)
  case Nil
  then show ?case by (simp add: rbind_def split: sum.splits)
next
  case (Cons c x)
  then obtain ca ra where ca: "utf8_char c = Some ca" "utf8_encode x = Some ra" "a = ca @ ra"
    by (auto split: option.splits)
  have "utf8_step (map unat (a @ b)) = Some (c, length ca)"
    using utf8_step_char [OF ca(1)] ca(3) by simp
  moreover have "a @ b \<noteq> []" using utf8_char_length [OF ca(1)] ca(3) by auto
  ultimately show ?case
    using Cons.IH [OF ca(2)] ca(3) by (simp add: utf8_decode_at_unfold rbind_assoc add.assoc)
qed

lemma text_bytes_prefix: "encodable x \<Longrightarrow> prefix v x \<Longrightarrow> text_bytes v \<le> text_bytes x"
  by (auto simp: prefix_def)

lemma decode_prefix_fitting:
  assumes t: "utf8_encode t = Some bs"
  shows "decode_prefix (take r bs) = (fitting r t, take (text_bytes (fitting r t)) bs)"
proof -
  define x where "x = fitting r t"
  have enc: "encodable t" "encodable x"
    using t fitting_encodable by (auto simp: encodable_def x_def)
  obtain a where a: "utf8_encode x = Some a" using enc(2) by (auto simp: encodable_def)
  obtain rest where rest: "t = x @ rest" using fitting_prefix [of r t] by (auto simp: prefix_def x_def)
  then obtain b where b: "bs = a @ b" using t a by (auto simp: utf8_encode_append split: option.splits)
  have len: "text_bytes x = length a" "length a \<le> r"
    using utf8_encode_bytes [OF a] fitting_bytes [OF enc(1), of r] by (simp_all add: x_def)
  have tk: "take r bs = a @ take (r - length a) b" using b len by simp
  have longest: "length p \<le> length a" if "prefix p bs" "length p \<le> r" "utf8_encode v = Some p" for p v
  proof -
    have "prefix v t" using that(1,3) t utf8_prefix by (auto simp: prefix_def)
    then have "prefix v x"
      using fitting_maximal [OF enc(1)] that utf8_encode_bytes [OF that(3)] by (simp add: x_def)
    then have "text_bytes v \<le> length a" using text_bytes_prefix [OF enc(2)] len(1) by metis
    then show ?thesis using utf8_encode_bytes [OF that(3)] by simp
  qed
  have whole: "decode_prefix a = (x, a)"
    using utf8_decode_encode [OF a] a by (subst decode_prefix.simps) (auto simp: utf8_encode_inject)
  have "decode_prefix (take r bs) = (x, a)"
  proof (cases "utf8_decode (take r bs)")
    case (Inr u)
    then have "utf8_encode u = Some (take r bs)" by (simp add: utf8_decode_iff)
    from longest [OF take_is_prefix _ this] have "length (take r bs) \<le> length a" by simp
    then have "take r bs = a" unfolding tk by (cases b) (auto simp: min_def split: if_splits)
    then show ?thesis using whole by simp
  next
    case (Inl e)
    obtain v where v: "utf8_decode (take e (take r bs)) = Inr v" and e: "e < length (take r bs)"
      using utf8_decode_error [OF Inl] by blast
    have "min e r = e" using e by simp
    then have "utf8_encode v = Some (take e bs)" using v by (simp add: utf8_decode_iff)
    from longest [OF take_is_prefix _ this] have "e \<le> length a" using e by simp
    moreover have "length a \<le> e"
    proof -
      have "utf8_decode_at (length a) (take (r - length a) b) = Inl e"
        using Inl utf8_decode_at_append [OF a, of 0 "take (r - length a) b"] tk
        by (auto simp: utf8_decode_def rbind_Inl_iff)
      then show ?thesis using utf8_decode_at_error by blast
    qed
    ultimately have "take e (take r bs) = a" using tk by simp
    then have "decode_prefix (take r bs) = decode_prefix a"
      using Inl e by (subst decode_prefix.simps) auto
    then show ?thesis using whole by simp
  qed
  then show ?thesis using len b by (simp add: x_def)
qed

section \<open>The collector keeps the longest prefix that fits\<close>

fun collect :: "output_collector \<Rightarrow> pystr list \<Rightarrow> output_collector result" where
  "collect c [] = Inr c"
| "collect c (t # ts) = rbind (collector_append c t) (\<lambda>c'. collect c' ts)"

definition collector_inv :: "int \<Rightarrow> pystr \<Rightarrow> output_collector \<Rightarrow> bool" where
  "collector_inv m seen c \<longleftrightarrow>
     encodable seen \<and> 0 < m \<and> oc_max_bytes c = m \<and>
     concat (oc_parts c) = fitting (nat m) seen \<and>
     oc_retained_bytes c = int (text_bytes (fitting (nat m) seen)) \<and>
     oc_original_bytes c = int (text_bytes seen) \<and>
     (oc_truncated c \<longleftrightarrow> m < int (text_bytes seen)) \<and>
     (oc_retention_closed c \<longleftrightarrow> oc_truncated c)"

lemma fitting_zero: "encodable t \<Longrightarrow> fitting 0 t = []"
  using fitting_bytes [of t 0] fitting_encodable [of t 0]
  by (cases t) (auto simp: char_bytes_def utf8_char_def split: if_splits)

lemma collector_inv_append:
  assumes c: "collector_inv m seen c" and app: "collector_append c t = Inr c'"
  shows "collector_inv m (seen @ t) c'"
proof -
  obtain bs where bs: "utf8_encode t = Some bs" using app by (auto simp: collector_append_def ok_iff)
  then have t: "encodable t" "text_bytes t = length bs" using utf8_encode_bytes by blast+
  have empty: "bs = [] \<longleftrightarrow> t = []"
    using bs utf8_length_le [OF bs] by (cases t) auto
  have seen: "encodable seen" and m: "0 < m" using c by (auto simp: collector_inv_def)
  show ?thesis
  proof (cases "oc_retention_closed c")
    case True
    then show ?thesis
      using c app bs t seen fitting_append [OF seen t(1), of "nat m"]
      by (auto simp: collector_append_def collector_inv_def encode_text_def Let_def)
  next
    case False
    then have fit: "text_bytes seen \<le> nat m" "fitting (nat m) seen = seen"
      using c m fitting_whole [OF seen, of "nat m"] by (auto simp: collector_inv_def)
    then have app': "fitting (nat m) (seen @ t) = seen @ fitting (nat m - text_bytes seen) t"
      using fitting_append [OF seen t(1)] by simp
    define r where "r = nat m - text_bytes seen"
    have rem: "oc_max_bytes c - oc_retained_bytes c = int r"
      using c fit m by (simp add: collector_inv_def r_def)
    consider (full) "r = 0" | (fits) "0 < r" "length bs \<le> r" | (cut) "0 < r" "r < length bs" by linarith
    then show ?thesis
    proof cases
      case full
      then have "fitting (nat m) (seen @ t) = seen" using app' fitting_zero [OF t(1)] by (simp add: r_def)
      then show ?thesis
        using c app bs t seen m fit full rem False
        by (auto simp: collector_append_def collector_inv_def encode_text_def Let_def r_def)
    next
      case fits
      then have "fitting r t = t" using fitting_whole [OF t(1)] t(2) by simp
      then show ?thesis
        using c app bs t seen m fit fits rem False app'
        by (auto simp: collector_append_def collector_inv_def encode_text_def Let_def r_def)
    next
      case cut
      have "text_bytes (fitting r t) \<le> length bs"
        using text_bytes_prefix [OF t(1) fitting_prefix] t(2) by simp
      moreover have "c' = c\<lparr>oc_original_bytes := oc_original_bytes c + int (length bs),
          oc_parts := oc_parts c @ [fitting r t],
          oc_retained_bytes := oc_retained_bytes c + int (length (take (text_bytes (fitting r t)) bs)),
          oc_truncated := True, oc_retention_closed := True\<rparr>"
        using app bs rem cut False decode_prefix_fitting [OF bs, of r]
        by (auto simp: collector_append_def encode_text_def Let_def)
      ultimately show ?thesis
        using c t seen m fit cut app' fitting_encodable [OF t(1), of r]
        by (auto simp: collector_inv_def r_def)
    qed
  qed
qed

lemma collector_inv_collect:
  "collector_inv m seen c \<Longrightarrow> collect c ts = Inr c' \<Longrightarrow> collector_inv m (seen @ concat ts) c'"
proof (induction ts arbitrary: seen c)
  case (Cons t ts)
  then obtain c1 where "collector_append c t = Inr c1" "collect c1 ts = Inr c'" by (auto simp: ok_iff)
  with Cons.IH [of "seen @ t" c1] collector_inv_append [OF Cons.prems(1)] show ?case by simp
qed simp

lemma collector_inv_new: "output_collector_new m = Inr c \<Longrightarrow> collector_inv m [] c"
  by (auto simp: output_collector_new_def require_max_bytes_def ok_iff collector_inv_def)

lemma collect_returns: "list_all encodable ts \<Longrightarrow> \<exists>c'. collect c ts = Inr c'"
proof (induction ts arbitrary: c)
  case (Cons t ts)
  then obtain bs where "utf8_encode t = Some bs" by (auto simp: encodable_def)
  then obtain c1 where "collector_append c t = Inr c1" by (simp add: collector_append_def encode_text_def Let_def)
  with Cons show ?case by simp
qed simp

text \<open>
  C25: for any sequence of emitted texts the collector returns, and its result is the longest
  prefix of whole characters of their concatenation whose UTF-8 encoding fits the limit, whatever
  the boundaries between the texts; the original size counts every byte emitted, and the result is
  marked truncated exactly when that size exceeds the limit.
\<close>

theorem collector_longest_prefix:
  assumes "output_collector_new m = Inr c" and "list_all encodable ts"
  shows "\<exists>c'. collect c ts = Inr c' \<and>
    prefix (bt_text (collector_result c')) (concat ts) \<and>
    int (text_bytes (bt_text (collector_result c'))) \<le> m \<and>
    (\<forall>u. prefix u (concat ts) \<and> int (text_bytes u) \<le> m \<longrightarrow> prefix u (bt_text (collector_result c'))) \<and>
    bt_original_bytes (collector_result c') = int (text_bytes (concat ts)) \<and>
    (bt_truncated (collector_result c') \<longleftrightarrow> m < int (text_bytes (concat ts)))"
proof -
  obtain c' where c': "collect c ts = Inr c'" using collect_returns [OF assms(2)] by blast
  have inv: "collector_inv m (concat ts) c'"
    using collector_inv_collect [OF collector_inv_new [OF assms(1)] c'] by simp
  then have "encodable (concat ts)" "0 < m" by (simp_all add: collector_inv_def)
  then show ?thesis
    using inv c' fitting_prefix fitting_bytes [of "concat ts" "nat m"] fitting_maximal [of "concat ts" _ "nat m"]
    by (auto simp: collector_inv_def collector_result_def)
qed

lemma collector_longest_prefix_witness:
  "\<exists>c c'. output_collector_new 2 = Inr c \<and> collect c [[97], [233, 98]] = Inr c' \<and>
     prefix (bt_text (collector_result c')) [97, 233, 98]"
proof -
  obtain c where c: "output_collector_new 2 = Inr c"
    by (simp add: output_collector_new_def require_max_bytes_def)
  have "list_all encodable [[97], [233, 98]]" by (simp add: encodable_iff is_scalar_def is_surrogate_def)
  from collector_longest_prefix [OF c this] c show ?thesis by auto
qed

end
