(* ===== verification/Command_Common.thy ===== *)
theory Command_Common
  imports Command_Registry Command_Output
begin

text \<open>
  \<open>command_executor/commands.py\<close>, the functions that the handlers share: failures, option loops,
  records of text, the walk of a subtree, the inputs of a filter. A handler reads and changes the
  workspace its ports give access to. \<open>frames\<close> is the number of nested calls the interpreter still
  allows when the recursive walk begins: one more raises \<open>RecursionError\<close>, a \<open>RuntimeError\<close>.
\<close>

section \<open>Results\<close>

definition failure_with ::
  "command_failure_code \<Rightarrow> int \<Rightarrow> pystr \<Rightarrow> pystr \<Rightarrow> pystr \<Rightarrow> command_result result" where
  "failure_with code exit_code stdout command message =
     command_result_new exit_code (Some code) stdout (command @ pstr '': '' @ message @ [lf]) None []"

abbreviation failure :: "pystr \<Rightarrow> pystr \<Rightarrow> command_result result" where
  "failure \<equiv> failure_with WORKSPACE_FAILURE 1 []"

definition invalid :: "pystr \<Rightarrow> pystr \<Rightarrow> command_result result" where
  "invalid command message = failure_with INVALID_ARGUMENT 2 [] command message"

definition protected_value :: "pystr \<Rightarrow> command_result result" where
  "protected_value command =
     failure_with PROTECTED_VALUE_REJECTED 1 [] command (pstr ''protected values cannot be persisted'')"

definition usage :: "pystr \<Rightarrow> string \<Rightarrow> command_result result" where
  "usage command text = invalid command (pstr ''usage: '' @ pstr text)"

definition protected_operands :: "command_context \<Rightarrow> pystr list \<Rightarrow> bool" where
  "protected_operands c operands \<longleftrightarrow> (\<exists>v \<in> set operands. contains_protected_text (cx_protection c) v)"

definition unless_protected ::
  "pystr \<Rightarrow> pystr list \<Rightarrow> command_context \<Rightarrow> command_result ws_action \<Rightarrow> command_result ws_action" where
  "unless_protected command operands c m =
     (if protected_operands c operands then act_lift (protected_value command) else m)"

definition unless_stdin ::
  "pystr \<Rightarrow> command_request \<Rightarrow> command_result ws_action \<Rightarrow> command_result ws_action" where
  "unless_stdin command r m =
     (if cr_stdin_connected r \<or> cr_stdin r \<noteq> []
      then act_lift (invalid command (pstr ''stdin is not accepted'')) else m)"

text \<open>\<open>except _EXPECTED_WORKSPACE_FAILURES as error\<close>, around reads and around mutations.\<close>

definition expect_result ::
  "'a result \<Rightarrow> (pystr \<Rightarrow> 'b result) \<Rightarrow> ('a \<Rightarrow> 'b result) \<Rightarrow> 'b result" where
  "expect_result m handle next_step =
     (case m of
        Inr x \<Rightarrow> next_step x
      | Inl e \<Rightarrow> if expected_workspace_failure e then handle (err_msg e) else Inl e)"

definition attempt ::
  "'a ws_action \<Rightarrow> (pystr \<Rightarrow> command_result result) \<Rightarrow> ('a \<Rightarrow> command_result ws_action)
     \<Rightarrow> command_result ws_action" where
  "attempt m handle next_step = (\<lambda>w.
     case m w of
       (Inr x, w') \<Rightarrow> next_step x w'
     | (Inl e, w') \<Rightarrow> (if expected_workspace_failure e then handle (err_msg e) else Inl e, w'))"

text \<open>An action that only reads.\<close>

definition reads :: "(memory_workspace \<Rightarrow> 'a result) \<Rightarrow> 'a ws_action" where
  "reads f = (\<lambda>w. (f w, w))"

section \<open>Arguments\<close>

text \<open>\<open>request.argv[1:]\<close>\<close>

definition arguments_of :: "command_request \<Rightarrow> pystr list" where
  "arguments_of r = tl (cr_argv r)"

text \<open>\<open>if arguments and arguments[0] == text: arguments.pop(0)\<close>\<close>

definition pop_if :: "pystr \<Rightarrow> pystr list \<Rightarrow> bool \<times> pystr list" where
  "pop_if text as = (case as of a # rest \<Rightarrow> if a = text then (True, rest) else (False, as) | [] \<Rightarrow> (False, as))"

abbreviation (input) double_dash :: pystr where "double_dash \<equiv> [45, 45]"

definition dashed :: "pystr \<Rightarrow> bool" where
  "dashed a \<longleftrightarrow> startswith a [45]"

text \<open>
  The loop over \<open>argv[1:]\<close> of the commands with flags: options end at \<open>--\<close> or at the first
  operand; \<open>accept\<close> reads an option into the flags or refuses it.
\<close>

fun option_loop ::
  "(pystr \<Rightarrow> bool) \<Rightarrow> (pystr \<Rightarrow> 'f \<Rightarrow> 'f option) \<Rightarrow> pystr list \<Rightarrow> bool \<Rightarrow> 'f \<Rightarrow> pystr list
     \<Rightarrow> ('f \<times> pystr list) option" where
  "option_loop is_option accept [] options flags operands = Some (flags, operands)"
| "option_loop is_option accept (a # rest) options flags operands =
     (if options \<and> a = double_dash then option_loop is_option accept rest False flags operands
      else if options \<and> is_option a
      then (case accept a flags of
              None \<Rightarrow> None
            | Some flags' \<Rightarrow> option_loop is_option accept rest options flags' operands)
      else option_loop is_option accept rest False flags (operands @ [a]))"

definition dashed_option :: "pystr \<Rightarrow> bool" where
  "dashed_option a \<longleftrightarrow> dashed a \<and> a \<noteq> [45]"

definition only_flags :: "string \<Rightarrow> pystr \<Rightarrow> bool" where
  "only_flags allowed a \<longleftrightarrow> set (drop 1 a) \<subseteq> set (pstr allowed)"

section \<open>Text\<close>

definition records :: "pystr \<Rightarrow> pystr list" where
  "records text =
     (let parts = split_on lf text
      in map (\<lambda>part. part @ [lf]) (butlast parts) @ (if last parts \<noteq> [] then [last parts] else []))"

definition without_lf :: "pystr \<Rightarrow> pystr" where
  "without_lf r = (if endswith r [lf] then butlast r else r)"

definition with_lf :: "pystr \<Rightarrow> pystr" where
  "with_lf r = (if endswith r [lf] then r else r @ [lf])"

definition rstrip_slash :: "pystr \<Rightarrow> pystr" where
  "rstrip_slash s = rev (dropWhile (\<lambda>c. c = slash) (rev s))"

definition display_path :: "pystr \<Rightarrow> sandbox_path \<Rightarrow> sandbox_path \<Rightarrow> pystr" where
  "display_path operand origin path =
     (let relative_parts = drop (length (path_parts origin)) (path_parts path);
          base = (if startswith operand [slash] then path_value origin
                  else if rstrip_slash operand = [] then pstr ''.'' else rstrip_slash operand);
          relative = join_with [slash] relative_parts
      in if relative_parts = [] then base
         else if base = pstr ''.'' then pstr ''./'' @ relative else base @ [slash] @ relative)"

section \<open>Reading\<close>

type_synonym walked = "sandbox_path \<times> nat \<times> node_kind"

definition recursion_error :: sandbox_error where
  "recursion_error = Raise (Builtin RuntimeError) (pstr ''maximum recursion depth exceeded'')"

fun visit :: "nat \<Rightarrow> memory_workspace \<Rightarrow> int option \<Rightarrow> sandbox_path \<Rightarrow> nat \<Rightarrow> walked list result" where
  "visit 0 w max_depth path depth = Inl recursion_error"
| "visit (Suc frames) w max_depth path depth =
     rbind (ws_stat w path) (\<lambda>e.
       if we_kind e \<noteq> DIRECTORY \<or> (\<exists>m. max_depth = Some m \<and> m \<le> int depth)
       then Inr [(we_path e, depth, we_kind e)]
       else
         rbind (ws_list w (we_path e)) (\<lambda>entries.
         rbind (rmap (\<lambda>child. visit frames w max_depth (we_path child) (depth + 1)) entries) (\<lambda>parts.
         Inr ((we_path e, depth, we_kind e) # concat parts))))"

definition walk :: "nat \<Rightarrow> memory_workspace \<Rightarrow> int option \<Rightarrow> sandbox_path \<Rightarrow> walked list result" where
  "walk frames w max_depth origin = visit frames w max_depth origin 0"

definition resolve_operand :: "memory_workspace \<Rightarrow> command_context \<Rightarrow> pystr \<Rightarrow> sandbox_path result" where
  "resolve_operand w c operand = resolve_path (ws_limits w) operand (Some (cx_cwd c))"

definition read_operand :: "memory_workspace \<Rightarrow> command_context \<Rightarrow> pystr \<Rightarrow> pystr result" where
  "read_operand w c operand =
     rbind (resolve_operand w c operand) (\<lambda>path.
     rbind (ws_read_text w path) (\<lambda>r. Inr (tr_content r)))"

type_synonym labelled = "pystr option \<times> pystr"

text \<open>The inputs of a filter: \<open>Inl\<close> is the failure that \<open>_read_inputs\<close> returns beside them.\<close>

fun read_operands ::
  "pystr \<Rightarrow> memory_workspace \<Rightarrow> bool \<Rightarrow> pystr list \<Rightarrow> command_request \<Rightarrow> command_context \<Rightarrow> labelled list
     \<Rightarrow> (command_result + labelled list) result" where
  "read_operands command w given [] r c out = Inr (Inr out)"
| "read_operands command w given (operand # rest) r c out =
     (if operand = [45]
      then read_operands command w given rest r c
             (out @ [(if given then Some [45] else None, cr_stdin r)])
      else if protected_operands c [operand]
      then rbind (protected_value command) (\<lambda>f. Inr (Inl f))
      else
        expect_result (read_operand w c operand)
          (\<lambda>m. rbind (failure command m) (\<lambda>f. Inr (Inl f)))
          (\<lambda>text. read_operands command w given rest r c (out @ [(Some operand, text)])))"

definition read_inputs ::
  "pystr \<Rightarrow> memory_workspace \<Rightarrow> pystr list \<Rightarrow> command_request \<Rightarrow> command_context
     \<Rightarrow> (command_result + labelled list) result" where
  "read_inputs command w operands r c =
     read_operands command w (operands \<noteq> []) (if operands = [] then [[45]] else operands) r c []"

definition filtering ::
  "pystr \<Rightarrow> pystr list \<Rightarrow> command_request \<Rightarrow> command_context \<Rightarrow> (labelled list \<Rightarrow> command_result result)
     \<Rightarrow> command_result ws_action" where
  "filtering command operands r c f =
     reads (\<lambda>w. rbind (read_inputs command w operands r c) (\<lambda>inputs.
       case inputs of Inl failed \<Rightarrow> Inr failed | Inr xs \<Rightarrow> f xs))"

section \<open>Shared facts\<close>

lemma records_simps:
  "records [] = []"
  "lf \<notin> set s \<Longrightarrow> s \<noteq> [] \<Longrightarrow> records s = [s]"
  "lf \<notin> set s \<Longrightarrow> records (s @ lf # t) = (s @ [lf]) # records t"
proof -
  show "records [] = []" by (simp add: records_def)
  show "lf \<notin> set s \<Longrightarrow> s \<noteq> [] \<Longrightarrow> records s = [s]" by (simp add: records_def split_on_id)
  show "lf \<notin> set s \<Longrightarrow> records (s @ lf # t) = (s @ [lf]) # records t"
    by (simp add: records_def split_on_append split_on_id Let_def)
qed

lemma concat_records: "concat (records t) = t"
proof -
  have "concat (map (\<lambda>p. p @ [lf]) (butlast ps)) @ last ps = join_with [lf] ps" if "ps \<noteq> []" for ps
    using that by (induction ps rule: join_with.induct [of _ "[lf]"]) auto
  from this [of "split_on lf t"] show ?thesis
    by (cases "last (split_on lf t) = []") (simp_all add: records_def Let_def)
qed

end
