(* ===== verification/Command_Files.thy ===== *)
theory Command_Files
  imports Command_Common
begin

text \<open>
  \<open>command_executor/commands.py\<close>: the commands on paths and on the environment. Each is the
  \<open>execute\<close> method of its class, with its descriptor.
\<close>

definition descriptor ::
  "string \<Rightarrow> string \<Rightarrow> string \<Rightarrow> bool \<Rightarrow> bool \<Rightarrow> bool \<Rightarrow> command_descriptor" where
  "descriptor name summary usage_text redirectable stdin pipeline =
     \<lparr>dc_name = pstr name, dc_aliases = [], dc_summary = pstr summary, dc_usage = pstr usage_text,
      dc_permits_stdout_redirection = redirectable, dc_accepts_stdin = stdin, dc_pipeline_safe = pipeline\<rparr>"

section \<open>Directories and listings\<close>

definition pwd_descriptor :: command_descriptor where
  "pwd_descriptor = descriptor ''pwd'' ''Print current directory'' ''pwd'' True False True"

definition pwd_execute :: command_handler where
  "pwd_execute r c =
     unless_stdin (pstr ''pwd'') r
       (act_lift (if length (cr_argv r) \<noteq> 1 then usage (pstr ''pwd'') ''pwd''
                  else command_success (path_value (cx_cwd c) @ [lf]) [] None))"

definition cd_descriptor :: command_descriptor where
  "cd_descriptor = descriptor ''cd'' ''Change current directory'' ''cd PATH'' False False False"

definition cd_execute :: command_handler where
  "cd_execute r c =
     unless_stdin (pstr ''cd'') r
       (let as = snd (pop_if double_dash (arguments_of r)) in
        case as of
          [target] \<Rightarrow>
            if dashed target \<and> cr_argv r ! 1 \<noteq> double_dash then act_lift (usage (pstr ''cd'') ''cd PATH'')
            else
              unless_protected (pstr ''cd'') [target] c
                (reads (\<lambda>w. expect_result
                  (rbind (resolve_operand w c target) (\<lambda>path.
                   rbind (ws_stat w path) (\<lambda>e.
                   rbind (guard (we_kind e = DIRECTORY) (not_a_directory path)) (\<lambda>_. Inr path))))
                  (failure (pstr ''cd''))
                  (\<lambda>path. command_success [] [] (Some path))))
        | _ \<Rightarrow> act_lift (usage (pstr ''cd'') ''cd PATH''))"

definition ls_descriptor :: command_descriptor where
  "ls_descriptor = descriptor ''ls'' ''List directory names'' ''ls [-1a] [PATH...]'' True False True"

definition ls_section :: "memory_workspace \<Rightarrow> command_context \<Rightarrow> bool \<Rightarrow> pystr \<Rightarrow> pystr result" where
  "ls_section w c multiple operand =
     rbind (resolve_operand w c operand) (\<lambda>path.
     rbind (ws_stat w path) (\<lambda>e.
       if we_kind e = DIRECTORY
       then rbind (ws_list w path) (\<lambda>entries.
         let body = concat (map (\<lambda>child. path_name (we_path child) @ [lf]) entries)
         in Inr (if multiple then operand @ pstr '':'' @ [lf] @ body else body))
       else Inr (operand @ [lf])))"

fun ls_operands ::
  "memory_workspace \<Rightarrow> command_context \<Rightarrow> bool \<Rightarrow> pystr list \<Rightarrow> pystr list \<Rightarrow> command_result result" where
  "ls_operands w c multiple [] sections = command_success (join_with [lf] sections) [] None"
| "ls_operands w c multiple (operand # rest) sections =
     (if protected_operands c [operand] then protected_value (pstr ''ls'')
      else
        expect_result (ls_section w c multiple operand)
          (failure_with WORKSPACE_FAILURE 1 (join_with [lf] sections) (pstr ''ls''))
          (\<lambda>s. ls_operands w c multiple rest (sections @ [s])))"

definition ls_execute :: command_handler where
  "ls_execute r c =
     unless_stdin (pstr ''ls'') r
       (case option_loop dashed_option (\<lambda>a (_::unit). if only_flags ''1a'' a then Some () else None)
               (arguments_of r) True () [] of
          None \<Rightarrow> act_lift (usage (pstr ''ls'') ''ls [-1a] [PATH...]'')
        | Some (_, operands0) \<Rightarrow>
            let operands = (if operands0 = [] then [pstr ''.''] else operands0)
            in reads (\<lambda>w. ls_operands w c (length operands > 1) operands []))"

definition cat_descriptor :: command_descriptor where
  "cat_descriptor = descriptor ''cat'' ''Concatenate UTF-8 files or stdin'' ''cat [FILE...]'' True True True"

fun cat_operands ::
  "memory_workspace \<Rightarrow> command_request \<Rightarrow> command_context \<Rightarrow> pystr list \<Rightarrow> pystr list \<Rightarrow> command_result result" where
  "cat_operands w r c [] out = command_success (concat out) [] None"
| "cat_operands w r c (v # rest) out =
     (if v = [45] then cat_operands w r c rest (out @ [cr_stdin r])
      else if protected_operands c [v] then protected_value (pstr ''cat'')
      else
        expect_result (read_operand w c v)
          (failure_with WORKSPACE_FAILURE 1 (concat out) (pstr ''cat''))
          (\<lambda>text. cat_operands w r c rest (out @ [text])))"

definition cat_execute :: command_handler where
  "cat_execute r c =
     (case option_loop dashed_option (\<lambda>a (_::unit). None) (arguments_of r) True () [] of
        None \<Rightarrow> act_lift (usage (pstr ''cat'') ''cat [FILE...]'')
      | Some (_, operands) \<Rightarrow>
          if operands = [] then act_lift (command_success (cr_stdin r) [] None)
          else reads (\<lambda>w. cat_operands w r c operands []))"

definition echo_descriptor :: command_descriptor where
  "echo_descriptor = descriptor ''echo'' ''Print arguments'' ''echo [-n] [ARG...]'' True False True"

definition echo_execute :: command_handler where
  "echo_execute r c =
     unless_stdin (pstr ''echo'') r
       (let (no_newline, as) = pop_if (pstr ''-n'') (arguments_of r)
        in act_lift (command_success (join_with [32] as @ (if no_newline then [] else [lf])) [] None))"

section \<open>Mutations\<close>

definition mkdir_descriptor :: command_descriptor where
  "mkdir_descriptor = descriptor ''mkdir'' ''Create directories'' ''mkdir [-p] PATH...'' False False False"

fun mkdir_paths :: "bool \<Rightarrow> command_context \<Rightarrow> pystr list \<Rightarrow> command_result ws_action" where
  "mkdir_paths parents c [] = act_lift (command_success [] [] None)"
| "mkdir_paths parents c (v # rest) =
     attempt (reads (\<lambda>w. resolve_operand w c v)) (failure (pstr ''mkdir'')) (\<lambda>path.
     attempt (ws_mkdir \<lparr>mk_path = path, mk_create_parents = parents, mk_exist_ok = parents\<rparr>)
       (failure (pstr ''mkdir'')) (\<lambda>_.
     mkdir_paths parents c rest))"

text \<open>The arguments of \<open>mkdir\<close> and \<open>touch\<close>: only \<open>--\<close> lets a path begin with a hyphen.\<close>

definition path_arguments :: "pystr list \<Rightarrow> pystr list option" where
  "path_arguments as =
     (let (plain, rest) = pop_if double_dash as
      in if rest = [] \<or> (\<not> plain \<and> (\<exists>v \<in> set rest. dashed v)) then None else Some rest)"

definition mkdir_execute :: command_handler where
  "mkdir_execute r c =
     unless_stdin (pstr ''mkdir'') r
       (let (parents, as) = pop_if (pstr ''-p'') (arguments_of r) in
        case path_arguments as of
          None \<Rightarrow> act_lift (usage (pstr ''mkdir'') ''mkdir [-p] PATH...'')
        | Some paths \<Rightarrow> unless_protected (pstr ''mkdir'') paths c (mkdir_paths parents c paths))"

definition stat_or_none :: "memory_workspace \<Rightarrow> sandbox_path \<Rightarrow> workspace_entry option result" where
  "stat_or_none w path =
     (case ws_stat w path of
        Inr e \<Rightarrow> Inr (Some e)
      | Inl e \<Rightarrow> if err_class e = Workspace PathNotFoundError then Inr None else Inl e)"

definition touch_descriptor :: command_descriptor where
  "touch_descriptor = descriptor ''touch'' ''Create empty files'' ''touch FILE...'' False False False"

text \<open>The body of the loop; it returns the path when that is a directory.\<close>

definition touch_one :: "command_context \<Rightarrow> pystr \<Rightarrow> sandbox_path option ws_action" where
  "touch_one c v =
     act_bind (reads (\<lambda>w. resolve_operand w c v)) (\<lambda>path.
     act_bind (reads (\<lambda>w. stat_or_none w path)) (\<lambda>found.
       case found of
         None \<Rightarrow>
           act_bind (ws_write \<lparr>wr_path = path, wr_content = [], wr_precondition = PathMustNotExist,
                               wr_create_parents = False\<rparr>) (\<lambda>_. act_ret None)
       | Some e \<Rightarrow> act_ret (if we_kind e = DIRECTORY then Some path else None)))"

fun touch_paths :: "command_context \<Rightarrow> pystr list \<Rightarrow> command_result ws_action" where
  "touch_paths c [] = act_lift (command_success [] [] None)"
| "touch_paths c (v # rest) =
     attempt (touch_one c v) (failure (pstr ''touch'')) (\<lambda>directory_path.
       case directory_path of
         Some path \<Rightarrow> act_lift (failure (pstr ''touch'') (path_value path @ pstr '' is a directory''))
       | None \<Rightarrow> touch_paths c rest)"

definition touch_execute :: command_handler where
  "touch_execute r c =
     unless_stdin (pstr ''touch'') r
       (case path_arguments (arguments_of r) of
          None \<Rightarrow> act_lift (usage (pstr ''touch'') ''touch FILE...'')
        | Some paths \<Rightarrow> unless_protected (pstr ''touch'') paths c (touch_paths c paths))"

definition rm_descriptor :: command_descriptor where
  "rm_descriptor = descriptor ''rm'' ''Remove paths'' ''rm [-rR] [-f] PATH...'' False False False"

definition rm_accept :: "pystr \<Rightarrow> bool \<times> bool \<Rightarrow> (bool \<times> bool) option" where
  "rm_accept a flags =
     (case flags of (recursive, force) \<Rightarrow>
        if length a = 1 \<or> \<not> only_flags ''rRf'' a then None
        else Some (recursive \<or> 114 \<in> set a \<or> 82 \<in> set a, force \<or> 102 \<in> set a))"

fun rm_paths :: "bool \<Rightarrow> bool \<Rightarrow> command_context \<Rightarrow> pystr list \<Rightarrow> command_result ws_action" where
  "rm_paths recursive force c [] = act_lift (command_success [] [] None)"
| "rm_paths recursive force c (v # rest) =
     attempt
       (act_bind (reads (\<lambda>w. resolve_operand w c v)) (\<lambda>path.
        ws_remove \<lparr>rm_path = path, rm_recursive = recursive, rm_missing_ok = force\<rparr>))
       (failure (pstr ''rm'')) (\<lambda>_. rm_paths recursive force c rest)"

definition rm_execute :: command_handler where
  "rm_execute r c =
     unless_stdin (pstr ''rm'') r
       (case option_loop dashed rm_accept (arguments_of r) True (False, False) [] of
          None \<Rightarrow> act_lift (usage (pstr ''rm'') ''rm [-rR] [-f] PATH...'')
        | Some ((recursive, force), paths) \<Rightarrow>
            if paths = [] then act_lift (usage (pstr ''rm'') ''rm [-rR] [-f] PATH...'')
            else unless_protected (pstr ''rm'') paths c (rm_paths recursive force c paths))"

section \<open>Copies and moves\<close>

definition is_directory :: "workspace_entry option \<Rightarrow> bool" where
  "is_directory e \<longleftrightarrow> (\<exists>x. e = Some x \<and> we_kind x = DIRECTORY)"

text \<open>The body of the loop over the sources; it returns the message of an early failure.\<close>

definition transfer_one ::
  "bool \<Rightarrow> bool \<Rightarrow> command_context \<Rightarrow> sandbox_path \<Rightarrow> workspace_entry option \<Rightarrow> pystr
     \<Rightarrow> pystr option ws_action" where
  "transfer_one recursive move c destination destination_entry source_operand =
     act_bind (reads (\<lambda>w. resolve_operand w c source_operand)) (\<lambda>source.
     act_bind (reads (\<lambda>w. ws_stat w source)) (\<lambda>source_entry.
       if we_kind source_entry = DIRECTORY \<and> \<not> recursive
       then act_ret (Some (path_value source @ pstr '' is a directory; use -r''))
       else
         act_bind (act_lift (if is_directory destination_entry
                             then path_join destination [path_name source] 4096 255
                             else Inr destination)) (\<lambda>exact_destination.
         act_bind (reads (\<lambda>w. stat_or_none w exact_destination)) (\<lambda>existing.
           if we_kind source_entry = DIRECTORY \<and> existing \<noteq> None
           then act_ret (Some (pstr ''recursive directory merge is unsupported''))
           else if we_kind source_entry = FILE \<and> is_directory existing
           then act_ret (Some (path_value exact_destination @ pstr '' is a directory''))
           else
             act_bind ((if move then ws_move else ws_copy)
               \<lparr>tf_source = source, tf_destination = exact_destination, tf_overwrite = True,
                tf_create_parents = False\<rparr>) (\<lambda>_. act_ret None)))))"

fun transfer_all ::
  "bool \<Rightarrow> bool \<Rightarrow> command_context \<Rightarrow> sandbox_path \<Rightarrow> workspace_entry option \<Rightarrow> pystr list
     \<Rightarrow> pystr option ws_action" where
  "transfer_all recursive move c destination destination_entry [] = act_ret None"
| "transfer_all recursive move c destination destination_entry (source # sources) =
     act_bind (transfer_one recursive move c destination destination_entry source) (\<lambda>stop.
       case stop of
         Some m \<Rightarrow> act_ret (Some m)
       | None \<Rightarrow> transfer_all recursive move c destination destination_entry sources)"

definition transfer ::
  "pystr \<Rightarrow> pystr list \<Rightarrow> pystr \<Rightarrow> command_context \<Rightarrow> bool \<Rightarrow> bool \<Rightarrow> command_result ws_action" where
  "transfer command sources destination_operand c recursive move =
     unless_protected command (sources @ [destination_operand]) c
       (attempt
         (act_bind (reads (\<lambda>w. resolve_operand w c destination_operand)) (\<lambda>destination.
          act_bind (reads (\<lambda>w. stat_or_none w destination)) (\<lambda>destination_entry.
            if length sources > 1 \<and> \<not> is_directory destination_entry
            then act_ret (Some (pstr ''destination must be an existing directory''))
            else transfer_all recursive move c destination destination_entry sources)))
         (failure command)
         (\<lambda>stop. act_lift (case stop of
                          Some m \<Rightarrow> failure command m
                        | None \<Rightarrow> command_success [] [] None)))"

definition cp_descriptor :: command_descriptor where
  "cp_descriptor = descriptor ''cp'' ''Copy workspace paths'' ''cp [-fRr] SOURCE... DEST'' False False False"

definition cp_accept :: "pystr \<Rightarrow> bool \<Rightarrow> bool option" where
  "cp_accept a recursive =
     (if length a = 1 \<or> \<not> only_flags ''fRr'' a then None
      else Some (recursive \<or> 114 \<in> set a \<or> 82 \<in> set a))"

definition cp_execute :: command_handler where
  "cp_execute r c =
     unless_stdin (pstr ''cp'') r
       (case option_loop dashed cp_accept (arguments_of r) True False [] of
          None \<Rightarrow> act_lift (usage (pstr ''cp'') ''cp [-fRr] SOURCE... DEST'')
        | Some (recursive, operands) \<Rightarrow>
            if length operands < 2 then act_lift (usage (pstr ''cp'') ''cp [-fRr] SOURCE... DEST'')
            else transfer (pstr ''cp'') (butlast operands) (last operands) c recursive False)"

definition mv_descriptor :: command_descriptor where
  "mv_descriptor = descriptor ''mv'' ''Move workspace paths'' ''mv [-f] SOURCE... DEST'' False False False"

definition mv_execute :: command_handler where
  "mv_execute r c =
     unless_stdin (pstr ''mv'') r
       (case option_loop dashed (\<lambda>a (_::unit). if a = pstr ''-f'' then Some () else None)
               (arguments_of r) True () [] of
          None \<Rightarrow> act_lift (usage (pstr ''mv'') ''mv [-f] SOURCE... DEST'')
        | Some (_, operands) \<Rightarrow>
            if length operands < 2 then act_lift (usage (pstr ''mv'') ''mv [-f] SOURCE... DEST'')
            else transfer (pstr ''mv'') (butlast operands) (last operands) c True True)"

section \<open>The environment\<close>

definition env_descriptor :: command_descriptor where
  "env_descriptor = descriptor ''env'' ''Print environment'' ''env'' True False True"

definition env_execute :: command_handler where
  "env_execute r c =
     unless_stdin (pstr ''env'') r
       (act_lift
         (if arguments_of r \<noteq> [] \<and> arguments_of r \<noteq> [double_dash] then usage (pstr ''env'') ''env''
          else
            rbind (view_values (cx_environment c)) (\<lambda>items.
            let bindings = dict_put (pstr ''PWD'') (path_value (cx_cwd c))
                  (fold (\<lambda>item. dict_put (ve_name item) (ve_value item)) items [])
            in command_success (concat (map (\<lambda>(name, v). name @ [61] @ v @ [lf]) (sort bindings))) [] None)))"

text \<open>\<open>except (TypeError, ValueError)\<close>\<close>

definition value_caught :: "sandbox_error \<Rightarrow> bool" where
  "value_caught e \<longleftrightarrow>
     err_class e \<in> {Builtin TypeError, Builtin ValueError, Builtin UnicodeEncodeError, Builtin UnicodeDecodeError}"

definition changes_result :: "environment_change list \<Rightarrow> command_result result" where
  "changes_result changes = command_result_new 0 None [] [] None changes"

definition export_descriptor :: command_descriptor where
  "export_descriptor = descriptor ''export'' ''Set environment values'' ''export NAME=VALUE...'' False False False"

text \<open>The loop over the assignments; \<open>Inl\<close> is an early return.\<close>

fun export_changes ::
  "command_context \<Rightarrow> pystr list \<Rightarrow> environment_change list
     \<Rightarrow> (command_result + environment_change list) result" where
  "export_changes c [] changes = Inr (Inr changes)"
| "export_changes c (a # rest) changes =
     (let name = takeWhile (\<lambda>x. x \<noteq> 61) a; v = tl (dropWhile (\<lambda>x. x \<noteq> 61) a) in
      if contains_protected_text (cx_protection c) a
      then rbind (protected_value (pstr ''export'')) (\<lambda>f. Inr (Inl f))
      else if 61 \<notin> set a \<or> name = pstr ''PWD''
      then rbind (usage (pstr ''export'') ''export NAME=VALUE...'') (\<lambda>f. Inr (Inl f))
      else
        rbind (is_overlay_name (cx_environment c) name) (\<lambda>overlaid.
          if overlaid then rbind (protected_value (pstr ''export'')) (\<lambda>f. Inr (Inl f))
          else rbind (environment_change_new name (Some v)) (\<lambda>change.
               export_changes c rest (changes @ [change]))))"

text \<open>
  The last constructor is outside the \<open>try\<close>, so only the loop is caught.
\<close>

definition export_execute :: command_handler where
  "export_execute r c =
     unless_stdin (pstr ''export'') r
       (let as = snd (pop_if double_dash (arguments_of r)) in
        act_lift
          (if as = [] then usage (pstr ''export'') ''export NAME=VALUE...''
           else
             case export_changes c as [] of
               Inl e \<Rightarrow> if value_caught e then usage (pstr ''export'') ''export NAME=VALUE...'' else Inl e
             | Inr (Inl early) \<Rightarrow> Inr early
             | Inr (Inr changes) \<Rightarrow> changes_result changes))"

definition unset_descriptor :: command_descriptor where
  "unset_descriptor = descriptor ''unset'' ''Remove environment values'' ''unset NAME...'' False False False"

text \<open>\<open>any(environment.is_overlay_name(name) for name in arguments)\<close>\<close>

fun any_overlay_name :: "environment_view \<Rightarrow> pystr list \<Rightarrow> bool result" where
  "any_overlay_name env [] = Inr False"
| "any_overlay_name env (name # names) =
     rbind (is_overlay_name env name) (\<lambda>b. if b then Inr True else any_overlay_name env names)"

definition unset_execute :: command_handler where
  "unset_execute r c =
     unless_stdin (pstr ''unset'') r
       (let as = snd (pop_if double_dash (arguments_of r)) in
        act_lift
          (if as = [] \<or> pstr ''PWD'' \<in> set as then usage (pstr ''unset'') ''unset NAME...''
           else if protected_operands c as then protected_value (pstr ''unset'')
           else
             case rbind (any_overlay_name (cx_environment c) as) (\<lambda>overlaid.
                  if overlaid then rbind (protected_value (pstr ''unset'')) (\<lambda>f. Inr (Inl f))
                  else rbind (rmap (\<lambda>name. environment_change_new name None) as) (\<lambda>cs. Inr (Inr cs))) of
               Inl e \<Rightarrow> if value_caught e then usage (pstr ''unset'') ''unset NAME...'' else Inl e
             | Inr (Inl early) \<Rightarrow> Inr early
             | Inr (Inr changes) \<Rightarrow> changes_result changes))"

end
