(* ===== verification/Py_Glob.thy ===== *)
theory Py_Glob
  imports Py_Text
begin

text \<open>
  \<open>fnmatch.fnmatchcase\<close> of the standard library: the items a pattern stands for, in the way
  \<open>fnmatch.translate\<close> reads it, and matching a whole text against them.
\<close>

datatype glob_item =
    AnyText | AnyChar | NoChar | Literal nat
  | OneOf (negated: bool) (chunks: "pystr list")

text \<open>
  The parts of a bracket between the hyphens that make ranges: \<open>k\<close> characters are skipped before
  a hyphen is looked for. An empty last part means that the last hyphen is a plain character.
\<close>

function range_chunks :: "nat \<Rightarrow> pystr \<Rightarrow> pystr list" where
  "range_chunks k s =
     (if 45 \<in> set (drop k s)
      then (take k s @ takeWhile (\<lambda>c. c \<noteq> 45) (drop k s))
             # range_chunks 2 (tl (dropWhile (\<lambda>c. c \<noteq> 45) (drop k s)))
      else [s])"
  by pat_completeness auto
termination
proof (relation "measure (\<lambda>(k, s). length s)", goal_cases)
  case (2 k s)
  then have "drop k s \<noteq> []" by auto
  then have "dropWhile (\<lambda>c. c \<noteq> 45) (drop k s) \<noteq> []" using 2 by (auto simp: dropWhile_eq_Nil_conv)
  then have "length (tl (dropWhile (\<lambda>c. c \<noteq> 45) (drop k s))) < length (dropWhile (\<lambda>c. c \<noteq> 45) (drop k s))"
    by simp
  also have "\<dots> \<le> length s" by (rule order_trans [OF length_dropWhile_le]) simp
  finally show ?case by simp
qed simp

declare range_chunks.simps [simp del]

definition join_last_hyphen :: "pystr list \<Rightarrow> pystr list" where
  "join_last_hyphen cs =
     (if last cs = [] \<and> length cs > 1
      then butlast (butlast cs) @ [last (butlast cs) @ [45]] else cs)"

text \<open>Ranges that are empty, from the last to the first, lose their ends.\<close>

fun drop_empty_ranges :: "pystr list \<Rightarrow> pystr list" where
  "drop_empty_ranges [] = []"
| "drop_empty_ranges (c # cs) =
     (case drop_empty_ranges cs of
        [] \<Rightarrow> [c]
      | d # ds \<Rightarrow> if last c > hd d then (butlast c @ tl d) # ds else c # d # ds)"

text \<open>A hyphen with nothing before it is a plain character.\<close>

fun lead_hyphen :: "pystr list \<Rightarrow> pystr list" where
  "lead_hyphen ([] # d # ds) = (45 # d) # ds"
| "lead_hyphen cs = cs"

definition bracket_item :: "pystr \<Rightarrow> glob_item" where
  "bracket_item stuff =
     (let cs = (if 45 \<notin> set stuff then [stuff]
                else drop_empty_ranges (join_last_hyphen
                       (range_chunks (if take 1 stuff = [33] then 2 else 1) stuff)));
          joined = join_with [45] cs
      in if joined = [] then NoChar
         else if joined = [33] then AnyChar
         else if hd joined = 33 then OneOf True (lead_hyphen (tl (hd cs) # tl cs))
         else OneOf False cs)"

text \<open>The length of the inside of a bracket that opens here, if it is closed.\<close>

definition bracket_length :: "pystr \<Rightarrow> nat option" where
  "bracket_length s =
     (let a = (if take 1 s = [33] then 1 else 0);
          b = (if take 1 (drop a s) = [93] then a + 1 else a)
      in if 93 \<in> set (drop b s)
         then Some (b + length (takeWhile (\<lambda>c. c \<noteq> 93) (drop b s))) else None)"

lemma bracket_length_less: "bracket_length s = Some n \<Longrightarrow> n < length s"
proof -
  have le: "length (takeWhile (\<lambda>c. c \<noteq> 93) t) < length t" if "93 \<in> set t" for t :: pystr
    using that by (induction t) auto
  assume "bracket_length s = Some n"
  then obtain b where "93 \<in> set (drop b s)" "n = b + length (takeWhile (\<lambda>c. c \<noteq> 93) (drop b s))"
    by (auto simp: bracket_length_def Let_def split: if_splits)
  with le [of "drop b s"] show ?thesis by simp
qed

function glob_items :: "pystr \<Rightarrow> glob_item list" where
  "glob_items [] = []"
| "glob_items (c # s) =
     (if c = 42 then AnyText # glob_items s
      else if c = 63 then AnyChar # glob_items s
      else if c = 91
      then (case bracket_length s of
              None \<Rightarrow> Literal 91 # glob_items s
            | Some n \<Rightarrow> bracket_item (take n s) # glob_items (drop (n + 1) s))
      else Literal c # glob_items s)"
  by pat_completeness auto
termination
  by (relation "measure length") (auto dest: bracket_length_less)

fun in_chunks :: "pystr list \<Rightarrow> nat \<Rightarrow> bool" where
  "in_chunks [] x \<longleftrightarrow> False"
| "in_chunks [c] x \<longleftrightarrow> x \<in> set c"
| "in_chunks (c # d # cs) x \<longleftrightarrow> x \<in> set c \<or> last c \<le> x \<and> x \<le> hd d \<or> in_chunks (d # cs) x"

fun item_matches :: "glob_item \<Rightarrow> nat \<Rightarrow> bool" where
  "item_matches AnyText x \<longleftrightarrow> False"
| "item_matches AnyChar x \<longleftrightarrow> True"
| "item_matches NoChar x \<longleftrightarrow> False"
| "item_matches (Literal c) x \<longleftrightarrow> x = c"
| "item_matches (OneOf neg cs) x \<longleftrightarrow> in_chunks cs x \<noteq> neg"

fun glob_match :: "glob_item list \<Rightarrow> pystr \<Rightarrow> bool" where
  "glob_match [] t \<longleftrightarrow> t = []"
| "glob_match (AnyText # items) [] \<longleftrightarrow> glob_match items []"
| "glob_match (AnyText # items) (x # t) \<longleftrightarrow> glob_match items (x # t) \<or> glob_match (AnyText # items) t"
| "glob_match (item # items) [] \<longleftrightarrow> False"
| "glob_match (item # items) (x # t) \<longleftrightarrow> item_matches item x \<and> glob_match items t"

definition fnmatchcase :: "pystr \<Rightarrow> pystr \<Rightarrow> bool" where
  "fnmatchcase name pattern = glob_match (glob_items pattern) name"

text \<open>The specification of a match, and a pattern without special characters.\<close>

fun matches :: "glob_item list \<Rightarrow> pystr \<Rightarrow> bool" where
  "matches [] t \<longleftrightarrow> t = []"
| "matches (AnyText # items) t \<longleftrightarrow> (\<exists>u v. t = u @ v \<and> matches items v)"
| "matches (item # items) t \<longleftrightarrow> (\<exists>x v. t = x # v \<and> item_matches item x \<and> matches items v)"

lemma glob_match_matches: "glob_match items t \<longleftrightarrow> matches items t"
proof (induction items t rule: glob_match.induct)
  case (3 items x t)
  have "(\<exists>u v. x # t = u @ v \<and> matches items v) \<longleftrightarrow>
      matches items (x # t) \<or> (\<exists>u v. t = u @ v \<and> matches items v)"
    by (auto simp: Cons_eq_append_conv)
  then show ?case using 3 by simp
qed auto

lemma fnmatchcase_literal:
  "\<forall>c \<in> set pattern. c \<notin> {42, 63, 91} \<Longrightarrow> fnmatchcase name pattern \<longleftrightarrow> name = pattern"
proof -
  assume "\<forall>c \<in> set pattern. c \<notin> {42, 63, 91}"
  then have "glob_items pattern = map Literal pattern" by (induction pattern) auto
  moreover have "glob_match (map Literal p) n \<longleftrightarrow> n = p" for p n
    by (induction p arbitrary: n) (auto simp: glob_match_matches)
  ultimately show ?thesis by (simp add: fnmatchcase_def)
qed

lemma fnmatchcase_examples:
  "fnmatchcase [97, 46, 116] [42, 46, 116]"
  "fnmatchcase [98] [91, 97, 45, 99, 93]"
  "\<not> fnmatchcase [98] [91, 33, 97, 45, 99, 93]"
  "\<not> fnmatchcase [98] [91, 99, 45, 97, 93]"
  "fnmatchcase [45] [91, 97, 45, 93]"
  by (simp_all add: fnmatchcase_def bracket_length_def bracket_item_def range_chunks.simps join_last_hyphen_def)

end
