(* ===== verification/Command_Text.thy ===== *)
theory Command_Text
  imports Command_Files Py_Glob Py_Numbers
begin

text \<open>
  \<open>command_executor/commands.py\<close>: the commands on text and the search commands. Decimal digits
  outside ASCII are the parameter \<open>nd\<close>. Regular expressions are those of Python's \<open>re\<close> module:
  \<open>re_compile\<close> gives the error text of a pattern or what \<open>search\<close> finds on a record.
\<close>

section \<open>First and last records\<close>

definition usage_count :: "pystr \<Rightarrow> command_result result" where
  "usage_count command = invalid command (pstr ''usage: '' @ command @ pstr '' [-n COUNT] [FILE...]'')"

text \<open>
  The text of the number, if an option gives one, and the arguments after it; \<open>None\<close> when \<open>-n\<close>
  stands alone. (\<open>isdigit\<close> also accepts digits that are not decimal; \<open>int\<close> refuses them, with the
  same usage message as an argument that is no option.)
\<close>

definition count_option :: "(nat \<Rightarrow> nat option) \<Rightarrow> pystr list \<Rightarrow> (pystr option \<times> pystr list) option" where
  "count_option nd remaining =
     (case remaining of
        [] \<Rightarrow> Some (None, [])
      | a # rest \<Rightarrow>
          if a = pstr ''-n'' then (case rest of [] \<Rightarrow> None | v # rest' \<Rightarrow> Some (Some v, rest'))
          else if startswith a (pstr ''-n'') \<and> length a > 2 then Some (Some (drop 2 a), rest)
          else if dashed a \<and> length a > 1 \<and> list_all (\<lambda>x. is_ascii_digit x \<or> 128 \<le> x \<and> nd x \<noteq> None) (drop 1 a)
          then Some (Some (drop 1 a), rest)
          else Some (None, remaining))"

definition parse_count ::
  "(nat \<Rightarrow> nat option) \<Rightarrow> pystr \<Rightarrow> pystr list \<Rightarrow> (command_result + int \<times> pystr list) result" where
  "parse_count nd command as =
     (let refuse = rbind (usage_count command) (\<lambda>f. Inr (Inl f)) in
      if as \<noteq> [] \<and> hd as = double_dash then Inr (Inr (10, tl as))
      else
        case count_option nd as of
          None \<Rightarrow> refuse
        | Some (v, remaining) \<Rightarrow>
            (case (case v of None \<Rightarrow> Some 10 | Some t \<Rightarrow> py_int nd 10 t) of
               None \<Rightarrow> refuse
             | Some number \<Rightarrow>
                 if number < 0 then refuse
                 else if remaining \<noteq> [] \<and> hd remaining = double_dash then Inr (Inr (number, tl remaining))
                 else if \<exists>a \<in> set remaining. dashed_option a then refuse
                 else Inr (Inr (number, remaining))))"

text \<open>\<open>records[-number:]\<close> for a positive number, \<open>records[:number]\<close> otherwise.\<close>

definition select_records :: "int \<Rightarrow> bool \<Rightarrow> pystr list \<Rightarrow> pystr list" where
  "select_records number from_end rs =
     (if from_end \<and> number \<noteq> 0 then drop (length rs - nat number) rs else take (nat number) rs)"

definition limited_input_output :: "labelled list \<Rightarrow> int \<Rightarrow> bool \<Rightarrow> pystr" where
  "limited_input_output inputs number from_end =
     join_with [lf]
       (map (\<lambda>(label, text).
         let body = concat (select_records number from_end (records text))
         in if length inputs > 1
            then pstr ''==> '' @ (case label of None \<Rightarrow> pstr ''standard input''
                                  | Some l \<Rightarrow> if l = [45] then pstr ''standard input'' else l)
                   @ pstr '' <=='' @ [lf] @ body
            else body) inputs)"

definition end_execute :: "(nat \<Rightarrow> nat option) \<Rightarrow> pystr \<Rightarrow> bool \<Rightarrow> command_handler" where
  "end_execute nd command from_end r c =
     (\<lambda>w. case parse_count nd command (arguments_of r) of
        Inl e \<Rightarrow> (Inl e, w)
      | Inr (Inl early) \<Rightarrow> (Inr early, w)
      | Inr (Inr (number, operands)) \<Rightarrow>
          filtering command operands r c
            (\<lambda>inputs. command_success (limited_input_output inputs number from_end) [] None) w)"

definition head_descriptor :: command_descriptor where
  "head_descriptor = descriptor ''head'' ''Print first records'' ''head [-n COUNT] [FILE...]'' True True True"

definition head_execute :: "(nat \<Rightarrow> nat option) \<Rightarrow> command_handler" where
  "head_execute nd = end_execute nd (pstr ''head'') False"

definition tail_descriptor :: command_descriptor where
  "tail_descriptor = descriptor ''tail'' ''Print final records'' ''tail [-n COUNT] [FILE...]'' True True True"

definition tail_execute :: "(nat \<Rightarrow> nat option) \<Rightarrow> command_handler" where
  "tail_execute nd = end_execute nd (pstr ''tail'') True"

section \<open>Search\<close>

text \<open>\<open>re.escape\<close>\<close>

definition re_escape :: "pystr \<Rightarrow> pystr" where
  "re_escape s =
     concat (map (\<lambda>x. if x \<in> set (pstr ''()[]{}?*+-|^$.&~# '') \<union> {92, 9, 10, 13, 11, 12} then [92, x] else [x]) s)"

type_synonym re_engine = "pystr \<Rightarrow> bool \<Rightarrow> pystr + (pystr \<Rightarrow> bool)"

record grep_flags =
  gf_fixed :: bool
  gf_ignore_case :: bool
  gf_invert :: bool
  gf_line_numbers :: bool
  gf_files_only :: bool
  gf_recursive :: bool

definition no_flags :: grep_flags where
  "no_flags = \<lparr>gf_fixed = False, gf_ignore_case = False, gf_invert = False, gf_line_numbers = False,
               gf_files_only = False, gf_recursive = False\<rparr>"

definition grep_flag :: "nat \<Rightarrow> grep_flags \<Rightarrow> grep_flags" where
  "grep_flag x f =
     (if x = 70 then f\<lparr>gf_fixed := True\<rparr>
      else if x = 69 then f\<lparr>gf_fixed := False\<rparr>
      else if x = 105 then f\<lparr>gf_ignore_case := True\<rparr>
      else if x = 118 then f\<lparr>gf_invert := True\<rparr>
      else if x = 110 then f\<lparr>gf_line_numbers := True\<rparr>
      else if x = 108 then f\<lparr>gf_files_only := True\<rparr>
      else if x = 114 \<or> x = 82 then f\<lparr>gf_recursive := True\<rparr>
      else f)"

fun grep_options :: "pystr list \<Rightarrow> grep_flags \<Rightarrow> (grep_flags \<times> pystr list) option" where
  "grep_options [] f = Some (f, [])"
| "grep_options (a # rest) f =
     (if \<not> dashed_option a then Some (f, a # rest)
      else if a = double_dash then Some (f, rest)
      else if length a = 1 \<or> \<not> only_flags ''FEivnlrR'' a then None
      else grep_options rest (fold grep_flag (drop 1 a) f))"

type_synonym source_text = "pystr \<times> pystr"

text \<open>The files of a walk, read one after the other.\<close>

fun walked_sources ::
  "memory_workspace \<Rightarrow> pystr \<Rightarrow> sandbox_path \<Rightarrow> walked list \<Rightarrow> source_text list result" where
  "walked_sources w operand origin [] = Inr []"
| "walked_sources w operand origin ((path, depth, kind) # rest) =
     (if kind = FILE
      then
        rbind (ws_read_text w path) (\<lambda>t.
        rbind (walked_sources w operand origin rest) (\<lambda>xs.
        Inr ((display_path operand origin path, tr_content t) # xs)))
      else walked_sources w operand origin rest)"

text \<open>The loop over the operands; \<open>Inl\<close> is an early return.\<close>

fun grep_sources ::
  "nat \<Rightarrow> memory_workspace \<Rightarrow> bool \<Rightarrow> command_request \<Rightarrow> command_context \<Rightarrow> pystr list \<Rightarrow> source_text list
     \<Rightarrow> (command_result + source_text list) result" where
  "grep_sources frames w recursive r c [] sources = Inr (Inr sources)"
| "grep_sources frames w recursive r c (operand # rest) sources =
     (if operand = [45]
      then grep_sources frames w recursive r c rest (sources @ [(pstr ''(standard input)'', cr_stdin r)])
      else if protected_operands c [operand]
      then rbind (protected_value (pstr ''grep'')) (\<lambda>f. Inr (Inl f))
      else
        rbind (resolve_operand w c operand) (\<lambda>origin.
        rbind (ws_stat w origin) (\<lambda>e.
          if we_kind e = DIRECTORY
          then
            if \<not> recursive
            then rbind (failure (pstr ''grep'') (path_value origin @ pstr '' is a directory'')) (\<lambda>f. Inr (Inl f))
            else
              rbind (walk frames w None origin) (\<lambda>found.
              rbind (walked_sources w operand origin found) (\<lambda>xs.
              grep_sources frames w recursive r c rest (sources @ xs)))
          else
            rbind (ws_read_text w origin) (\<lambda>t.
            grep_sources frames w recursive r c rest (sources @ [(operand, tr_content t)])))))"

text \<open>The lines a source contributes: its records are numbered from \<open>n\<close>.\<close>

fun grep_records ::
  "(pystr \<Rightarrow> bool) \<Rightarrow> grep_flags \<Rightarrow> bool \<Rightarrow> pystr \<Rightarrow> nat \<Rightarrow> pystr list \<Rightarrow> pystr list" where
  "grep_records search f prefix_file label n [] = []"
| "grep_records search f prefix_file label n (r # rs) =
     (if search (without_lf r) = gf_invert f then grep_records search f prefix_file label (n + 1) rs
      else if gf_files_only f then [label @ [lf]]
      else
        ((if prefix_file then label @ pstr '':'' else [])
           @ (if gf_line_numbers f then str_int (int n) @ pstr '':'' else []) @ with_lf r)
          # grep_records search f prefix_file label (n + 1) rs)"

definition grep_output :: "(pystr \<Rightarrow> bool) \<Rightarrow> grep_flags \<Rightarrow> source_text list \<Rightarrow> pystr list" where
  "grep_output search f sources =
     concat (map (\<lambda>(label, text).
       grep_records search f (gf_recursive f \<or> length sources > 1) label 1 (records text)) sources)"

definition grep_descriptor :: command_descriptor where
  "grep_descriptor = descriptor ''grep'' ''Search text records'' ''grep [-FEivnlrR] PATTERN [FILE...]'' True True True"

definition grep_execute :: "nat \<Rightarrow> re_engine \<Rightarrow> command_handler" where
  "grep_execute frames re_compile r c =
     (case grep_options (arguments_of r) no_flags of
        None \<Rightarrow> act_lift (usage (pstr ''grep'') ''grep [-FEivnlrR] PATTERN [FILE...]'')
      | Some (f, []) \<Rightarrow> act_lift (usage (pstr ''grep'') ''grep [-FEivnlrR] PATTERN [FILE...]'')
      | Some (f, pattern # operands0) \<Rightarrow>
          (case re_compile (if gf_fixed f then re_escape pattern else pattern) (gf_ignore_case f) of
             Inl m \<Rightarrow> act_lift (invalid (pstr ''grep'') (pstr ''invalid pattern: '' @ m))
           | Inr search \<Rightarrow>
               let operands = (if operands0 \<noteq> [] then operands0
                               else if gf_recursive f then [pstr ''.''] else [[45]])
               in reads (\<lambda>w. expect_result (grep_sources frames w (gf_recursive f) r c operands [])
                    (failure (pstr ''grep''))
                    (\<lambda>sources. case sources of
                       Inl early \<Rightarrow> Inr early
                     | Inr xs \<Rightarrow>
                         let out = grep_output search f xs
                         in if out = [] then command_result_new 1 (Some NO_MATCH) [] [] None []
                            else command_success (concat out) [] None))))"

record find_filters =
  ff_kind :: "node_kind option"
  ff_name :: "pystr option"
  ff_max_depth :: "int option"

text \<open>The options of \<open>find\<close>; \<open>Inl\<close> is the message of a refusal.\<close>

definition find_usage :: pystr where
  "find_usage = pstr ''usage: find [PATH] [-type f|d] [-name GLOB] [-maxdepth N]''"

fun find_options :: "(nat \<Rightarrow> nat option) \<Rightarrow> pystr list \<Rightarrow> find_filters \<Rightarrow> pystr + find_filters" where
  "find_options nd [] f = Inr f"
| "find_options nd [option_name] f = Inl find_usage"
| "find_options nd (option_name # v # rest) f =
     (if option_name = pstr ''-type''
      then
        if v \<noteq> pstr ''f'' \<and> v \<noteq> pstr ''d''
        then Inl (pstr ''type must be '' @ [39, 102, 39] @ pstr '' or '' @ [39, 100, 39])
        else find_options nd rest (f\<lparr>ff_kind := Some (if v = pstr ''f'' then FILE else DIRECTORY)\<rparr>)
      else if option_name = pstr ''-name'' then find_options nd rest (f\<lparr>ff_name := Some v\<rparr>)
      else if option_name = pstr ''-maxdepth''
      then (case py_int nd 10 v of
              None \<Rightarrow> Inl (pstr ''maxdepth must be a non-negative integer'')
            | Some m \<Rightarrow>
                if m < 0 then Inl (pstr ''maxdepth must be a non-negative integer'')
                else find_options nd rest (f\<lparr>ff_max_depth := Some m\<rparr>))
      else Inl find_usage)"

text \<open>The operand and the options that follow it.\<close>

definition find_operand :: "pystr list \<Rightarrow> pystr \<times> pystr list" where
  "find_operand as =
     (case as of
        [] \<Rightarrow> (pstr ''.'', [])
      | a # rest \<Rightarrow>
          if a = double_dash
          then (case rest of [] \<Rightarrow> (pstr ''.'', []) | operand # rest' \<Rightarrow> (operand, rest'))
          else if \<not> dashed a then (a, rest) else (pstr ''.'', as))"

definition find_selected :: "find_filters \<Rightarrow> walked \<Rightarrow> bool" where
  "find_selected f x =
     (case x of (path, depth, kind) \<Rightarrow>
        (case ff_kind f of None \<Rightarrow> True | Some k \<Rightarrow> kind = k) \<and>
        (case ff_name f of None \<Rightarrow> True | Some pattern \<Rightarrow> fnmatchcase (path_name path) pattern))"

definition find_descriptor :: command_descriptor where
  "find_descriptor = descriptor ''find'' ''Find workspace paths''
     ''find [PATH] [-type f|d] [-name GLOB] [-maxdepth N]'' True False True"

definition find_execute :: "nat \<Rightarrow> (nat \<Rightarrow> nat option) \<Rightarrow> command_handler" where
  "find_execute frames nd r c =
     unless_stdin (pstr ''find'') r
       (let (operand, options) = find_operand (arguments_of r) in
        case find_options nd options \<lparr>ff_kind = None, ff_name = None, ff_max_depth = None\<rparr> of
          Inl m \<Rightarrow> act_lift (invalid (pstr ''find'') m)
        | Inr f \<Rightarrow>
            unless_protected (pstr ''find'') [operand] c
              (reads (\<lambda>w. expect_result
                (rbind (resolve_operand w c operand) (\<lambda>origin.
                 rbind (walk frames w (ff_max_depth f) origin) (\<lambda>found. Inr (origin, found))))
                (failure (pstr ''find''))
                (\<lambda>(origin, found). command_success
                  (concat (map (\<lambda>(path, depth, kind). display_path operand origin path @ [lf])
                    (filter (find_selected f) found))) [] None))))"

section \<open>Counts, sorting and duplicates\<close>

text \<open>\<open>str.split()\<close>: the number of words between white space.\<close>

fun count_words :: "bool \<Rightarrow> pystr \<Rightarrow> nat" where
  "count_words in_word [] = 0"
| "count_words in_word (x # s) =
     (if is_space x then count_words False s
      else (if in_word then 0 else 1) + count_words True s)"

definition wc_count :: "nat \<Rightarrow> pystr \<Rightarrow> byte list \<Rightarrow> int" where
  "wc_count flag text encoded =
     (if flag = 108 then int (count_list text lf)
      else if flag = 119 then int (count_words False text)
      else int (length encoded))"

definition wc_descriptor :: command_descriptor where
  "wc_descriptor = descriptor ''wc'' ''Count text'' ''wc [-clw] [FILE...]'' True True True"

definition wc_accept :: "pystr \<Rightarrow> nat set \<Rightarrow> nat set option" where
  "wc_accept a requested =
     (if length a = 1 \<or> \<not> only_flags ''clw'' a then None else Some (requested \<union> set (drop 1 a)))"

fun wc_rows :: "nat list \<Rightarrow> labelled list \<Rightarrow> int list \<Rightarrow> pystr list \<Rightarrow> (pystr list \<times> int list) result" where
  "wc_rows selected [] totals rows = Inr (rows, totals)"
| "wc_rows selected ((label, text) # rest) totals rows =
     rbind (encode_text text) (\<lambda>encoded.
     let counts = map (\<lambda>flag. wc_count flag text encoded) selected;
         suffix = (case label of None \<Rightarrow> [] | Some l \<Rightarrow> 32 # l)
     in wc_rows selected rest (map2 (+) totals counts)
          (rows @ [join_with [32] (map str_int counts) @ suffix @ [lf]]))"

definition wc_execute :: command_handler where
  "wc_execute r c =
     (case option_loop dashed_option wc_accept (arguments_of r) True {} [] of
        None \<Rightarrow> act_lift (usage (pstr ''wc'') ''wc [-clw] [FILE...]'')
      | Some (requested, operands) \<Rightarrow>
          let selected = filter (\<lambda>flag. requested = {} \<or> flag \<in> requested) [108, 119, 99]
          in filtering (pstr ''wc'') operands r c (\<lambda>inputs.
               rbind (wc_rows selected inputs (map (\<lambda>_. 0) selected) []) (\<lambda>(rows, totals).
               command_success
                 (concat (rows @ (if length inputs > 1
                    then [join_with [32] (map str_int totals) @ pstr '' total'' @ [lf]] else []))) [] None)))"

text \<open>
  The numeric key: the number at the start of a line, an exact decimal. The match of the pattern
  is a sign, digits and an optional fraction, or a fraction alone.
\<close>

definition decimal_digit :: "(nat \<Rightarrow> nat option) \<Rightarrow> nat \<Rightarrow> nat option" where
  "decimal_digit nd x = (if is_ascii_digit x then Some (x - 48) else if x < 128 then None else nd x)"

definition take_digits :: "(nat \<Rightarrow> nat option) \<Rightarrow> pystr \<Rightarrow> nat list" where
  "take_digits nd s = map (\<lambda>x. the (decimal_digit nd x)) (takeWhile (\<lambda>x. decimal_digit nd x \<noteq> None) s)"

definition unsigned_decimal :: "(nat \<Rightarrow> nat option) \<Rightarrow> pystr \<Rightarrow> rat" where
  "unsigned_decimal nd s =
     (let whole = take_digits nd s;
          rest = drop (length whole) s;
          fraction = (if take 1 rest = [46] then take_digits nd (drop 1 rest) else [])
      in of_nat (digits_value (whole @ fraction)) / 10 ^ length fraction)"

definition numeric_sort_key :: "(nat \<Rightarrow> nat option) \<Rightarrow> pystr \<Rightarrow> rat" where
  "numeric_sort_key nd v =
     (let s = dropWhile (\<lambda>x. x = 32 \<or> x = 9) v in
      if take 1 s = [45] then - unsigned_decimal nd (drop 1 s)
      else if take 1 s = [43] then unsigned_decimal nd (drop 1 s)
      else unsigned_decimal nd s)"

text \<open>Python's stable sort, which keeps the order of equal elements when it reverses.\<close>

definition stable_sort :: "('a \<Rightarrow> 'k::linorder) \<Rightarrow> bool \<Rightarrow> 'a list \<Rightarrow> 'a list" where
  "stable_sort key reverse xs = (if reverse then rev (sort_key key (rev xs)) else sort_key key xs)"

fun unique_by :: "('a \<Rightarrow> 'k) \<Rightarrow> 'k option \<Rightarrow> 'a list \<Rightarrow> 'a list" where
  "unique_by key previous [] = []"
| "unique_by key previous (x # xs) =
     (if previous = Some (key x) then unique_by key (Some (key x)) xs
      else x # unique_by key (Some (key x)) xs)"

definition sort_lines_by :: "('a \<Rightarrow> 'k::linorder) \<Rightarrow> bool \<Rightarrow> bool \<Rightarrow> 'a list \<Rightarrow> 'a list" where
  "sort_lines_by key reverse unique xs =
     (let sorted_lines = stable_sort key reverse xs
      in if unique then unique_by key None sorted_lines else sorted_lines)"

text \<open>The key of a line by its bytes is computed once for each line and may raise.\<close>

definition sort_lines ::
  "(nat \<Rightarrow> nat option) \<Rightarrow> bool \<Rightarrow> bool \<Rightarrow> bool \<Rightarrow> pystr list \<Rightarrow> pystr list result" where
  "sort_lines nd numeric reverse unique lines =
     (if numeric then Inr (sort_lines_by (numeric_sort_key nd) reverse unique lines)
      else
        rbind (rmap encode_text lines) (\<lambda>keys.
        Inr (map snd (sort_lines_by fst reverse unique (zip keys lines)))))"

definition sort_descriptor :: command_descriptor where
  "sort_descriptor = descriptor ''sort'' ''Sort text records'' ''sort [-nru] [FILE...]'' True True True"

definition sort_accept :: "pystr \<Rightarrow> bool \<times> bool \<times> bool \<Rightarrow> (bool \<times> bool \<times> bool) option" where
  "sort_accept a flags =
     (case flags of (numeric, reverse, unique) \<Rightarrow>
        if length a = 1 \<or> \<not> only_flags ''nru'' a then None
        else Some (numeric \<or> 110 \<in> set a, reverse \<or> 114 \<in> set a, unique \<or> 117 \<in> set a))"

definition sort_execute :: "(nat \<Rightarrow> nat option) \<Rightarrow> command_handler" where
  "sort_execute nd r c =
     (case option_loop dashed_option sort_accept (arguments_of r) True (False, False, False) [] of
        None \<Rightarrow> act_lift (usage (pstr ''sort'') ''sort [-nru] [FILE...]'')
      | Some ((numeric, reverse, unique), operands) \<Rightarrow>
          filtering (pstr ''sort'') operands r c (\<lambda>inputs.
            rbind (sort_lines nd numeric reverse unique
                     (concat (map (\<lambda>(_, text). map without_lf (records text)) inputs))) (\<lambda>lines.
            command_success (concat (map (\<lambda>line. line @ [lf]) lines)) [] None)))"

text \<open>\<open>f"{n:7} "\<close>\<close>

definition count_prefix :: "nat \<Rightarrow> pystr" where
  "count_prefix n = (let digits = str_nat n in replicate (7 - length digits) 32 @ digits @ [32])"

function uniq_groups :: "pystr list \<Rightarrow> (nat \<times> pystr) list" where
  "uniq_groups [] = []"
| "uniq_groups (r # rs) =
     (1 + length (takeWhile (\<lambda>x. x = r) rs), r) # uniq_groups (dropWhile (\<lambda>x. x = r) rs)"
  by pat_completeness auto
termination
  by (relation "measure length") (auto simp: le_imp_less_Suc length_dropWhile_le)

definition uniq_descriptor :: command_descriptor where
  "uniq_descriptor = descriptor ''uniq'' ''Collapse adjacent records'' ''uniq [-c] [FILE]'' True True True"

definition uniq_execute :: command_handler where
  "uniq_execute r c =
     (let (counting, as0) = pop_if (pstr ''-c'') (arguments_of r);
          as = snd (pop_if double_dash as0)
      in if length as > 1 \<or> (\<exists>a \<in> set as. dashed_option a)
         then act_lift (usage (pstr ''uniq'') ''uniq [-c] [FILE]'')
         else
           filtering (pstr ''uniq'') as r c (\<lambda>inputs.
             case inputs of
               [] \<Rightarrow> throw (Builtin IndexError) (pstr ''list index out of range'')
             | (_, text) # _ \<Rightarrow>
                 command_success
                   (concat (map (\<lambda>(n, line). (if counting then count_prefix n else []) @ line @ [lf])
                     (uniq_groups (map without_lf (records text))))) [] None))"

section \<open>The profile\<close>

definition make_command :: "command_descriptor \<Rightarrow> command_handler \<Rightarrow> virtual_command" where
  "make_command d h = \<lparr>vc_descriptor = d, vc_execute = h\<rparr>"

definition first_wave_commands :: "virtual_command list" where
  "first_wave_commands =
     [make_command pwd_descriptor pwd_execute, make_command cd_descriptor cd_execute,
      make_command ls_descriptor ls_execute, make_command cat_descriptor cat_execute,
      make_command echo_descriptor echo_execute, make_command mkdir_descriptor mkdir_execute,
      make_command touch_descriptor touch_execute, make_command rm_descriptor rm_execute]"

definition command_profile ::
  "nat \<Rightarrow> (nat \<Rightarrow> nat option) \<Rightarrow> re_engine \<Rightarrow> virtual_command list" where
  "command_profile frames nd re_compile =
     first_wave_commands @
     [make_command head_descriptor (head_execute nd), make_command tail_descriptor (tail_execute nd),
      make_command grep_descriptor (grep_execute frames re_compile),
      make_command find_descriptor (find_execute frames nd),
      make_command wc_descriptor wc_execute, make_command sort_descriptor (sort_execute nd),
      make_command uniq_descriptor uniq_execute, make_command cp_descriptor cp_execute,
      make_command mv_descriptor mv_execute, make_command env_descriptor env_execute,
      make_command export_descriptor export_execute, make_command unset_descriptor unset_execute]"

end
