(* ===== verification/Command_Parser.thy ===== *)
theory Command_Parser
  imports Command_Models
begin

text \<open>
  \<open>command_executor/parser.py\<close>: the tokenizer, the plan parser and the expansion of words. The
  index into the text (or the tokens) is the suffix that remains. Whether a character outside
  ASCII is alphabetic (\<open>str.isalpha\<close>) comes from the Unicode database and is the argument \<open>ua\<close>.
\<close>

section \<open>Tokens\<close>

datatype operator = SEQUENCE | AND_THEN | PIPE | REDIRECT | APPEND_TO

datatype token = WordToken command_word | OperatorToken operator

abbreviation syntax_invalid :: "pystr \<Rightarrow> sandbox_error" where
  "syntax_invalid m \<equiv> Raise (Command CommandSyntaxInvalid) m"

abbreviation syntax_unsupported :: "pystr \<Rightarrow> sandbox_error" where
  "syntax_unsupported m \<equiv> Raise (Command CommandSyntaxUnsupported) m"

abbreviation (input) dquote :: nat where "dquote \<equiv> 34"
abbreviation (input) dollar :: nat where "dollar \<equiv> 36"
abbreviation (input) ampersand :: nat where "ampersand \<equiv> 38"
abbreviation (input) squote :: nat where "squote \<equiv> 39"
abbreviation (input) semicolon :: nat where "semicolon \<equiv> 59"
abbreviation (input) less_than :: nat where "less_than \<equiv> 60"
abbreviation (input) greater_than :: nat where "greater_than \<equiv> 62"
abbreviation (input) backslash :: nat where "backslash \<equiv> 92"
abbreviation (input) backtick :: nat where "backtick \<equiv> 96"
abbreviation (input) vbar :: nat where "vbar \<equiv> 124"

abbreviation (input) multiline_error :: sandbox_error where
  "multiline_error \<equiv> syntax_unsupported (pstr ''multiline command input is unsupported'')"

abbreviation (input) fragment :: "pystr \<Rightarrow> bool \<Rightarrow> word_fragment" where
  "fragment t expands \<equiv> \<lparr>wf_text = t, wf_expands = expands\<rparr>"

text \<open>
  The loop inside a quoted word. \<open>moved\<close> is \<open>index - start\<close>, the characters read since the last
  fragment. It returns the fragments and the text after the closing quote.
\<close>

fun quoted ::
  "nat \<Rightarrow> pystr \<Rightarrow> pystr \<Rightarrow> nat \<Rightarrow> word_fragment list \<Rightarrow> (word_fragment list \<times> pystr) result" where
  "quoted q [] segment moved frs = Inl (syntax_invalid (pstr ''unterminated quoted word''))"
| "quoted q (current # rest) segment moved frs =
     (if current = q then Inr (frs @ [fragment segment (q = dquote)], rest)
      else if q = dquote \<and> current = backslash
      then (case rest of
              [] \<Rightarrow> Inl (syntax_invalid (pstr ''incomplete escape in double-quoted word''))
            | escaped # rest' \<Rightarrow>
                if escaped \<notin> {dollar, backtick, dquote, backslash}
                then quoted q rest (segment @ [backslash]) (moved + 1) frs
                else quoted q rest' [] 0
                       ((if segment \<noteq> [] \<or> moved = 0
                         then frs @ [fragment segment (q = dquote)] else frs)
                        @ [fragment [escaped] False]))
      else if current \<in> {lf, cr} then Inl multiline_error
      else quoted q rest (segment @ [current]) (moved + 1) frs)"

lemma quoted_shorter: "quoted q s segment moved frs = Inr (frs', rest) \<Longrightarrow> length rest < length s"
  by (induction q s segment moved frs arbitrary: frs' rule: quoted.induct)
     (auto split: if_splits list.splits simp: less_Suc_eq)

definition breaks_word :: "nat \<Rightarrow> bool" where
  "breaks_word c \<longleftrightarrow> is_space c \<or>
     c \<in> {squote, dquote, backslash, 35, backtick, 40, 41, less_than, greater_than, vbar, ampersand, semicolon}"

definition flush_word :: "token list \<Rightarrow> word_fragment list \<Rightarrow> bool \<Rightarrow> token list" where
  "flush_word tokens frs started = (if started then tokens @ [WordToken (CommandWord frs)] else tokens)"

function (sequential) tokenize_loop ::
  "pystr \<Rightarrow> token list \<Rightarrow> word_fragment list \<Rightarrow> bool \<Rightarrow> token list result" where
  "tokenize_loop [] tokens frs started = Inr (flush_word tokens frs started)"
| "tokenize_loop (c # rest) tokens frs started =
     (if is_space c then tokenize_loop rest (flush_word tokens frs started) [] False
      else if c = squote \<or> c = dquote
      then rbind (quoted c rest [] 0 frs) (\<lambda>(frs', rest'). tokenize_loop rest' tokens frs' True)
      else if c = backslash
      then (case rest of
              [] \<Rightarrow> Inl (syntax_invalid (pstr ''incomplete escape at end of input''))
            | e # rest' \<Rightarrow> tokenize_loop rest' tokens (frs @ [fragment [e] False]) True)
      else if c = 35 then Inl (syntax_unsupported (pstr ''comments are unsupported''))
      else if c = backtick then Inl (syntax_unsupported (pstr ''command substitution is unsupported''))
      else if c = 40 \<or> c = 41
      then Inl (syntax_unsupported (pstr ''command and process substitution are unsupported''))
      else
        let two = take 2 (c # rest) in
        if two = [dollar, 40] then Inl (syntax_unsupported (pstr ''command substitution is unsupported''))
        else if two = [less_than, 40] \<or> two = [greater_than, 40]
        then Inl (syntax_unsupported (pstr ''process substitution is unsupported''))
        else if two = [vbar, vbar] then Inl (syntax_unsupported (pstr ''OR sequencing is unsupported''))
        else if two = [less_than, less_than]
        then Inl (syntax_unsupported (pstr ''heredocs and input redirection are unsupported''))
        else if c = less_than then Inl (syntax_unsupported (pstr ''input redirection is unsupported''))
        else if c = vbar
        then tokenize_loop rest (flush_word tokens frs started @ [OperatorToken PIPE]) [] False
        else if c = ampersand \<and> two \<noteq> [ampersand, ampersand]
        then Inl (syntax_unsupported (pstr ''background jobs are unsupported''))
        else if two = [ampersand, ampersand]
        then tokenize_loop (drop 1 rest) (flush_word tokens frs started @ [OperatorToken AND_THEN]) [] False
        else if two = [greater_than, greater_than]
        then tokenize_loop (drop 1 rest) (flush_word tokens frs started @ [OperatorToken APPEND_TO]) [] False
        else if c = semicolon
        then tokenize_loop rest (flush_word tokens frs started @ [OperatorToken SEQUENCE]) [] False
        else if c = greater_than
        then tokenize_loop rest (flush_word tokens frs started @ [OperatorToken REDIRECT]) [] False
        else
          let t = takeWhile (\<lambda>x. \<not> breaks_word x) (c # rest);
              rest' = dropWhile (\<lambda>x. \<not> breaks_word x) (c # rest)
          in if \<not> started \<and> list_all is_ascii_digit t \<and> rest' \<noteq> [] \<and> hd rest' = greater_than
             then Inl (syntax_unsupported (pstr ''file-descriptor redirection is unsupported''))
             else tokenize_loop rest' tokens (frs @ [fragment t True]) True)"
  by pat_completeness auto
termination
proof (relation "measure (\<lambda>(s, tokens, frs, started). length s)", goal_cases)
  case (3 c rest tokens frs started x y z)
  then show ?case using quoted_shorter [of c rest "[]" 0 frs] by fastforce
next
  case (10 c rest tokens frs started x y z)
  then have "\<not> breaks_word c" by (auto simp: breaks_word_def)
  then show ?case using 10 by (simp add: length_dropWhile_le le_imp_less_Suc)
qed auto

definition tokenize :: "pystr \<Rightarrow> token list result" where
  "tokenize command =
     (if lf \<in> set command \<or> cr \<in> set command then Inl multiline_error
      else tokenize_loop command [] [] False)"

section \<open>Expansion\<close>

text \<open>The environments of the union type, and \<open>get\<close> of either.\<close>

datatype environment = PlainEnvironment command_environment | ViewEnvironment environment_view

fun any_environment_get :: "environment \<Rightarrow> pystr \<Rightarrow> pystr result" where
  "any_environment_get (PlainEnvironment env) name = environment_get env name []"
| "any_environment_get (ViewEnvironment v) name = view_get v name []"

definition environment_lookup ::
  "(environment \<times> sandbox_path) option \<Rightarrow> pystr \<Rightarrow> pystr result" where
  "environment_lookup env name =
     (case env of
        None \<Rightarrow> Inr []
      | Some (e, cwd) \<Rightarrow>
          if name = pstr ''PWD'' then Inr (path_value cwd) else any_environment_get e name)"

function scan_expansion ::
  "(nat \<Rightarrow> bool) \<Rightarrow> (environment \<times> sandbox_path) option \<Rightarrow> pystr \<Rightarrow> pystr \<Rightarrow> pystr result" where
  "scan_expansion ua env [] out = Inr out"
| "scan_expansion ua env (c # rest) out =
     (if c \<noteq> dollar then scan_expansion ua env rest (out @ [c])
      else
        case rest of
          [] \<Rightarrow> scan_expansion ua env [] (out @ [dollar])
        | n # rest' \<Rightarrow>
            if n = 123
            then
              if 125 \<notin> set rest'
              then Inl (syntax_invalid (pstr ''unterminated environment expansion''))
              else
                let name = takeWhile (\<lambda>x. x \<noteq> 125) rest' in
                if \<not> environment_name name
                then Inl (syntax_invalid (pstr ''invalid environment expansion name''))
                else rbind (environment_lookup env name) (\<lambda>v.
                     scan_expansion ua env (tl (dropWhile (\<lambda>x. x \<noteq> 125) rest')) (out @ v))
            else if name_start n
            then
              rbind (environment_lookup env (n # takeWhile name_char rest')) (\<lambda>v.
              scan_expansion ua env (dropWhile name_char rest') (out @ v))
            else if is_ascii_letter n \<or> (128 \<le> n \<and> ua n)
            then Inl (syntax_invalid (pstr ''invalid environment expansion name''))
            else scan_expansion ua env rest (out @ [dollar]))"
  by pat_completeness auto
termination
proof (relation "measure (\<lambda>(ua, env, s, out). length s)", goal_cases)
  case (4 ua env c rest out n rest' x y)
  have "length (dropWhile (\<lambda>x. x \<noteq> 125) rest') \<le> length rest'" by (rule length_dropWhile_le)
  then show ?case using 4 by simp
next
  case (5 ua env c rest out n rest' x)
  have "length (dropWhile name_char rest') \<le> length rest'" by (rule length_dropWhile_le)
  then show ?case using 5 by simp
qed simp_all

definition expand_fragment ::
  "(nat \<Rightarrow> bool) \<Rightarrow> environment \<Rightarrow> sandbox_path \<Rightarrow> word_fragment \<Rightarrow> pystr result" where
  "expand_fragment ua env cwd f =
     (if wf_expands f then scan_expansion ua (Some (env, cwd)) (wf_text f) [] else Inr (wf_text f))"

definition expand_word :: "(nat \<Rightarrow> bool) \<Rightarrow> command_word \<Rightarrow> environment \<Rightarrow> sandbox_path \<Rightarrow> pystr result" where
  "expand_word ua w env cwd =
     rbind (rmap (expand_fragment ua env cwd) (fragments w)) (\<lambda>ts. Inr (concat ts))"

definition validate_word_expansions :: "(nat \<Rightarrow> bool) \<Rightarrow> command_word \<Rightarrow> unit result" where
  "validate_word_expansions ua w =
     rbind (rmap (\<lambda>f. if wf_expands f then scan_expansion ua None (wf_text f) [] else Inr [])
              (fragments w)) (\<lambda>_. Inr ())"

section \<open>Plans\<close>

fun take_words ::
  "(nat \<Rightarrow> bool) \<Rightarrow> token list \<Rightarrow> command_word list \<Rightarrow> (command_word list \<times> token list) result" where
  "take_words ua (WordToken w # rest) ws =
     rbind (validate_word_expansions ua w) (\<lambda>_. take_words ua rest (ws @ [w]))"
| "take_words ua rest ws = Inr (ws, rest)"

lemma take_words_length: "take_words ua ts ws = Inr (ws', rest) \<Longrightarrow> length rest \<le> length ts"
  by (induction ua ts ws rule: take_words.induct) (auto simp: rbind_Inr_iff le_SucI)

text \<open>
  The stages of a unit. An index past the end would be an \<open>IndexError\<close>; the callers never make one.
\<close>

function parse_stages ::
  "(nat \<Rightarrow> bool) \<Rightarrow> token list \<Rightarrow> command_stage list \<Rightarrow> (command_stage list \<times> token list) result" where
  "parse_stages ua [] stages = throw (Builtin IndexError) []"
| "parse_stages ua (OperatorToken op # rest) stages =
     Inl (syntax_invalid (pstr ''expected a command word''))"
| "parse_stages ua (WordToken w # rest) stages =
     rbind (take_words ua (WordToken w # rest) []) (\<lambda>(ws, rest').
     rbind (command_stage_new ws) (\<lambda>stage.
       case rest' of
         OperatorToken PIPE # rest'' \<Rightarrow>
           if rest'' = []
           then Inl (syntax_invalid (pstr ''pipeline requires a following command''))
           else parse_stages ua rest'' (stages @ [stage])
       | _ \<Rightarrow> Inr (stages @ [stage], rest')))"
  by pat_completeness auto
termination
proof (relation "measure (\<lambda>(ua, ts, stages). length ts)", goal_cases)
  case 1
  then show ?case by simp
next
  case (2 ua w rest stages x ws rest' stage t rest'' op)
  then show ?case using take_words_length [of ua "WordToken w # rest" "[]" ws rest'] by (cases x) auto
qed

definition parse_redirection ::
  "(nat \<Rightarrow> bool) \<Rightarrow> token list \<Rightarrow> (stdout_redirection option \<times> token list) result" where
  "parse_redirection ua ts =
     (case ts of
        OperatorToken op # rest \<Rightarrow>
          if op = REDIRECT \<or> op = APPEND_TO
          then
            case rest of
              WordToken destination # rest' \<Rightarrow>
                rbind (validate_word_expansions ua destination) (\<lambda>_.
                rbind (case rest' of
                         WordToken _ # _ \<Rightarrow>
                           Inl (syntax_invalid (pstr ''stdout redirection must be trailing''))
                       | OperatorToken op' # _ \<Rightarrow>
                           if op' = PIPE
                           then Inl (syntax_invalid
                             (pstr ''stdout redirection is only allowed on the final pipeline stage''))
                           else if op' = REDIRECT \<or> op' = APPEND_TO
                           then Inl (syntax_invalid (pstr ''only one stdout redirection is permitted''))
                           else Inr ()
                       | [] \<Rightarrow> Inr ()) (\<lambda>_.
                Inr (Some \<lparr>sr_mode = (if op = REDIRECT then REPLACE_MODE else APPEND_MODE),
                           sr_destination = destination\<rparr>, rest')))
            | _ \<Rightarrow> Inl (syntax_invalid (pstr ''stdout redirection requires one destination''))
          else Inr (None, ts)
      | _ \<Rightarrow> Inr (None, ts))"

lemma parse_stages_length: "parse_stages ua ts stages = Inr (stages', rest) \<Longrightarrow> length rest < length ts"
proof (induction ua ts stages arbitrary: stages' rest rule: parse_stages.induct)
  case (3 ua w rest0 stages)
  obtain ws rest' where st: "take_words ua (WordToken w # rest0) [] = Inr (ws, rest')"
    using 3(2) by (auto simp: rbind_Inr_iff)
  then have len: "length rest' \<le> length rest0"
    using take_words_length [of ua rest0] by (auto simp: rbind_Inr_iff)
  obtain stage where stage: "command_stage_new ws = Inr stage"
    using 3(2) st by (auto simp: rbind_Inr_iff)
  show ?case
  proof (cases "\<exists>rest''. rest' = OperatorToken PIPE # rest'' \<and> rest'' \<noteq> []")
    case True
    then obtain rest'' where r: "rest' = OperatorToken PIPE # rest''" "rest'' \<noteq> []" by blast
    then have "parse_stages ua rest'' (stages @ [stage]) = Inr (stages', rest)" using 3(2) st stage by simp
    from 3(1) [OF st refl stage r(1) refl _ r(2) this] show ?thesis using r len by simp
  next
    case False
    then show ?thesis
      using 3(2) st stage len by (auto split: list.splits token.splits operator.splits if_splits)
  qed
qed simp_all

lemma parse_redirection_length: "parse_redirection ua ts = Inr (r, rest) \<Longrightarrow> length rest \<le> length ts"
  by (auto simp: parse_redirection_def rbind_Inr_iff split: list.splits token.splits if_splits)

function parse_units ::
  "(nat \<Rightarrow> bool) \<Rightarrow> connector \<Rightarrow> token list \<Rightarrow> plan_unit list \<Rightarrow> plan_unit list result" where
  "parse_units ua c ts units =
     rbind (parse_stages ua ts []) (\<lambda>(stages, rest).
     rbind (parse_redirection ua rest) (\<lambda>(redirection, rest').
     rbind (plan_unit_new c stages redirection) (\<lambda>u.
       case rest' of
         [] \<Rightarrow> Inr (units @ [u])
       | WordToken _ # _ \<Rightarrow> throw (Builtin AssertionError) []
       | OperatorToken separator # rest'' \<Rightarrow>
           if separator \<noteq> SEQUENCE \<and> separator \<noteq> AND_THEN
           then Inl (syntax_invalid (pstr ''unexpected redirection operator''))
           else if rest'' = []
           then Inl (syntax_invalid (pstr ''input ends with an incomplete separator''))
           else parse_units ua (if separator = SEQUENCE then ALWAYS else ON_SUCCESS) rest'' (units @ [u]))))"
  by pat_completeness auto
termination
proof (relation "measure (\<lambda>(ua, c, ts, units). length ts)", goal_cases)
  case 1
  then show ?case by simp
next
  case (2 ua c ts units x stages rest y redirection rest' u t rest'' s)
  then show ?case
    using parse_stages_length [of ua ts "[]" stages rest]
      parse_redirection_length [of ua rest redirection rest'] by simp
qed

declare parse_units.simps [simp del]

definition parse_execution_plan :: "(nat \<Rightarrow> bool) \<Rightarrow> pystr \<Rightarrow> execution_plan result" where
  "parse_execution_plan ua command =
     rbind (tokenize command) (\<lambda>tokens.
       if tokens = []
       then Inl (Raise (Command CommandEmpty) (pstr ''command text must contain a command''))
       else rbind (parse_units ua ALWAYS tokens []) execution_plan_new)"

end
