(* ===== verification/Command_Executor.thy ===== *)
theory Command_Executor
  imports Command_Registry Command_Parser Command_Output "HOL-Library.Stream"
begin

text \<open>
  \<open>command_executor/executor.py\<close>: the execution of a plan. Its state is the workspace the ports
  give access to and the readings still to come: what the loop's clock, the task's cancellation
  count and the cancellation signal say each time \<open>_check_execution_state\<close> looks at them. The
  scope of \<open>asyncio.timeout_at\<close> takes one more reading when a cancellation leaves it.
\<close>

record reading =
  rd_deadline_reached :: bool
  rd_task_cancelling :: bool
  rd_signal_set :: bool

record execution_state =
  es_workspace :: memory_workspace
  es_readings :: "reading stream"

type_synonym 'a exec = "(execution_state, sandbox_error, 'a) action"

definition on_workspace :: "'a ws_action \<Rightarrow> 'a exec" where
  "on_workspace m = (\<lambda>s. case m (es_workspace s) of (x, w) \<Rightarrow> (x, s\<lparr>es_workspace := w\<rparr>))"

definition next_reading :: "reading exec" where
  "next_reading = (\<lambda>s. (Inr (shd (es_readings s)), s\<lparr>es_readings := stl (es_readings s)\<rparr>))"

definition check_cancelled :: "execution_context \<Rightarrow> reading \<Rightarrow> unit result" where
  "check_cancelled ctx r =
     guard (\<not> (xc_cancellation ctx \<and> rd_signal_set r))
       (Raise (Command CommandCancelled) (pstr ''command execution was cancelled''))"

definition timeout_error :: sandbox_error where
  "timeout_error = Raise (Command CommandTimeout) (pstr ''command execution exceeded the complete-plan timeout'')"

definition check_execution_state :: "execution_context \<Rightarrow> unit exec" where
  "check_execution_state ctx =
     act_bind next_reading (\<lambda>r. act_lift
       (if rd_deadline_reached r then Inl timeout_error
        else if rd_task_cancelling r then throw (Builtin CancelledError) []
        else check_cancelled ctx r))"

definition timeout_scope :: "'a exec \<Rightarrow> 'a exec" where
  "timeout_scope m =
     act_catch m (\<lambda>e.
       if err_class e = Builtin CancelledError
       then act_bind next_reading (\<lambda>r. act_lift (Inl (if rd_deadline_reached r then timeout_error else e)))
       else act_lift (Inl e))"

section \<open>Preparing a unit\<close>

record prepared_stage =
  ps_argv :: "pystr list"
  ps_command :: virtual_command

record prepared_unit =
  pd_stages :: "prepared_stage list"
  pd_destination :: "pystr option"
  pd_failure :: "command_result option"
  pd_redirection_admitted :: bool

definition internal_failure :: "pystr \<Rightarrow> sandbox_error" where
  "internal_failure m = Raise (Command CommandInternalFailure) m"

definition diagnostic_command_name :: "pystr \<Rightarrow> pystr" where
  "diagnostic_command_name v = (if utf8_encode v = None then pstr ''command'' else v)"

fun argument_error :: "execute_request \<Rightarrow> value_protection \<Rightarrow> pystr list \<Rightarrow> pystr option" where
  "argument_error request prot [] = None"
| "argument_error request prot (a # rest) =
     (case utf8_encode a of
        None \<Rightarrow> Some (pstr ''expanded argument must be valid UTF-8'')
      | Some bs \<Rightarrow>
          if int (length bs) > max_argument_bytes (xr_limits request)
          then
            if contains_protected_text prot a
            then Some (pstr ''expanded protected argument exceeds the configured limit'')
            else Some (pstr ''expanded argument contains '' @ str_int (int (length bs)) @ pstr '' bytes; limit is ''
                       @ str_int (max_argument_bytes (xr_limits request)))
          else argument_error request prot rest)"

definition expanded_argument_error ::
  "pystr list \<Rightarrow> pystr option \<Rightarrow> execute_request \<Rightarrow> value_protection \<Rightarrow> pystr option" where
  "expanded_argument_error argv destination request prot =
     argument_error request prot (argv @ (case destination of None \<Rightarrow> [] | Some d \<Rightarrow> [d]))"

definition failed :: "int \<Rightarrow> command_failure_code \<Rightarrow> pystr \<Rightarrow> command_result result" where
  "failed exit_code code stderr = command_result_new exit_code (Some code) [] stderr None []"

definition protected_arguments :: "command_result result" where
  "protected_arguments =
     failed 1 PROTECTED_VALUE_REJECTED
       (pstr ''command: protected command arguments are not permitted'' @ [lf])"

text \<open>\<open>argv[0]\<close>\<close>

definition argv0 :: "pystr list \<Rightarrow> pystr result" where
  "argv0 argv = (case argv of [] \<Rightarrow> throw (Builtin IndexError) (pstr ''tuple index out of range'') | a # _ \<Rightarrow> Inr a)"

text \<open>The variables of the loop over the stages.\<close>

record preparation =
  pr_prepared :: "prepared_stage list"
  pr_failure :: "command_result option"
  pr_final_command :: "virtual_command option"
  pr_final_argv :: "pystr list option"
  pr_admitted :: bool

definition first_failure :: "command_result result \<Rightarrow> preparation \<Rightarrow> preparation result" where
  "first_failure r st =
     (case pr_failure st of
        None \<Rightarrow> rbind r (\<lambda>failure. Inr (st\<lparr>pr_failure := Some failure\<rparr>))
      | Some _ \<Rightarrow> Inr st)"

text \<open>\<open>if bad: (record the failure, refuse the redirection)\<close>\<close>

definition refuse_if :: "bool \<Rightarrow> command_result result \<Rightarrow> preparation \<Rightarrow> preparation result" where
  "refuse_if bad r st =
     (if bad then rbind (first_failure r st) (\<lambda>st. Inr (st\<lparr>pr_admitted := False\<rparr>)) else Inr st)"

definition prepare_stage ::
  "(nat \<Rightarrow> bool) \<Rightarrow> command_registry \<Rightarrow> execute_request \<Rightarrow> environment_view \<Rightarrow> sandbox_path
     \<Rightarrow> value_protection \<Rightarrow> pystr option \<Rightarrow> bool \<Rightarrow> nat \<Rightarrow> bool \<Rightarrow> command_stage
     \<Rightarrow> preparation \<Rightarrow> preparation result" where
  "prepare_stage ua reg request env cwd prot destination is_pipeline index is_last stage st =
     rbind (rmap (\<lambda>w. expand_word ua w (ViewEnvironment env) cwd) (stage_words stage)) (\<lambda>argv.
     let st = (if is_last then st\<lparr>pr_final_argv := Some argv\<rparr> else st) in
     if \<exists>a \<in> set argv. contains_protected_text prot a
     then refuse_if True protected_arguments st
     else
       rbind (argv0 argv) (\<lambda>name.
       let problem = expanded_argument_error argv (if is_last then destination else None) request prot in
       rbind (refuse_if (problem \<noteq> None)
         (failed 2 INVALID_ARGUMENT (diagnostic_command_name name @ pstr '': '' @ the problem @ [lf])) st) (\<lambda>st.
       case registry_resolve reg name of
         None \<Rightarrow> first_failure (failed 127 COMMAND_NOT_FOUND (name @ pstr '': command not found'' @ [lf])) st
       | Some command \<Rightarrow>
           let st = (if is_last then st\<lparr>pr_final_command := Some command\<rparr> else st) in
           rbind (refuse_if (is_pipeline \<and> \<not> dc_pipeline_safe (vc_descriptor command))
             (failed 2 INVALID_ARGUMENT (name @ pstr '': command is not permitted in pipelines'' @ [lf])) st) (\<lambda>st.
           rbind (refuse_if (0 < index \<and> \<not> dc_accepts_stdin (vc_descriptor command))
             (failed 2 INVALID_ARGUMENT (name @ pstr '': command does not accept pipeline input'' @ [lf])) st) (\<lambda>st.
           Inr (st\<lparr>pr_prepared := pr_prepared st @ [\<lparr>ps_argv = argv, ps_command = command\<rparr>]\<rparr>))))))"

fun prepare_stages ::
  "(nat \<Rightarrow> bool \<Rightarrow> command_stage \<Rightarrow> preparation \<Rightarrow> preparation result) \<Rightarrow> nat \<Rightarrow> command_stage list
     \<Rightarrow> preparation \<Rightarrow> preparation result" where
  "prepare_stages step index [] st = Inr st"
| "prepare_stages step index (stage # stages) st =
     rbind (step index (stages = []) stage st) (prepare_stages step (Suc index) stages)"

definition prepare_unit ::
  "(nat \<Rightarrow> bool) \<Rightarrow> command_registry \<Rightarrow> plan_unit \<Rightarrow> execute_request \<Rightarrow> environment_view
     \<Rightarrow> sandbox_path \<Rightarrow> value_protection \<Rightarrow> prepared_unit result" where
  "prepare_unit ua reg item request env cwd prot =
     rbind (case pu_redirection item of
              None \<Rightarrow> Inr None
            | Some r \<Rightarrow> rbind (expand_word ua (sr_destination r) (ViewEnvironment env) cwd) (\<lambda>d. Inr (Some d)))
       (\<lambda>destination.
     rbind (refuse_if (\<exists>d. destination = Some d \<and> contains_protected_text prot d) protected_arguments
       \<lparr>pr_prepared = [], pr_failure = None, pr_final_command = None, pr_final_argv = None,
        pr_admitted = True\<rparr>) (\<lambda>st.
     rbind (prepare_stages
       (prepare_stage ua reg request env cwd prot destination (1 < length (pu_stages item)))
       0 (pu_stages item) st) (\<lambda>st.
       if pu_redirection item \<noteq> None \<and>
          (\<exists>c. pr_final_command st = Some c \<and> \<not> dc_permits_stdout_redirection (vc_descriptor c))
       then
         case pr_final_argv st of
           None \<Rightarrow> throw (Builtin AssertionError) []
         | Some argv \<Rightarrow>
             rbind (if \<exists>f. pr_failure st = Some f \<and> rs_failure_code f = Some PROTECTED_VALUE_REJECTED
                    then Inr (the (pr_failure st))
                    else rbind (argv0 argv) (\<lambda>name.
                         failed 2 INVALID_ARGUMENT (name @ pstr '': stdout redirection is not permitted'' @ [lf])))
               (\<lambda>failure.
             Inr \<lparr>pd_stages = pr_prepared st, pd_destination = destination, pd_failure = Some failure,
                  pd_redirection_admitted = False\<rparr>)
       else Inr \<lparr>pd_stages = pr_prepared st, pd_destination = destination, pd_failure = pr_failure st,
                 pd_redirection_admitted = pr_admitted st\<rparr>)))"

section \<open>Running a stage\<close>

definition protected_failure :: "pystr \<Rightarrow> value_protection \<Rightarrow> command_result result" where
  "protected_failure name prot =
     failed 1 PROTECTED_VALUE_REJECTED
       (redact_text prot name @ pstr '': protected values cannot be persisted'' @ [lf])"

fun changes_protected :: "value_protection \<Rightarrow> environment_view \<Rightarrow> environment_change list \<Rightarrow> bool result" where
  "changes_protected prot env [] = Inr False"
| "changes_protected prot env (change # rest) =
     (if contains_protected_text prot (ch_name change) then Inr True
      else rbind (is_overlay_name env (ch_name change)) (\<lambda>overlaid.
        if overlaid \<or> (\<exists>v. ch_value change = Some v \<and> contains_protected_text prot v) then Inr True
        else changes_protected prot env rest))"

definition sanitize_stage ::
  "command_result \<Rightarrow> pystr \<Rightarrow> value_protection \<Rightarrow> environment_view \<Rightarrow> command_result result" where
  "sanitize_stage stage name prot env =
     (if \<exists>p. rs_resulting_cwd stage = Some p \<and> contains_protected_text prot (path_value p)
      then protected_failure name prot
      else rbind (changes_protected prot env (rs_environment_changes stage)) (\<lambda>bad.
        if bad then protected_failure name prot
        else command_result_new (rs_exit_code stage) (rs_failure_code stage)
               (redact_text prot (rs_stdout stage)) (redact_text prot (rs_stderr stage))
               (rs_resulting_cwd stage) (rs_environment_changes stage)))"

definition dispatch_error :: "value_protection \<Rightarrow> pystr \<Rightarrow> sandbox_error \<Rightarrow> sandbox_error" where
  "dispatch_error prot name e =
     (if err_class e = Builtin CancelledError then e
      else if contains_protected_text prot (err_msg e)
      then internal_failure (pstr ''command handler '' @ name @ pstr '' failed with protected error data'')
      else if is_sandbox_error e then e
      else internal_failure (pstr ''command handler '' @ name @ pstr '' failed unexpectedly''))"

definition dispatch ::
  "prepared_stage \<Rightarrow> pystr \<Rightarrow> bool \<Rightarrow> environment_view \<Rightarrow> sandbox_path \<Rightarrow> execution_context
     \<Rightarrow> command_result exec" where
  "dispatch stage stdin piped env cwd ctx =
     (let name = dc_name (vc_descriptor (ps_command stage));
          prot = xc_protection ctx;
          context = \<lparr>cx_cwd = cwd, cx_environment = env, cx_cancellation = xc_cancellation ctx,
                     cx_session_id = xc_session_id ctx, cx_operation_id = xc_operation_id ctx,
                     cx_protection = prot\<rparr>
      in act_bind
           (act_catch
             (act_bind (act_lift (command_request_new (ps_argv stage) stdin piped)) (\<lambda>r.
              on_workspace (vc_execute (ps_command stage) r context)))
             (\<lambda>e. act_lift (Inl (dispatch_error prot name e))))
           (\<lambda>r. act_lift (sanitize_stage r name prot env)))"

text \<open>The variables of the loop over the stages of a pipeline.\<close>

record pipeline_state =
  pl_intermediate_bytes :: nat
  pl_previous_stdout :: pystr
  pl_stderr :: "pystr list"
  pl_exit :: int
  pl_failure :: "command_failure_code option"
  pl_final_stdout :: pystr

definition stage_done :: "command_result \<Rightarrow> pipeline_state \<Rightarrow> pipeline_state" where
  "stage_done r p =
     (let p = p\<lparr>pl_stderr := pl_stderr p @ [rs_stderr r]\<rparr>
      in if rs_exit_code r \<noteq> 0 then p\<lparr>pl_exit := rs_exit_code r, pl_failure := rs_failure_code r\<rparr> else p)"

fun run_pipeline ::
  "(prepared_stage \<Rightarrow> pystr \<Rightarrow> bool \<Rightarrow> command_result exec) \<Rightarrow> execution_context \<Rightarrow> command_limits \<Rightarrow> bool
     \<Rightarrow> prepared_stage list \<Rightarrow> pipeline_state \<Rightarrow> command_result exec" where
  "run_pipeline run ctx l piped [] p =
     act_lift (command_result_new (pl_exit p) (pl_failure p) (pl_final_stdout p) (concat (pl_stderr p)) None [])"
| "run_pipeline run ctx l piped (stage # stages) p =
     act_bind (check_execution_state ctx) (\<lambda>_.
     act_bind (run stage (if piped then pl_previous_stdout p else []) piped) (\<lambda>r.
     act_bind (check_execution_state ctx) (\<lambda>_.
       if rs_resulting_cwd r \<noteq> None \<or> rs_environment_changes r \<noteq> []
       then act_lift (Inl (internal_failure (pstr ''pipeline-safe command ''
              @ dc_name (vc_descriptor (ps_command stage)) @ pstr '' attempted to change execution state'')))
       else
         let p = stage_done r p in
         if stages = [] then run_pipeline run ctx l True [] (p\<lparr>pl_final_stdout := rs_stdout r\<rparr>)
         else
           act_bind (act_lift (encode_text (rs_stdout r))) (\<lambda>encoded.
           let p = p\<lparr>pl_intermediate_bytes := pl_intermediate_bytes p + length encoded\<rparr> in
           if int (length encoded) > max_pipeline_intermediate_bytes l \<or>
              int (pl_intermediate_bytes p) > max_pipeline_aggregate_bytes l
           then act_bind (act_lift (argv0 (ps_argv stage))) (\<lambda>name.
                act_lift (failed 1 PIPELINE_LIMIT_EXCEEDED
                  (concat (pl_stderr p) @ name
                   @ pstr '': pipeline intermediate output exceeds the configured limit'' @ [lf])))
           else run_pipeline run ctx l True stages (p\<lparr>pl_previous_stdout := rs_stdout r\<rparr>)))))"

definition execute_unit ::
  "prepared_unit \<Rightarrow> execute_request \<Rightarrow> execution_context \<Rightarrow> environment_view \<Rightarrow> sandbox_path
     \<Rightarrow> command_result exec" where
  "execute_unit prepared request ctx env cwd =
     (case pd_stages prepared of
        [stage] \<Rightarrow> dispatch stage [] False env cwd ctx
      | stages \<Rightarrow>
          run_pipeline (\<lambda>stage stdin piped. dispatch stage stdin piped env cwd ctx) ctx (xr_limits request)
            False stages
            \<lparr>pl_intermediate_bytes = 0, pl_previous_stdout = [], pl_stderr = [], pl_exit = 0,
             pl_failure = None, pl_final_stdout = []\<rparr>)"

section \<open>Redirection\<close>

definition redirect_write ::
  "pystr \<Rightarrow> redirection_mode \<Rightarrow> sandbox_path \<Rightarrow> pystr \<Rightarrow> unit ws_action" where
  "redirect_write destination mode cwd text =
     act_bind (act_get (\<lambda>w. w)) (\<lambda>w.
     act_bind (act_lift (resolve_path (ws_limits w) destination (Some cwd))) (\<lambda>path.
     act_bind (act_lift (encode_text text)) (\<lambda>content.
     act_bind ((if mode = REPLACE_MODE then ws_write else ws_append)
       \<lparr>wr_path = path, wr_content = content, wr_precondition = AnyCurrentState, wr_create_parents = False\<rparr>) (\<lambda>_.
     act_ret ()))))"

definition apply_redirection ::
  "pystr \<Rightarrow> pystr \<Rightarrow> redirection_mode \<Rightarrow> sandbox_path \<Rightarrow> command_result \<Rightarrow> execute_request
     \<Rightarrow> execution_context \<Rightarrow> command_result exec" where
  "apply_redirection name destination mode cwd stage request ctx =
     (if contains_protected_text (xc_protection ctx) destination
      then act_lift (protected_failure name (xc_protection ctx))
      else
        act_bind (act_lift (bound_text (rs_stdout stage) (max_stdout_bytes (xr_limits request)))) (\<lambda>bounded.
        if bt_truncated bounded
        then act_lift (failed 1 REDIRECTION_FAILURE
               (rs_stderr stage @ name @ pstr '': redirected stdout exceeds the output limit'' @ [lf]))
        else
          act_bind
            (act_catch
              (act_bind (on_workspace (redirect_write destination mode cwd (rs_stdout stage))) (\<lambda>_. act_ret None))
              (\<lambda>e.
                if expected_workspace_failure e
                then act_lift (rbind (failed 1 REDIRECTION_FAILURE
                  (rs_stderr stage @ name @ pstr '': redirection failed: '' @ err_msg e @ [lf])) (\<lambda>r. Inr (Some r)))
                else if is_sandbox_error e \<or> err_class e = Builtin CancelledError then act_lift (Inl e)
                else act_lift (Inl (internal_failure (pstr ''stdout redirection failed unexpectedly'')))))
            (\<lambda>early.
              case early of
                Some r \<Rightarrow> act_ret r
              | None \<Rightarrow> act_lift (command_result_new (rs_exit_code stage) (rs_failure_code stage) []
                  (rs_stderr stage) (rs_resulting_cwd stage) (rs_environment_changes stage)))))"

section \<open>Executing a plan\<close>

definition apply_environment_changes ::
  "command_environment \<Rightarrow> environment_change list \<Rightarrow> command_environment result" where
  "apply_environment_changes env changes =
     (let current = fold (\<lambda>change d. case ch_value change of
            None \<Rightarrow> dict_del (ch_name change) d
          | Some v \<Rightarrow> dict_put (ch_name change) v d) changes (base_dict env)
      in rbind (rmap (\<lambda>(name, v). environment_value_new name v) (sort current)) command_environment_new)"

text \<open>The variables of the loop over the units.\<close>

record plan_state =
  pn_stdout :: output_collector
  pn_stderr :: output_collector
  pn_cwd :: sandbox_path
  pn_environment :: command_environment
  pn_changes :: "environment_change list"
  pn_last_result :: command_result
  pn_last_exit :: int
  pn_executed :: bool

text \<open>The stage of a unit, before its redirection.\<close>

definition run_unit ::
  "prepared_unit \<Rightarrow> execute_request \<Rightarrow> execution_context \<Rightarrow> environment_view
     \<Rightarrow> sandbox_path \<Rightarrow> command_result exec" where
  "run_unit prepared request ctx env cwd =
     act_bind
       (case pd_failure prepared of
          Some failure \<Rightarrow> act_ret failure
        | None \<Rightarrow> execute_unit prepared request ctx env cwd) (\<lambda>stage.
     act_lift (sanitize_stage stage (pstr ''command'') (xc_protection ctx) env))"

text \<open>\<open>item.stages[-1].words[0]\<close>\<close>

definition final_command_word :: "plan_unit \<Rightarrow> command_word result" where
  "final_command_word item =
     (if pu_stages item = [] then throw (Builtin IndexError) (pstr ''tuple index out of range'')
      else case stage_words (last (pu_stages item)) of
             [] \<Rightarrow> throw (Builtin IndexError) (pstr ''tuple index out of range'')
           | w # _ \<Rightarrow> Inr w)"

text \<open>The output of a unit: redirected, or appended to the collected output.\<close>

definition deliver_output ::
  "(nat \<Rightarrow> bool) \<Rightarrow> plan_unit \<Rightarrow> prepared_unit \<Rightarrow> execute_request \<Rightarrow> execution_context
     \<Rightarrow> environment_view \<Rightarrow> command_result \<Rightarrow> plan_state \<Rightarrow> (command_result \<times> plan_state) exec" where
  "deliver_output ua item prepared request ctx env stage st =
     (case pu_redirection item of
        Some redirection \<Rightarrow>
          if pd_redirection_admitted prepared \<and> rs_failure_code stage \<noteq> Some PIPELINE_LIMIT_EXCEEDED
          then
            case pd_destination prepared of
              None \<Rightarrow> act_lift (throw (Builtin AssertionError) [])
            | Some destination \<Rightarrow>
                act_bind (act_lift (rbind (final_command_word item) (\<lambda>w.
                  expand_word ua w (ViewEnvironment env) (pn_cwd st)))) (\<lambda>text.
                let name = diagnostic_command_name text in
                act_bind (apply_redirection name destination (sr_mode redirection) (pn_cwd st) stage request ctx) (\<lambda>stage.
                act_bind (act_lift (sanitize_stage stage name (xc_protection ctx) env)) (\<lambda>stage.
                act_bind (check_execution_state ctx) (\<lambda>_.
                act_ret (stage, st)))))
          else act_bind (act_lift (collector_append (pn_stdout st) (rs_stdout stage))) (\<lambda>out.
               act_ret (stage, st\<lparr>pn_stdout := out\<rparr>))
      | None \<Rightarrow> act_bind (act_lift (collector_append (pn_stdout st) (rs_stdout stage))) (\<lambda>out.
                act_ret (stage, st\<lparr>pn_stdout := out\<rparr>)))"

text \<open>What a unit that ran leaves to the next ones.\<close>

definition unit_done :: "command_result \<Rightarrow> plan_state \<Rightarrow> plan_state result" where
  "unit_done stage st =
     (let st = st\<lparr>pn_executed := True, pn_last_result := stage, pn_last_exit := rs_exit_code stage\<rparr>
      in if rs_exit_code stage \<noteq> 0 then Inr st
         else
           let st = (case rs_resulting_cwd stage of None \<Rightarrow> st | Some p \<Rightarrow> st\<lparr>pn_cwd := p\<rparr>)
           in if rs_environment_changes stage = [] then Inr st
              else rbind (apply_environment_changes (pn_environment st) (rs_environment_changes stage)) (\<lambda>env.
                   Inr (st\<lparr>pn_environment := env, pn_changes := pn_changes st @ rs_environment_changes stage\<rparr>)))"

definition execute_plan_unit ::
  "(nat \<Rightarrow> bool) \<Rightarrow> command_registry \<Rightarrow> execute_request \<Rightarrow> execution_context \<Rightarrow> plan_unit \<Rightarrow> plan_state
     \<Rightarrow> plan_state exec" where
  "execute_plan_unit ua reg request ctx item st =
     (if pu_connector item = ON_SUCCESS \<and> pn_last_exit st \<noteq> 0 then act_ret st
      else
        let env = \<lparr>vw_base = pn_environment st, vw_overlay = xr_overlay request\<rparr> in
        act_bind (check_execution_state ctx) (\<lambda>_.
        act_bind (act_lift (prepare_unit ua reg item request env (pn_cwd st) (xc_protection ctx))) (\<lambda>prepared.
        act_bind (run_unit prepared request ctx env (pn_cwd st)) (\<lambda>stage.
        act_bind (check_execution_state ctx) (\<lambda>_.
        act_bind (deliver_output ua item prepared request ctx env stage st) (\<lambda>(stage, st).
        act_bind (act_lift (collector_append (pn_stderr st) (rs_stderr stage))) (\<lambda>err.
        act_lift (unit_done stage (st\<lparr>pn_stderr := err\<rparr>)))))))))"

fun execute_plan_units ::
  "(plan_unit \<Rightarrow> plan_state \<Rightarrow> plan_state exec) \<Rightarrow> plan_unit list \<Rightarrow> plan_state \<Rightarrow> plan_state exec" where
  "execute_plan_units run [] st = act_ret st"
| "execute_plan_units run (item # items) st = act_bind (run item st) (execute_plan_units run items)"

definition initial_plan_state :: "execute_request \<Rightarrow> plan_state result" where
  "initial_plan_state request =
     rbind (output_collector_new (max_stdout_bytes (xr_limits request))) (\<lambda>out.
     rbind (output_collector_new (max_stderr_bytes (xr_limits request))) (\<lambda>err.
     rbind (command_success [] [] None) (\<lambda>r.
     Inr \<lparr>pn_stdout = out, pn_stderr = err, pn_cwd = xr_cwd request, pn_environment = xr_environment request,
          pn_changes = [], pn_last_result = r, pn_last_exit = 0, pn_executed = False\<rparr>)))"

definition plan_result :: "plan_state \<Rightarrow> execute_result result" where
  "plan_result st =
     (if \<not> pn_executed st then throw (Builtin AssertionError) []
      else
        let out = collector_result (pn_stdout st); err = collector_result (pn_stderr st)
        in execute_result_new
             \<lparr>xs_exit_code = rs_exit_code (pn_last_result st), xs_failure_code = rs_failure_code (pn_last_result st),
              xs_stdout = bt_text out, xs_stderr = bt_text err,
              xs_stdout_original_bytes = bt_original_bytes out, xs_stderr_original_bytes = bt_original_bytes err,
              xs_stdout_truncated = bt_truncated out, xs_stderr_truncated = bt_truncated err,
              xs_duration_ms = Finite 0, xs_resulting_cwd = pn_cwd st, xs_environment_changes = pn_changes st\<rparr>)"

definition execute_plan ::
  "(nat \<Rightarrow> bool) \<Rightarrow> command_registry \<Rightarrow> execute_request \<Rightarrow> execution_context \<Rightarrow> plan_unit list
     \<Rightarrow> execute_result exec" where
  "execute_plan ua reg request ctx units =
     act_bind (act_lift (initial_plan_state request)) (\<lambda>st0.
     act_bind (execute_plan_units (execute_plan_unit ua reg request ctx) units st0) (\<lambda>st.
     act_lift (plan_result st)))"

fun validate_stages :: "command_limits \<Rightarrow> command_stage list \<Rightarrow> unit result" where
  "validate_stages l [] = Inr ()"
| "validate_stages l (stage # stages) =
     rbind (guard (\<not> int (length (stage_words stage)) > max_argv_entries l)
       (syntax_invalid (pstr ''command has '' @ str_int (int (length (stage_words stage)))
          @ pstr '' argv entries; limit is '' @ str_int (max_argv_entries l)))) (\<lambda>_.
     validate_stages l stages)"

fun validate_plan_structure :: "command_limits \<Rightarrow> plan_unit list \<Rightarrow> unit result" where
  "validate_plan_structure l [] = Inr ()"
| "validate_plan_structure l (u # us) =
     rbind (guard (\<not> int (length (pu_stages u)) > max_pipeline_stages l)
       (syntax_invalid (pstr ''pipeline has '' @ str_int (int (length (pu_stages u)))
          @ pstr '' stages; limit is '' @ str_int (max_pipeline_stages l)))) (\<lambda>_.
     rbind (validate_stages l (pu_stages u)) (\<lambda>_.
     validate_plan_structure l us))"

text \<open>What \<open>execute\<close> does before its timeout scope opens.\<close>

definition admit_command :: "(nat \<Rightarrow> bool) \<Rightarrow> execute_request \<Rightarrow> execution_plan result" where
  "admit_command ua request =
     (case utf8_encode (xr_command request) of
        None \<Rightarrow> Inl (syntax_invalid (pstr ''command text must be valid UTF-8''))
      | Some bs \<Rightarrow>
          rbind (guard (\<not> int (length bs) > max_command_bytes (xr_limits request))
            (Raise (Command CommandTooLong) (pstr ''command contains '' @ str_int (int (length bs))
               @ pstr '' bytes; limit is '' @ str_int (max_command_bytes (xr_limits request)) @ pstr '' bytes''))) (\<lambda>_.
          rbind (parse_execution_plan ua (xr_command request)) (\<lambda>plan.
          rbind (validate_plan_structure (xr_limits request) (plan_units plan)) (\<lambda>_. Inr plan))))"

text \<open>\<open>duration_ms\<close> is what the performance counter measured.\<close>

definition executor_execute ::
  "(nat \<Rightarrow> bool) \<Rightarrow> command_registry \<Rightarrow> py_float \<Rightarrow> execute_request \<Rightarrow> execution_context
     \<Rightarrow> execute_result exec" where
  "executor_execute ua reg duration_ms request ctx =
     act_bind (act_lift (admit_command ua request)) (\<lambda>plan.
     act_bind (timeout_scope (execute_plan ua reg request ctx (plan_units plan))) (\<lambda>r.
     act_lift (execute_result_new (r\<lparr>xs_duration_ms := duration_ms\<rparr>))))"

end
