(* ===== verification/Command_Profile.thy ===== *)
theory Command_Profile
  imports Command_Text Command_Executor
begin

text \<open>
  \<open>create_default_executor\<close>: the registry of the complete profile over one workspace, which is the
  reader and the mutator of every command and of the redirections.
\<close>

definition create_default_registry ::
  "nat \<Rightarrow> (nat \<Rightarrow> nat option) \<Rightarrow> re_engine \<Rightarrow> command_registry result" where
  "create_default_registry frames nd re_compile = command_registry_new (command_profile frames nd re_compile)"

end
