(* ===== verification/Parser_Properties.thy ===== *)
theory Parser_Properties
  imports Command_Parser
begin

text \<open>
  Properties of the command parser: a parsed plan is well formed and its words expand under every
  environment, and quoting any list of arguments and parsing the text gives them back.
\<close>

section \<open>What a parsed plan is\<close>

definition valid_word :: "(nat \<Rightarrow> bool) \<Rightarrow> command_word \<Rightarrow> bool" where
  "valid_word ua w \<longleftrightarrow> validate_word_expansions ua w = Inr ()"

definition unit_words :: "plan_unit \<Rightarrow> command_word list" where
  "unit_words u = concat (map stage_words (pu_stages u))
     @ (case pu_redirection u of None \<Rightarrow> [] | Some r \<Rightarrow> [sr_destination r])"

definition unit_ok :: "(nat \<Rightarrow> bool) \<Rightarrow> plan_unit \<Rightarrow> bool" where
  "unit_ok ua u \<longleftrightarrow> pu_stages u \<noteq> [] \<and> list_all (\<lambda>s. stage_words s \<noteq> []) (pu_stages u) \<and>
     list_all (valid_word ua) (unit_words u)"

lemma validate_word_expansions_Inr: "validate_word_expansions ua w = Inr u \<longleftrightarrow> valid_word ua w"
  by (simp add: valid_word_def)

lemma take_words_ok:
  "take_words ua ts ws = Inr (ws', rest) \<Longrightarrow> list_all (valid_word ua) ws \<Longrightarrow>
     list_all (valid_word ua) ws' \<and> length ws \<le> length ws'"
  by (induction ua ts ws rule: take_words.induct)
     (auto simp: rbind_Inr_iff validate_word_expansions_Inr)

definition stage_ok :: "(nat \<Rightarrow> bool) \<Rightarrow> command_stage \<Rightarrow> bool" where
  "stage_ok ua s \<longleftrightarrow> stage_words s \<noteq> [] \<and> list_all (valid_word ua) (stage_words s)"

lemma parse_stages_ok:
  "parse_stages ua ts stages = Inr (stages', rest) \<Longrightarrow> list_all (stage_ok ua) stages \<Longrightarrow>
     list_all (stage_ok ua) stages' \<and> stages' \<noteq> []"
proof (induction ua ts stages arbitrary: stages' rest rule: parse_stages.induct)
  case (3 ua w rest0 stages)
  obtain ws rest' where st: "take_words ua (WordToken w # rest0) [] = Inr (ws, rest')"
    using 3(2) by (auto simp: rbind_Inr_iff)
  obtain stage where stage: "command_stage_new ws = Inr stage"
    using 3(2) st by (auto simp: rbind_Inr_iff)
  have ok: "list_all (stage_ok ua) (stages @ [stage])"
  proof -
    have "stage_ok ua stage"
      using stage take_words_ok [OF st] by (auto simp: command_stage_new_def rbind_Inr_iff stage_ok_def)
    then show ?thesis using 3(3) by simp
  qed
  show ?case
  proof (cases "\<exists>rest''. rest' = OperatorToken PIPE # rest'' \<and> rest'' \<noteq> []")
    case True
    then obtain rest'' where r: "rest' = OperatorToken PIPE # rest''" "rest'' \<noteq> []" by blast
    then have "parse_stages ua rest'' (stages @ [stage]) = Inr (stages', rest)" using 3(2) st stage by simp
    from 3(1) [OF st refl stage r(1) refl _ r(2) this ok] show ?thesis by simp
  next
    case False
    then show ?thesis
      using 3(2) st stage ok by (auto split: list.splits token.splits operator.splits if_splits)
  qed
qed simp_all

lemma parse_redirection_ok:
  "parse_redirection ua ts = Inr (Some r, rest) \<Longrightarrow> valid_word ua (sr_destination r)"
  by (auto simp: parse_redirection_def rbind_Inr_iff validate_word_expansions_Inr
      split: list.splits token.splits if_splits)

lemma parse_units_ok:
  "parse_units ua c ts units = Inr us \<Longrightarrow> list_all (unit_ok ua) units \<Longrightarrow>
     list_all (unit_ok ua) us \<and> us \<noteq> [] \<and>
     pu_connector (hd us) = (if units = [] then c else pu_connector (hd units))"
proof (induction ua c ts units arbitrary: us rule: parse_units.induct)
  case (1 ua c ts units)
  note run = 1(2) [unfolded parse_units.simps [of ua c ts units]]
  obtain stages rest redirection rest' u where st: "parse_stages ua ts [] = Inr (stages, rest)"
    "parse_redirection ua rest = Inr (redirection, rest')" "plan_unit_new c stages redirection = Inr u"
    using run by (auto simp: rbind_Inr_iff)
  have "list_all (stage_ok ua) stages" "stages \<noteq> []" using parse_stages_ok [OF st(1)] by simp_all
  then have u: "unit_ok ua u" "pu_connector u = c"
    using st(3) parse_redirection_ok [of ua rest _ rest'] st(2)
    by (auto simp: plan_unit_new_def rbind_Inr_iff unit_ok_def unit_words_def stage_ok_def list_all_iff
        split: option.splits)
  show ?case
  proof (cases rest')
    case Nil
    then show ?thesis
      using run 1(3) st u by auto
  next
    case (Cons t rest'')
    show ?thesis
    proof (cases t)
      case (WordToken w)
      then show ?thesis using run st Cons by simp
    next
      case (OperatorToken s)
      have s: "\<not> (s \<noteq> SEQUENCE \<and> s \<noteq> AND_THEN)" "rest'' \<noteq> []"
        "parse_units ua (if s = SEQUENCE then ALWAYS else ON_SUCCESS) rest'' (units @ [u]) = Inr us"
        using run st Cons OperatorToken by (simp_all split: if_splits)
      have "list_all (unit_ok ua) (units @ [u])" using 1(3) u by simp
      from 1(1) [OF st(1) refl st(2) refl st(3) Cons OperatorToken s(1,2,3) this] show ?thesis
        using u by (auto simp: hd_append)
    qed
  qed
qed

section \<open>Expanding validated words\<close>

definition total_environment :: "environment \<Rightarrow> bool" where
  "total_environment env \<longleftrightarrow> (\<forall>name. environment_name name \<longrightarrow> \<not> isl (any_environment_get env name))"

text \<open>The loop's cases as rewrite rules; its own equation would unfold for ever.\<close>

lemma scan_expansion_simps:
  "scan_expansion ua env [] out = Inr out"
  "c \<noteq> dollar \<Longrightarrow> scan_expansion ua env (c # rest) out = scan_expansion ua env rest (out @ [c])"
  "scan_expansion ua env [dollar] out = Inr (out @ [dollar])"
  "scan_expansion ua env (dollar # 123 # s) out =
     (if 125 \<notin> set s then Inl (syntax_invalid (pstr ''unterminated environment expansion''))
      else if \<not> environment_name (takeWhile (\<lambda>x. x \<noteq> 125) s)
      then Inl (syntax_invalid (pstr ''invalid environment expansion name''))
      else rbind (environment_lookup env (takeWhile (\<lambda>x. x \<noteq> 125) s)) (\<lambda>v.
           scan_expansion ua env (tl (dropWhile (\<lambda>x. x \<noteq> 125) s)) (out @ v)))"
  "n \<noteq> 123 \<Longrightarrow> name_start n \<Longrightarrow> scan_expansion ua env (dollar # n # s) out =
     rbind (environment_lookup env (n # takeWhile name_char s)) (\<lambda>v.
     scan_expansion ua env (dropWhile name_char s) (out @ v))"
  "n \<noteq> 123 \<Longrightarrow> \<not> name_start n \<Longrightarrow> scan_expansion ua env (dollar # n # s) out =
     (if is_ascii_letter n \<or> (128 \<le> n \<and> ua n)
      then Inl (syntax_invalid (pstr ''invalid environment expansion name''))
      else scan_expansion ua env (n # s) (out @ [dollar]))"
  by (simp_all add: Let_def del: scan_expansion.simps(2) add: scan_expansion.simps(2) [of ua env dollar]
      scan_expansion.simps(2) [of ua env c])

declare scan_expansion.simps [simp del]

lemma scan_expansion_total:
  assumes "scan_expansion ua None s out = Inr r" and "total_environment env"
  shows "\<exists>r'. scan_expansion ua (Some (env, cwd)) s out' = Inr r'"
  using assms(1)
proof (induction "length s" arbitrary: s out r out' rule: less_induct)
  case less
  have get: "\<exists>v. environment_lookup (Some (env, cwd)) name = Inr v" if "environment_name name" for name
    using assms(2) that by (cases "any_environment_get env name")
      (auto simp: environment_lookup_def total_environment_def)
  have none: "environment_lookup None name = Inr []" for name by (simp add: environment_lookup_def)
  consider (empty) "s = []" | (plain) c s' where "s = c # s'" "c \<noteq> dollar" | (last) "s = [dollar]"
    | (brace) s' where "s = dollar # 123 # s'"
    | (bare) n s' where "s = dollar # n # s'" "n \<noteq> 123" "name_start n"
    | (other) n s' where "s = dollar # n # s'" "n \<noteq> 123" "\<not> name_start n"
    by (metis list.exhaust)
  then show ?case
  proof cases
    case empty
    then show ?thesis by (simp add: scan_expansion_simps)
  next
    case (plain c s')
    then show ?thesis using less by (simp add: scan_expansion_simps)
  next
    case last
    then show ?thesis by (simp add: scan_expansion_simps)
  next
    case (brace s')
    let ?name = "takeWhile (\<lambda>x. x \<noteq> 125) s'" and ?rest = "tl (dropWhile (\<lambda>x. x \<noteq> 125) s')"
    have ok: "125 \<in> set s'" "environment_name ?name" "scan_expansion ua None ?rest (out @ []) = Inr r"
      using less.prems none brace by (auto simp: scan_expansion_simps split: if_splits)
    have "length ?rest < length s"
      using brace length_dropWhile_le [of "\<lambda>x. x \<noteq> 125" s'] by simp
    from less.hyps [OF this ok(3)] get [OF ok(2)] show ?thesis
      using brace ok by (auto simp: scan_expansion_simps)
  next
    case (bare n s')
    let ?name = "n # takeWhile name_char s'" and ?rest = "dropWhile name_char s'"
    have "environment_name ?name"
      using bare by (auto simp: environment_name_def list_all_iff dest: set_takeWhileD)
    moreover have "scan_expansion ua None ?rest (out @ []) = Inr r"
      using less.prems none bare by (simp add: scan_expansion_simps)
    moreover have "length ?rest < length s"
      using bare length_dropWhile_le [of name_char s'] by simp
    ultimately show ?thesis
      using less.hyps get bare by (fastforce simp: scan_expansion_simps)
  next
    case (other n s')
    then show ?thesis using less by (auto simp: scan_expansion_simps split: if_splits)
  qed
qed

lemma rmap_returns: "(\<exists>ys. rmap f xs = Inr ys) \<longleftrightarrow> (\<forall>x \<in> set xs. \<exists>y. f x = Inr y)"
  by (induction xs) (auto simp: rbind_Inr_iff)

lemma expand_word_total:
  assumes "valid_word ua w" and "total_environment env"
  shows "\<exists>t. expand_word ua w env cwd = Inr t"
proof -
  have valid: "\<exists>r. (if wf_expands f then scan_expansion ua None (wf_text f) [] else Inr []) = Inr r"
    if "f \<in> set (fragments w)" for f
    using assms(1) that rmap_returns [of "\<lambda>f. if wf_expands f then scan_expansion ua None (wf_text f) [] else Inr []"
        "fragments w"]
    by (auto simp: valid_word_def validate_word_expansions_def rbind_Inr_iff)
  have "\<exists>t. expand_fragment ua env cwd f = Inr t" if "f \<in> set (fragments w)" for f
    using valid [OF that] scan_expansion_total [OF _ assms(2)] by (auto simp: expand_fragment_def split: if_splits)
  then obtain ts where "rmap (expand_fragment ua env cwd) (fragments w) = Inr ts"
    using rmap_returns [of "expand_fragment ua env cwd" "fragments w"] by blast
  then show ?thesis by (auto simp: expand_word_def)
qed

section \<open>Quoting\<close>

definition quote_char :: "nat \<Rightarrow> pystr" where
  "quote_char c = (if c \<in> {dollar, backtick, dquote, backslash} then [backslash, c] else [c])"

definition quote_word :: "pystr \<Rightarrow> pystr" where
  "quote_word s = dquote # concat (map quote_char s) @ [dquote]"

definition quote_command :: "pystr list \<Rightarrow> pystr" where
  "quote_command argv = join_with [32] (map quote_word argv)"

definition literal :: "word_fragment \<Rightarrow> bool" where
  "literal f \<longleftrightarrow> (wf_expands f \<longrightarrow> dollar \<notin> set (wf_text f))"

definition word_is :: "command_word \<Rightarrow> pystr \<Rightarrow> bool" where
  "word_is w s \<longleftrightarrow> list_all literal (fragments w) \<and> concat (map wf_text (fragments w)) = s"

lemma quoted_quote:
  assumes "lf \<notin> set s" and "cr \<notin> set s" and "dollar \<notin> set segment"
  shows "\<exists>frs'. quoted dquote (concat (map quote_char s) @ dquote # rest) segment moved frs = Inr (frs @ frs', rest)
     \<and> list_all literal frs' \<and> concat (map wf_text frs') = segment @ s"
  using assms
proof (induction s arbitrary: segment moved frs)
  case Nil
  then show ?case by (simp add: literal_def)
next
  case (Cons c s)
  show ?case
  proof (cases "c \<in> {dollar, backtick, dquote, backslash}")
    case True
    let ?new = "(if segment \<noteq> [] \<or> moved = 0 then frs @ [fragment segment True] else frs) @ [fragment [c] False]"
    obtain frs' where f: "quoted dquote (concat (map quote_char s) @ dquote # rest) [] 0 ?new = Inr (?new @ frs', rest)"
      "list_all literal frs'" "concat (map wf_text frs') = s"
      using Cons.IH [of "[]" 0 ?new] Cons.prems by auto
    let ?frs = "(if segment \<noteq> [] \<or> moved = 0 then [fragment segment True] else []) @ fragment [c] False # frs'"
    have "quoted dquote (concat (map quote_char (c # s)) @ dquote # rest) segment moved frs = Inr (frs @ ?frs, rest)"
      using f(1) True by (auto simp: quote_char_def)
    moreover have "list_all literal ?frs" "concat (map wf_text ?frs) = segment @ c # s"
      using f(2,3) Cons.prems(3) by (auto simp: literal_def)
    ultimately show ?thesis by blast
  next
    case False
    then have "quoted dquote (concat (map quote_char (c # s)) @ dquote # rest) segment moved frs =
        quoted dquote (concat (map quote_char s) @ dquote # rest) (segment @ [c]) (moved + 1) frs"
      using Cons.prems by (auto simp: quote_char_def)
    then show ?thesis
      using Cons.IH [of "segment @ [c]" "moved + 1" frs] Cons.prems False by auto
  qed
qed

lemma tokenize_quote_word:
  assumes "lf \<notin> set s" and "cr \<notin> set s"
  shows "\<exists>w. word_is w s \<and> tokenize_loop (quote_word s @ rest) tokens [] False =
     tokenize_loop rest tokens (fragments w) True"
proof -
  obtain frs where f: "quoted dquote (concat (map quote_char s) @ dquote # rest) [] 0 [] = Inr (frs, rest)"
    "list_all literal frs" "concat (map wf_text frs) = s"
    using quoted_quote [OF assms, of "[]" rest 0 "[]"] by auto
  have "word_is (CommandWord frs) s" using f by (simp add: word_is_def)
  moreover have "tokenize_loop (quote_word s @ rest) tokens [] False = tokenize_loop rest tokens frs True"
    using f(1) by (simp add: quote_word_def is_space_def)
  ultimately show ?thesis by (metis command_word.sel)
qed

lemma tokenize_quote_command:
  assumes "\<forall>s \<in> set argv. lf \<notin> set s \<and> cr \<notin> set s" and "argv \<noteq> []"
  shows "\<exists>ws. list_all2 word_is ws argv \<and>
     tokenize_loop (join_with [32] (map quote_word argv)) tokens [] False = Inr (tokens @ map WordToken ws)"
  using assms
proof (induction argv arbitrary: tokens)
  case Nil
  then show ?case by simp
next
  case (Cons s argv)
  show ?case
  proof (cases argv)
    case Nil
    obtain w where w: "word_is w s"
      "tokenize_loop (quote_word s @ []) tokens [] False = tokenize_loop [] tokens (fragments w) True"
      using tokenize_quote_word [of s "[]" tokens] Cons.prems by auto
    then show ?thesis using Nil by (intro exI [of _ "[w]"]) (simp add: flush_word_def)
  next
    case (Cons s' argv')
    let ?rest = "join_with [32] (map quote_word argv)"
    obtain w where w: "word_is w s"
      "tokenize_loop (quote_word s @ 32 # ?rest) tokens [] False = tokenize_loop (32 # ?rest) tokens (fragments w) True"
      using tokenize_quote_word [of s "32 # ?rest" tokens] Cons.prems by auto
    obtain ws where ws: "list_all2 word_is ws argv"
      "tokenize_loop ?rest (tokens @ [WordToken w]) [] False = Inr ((tokens @ [WordToken w]) @ map WordToken ws)"
      using Cons.IH [of "tokens @ [WordToken w]"] Cons.prems Cons by auto
    have "tokenize_loop (32 # ?rest) tokens (fragments w) True = tokenize_loop ?rest (tokens @ [WordToken w]) [] False"
      by (simp add: is_space_def flush_word_def)
    then show ?thesis
      using w ws Cons by (intro exI [of _ "w # ws"]) simp
  qed
qed

lemma scan_literal: "dollar \<notin> set s \<Longrightarrow> scan_expansion ua env s out = Inr (out @ s)"
  by (induction s arbitrary: out) (auto simp: scan_expansion_simps)

lemma literal_word:
  assumes "word_is w s"
  shows "valid_word ua w" and "expand_word ua w env cwd = Inr s"
proof -
  have lit: "literal f" if "f \<in> set (fragments w)" for f
    using assms that by (auto simp: word_is_def list_all_iff)
  then have "rmap (\<lambda>f. if wf_expands f then scan_expansion ua None (wf_text f) [] else Inr []) (fragments w) =
      Inr (map (\<lambda>f. if wf_expands f then wf_text f else []) (fragments w))"
    by (intro rmap_all_Inr) (auto simp: literal_def scan_literal)
  then show "valid_word ua w" by (simp add: valid_word_def validate_word_expansions_def)
  have "rmap (expand_fragment ua env cwd) (fragments w) = Inr (map wf_text (fragments w))"
    using lit by (intro rmap_all_Inr) (auto simp: literal_def expand_fragment_def scan_literal)
  then show "expand_word ua w env cwd = Inr s"
    using assms by (simp add: expand_word_def word_is_def)
qed

lemma take_words_valid:
  "list_all (valid_word ua) ws \<Longrightarrow> take_words ua (map WordToken ws) acc = Inr (acc @ ws, [])"
  by (induction ws arbitrary: acc) (auto simp: valid_word_def)

lemma parse_words:
  assumes "list_all (valid_word ua) ws" and "ws \<noteq> []"
  shows "parse_units ua ALWAYS (map WordToken ws) [] =
     Inr [\<lparr>pu_connector = ALWAYS, pu_stages = [CommandStage ws], pu_redirection = None\<rparr>]"
proof -
  obtain w ws' where ws: "ws = w # ws'" using assms(2) by (cases ws) auto
  have "parse_stages ua (map WordToken ws) [] = Inr ([CommandStage ws], [])"
    using take_words_valid [OF assms(1), of "[]"] assms(2)
    unfolding ws list.map(2) parse_stages.simps by (simp add: command_stage_new_def)
  then show ?thesis by (subst parse_units.simps) (simp add: parse_redirection_def plan_unit_new_def)
qed

section \<open>Properties\<close>

text \<open>
  C23: whatever text it is given, the parser returns a well-formed plan or raises: at least one
  unit, the first unconditional, every unit with at least one stage, every stage with at least one
  word; and every word of the plan, redirection targets included, expands without an error in every
  environment whose lookups return, so no syntax error can appear once execution has begun.
\<close>

theorem parsed_plan_well_formed:
  assumes "parse_execution_plan ua command = Inr plan"
  shows "plan_units plan \<noteq> [] \<and> pu_connector (hd (plan_units plan)) = ALWAYS \<and>
    (\<forall>u \<in> set (plan_units plan). pu_stages u \<noteq> [] \<and> (\<forall>s \<in> set (pu_stages u). stage_words s \<noteq> []) \<and>
       (\<forall>w \<in> set (unit_words u). \<forall>env cwd. total_environment env \<longrightarrow> (\<exists>t. expand_word ua w env cwd = Inr t)))"
proof -
  obtain tokens us where us: "parse_units ua ALWAYS tokens [] = Inr us" "execution_plan_new us = Inr plan"
    using assms by (auto simp: parse_execution_plan_def rbind_Inr_iff split: if_splits)
  then have "plan = ExecutionPlan us" by (auto simp: execution_plan_new_def rbind_Inr_iff)
  then show ?thesis
    using parse_units_ok [OF us(1)] expand_word_total by (auto simp: unit_ok_def list_all_iff)
qed

lemma parsed_plan_well_formed_witness:
  "\<exists>plan. parse_execution_plan (\<lambda>_. False) (pstr ''ls $A'') = Inr plan \<and> plan_units plan \<noteq> []"
proof -
  have "\<exists>plan. parse_execution_plan (\<lambda>_. False) (pstr ''ls $A'') = Inr plan"
    by (simp add: parse_execution_plan_def tokenize_def pstr_simps is_space_def breaks_word_def flush_word_def
        parse_units.simps command_stage_new_def parse_redirection_def plan_unit_new_def execution_plan_new_def
        validate_word_expansions_def scan_expansion_simps name_start_def is_ascii_letter_def environment_lookup_def)
  then show ?thesis using parsed_plan_well_formed by blast
qed

text \<open>
  C24: any list of arguments can be passed literally: writing each between double quotes, with a
  backslash before the four special characters, and parsing the text gives one unconditional
  command whose words expand, in every environment and directory, to exactly those arguments.
\<close>

theorem quoting_round_trip:
  assumes "argv \<noteq> []" and "\<forall>s \<in> set argv. lf \<notin> set s \<and> cr \<notin> set s"
  shows "\<exists>ws. parse_execution_plan ua (quote_command argv) =
      Inr (ExecutionPlan [\<lparr>pu_connector = ALWAYS, pu_stages = [CommandStage ws], pu_redirection = None\<rparr>])
    \<and> rmap (\<lambda>w. expand_word ua w env cwd) ws = Inr argv"
proof -
  obtain ws where ws: "list_all2 word_is ws argv"
    "tokenize_loop (quote_command argv) [] [] False = Inr (map WordToken ws)"
    using tokenize_quote_command [OF assms(2,1), of "[]"] by (auto simp: quote_command_def)
  have set_join: "set (join_with [32] xss) \<subseteq> insert 32 (\<Union> (set ` set xss))" for xss :: "pystr list"
    by (induction "[32 :: nat]" xss rule: join_with.induct) auto
  have "set (quote_word s) \<subseteq> insert dquote (insert backslash (set s))" for s
    by (auto simp: quote_word_def quote_char_def)
  then have "lf \<notin> set (quote_command argv) \<and> cr \<notin> set (quote_command argv)"
    using set_join [of "map quote_word argv"] assms(2) unfolding quote_command_def by fastforce
  then have "tokenize (quote_command argv) = Inr (map WordToken ws)" using ws(2) by (simp add: tokenize_def)
  moreover have "list_all2 (\<lambda>w s. valid_word ua w) ws argv"
    using ws(1) literal_word(1) by (rule list_all2_mono)
  then have "ws \<noteq> []" "list_all (valid_word ua) ws"
    using assms(1) by (auto simp: list_all2_conv_all_nth list_all_length)
  ultimately have "parse_execution_plan ua (quote_command argv) =
      Inr (ExecutionPlan [\<lparr>pu_connector = ALWAYS, pu_stages = [CommandStage ws], pu_redirection = None\<rparr>])"
    using parse_words by (simp add: parse_execution_plan_def execution_plan_new_def)
  moreover have "list_all2 (\<lambda>w s. expand_word ua w env cwd = Inr s) ws argv"
    using ws(1) literal_word(2) by (rule list_all2_mono)
  ultimately show ?thesis by (auto simp: rmap_Inr_iff)
qed

lemma quoting_round_trip_witness:
  "\<exists>ws. parse_execution_plan (\<lambda>_. False) (quote_command [pstr ''echo'', pstr ''$HOME; ls'']) =
     Inr (ExecutionPlan [\<lparr>pu_connector = ALWAYS, pu_stages = [CommandStage ws], pu_redirection = None\<rparr>])"
  using quoting_round_trip [of "[pstr ''echo'', pstr ''$HOME; ls'']" "\<lambda>_. False"]
  by (auto simp: pstr_simps)

end
