(* ===== verification/Executor_Properties.thy ===== *)
theory Executor_Properties
  imports Command_Executor Parser_Properties
begin

text \<open>
  Properties of the command executor: what a unit that is prepared without a failure is, what an
  execution can return, and how the environment changes are applied.
\<close>

section \<open>Preparation\<close>

definition argument_ok :: "execute_request \<Rightarrow> value_protection \<Rightarrow> pystr \<Rightarrow> bool" where
  "argument_ok request prot a \<longleftrightarrow>
     \<not> contains_protected_text prot a \<and> encodable a \<and>
     int (text_bytes a) \<le> max_argument_bytes (xr_limits request)"

lemma argument_error_None:
  "argument_error request prot as = None \<longleftrightarrow>
     (\<forall>a \<in> set as. encodable a \<and> int (text_bytes a) \<le> max_argument_bytes (xr_limits request))"
  by (induction request prot as rule: argument_error.induct)
     (auto simp: encodable_def text_bytes_def split: option.splits)

lemma first_failure_Some: "first_failure r st = Inr st' \<Longrightarrow> pr_failure st' \<noteq> None"
  by (auto simp: first_failure_def rbind_Inr_iff split: option.splits)

lemma refuse_if_clean:
  "refuse_if bad r st = Inr st' \<Longrightarrow> pr_failure st' = None \<Longrightarrow> \<not> bad \<and> st' = st"
  by (auto simp: refuse_if_def rbind_Inr_iff dest!: first_failure_Some split: if_splits)

text \<open>What a stage that is prepared without a failure is.\<close>

definition stage_prepared ::
  "(nat \<Rightarrow> bool) \<Rightarrow> command_registry \<Rightarrow> execute_request \<Rightarrow> environment_view \<Rightarrow> sandbox_path
     \<Rightarrow> value_protection \<Rightarrow> bool \<Rightarrow> nat \<Rightarrow> command_stage \<Rightarrow> prepared_stage \<Rightarrow> bool" where
  "stage_prepared ua reg request env cwd prot is_pipeline index stage s \<longleftrightarrow>
     rmap (\<lambda>w. expand_word ua w (ViewEnvironment env) cwd) (stage_words stage) = Inr (ps_argv s) \<and>
     ps_argv s \<noteq> [] \<and> registry_resolve reg (hd (ps_argv s)) = Some (ps_command s) \<and>
     (\<forall>a \<in> set (ps_argv s). argument_ok request prot a) \<and>
     (is_pipeline \<longrightarrow> dc_pipeline_safe (vc_descriptor (ps_command s))) \<and>
     (0 < index \<longrightarrow> dc_accepts_stdin (vc_descriptor (ps_command s)))"

lemma prepare_stage_clean:
  assumes run: "prepare_stage ua reg request env cwd prot destination is_pipeline index is_last stage st = Inr st'"
    and clean: "pr_failure st' = None"
  shows "\<exists>s. stage_prepared ua reg request env cwd prot is_pipeline index stage s \<and>
    pr_failure st = None \<and> pr_prepared st' = pr_prepared st @ [s] \<and> pr_admitted st' = pr_admitted st \<and>
    (is_last \<longrightarrow> pr_final_command st' = Some (ps_command s) \<and>
       (\<forall>d. destination = Some d \<longrightarrow> encodable d \<and> int (text_bytes d) \<le> max_argument_bytes (xr_limits request))) \<and>
    (\<not> is_last \<longrightarrow> pr_final_command st' = pr_final_command st)"
proof -
  obtain argv where argv: "rmap (\<lambda>w. expand_word ua w (ViewEnvironment env) cwd) (stage_words stage) = Inr argv"
    using run by (auto simp: prepare_stage_def rbind_Inr_iff)
  define st1 where "st1 = (if is_last then st\<lparr>pr_final_argv := Some argv\<rparr> else st)"
  have unprotected: "\<not> (\<exists>a \<in> set argv. contains_protected_text prot a)"
  proof
    assume "\<exists>a \<in> set argv. contains_protected_text prot a"
    then have "refuse_if True protected_arguments st1 = Inr st'"
      using run argv by (simp add: prepare_stage_def st1_def Let_def)
    then show False using refuse_if_clean clean by blast
  qed
  obtain name as where nm: "argv = name # as"
    using run argv unprotected by (cases argv) (auto simp: prepare_stage_def argv0_def Let_def)
  define problem where "problem = expanded_argument_error argv (if is_last then destination else None) request prot"
  obtain st2 where st2: "refuse_if (problem \<noteq> None)
      (failed 2 INVALID_ARGUMENT (diagnostic_command_name name @ pstr '': '' @ the problem @ [lf])) st1 = Inr st2"
    and rest: "(case registry_resolve reg name of
         None \<Rightarrow> first_failure (failed 127 COMMAND_NOT_FOUND (name @ pstr '': command not found'' @ [lf])) st2
       | Some command \<Rightarrow>
           let st = (if is_last then st2\<lparr>pr_final_command := Some command\<rparr> else st2) in
           rbind (refuse_if (is_pipeline \<and> \<not> dc_pipeline_safe (vc_descriptor command))
             (failed 2 INVALID_ARGUMENT (name @ pstr '': command is not permitted in pipelines'' @ [lf])) st) (\<lambda>st.
           rbind (refuse_if (0 < index \<and> \<not> dc_accepts_stdin (vc_descriptor command))
             (failed 2 INVALID_ARGUMENT (name @ pstr '': command does not accept pipeline input'' @ [lf])) st) (\<lambda>st.
           Inr (st\<lparr>pr_prepared := pr_prepared st @ [\<lparr>ps_argv = argv, ps_command = command\<rparr>]\<rparr>)))) = Inr st'"
    using run argv unprotected nm
    by (auto simp: prepare_stage_def argv0_def Let_def rbind_Inr_iff problem_def st1_def)
  obtain command where command: "registry_resolve reg name = Some command"
    using rest clean by (auto dest: first_failure_Some split: option.splits)
  define st3 where "st3 = (if is_last then st2\<lparr>pr_final_command := Some command\<rparr> else st2)"
  obtain st4 st5 where
    st4: "refuse_if (is_pipeline \<and> \<not> dc_pipeline_safe (vc_descriptor command))
      (failed 2 INVALID_ARGUMENT (name @ pstr '': command is not permitted in pipelines'' @ [lf])) st3 = Inr st4" and
    st5: "refuse_if (0 < index \<and> \<not> dc_accepts_stdin (vc_descriptor command))
      (failed 2 INVALID_ARGUMENT (name @ pstr '': command does not accept pipeline input'' @ [lf])) st4 = Inr st5" and
    st': "st' = st5\<lparr>pr_prepared := pr_prepared st5 @ [\<lparr>ps_argv = argv, ps_command = command\<rparr>]\<rparr>"
    using rest command by (auto simp: Let_def rbind_Inr_iff st3_def)
  have c5: "pr_failure st5 = None" using st' clean by simp
  note r5 = refuse_if_clean [OF st5 c5]
  have c4: "pr_failure st4 = None" using c5 r5 by simp
  note r4 = refuse_if_clean [OF st4 c4]
  have c2: "pr_failure st2 = None" using c4 r4 by (simp add: st3_def split: if_splits)
  note r2 = refuse_if_clean [OF st2 c2]
  have args: "\<forall>a \<in> set (argv @ (case if is_last then destination else None of None \<Rightarrow> [] | Some d \<Rightarrow> [d])).
      encodable a \<and> int (text_bytes a) \<le> max_argument_bytes (xr_limits request)"
    using r2 argument_error_None [of request prot] by (simp add: problem_def expanded_argument_error_def)
  have st1: "pr_failure st1 = None" "pr_prepared st1 = pr_prepared st" "pr_admitted st1 = pr_admitted st"
    "pr_failure st = pr_failure st1" "pr_final_command st1 = pr_final_command st"
    using c2 r2 by (auto simp: st1_def split: if_splits)
  have "stage_prepared ua reg request env cwd prot is_pipeline index stage \<lparr>ps_argv = argv, ps_command = command\<rparr>"
    using argv nm command args unprotected r4 r5 by (auto simp: stage_prepared_def argument_ok_def)
  then show ?thesis
    using st' r5 r4 r2 st1 args by (intro exI [of _ "\<lparr>ps_argv = argv, ps_command = command\<rparr>"])
      (auto simp: st3_def split: option.splits)
qed

fun stages_prepared ::
  "(nat \<Rightarrow> command_stage \<Rightarrow> prepared_stage \<Rightarrow> bool) \<Rightarrow> nat \<Rightarrow> command_stage list \<Rightarrow> prepared_stage list \<Rightarrow> bool" where
  "stages_prepared ok index [] ss \<longleftrightarrow> ss = []"
| "stages_prepared ok index (stage # stages) ss \<longleftrightarrow>
     (case ss of [] \<Rightarrow> False | s # ss' \<Rightarrow> ok index stage s \<and> stages_prepared ok (Suc index) stages ss')"

lemma prepare_stages_clean:
  assumes "prepare_stages (prepare_stage ua reg request env cwd prot destination is_pipeline) index stages st = Inr st'"
    and "pr_failure st' = None"
  shows "\<exists>ss. stages_prepared (stage_prepared ua reg request env cwd prot is_pipeline) index stages ss \<and>
    pr_failure st = None \<and> pr_prepared st' = pr_prepared st @ ss \<and> pr_admitted st' = pr_admitted st \<and>
    (stages \<noteq> [] \<longrightarrow> pr_final_command st' = Some (ps_command (last ss)) \<and>
       (\<forall>d. destination = Some d \<longrightarrow> encodable d \<and> int (text_bytes d) \<le> max_argument_bytes (xr_limits request)))"
  using assms
proof (induction stages arbitrary: index st)
  case (Cons stage stages)
  obtain st1 where
    st1: "prepare_stage ua reg request env cwd prot destination is_pipeline index (stages = []) stage st = Inr st1" and
    rest: "prepare_stages (prepare_stage ua reg request env cwd prot destination is_pipeline) (Suc index) stages st1 = Inr st'"
    using Cons.prems(1) by (auto simp: rbind_Inr_iff)
  obtain ss where ss: "stages_prepared (stage_prepared ua reg request env cwd prot is_pipeline) (Suc index) stages ss"
    "pr_failure st1 = None" "pr_prepared st' = pr_prepared st1 @ ss" "pr_admitted st' = pr_admitted st1"
    "stages \<noteq> [] \<longrightarrow> pr_final_command st' = Some (ps_command (last ss)) \<and>
       (\<forall>d. destination = Some d \<longrightarrow> encodable d \<and> int (text_bytes d) \<le> max_argument_bytes (xr_limits request))"
    using Cons.IH [OF rest Cons.prems(2)] by blast
  obtain s where s: "stage_prepared ua reg request env cwd prot is_pipeline index stage s"
    "pr_failure st = None" "pr_prepared st1 = pr_prepared st @ [s]" "pr_admitted st1 = pr_admitted st"
    "stages = [] \<longrightarrow> pr_final_command st1 = Some (ps_command s) \<and>
       (\<forall>d. destination = Some d \<longrightarrow> encodable d \<and> int (text_bytes d) \<le> max_argument_bytes (xr_limits request))"
    using prepare_stage_clean [OF st1 ss(2)] by auto
  have "stages = [] \<Longrightarrow> ss = [] \<and> st' = st1" using ss(1) rest by simp
  moreover have "stages \<noteq> [] \<Longrightarrow> ss \<noteq> []" using ss(1) by (cases stages) (auto split: list.splits)
  ultimately show ?case
    using s ss by (intro exI [of _ "s # ss"]) (cases "stages = []"; simp)
qed simp

text \<open>
  C26: a unit that is prepared without a failure has one prepared stage for each stage of the plan,
  in order: its arguments are the expanded words, none of them holds protected text, all are valid
  UTF-8 within the argument limit, the command is the one registered under the first; in a pipeline
  every command is safe for pipelines and every one but the first accepts input. If there is a
  redirection, its target satisfies the same checks and the last command permits it.
\<close>

theorem prepared_unit_sound:
  assumes "prepare_unit ua reg item request env cwd prot = Inr u" and "pd_failure u = None"
    and "pu_stages item \<noteq> []"
  shows "stages_prepared (stage_prepared ua reg request env cwd prot (1 < length (pu_stages item))) 0
      (pu_stages item) (pd_stages u) \<and>
    (case pu_redirection item of
       None \<Rightarrow> pd_destination u = None
     | Some r \<Rightarrow> \<exists>d. expand_word ua (sr_destination r) (ViewEnvironment env) cwd = Inr d \<and>
         pd_destination u = Some d \<and> argument_ok request prot d \<and> pd_redirection_admitted u \<and>
         dc_permits_stdout_redirection (vc_descriptor (ps_command (last (pd_stages u)))))"
proof -
  obtain destination where d: "(case pu_redirection item of
              None \<Rightarrow> Inr None
            | Some r \<Rightarrow> rbind (expand_word ua (sr_destination r) (ViewEnvironment env) cwd) (\<lambda>d. Inr (Some d))) =
            Inr destination"
    using assms(1) by (auto simp: prepare_unit_def rbind_Inr_iff)
  define st0 where "st0 = \<lparr>pr_prepared = [], pr_failure = None, pr_final_command = None,
      pr_final_argv = None, pr_admitted = True\<rparr>"
  obtain st1 st2 where
    st1: "refuse_if (\<exists>d. destination = Some d \<and> contains_protected_text prot d) protected_arguments st0 = Inr st1"
    and st2: "prepare_stages (prepare_stage ua reg request env cwd prot destination (1 < length (pu_stages item)))
      0 (pu_stages item) st1 = Inr st2"
    and fin: "(if pu_redirection item \<noteq> None \<and>
          (\<exists>c. pr_final_command st2 = Some c \<and> \<not> dc_permits_stdout_redirection (vc_descriptor c))
       then
         case pr_final_argv st2 of
           None \<Rightarrow> throw (Builtin AssertionError) []
         | Some argv \<Rightarrow>
             rbind (if \<exists>f. pr_failure st2 = Some f \<and> rs_failure_code f = Some PROTECTED_VALUE_REJECTED
                    then Inr (the (pr_failure st2))
                    else rbind (argv0 argv) (\<lambda>name.
                         failed 2 INVALID_ARGUMENT (name @ pstr '': stdout redirection is not permitted'' @ [lf])))
               (\<lambda>failure.
             Inr \<lparr>pd_stages = pr_prepared st2, pd_destination = destination, pd_failure = Some failure,
                  pd_redirection_admitted = False\<rparr>)
       else Inr \<lparr>pd_stages = pr_prepared st2, pd_destination = destination, pd_failure = pr_failure st2,
                 pd_redirection_admitted = pr_admitted st2\<rparr>) = Inr u"
    using assms(1) d by (auto simp: prepare_unit_def rbind_Inr_iff st0_def)
  have permit: "\<not> (pu_redirection item \<noteq> None \<and>
          (\<exists>c. pr_final_command st2 = Some c \<and> \<not> dc_permits_stdout_redirection (vc_descriptor c)))"
    using fin assms(2) by (auto simp: rbind_Inr_iff split: if_splits option.splits)
  then have u: "u = \<lparr>pd_stages = pr_prepared st2, pd_destination = destination, pd_failure = pr_failure st2,
      pd_redirection_admitted = pr_admitted st2\<rparr>"
    using fin by (simp split: if_splits)
  then have "pr_failure st2 = None" using assms(2) by simp
  from prepare_stages_clean [OF st2 this] obtain ss where
    ss: "stages_prepared (stage_prepared ua reg request env cwd prot (1 < length (pu_stages item))) 0 (pu_stages item) ss"
    "pr_failure st1 = None" "pr_prepared st2 = pr_prepared st1 @ ss" "pr_admitted st2 = pr_admitted st1"
    "pr_final_command st2 = Some (ps_command (last ss))"
    "\<forall>d. destination = Some d \<longrightarrow> encodable d \<and> int (text_bytes d) \<le> max_argument_bytes (xr_limits request)"
    using assms(3) by auto
  have "st1 = st0" "\<not> (\<exists>d. destination = Some d \<and> contains_protected_text prot d)"
    using refuse_if_clean [OF st1 ss(2)] by simp_all
  then show ?thesis
    using u ss permit d by (auto simp: st0_def argument_ok_def rbind_Inr_iff split: option.splits)
qed

declare act_bind_lift [simp del] act_bind_get [simp del] act_simps [simp del]

section \<open>What leaves an execution\<close>

definition changes_clean :: "value_protection \<Rightarrow> environment_overlay \<Rightarrow> environment_change list \<Rightarrow> bool" where
  "changes_clean prot ov changes \<longleftrightarrow>
     (\<forall>ch \<in> set changes. \<not> contains_protected_text prot (ch_name ch) \<and> ch_name ch \<notin> oe_name ` set ov \<and>
        (\<forall>v. ch_value ch = Some v \<longrightarrow> \<not> contains_protected_text prot v))"

lemma changes_clean_simps [simp]:
  "changes_clean prot ov []"
  "changes_clean prot ov (a @ b) \<longleftrightarrow> changes_clean prot ov a \<and> changes_clean prot ov b"
  by (auto simp: changes_clean_def)

lemma changes_clean_Cons [simp]:
  "changes_clean prot ov (ch # chs) \<longleftrightarrow>
     \<not> contains_protected_text prot (ch_name ch) \<and> ch_name ch \<notin> oe_name ` set ov \<and>
     (\<forall>v. ch_value ch = Some v \<longrightarrow> \<not> contains_protected_text prot v) \<and> changes_clean prot ov chs"
  by (auto simp: changes_clean_def)

lemma is_overlay_name_Inr:
  "is_overlay_name env n = Inr b \<longleftrightarrow> environment_name n \<and> (b \<longleftrightarrow> n \<in> oe_name ` set (vw_overlay env))"
  by (auto simp: is_overlay_name_def overlay_contains_def rbind_Inr_iff require_environment_name_def)

lemma changes_protected_False:
  "changes_protected prot env changes = Inr False \<Longrightarrow> changes_clean prot (vw_overlay env) changes"
  by (induction prot env changes rule: changes_protected.induct)
     (auto simp: rbind_Inr_iff is_overlay_name_Inr split: if_splits)

definition stage_clean :: "value_protection \<Rightarrow> environment_overlay \<Rightarrow> command_result \<Rightarrow> bool" where
  "stage_clean prot ov r \<longleftrightarrow> command_result_ok r \<and>
     (\<forall>p. rs_resulting_cwd r = Some p \<longrightarrow> \<not> contains_protected_text prot (path_value p)) \<and>
     changes_clean prot ov (rs_environment_changes r)"

lemma failed_clean: "failed x code err = Inr r \<Longrightarrow> stage_clean prot ov r"
  by (auto simp: failed_def command_result_new_ok stage_clean_def changes_clean_def)

lemma sanitize_clean: "sanitize_stage stage name prot env = Inr r \<Longrightarrow> stage_clean prot (vw_overlay env) r"
  by (auto simp: sanitize_stage_def protected_failure_def rbind_Inr_iff command_result_new_ok stage_clean_def
      dest!: changes_protected_False failed_clean [of _ _ _ _ prot "vw_overlay env"] split: if_splits)

lemma lift_returns [ok_iff]: "act_lift m s = (Inr x, s') \<longleftrightarrow> m = Inr x \<and> s' = s"
  by (auto simp: act_lift_def)

lemma ret_returns [ok_iff]: "act_ret y s = (Inr x, s') \<longleftrightarrow> y = x \<and> s' = s"
  by (auto simp: act_ret_def)

definition collected :: "int \<Rightarrow> output_collector \<Rightarrow> bool" where
  "collected m c \<longleftrightarrow> (\<exists>seen. collector_inv m seen c)"

lemma collected_append: "collected m c \<Longrightarrow> collector_append c t = Inr c' \<Longrightarrow> collected m c'"
  unfolding collected_def by (blast dest: collector_inv_append)

lemma collected_new: "output_collector_new m = Inr c \<Longrightarrow> collected m c"
  unfolding collected_def by (blast dest: collector_inv_new)

definition plan_inv :: "execute_request \<Rightarrow> value_protection \<Rightarrow> plan_state \<Rightarrow> bool" where
  "plan_inv request prot st \<longleftrightarrow>
     collected (max_stdout_bytes (xr_limits request)) (pn_stdout st) \<and>
     collected (max_stderr_bytes (xr_limits request)) (pn_stderr st) \<and>
     (pn_cwd st = xr_cwd request \<or> \<not> contains_protected_text prot (path_value (pn_cwd st))) \<and>
     changes_clean prot (xr_overlay request) (pn_changes st) \<and> command_result_ok (pn_last_result st)"

lemma run_unit_clean:
  "run_unit prepared request ctx env cwd s = (Inr stage, s') \<Longrightarrow>
     stage_clean (xc_protection ctx) (vw_overlay env) stage"
  by (auto simp: run_unit_def act_bind_Inr lift_returns dest: sanitize_clean)

lemma deliver_output_inv:
  assumes "deliver_output ua item prepared request ctx env stage st s = (Inr (stage', st'), s')"
    and "stage_clean (xc_protection ctx) (vw_overlay env) stage"
    and "plan_inv request prot st"
  shows "stage_clean (xc_protection ctx) (vw_overlay env) stage' \<and> plan_inv request prot st'"
  using assms
  by (auto simp: deliver_output_def act_bind_Inr lift_returns ret_returns plan_inv_def Let_def
      dest: sanitize_clean collected_append split: option.splits if_splits)

lemma unit_done_inv:
  "unit_done stage st = Inr st' \<Longrightarrow> stage_clean prot (xr_overlay request) stage \<Longrightarrow>
     plan_inv request prot st \<Longrightarrow> plan_inv request prot st'"
  by (auto simp: unit_done_def plan_inv_def stage_clean_def Let_def rbind_Inr_iff
      split: if_splits option.splits)

lemma execute_plan_unit_inv:
  assumes "execute_plan_unit ua reg request ctx item st s = (Inr st', s')"
    and inv: "plan_inv request (xc_protection ctx) st"
  shows "plan_inv request (xc_protection ctx) st'"
proof (cases "pu_connector item = ON_SUCCESS \<and> pn_last_exit st \<noteq> 0")
  case True
  then show ?thesis using assms by (simp add: execute_plan_unit_def ret_returns)
next
  case False
  then obtain prepared stage stage' st1 err s1 s2 s3 s4 s5 where run:
    "run_unit prepared request ctx \<lparr>vw_base = pn_environment st, vw_overlay = xr_overlay request\<rparr> (pn_cwd st) s1 =
       (Inr stage, s2)"
    "deliver_output ua item prepared request ctx \<lparr>vw_base = pn_environment st, vw_overlay = xr_overlay request\<rparr>
       stage st s3 = (Inr (stage', st1), s4)"
    "collector_append (pn_stderr st1) (rs_stderr stage') = Inr err"
    "unit_done stage' (st1\<lparr>pn_stderr := err\<rparr>) = Inr st'"
    using assms(1) by (auto simp: execute_plan_unit_def act_bind_Inr lift_returns Let_def)
  have "stage_clean (xc_protection ctx) (xr_overlay request) stage'" and
    st1: "plan_inv request (xc_protection ctx) st1"
    using deliver_output_inv [OF run(2) run_unit_clean [OF run(1)] inv] by simp_all
  moreover have "plan_inv request (xc_protection ctx) (st1\<lparr>pn_stderr := err\<rparr>)"
    using st1 run(3) by (auto simp: plan_inv_def dest: collected_append)
  ultimately show ?thesis using unit_done_inv [OF run(4)] by blast
qed

lemma execute_plan_units_inv:
  "execute_plan_units (execute_plan_unit ua reg request ctx) items st s = (Inr st', s') \<Longrightarrow>
     plan_inv request (xc_protection ctx) st \<Longrightarrow> plan_inv request (xc_protection ctx) st'"
  by (induction items arbitrary: st s) (auto simp: ret_returns act_bind_Inr dest: execute_plan_unit_inv)

lemma initial_plan_inv: "initial_plan_state request = Inr st \<Longrightarrow> plan_inv request prot st"
  by (auto simp: initial_plan_state_def rbind_Inr_iff plan_inv_def changes_clean_def command_success_def
      command_result_new_ok command_result_ok_def dest: collected_new)

lemma act_catch_Inr:
  "act_catch m h s = (Inr x, s') \<Longrightarrow>
     m s = (Inr x, s') \<or> (\<exists>e s1. m s = (Inl e, s1) \<and> h e s1 = (Inr x, s'))"
  by (auto simp: act_catch_def split: prod.splits sum.splits)

lemma timeout_scope_Inr: "timeout_scope m s = (Inr x, s') \<Longrightarrow> m s = (Inr x, s')"
  by (auto simp: timeout_scope_def act_bind_Inr lift_returns dest!: act_catch_Inr split: if_splits)

lemma executed_plan:
  assumes "executor_execute ua reg ms request ctx s = (Inr r, s')"
  obtains st where "plan_inv request (xc_protection ctx) st" and "plan_result st = Inr (r\<lparr>xs_duration_ms := Finite 0\<rparr>)"
    and "xs_duration_ms r = ms"
proof -
  obtain plan r0 s1 where "timeout_scope (execute_plan ua reg request ctx (plan_units plan)) s = (Inr r0, s1)"
    and r: "execute_result_new (r0\<lparr>xs_duration_ms := ms\<rparr>) = Inr r"
    using assms by (auto simp: executor_execute_def act_bind_Inr lift_returns)
  then obtain st0 st where "initial_plan_state request = Inr st0" "plan_result st = Inr r0"
    "execute_plan_units (execute_plan_unit ua reg request ctx) (plan_units plan) st0 s = (Inr st, s1)"
    by (auto simp: execute_plan_def act_bind_Inr lift_returns dest!: timeout_scope_Inr)
  moreover have "r = r0\<lparr>xs_duration_ms := ms\<rparr>"
    using r by (auto simp: execute_result_new_def rbind_Inr_iff)
  moreover have "xs_duration_ms r0 = Finite 0"
    using \<open>plan_result st = Inr r0\<close>
    by (auto simp: plan_result_def execute_result_new_def rbind_Inr_iff Let_def split: if_splits)
  ultimately show ?thesis
    using that execute_plan_units_inv initial_plan_inv by (metis (no_types, lifting) execute_result.surjective execute_result.update_convs(9) execute_result.select_convs(9))
qed

lemma plan_result_fields:
  "plan_result st = Inr r \<Longrightarrow>
     xs_stdout r = bt_text (collector_result (pn_stdout st)) \<and>
     xs_stderr r = bt_text (collector_result (pn_stderr st)) \<and>
     xs_stdout_original_bytes r = bt_original_bytes (collector_result (pn_stdout st)) \<and>
     xs_stderr_original_bytes r = bt_original_bytes (collector_result (pn_stderr st)) \<and>
     (xs_stdout_truncated r \<longleftrightarrow> bt_truncated (collector_result (pn_stdout st))) \<and>
     (xs_stderr_truncated r \<longleftrightarrow> bt_truncated (collector_result (pn_stderr st))) \<and>
     xs_resulting_cwd r = pn_cwd st \<and> xs_environment_changes r = pn_changes st \<and>
     xs_exit_code r = rs_exit_code (pn_last_result st) \<and> xs_failure_code r = rs_failure_code (pn_last_result st)"
  by (auto simp: plan_result_def execute_result_new_def rbind_Inr_iff Let_def split: if_splits)

definition stream_bounded :: "int \<Rightarrow> pystr \<Rightarrow> int \<Rightarrow> bool \<Rightarrow> bool" where
  "stream_bounded limit text original short \<longleftrightarrow>
     encodable text \<and> int (text_bytes text) \<le> limit \<and> (short \<longleftrightarrow> limit < original) \<and>
     (\<not> short \<longrightarrow> int (text_bytes text) = original)"

lemma collected_bounded:
  "collected m c \<Longrightarrow>
     stream_bounded m (bt_text (collector_result c)) (bt_original_bytes (collector_result c))
       (bt_truncated (collector_result c))"
proof -
  assume "collected m c"
  then obtain seen where "collector_inv m seen c" by (auto simp: collected_def)
  then show ?thesis
    using fitting_whole [of seen "nat m"] fitting_bytes [of seen "nat m"] fitting_encodable [of seen "nat m"]
    by (auto simp: collector_inv_def collector_result_def stream_bounded_def)
qed


text \<open>
  C28: an execution that returns respects its limits: each stream is valid UTF-8 text within its
  limit, marked truncated exactly when the original size exceeds the limit, and complete otherwise;
  the exit code is not negative, it is zero exactly when there is no failure code, and the duration
  is the measured one.
\<close>

theorem execution_bounded:
  assumes "executor_execute ua reg ms request ctx s = (Inr r, s')"
  shows "stream_bounded (max_stdout_bytes (xr_limits request)) (xs_stdout r) (xs_stdout_original_bytes r)
      (xs_stdout_truncated r) \<and>
    stream_bounded (max_stderr_bytes (xr_limits request)) (xs_stderr r) (xs_stderr_original_bytes r)
      (xs_stderr_truncated r) \<and>
    0 \<le> xs_exit_code r \<and> (xs_exit_code r = 0 \<longleftrightarrow> xs_failure_code r = None) \<and> xs_duration_ms r = ms"
proof -
  obtain st where st: "plan_inv request (xc_protection ctx) st" "plan_result st = Inr (r\<lparr>xs_duration_ms := Finite 0\<rparr>)"
    "xs_duration_ms r = ms" by (rule executed_plan [OF assms])
  then show ?thesis
    using plan_result_fields [OF st(2)] collected_bounded by (simp add: plan_inv_def command_result_ok_def)
qed

section \<open>Environment changes\<close>

definition binding_ok :: "pystr \<times> pystr \<Rightarrow> bool" where
  "binding_ok b \<longleftrightarrow> environment_name (fst b) \<and> encodable (snd b)"

definition change_ok :: "environment_change \<Rightarrow> bool" where
  "change_ok ch \<longleftrightarrow> environment_name (ch_name ch) \<and> (\<forall>v. ch_value ch = Some v \<longrightarrow> encodable v)"

definition apply_change :: "environment_change \<Rightarrow> (pystr, pystr) dict \<Rightarrow> (pystr, pystr) dict" where
  "apply_change ch d = (case ch_value ch of None \<Rightarrow> dict_del (ch_name ch) d | Some v \<Rightarrow> dict_put (ch_name ch) v d)"

lemma set_dict_put_subset: "set (dict_put k v d) \<subseteq> insert (k, v) (set d)"
  by (induction k v d rule: dict_put.induct) auto

lemma base_dict_facts:
  "dict_ok d \<Longrightarrow> distinct (map ev_name env) \<Longrightarrow> fst ` set d \<inter> ev_name ` set env = {} \<Longrightarrow>
     fold (\<lambda>item. dict_put (ev_name item) (ev_value item)) env d = d @ map (\<lambda>v. (ev_name v, ev_value v)) env"
proof (induction env arbitrary: d)
  case (Cons item env)
  then have "dict_put (ev_name item) (ev_value item) d = d @ [(ev_name item, ev_value item)]"
    by (intro dict_put_new_key) auto
  then show ?case using Cons by (auto simp: dict_ok_def)
qed simp

lemma apply_changes_facts:
  assumes "dict_ok d" and "list_all binding_ok d" and "list_all change_ok changes"
  shows "dict_ok (fold apply_change changes d) \<and> list_all binding_ok (fold apply_change changes d) \<and>
    map_of (fold apply_change changes d) = fold (\<lambda>ch m. m(ch_name ch := ch_value ch)) changes (map_of d)"
  using assms
proof (induction changes arbitrary: d)
  case (Cons ch changes)
  have "dict_ok (apply_change ch d)" using Cons.prems by (auto simp: apply_change_def split: option.splits)
  moreover have "list_all binding_ok (apply_change ch d)"
    using Cons.prems set_dict_put_subset [of "ch_name ch" _ d]
    by (fastforce simp: apply_change_def list_all_iff change_ok_def binding_ok_def dict_del_def split: option.splits)
  moreover have "map_of (apply_change ch d) = (map_of d)(ch_name ch := ch_value ch)"
    by (auto simp: apply_change_def split: option.splits)
  ultimately show ?case using Cons by (simp add: fun_upd_def)
qed simp

text \<open>
  C29: applying the changes of a command to an environment always returns, and the result is a valid
  environment sorted by name whose bindings are those of the old one with the changes made in their
  order, a change without a value removing the name.
\<close>

theorem environment_changes_applied:
  assumes "environment_ok env" and "list_all change_ok changes"
  shows "\<exists>env'. apply_environment_changes env changes = Inr env' \<and> environment_ok env' \<and>
    sorted (map ev_name env') \<and>
    (\<lambda>name. first_value name env') =
      fold (\<lambda>ch m. m(ch_name ch := ch_value ch)) changes (\<lambda>name. first_value name env)"
proof -
  define d where "d = map (\<lambda>v. (ev_name v, ev_value v)) env"
  define e where "e = sort (fold apply_change changes d)"
  define env' where "env' = map (\<lambda>(name, v). \<lparr>ev_name = name, ev_value = v\<rparr>) e"
  have d: "base_dict env = d" "dict_ok d" "list_all binding_ok d"
    using assms(1) base_dict_facts [of "[]" env]
    by (auto simp: base_dict_def d_def environment_ok_def dict_ok_def comp_def list_all_iff binding_ok_def encodable_def)
  note facts = apply_changes_facts [OF d(2,3) assms(2)]
  have e: "dict_ok e" "list_all binding_ok e" "map_of e = map_of (fold apply_change changes d)"
    using facts by (auto simp: e_def list_all_iff map_of_sort_key)
  have names: "map ev_name env' = map fst e" by (simp add: env'_def case_prod_beta comp_def)
  have "rmap (\<lambda>(name, v). environment_value_new name v) e = Inr env'"
    unfolding env'_def using e(2)
    by (intro rmap_all_Inr)
      (auto simp: environment_value_new_def list_all_iff binding_ok_def require_environment_name_def
        require_utf8_text_def encodable_def split_beta)
  moreover have "command_environment_new env' = Inr env'"
    using e(1) names by (simp add: command_environment_new_def require_environment_values_ok rbind_Inr_iff dict_ok_def)
  moreover have "(\<lambda>ch d. case ch_value ch of None \<Rightarrow> dict_del (ch_name ch) d | Some v \<Rightarrow> dict_put (ch_name ch) v d) =
      apply_change" by (auto simp: fun_eq_iff apply_change_def)
  ultimately have "apply_environment_changes env changes = Inr env'"
    by (simp add: apply_environment_changes_def d(1) e_def Let_def)
  moreover have "environment_ok env'"
  proof -
    have "distinct (map ev_name env')" using e(1) by (simp add: names dict_ok_def)
    moreover have "\<forall>v \<in> set env'. binding_ok (ev_name v, ev_value v)"
      using e(2) by (auto simp: env'_def list_all_iff)
    ultimately show ?thesis by (auto simp: environment_ok_def list_all_iff binding_ok_def encodable_def)
  qed
  moreover have "sorted (map ev_name env')"
  proof -
    have "sorted e" by (simp add: e_def)
    then have "sorted (map fst e)"
      by (induction e) (auto simp: less_eq_prod_def)
    then show ?thesis by (simp add: names)
  qed
  moreover have "first_value name env' = map_of e name" for name
    by (simp add: first_value_map_of env'_def comp_def case_prod_beta)
  moreover have "(\<lambda>name. first_value name env) = map_of d"
    by (simp add: fun_eq_iff first_value_map_of d_def)
  ultimately show ?thesis using e(3) facts by auto
qed

lemma environment_changes_applied_witness:
  "\<exists>env'. apply_environment_changes [] [\<lparr>ch_name = [65], ch_value = Some [66]\<rparr>] = Inr env' \<and> first_value [65] env' = Some [66]"
proof -
  have "environment_ok []" "list_all change_ok [\<lparr>ch_name = [65], ch_value = Some [66]\<rparr>]"
    by (simp_all add: environment_ok_def change_ok_def environment_name_def name_start_def is_ascii_letter_def
        is_scalar_def is_surrogate_def)
  from environment_changes_applied [OF this] show ?thesis by (auto simp: fun_eq_iff)
qed

section \<open>Executions that do not start\<close>

lemma parse_first_unit:
  assumes "parse_execution_plan ua command = Inr plan"
  shows "\<exists>item items. plan_units plan = item # items \<and> pu_connector item = ALWAYS"
proof -
  obtain tokens us where us: "parse_units ua ALWAYS tokens [] = Inr us" "execution_plan_new us = Inr plan"
    using assms by (auto simp: parse_execution_plan_def rbind_Inr_iff split: if_splits)
  then have "plan_units plan = us" by (auto simp: execution_plan_new_def rbind_Inr_iff)
  then show ?thesis using parse_units_ok [OF us(1)] by (cases us) auto
qed

text \<open>
  C30: a command that is not admitted (text that is not UTF-8 or is too long, a syntax error, too
  many stages or arguments) raises that error and changes nothing; and one whose deadline has
  passed, whose task is being cancelled or whose cancellation signal is set at the first check
  raises the timeout, the cancellation of the task or \<open>CommandCancelled\<close>, in this order of
  precedence, without running any command: the workspace is as it was.
\<close>

theorem execution_not_started:
  assumes "command_limits_ok (xr_limits request)"
    and "(\<exists>e. admit_command ua request = Inl e) \<or> rd_deadline_reached (shd (es_readings s)) \<or>
      rd_task_cancelling (shd (es_readings s)) \<or> xc_cancellation ctx \<and> rd_signal_set (shd (es_readings s))"
  shows "\<exists>e s'. executor_execute ua reg ms request ctx s = (Inl e, s') \<and> es_workspace s' = es_workspace s \<and>
    (case admit_command ua request of
       Inl e' \<Rightarrow> e = e' \<and> s' = s
     | Inr _ \<Rightarrow>
         if rd_deadline_reached (shd (es_readings s)) then e = timeout_error
         else if rd_task_cancelling (shd (es_readings s)) then e = timeout_error \<or> err_class e = Builtin CancelledError
         else err_class e = Command CommandCancelled)"
proof (cases "admit_command ua request")
  case (Inl e)
  then show ?thesis by (simp add: executor_execute_def act_bind_def act_simps)
next
  case (Inr plan)
  then have "parse_execution_plan ua (xr_command request) = Inr plan"
    by (auto simp: admit_command_def rbind_Inr_iff split: option.splits)
  then obtain item items where plan: "plan_units plan = item # items" "pu_connector item = ALWAYS"
    using parse_first_unit by blast
  obtain st0 where st0: "initial_plan_state request = Inr st0"
    using assms(1)
    by (simp add: command_limits_ok_def initial_plan_state_def output_collector_new_def require_max_bytes_def
        command_success_def command_result_new_def require_result_fields_def require_utf8_text_def)
  have "executor_execute ua reg ms request ctx s =
      (case timeout_scope (execute_plan ua reg request ctx (plan_units plan)) s of
         (Inl e, s') \<Rightarrow> (Inl e, s')
       | (Inr r, s') \<Rightarrow> (execute_result_new (r\<lparr>xs_duration_ms := ms\<rparr>), s'))"
    using Inr by (simp add: executor_execute_def act_bind_def act_simps split: prod.splits sum.splits)
  moreover have "execute_plan ua reg request ctx (plan_units plan) s =
      (Inl (if rd_deadline_reached (shd (es_readings s)) then timeout_error
            else if rd_task_cancelling (shd (es_readings s)) then Raise (Builtin CancelledError) []
            else Raise (Command CommandCancelled) (pstr ''command execution was cancelled'')),
       s\<lparr>es_readings := stl (es_readings s)\<rparr>)"
    using assms(2) Inr plan st0
    by (auto simp: execute_plan_def execute_plan_unit_def act_bind_def act_simps Let_def check_execution_state_def
        next_reading_def check_cancelled_def)
  ultimately show ?thesis
    using Inr by (auto simp: timeout_scope_def act_catch_def act_bind_def act_simps next_reading_def timeout_error_def)
qed

section \<open>A sample execution\<close>

definition sample_request :: execute_request where
  "sample_request = \<lparr>xr_command = pstr ''x'', xr_cwd = root_path, xr_environment = [],
     xr_limits = default_command_limits, xr_overlay = []\<rparr>"

definition sample_context :: execution_context where
  "sample_context = \<lparr>xc_session_id = None, xc_operation_id = None, xc_cancellation = False,
     xc_protection = no_op_protection\<rparr>"

definition no_commands :: command_registry where
  "no_commands = \<lparr>cg_lookup = [], cg_descriptions = []\<rparr>"

definition quiet_state :: "memory_workspace \<Rightarrow> execution_state" where
  "quiet_state w = \<lparr>es_workspace = w,
     es_readings = sconst \<lparr>rd_deadline_reached = False, rd_task_cancelling = False, rd_signal_set = False\<rparr>\<rparr>"

lemma sample_admitted:
  "admit_command (\<lambda>_. False) sample_request =
     Inr (ExecutionPlan [\<lparr>pu_connector = ALWAYS,
       pu_stages = [CommandStage [CommandWord [\<lparr>wf_text = [120], wf_expands = True\<rparr>]]], pu_redirection = None\<rparr>])"
  by (simp add: admit_command_def sample_request_def default_command_limits_def utf8_char_def is_scalar_def
      is_surrogate_def parse_execution_plan_def tokenize_def pstr_simps is_space_def breaks_word_def flush_word_def
      parse_units.simps command_stage_new_def parse_redirection_def plan_unit_new_def execution_plan_new_def
      validate_word_expansions_def scan_expansion_simps is_ascii_digit_def)

definition fresh_collector :: output_collector where
  "fresh_collector = \<lparr>oc_max_bytes = 262144, oc_parts = [], oc_retained_bytes = 0, oc_original_bytes = 0,
     oc_truncated = False, oc_retention_closed = False\<rparr>"

definition result_of :: "int \<Rightarrow> command_failure_code option \<Rightarrow> pystr \<Rightarrow> command_result" where
  "result_of x code err = \<lparr>rs_exit_code = x, rs_failure_code = code, rs_stdout = [], rs_stderr = err,
     rs_resulting_cwd = None, rs_environment_changes = []\<rparr>"

definition not_found_message :: pystr where
  "not_found_message = 120 # pstr '': command not found'' @ [lf]"

definition sample_unit :: plan_unit where
  "sample_unit = \<lparr>pu_connector = ALWAYS,
     pu_stages = [CommandStage [CommandWord [\<lparr>wf_text = [120], wf_expands = True\<rparr>]]], pu_redirection = None\<rparr>"

definition sample_plan_state :: plan_state where
  "sample_plan_state = \<lparr>pn_stdout = fresh_collector, pn_stderr = fresh_collector, pn_cwd = root_path,
     pn_environment = [], pn_changes = [], pn_last_result = result_of 0 None [], pn_last_exit = 0, pn_executed = False\<rparr>"

lemma sample_initial: "initial_plan_state sample_request = Inr sample_plan_state"
  by (simp add: initial_plan_state_def output_collector_new_def require_max_bytes_def command_success_def
      command_result_new_def require_result_fields_def require_utf8_text_def sample_request_def
      default_command_limits_def sample_plan_state_def fresh_collector_def result_of_def)

lemma sample_message: "\<exists>bs. utf8_encode not_found_message = Some bs \<and> length bs < 262144"
  by (simp add: not_found_message_def pstr_simps utf8_char_def is_scalar_def is_surrogate_def)

lemma sample_prepared:
  "prepare_unit (\<lambda>_. False) no_commands sample_unit sample_request env cwd no_op_protection =
     Inr \<lparr>pd_stages = [], pd_destination = None,
          pd_failure = Some (result_of 127 (Some COMMAND_NOT_FOUND) not_found_message),
          pd_redirection_admitted = True\<rparr>"
  using sample_message
  by (auto simp: prepare_unit_def prepare_stage_def refuse_if_def expand_word_def expand_fragment_def
      scan_expansion_simps argv0_def expanded_argument_error_def sample_request_def default_command_limits_def
      utf8_char_def is_scalar_def is_surrogate_def no_op_protection_def registry_resolve_def no_commands_def
      first_failure_def failed_def command_result_new_def require_result_fields_def require_utf8_text_def
      result_of_def Let_def sample_unit_def not_found_message_def)

lemma sample_selectors:
  "xr_overlay sample_request = []" "xc_protection sample_context = no_op_protection"
  "xc_cancellation sample_context = False" "pu_connector sample_unit = ALWAYS"
  "pu_redirection sample_unit = None" "redact_text no_op_protection t = t"
  by (simp_all add: sample_request_def sample_context_def sample_unit_def no_op_protection_def)

lemma sample_check: "check_execution_state sample_context (quiet_state w) = (Inr (), quiet_state w)"
  by (simp add: check_execution_state_def next_reading_def act_bind_def act_simps check_cancelled_def
      sample_selectors) (simp add: quiet_state_def)

lemma timeout_scope_returns: "m s = (Inr x, s') \<Longrightarrow> timeout_scope m s = (Inr x, s')"
  by (simp add: timeout_scope_def act_catch_def)

lemma sample_unit_run:
  "\<exists>st r. execute_plan_unit (\<lambda>_. False) no_commands sample_request sample_context sample_unit sample_plan_state
     (quiet_state w) = (Inr st, quiet_state w) \<and> plan_result st = Inr r \<and> execute_result_new (r\<lparr>xs_duration_ms := Finite 1\<rparr>) = Inr (r\<lparr>xs_duration_ms := Finite 1\<rparr>)"
proof -
  obtain bs where bs: "utf8_encode not_found_message = Some bs" "length bs < 262144"
    using sample_message by blast
  then have stage: "run_unit \<lparr>pd_stages = [], pd_destination = None,
      pd_failure = Some (result_of 127 (Some COMMAND_NOT_FOUND) not_found_message), pd_redirection_admitted = True\<rparr>
      sample_request sample_context env cwd s = (Inr (result_of 127 (Some COMMAND_NOT_FOUND) not_found_message), s)" for env cwd s
    by (simp add: run_unit_def act_bind_def act_simps sanitize_stage_def sample_selectors result_of_def
        command_result_new_def require_result_fields_def require_utf8_text_def)
  show ?thesis
    using bs
    by (simp add: execute_plan_unit_def act_bind_def act_simps sample_selectors sample_check sample_prepared stage Let_def
        deliver_output_def collector_append_def encode_text_def unit_done_def)
      (simp add: act_simps result_of_def sample_plan_state_def fresh_collector_def plan_result_def execute_result_new_def
        collector_result_def require_non_negative_def require_non_negative_finite_def Let_def require_result_fields_def
        require_utf8_text_def)
qed

lemma sample_execution:
  "\<exists>r s'. executor_execute (\<lambda>_. False) no_commands (Finite 1) sample_request sample_context (quiet_state w) =
     (Inr r, s')"
proof -
  obtain st r where st: "execute_plan_unit (\<lambda>_. False) no_commands sample_request sample_context sample_unit
      sample_plan_state (quiet_state w) = (Inr st, quiet_state w)" "plan_result st = Inr r"
      "execute_result_new (r\<lparr>xs_duration_ms := Finite 1\<rparr>) = Inr (r\<lparr>xs_duration_ms := Finite 1\<rparr>)"
    using sample_unit_run by blast
  then have "execute_plan (\<lambda>_. False) no_commands sample_request sample_context [sample_unit] (quiet_state w) =
      (Inr r, quiet_state w)"
    by (simp add: execute_plan_def sample_initial act_bind_def act_simps)
  from timeout_scope_returns [of "execute_plan (\<lambda>_. False) no_commands sample_request sample_context [sample_unit]",
      OF this] show ?thesis
    using st(3) by (simp add: executor_execute_def sample_admitted act_bind_def act_simps sample_unit_def)
qed


lemma execution_bounded_witness:
  "\<forall>w. \<exists>r s'. executor_execute (\<lambda>_. False) no_commands (Finite 1) sample_request sample_context (quiet_state w) =
     (Inr r, s') \<and> 0 \<le> xs_exit_code r"
  using sample_execution execution_bounded by meson

lemma execution_not_started_witness:
  "\<forall>w. \<exists>e s'. executor_execute (\<lambda>_. False) no_commands (Finite 1) sample_request sample_context
     \<lparr>es_workspace = w, es_readings = sconst \<lparr>rd_deadline_reached = True, rd_task_cancelling = False,
        rd_signal_set = False\<rparr>\<rparr> = (Inl e, s') \<and> es_workspace s' = w"
proof
  fix w
  have "command_limits_ok (xr_limits sample_request)"
    by (simp add: sample_request_def command_limits_ok_def default_command_limits_def)
  from execution_not_started [OF this, of "\<lambda>_. False" "\<lparr>es_workspace = w, es_readings = sconst
      \<lparr>rd_deadline_reached = True, rd_task_cancelling = False, rd_signal_set = False\<rparr>\<rparr>" sample_context no_commands "Finite 1"]
  show "\<exists>e s'. executor_execute (\<lambda>_. False) no_commands (Finite 1) sample_request sample_context
     \<lparr>es_workspace = w, es_readings = sconst \<lparr>rd_deadline_reached = True, rd_task_cancelling = False,
        rd_signal_set = False\<rparr>\<rparr> = (Inl e, s') \<and> es_workspace s' = w" by auto
qed

definition sample_registry :: command_registry where
  "sample_registry = \<lparr>cg_lookup = [([120],
     \<lparr>vc_descriptor = \<lparr>dc_name = [120], dc_aliases = [], dc_summary = [120], dc_usage = [120],
        dc_permits_stdout_redirection = True, dc_accepts_stdin = True, dc_pipeline_safe = True\<rparr>,
      vc_execute = (\<lambda>_ _. act_lift (command_success [] [] None))\<rparr>)], cg_descriptions = []\<rparr>"

lemma prepared_unit_sound_witness:
  "\<exists>u. prepare_unit (\<lambda>_. False) sample_registry sample_unit sample_request \<lparr>vw_base = [], vw_overlay = []\<rparr>
     root_path no_op_protection = Inr u \<and> length (pd_stages u) = 1"
proof -
  have "\<exists>u. prepare_unit (\<lambda>_. False) sample_registry sample_unit sample_request \<lparr>vw_base = [], vw_overlay = []\<rparr>
     root_path no_op_protection = Inr u \<and> pd_failure u = None"
    by (simp add: prepare_unit_def prepare_stage_def refuse_if_def expand_word_def expand_fragment_def
      scan_expansion_simps argv0_def expanded_argument_error_def sample_request_def default_command_limits_def
      utf8_char_def is_scalar_def is_surrogate_def no_op_protection_def registry_resolve_def sample_registry_def
      Let_def sample_unit_def)
  then obtain u where u: "prepare_unit (\<lambda>_. False) sample_registry sample_unit sample_request
     \<lparr>vw_base = [], vw_overlay = []\<rparr> root_path no_op_protection = Inr u" "pd_failure u = None" by blast
  have "pu_stages sample_unit \<noteq> []" by (simp add: sample_unit_def)
  from prepared_unit_sound [OF u this] u(1) show ?thesis
    by (auto simp: sample_unit_def split: list.splits)
qed

end
