(* ===== verification/Command_Effects.thy ===== *)
theory Command_Effects
  imports Command_Profile Executor_Properties Workspace_Properties
begin

text \<open>
  What commands and whole executions do to the workspace. The interface is a relation that holds
  between the workspaces before and after every mutation of the port: it then holds for every
  handler of the profile and for every execution. Its interpretation is reachability by workspace
  operations, so that the properties of the workspace carry over to command text.
\<close>

section \<open>Actions that keep a relation and return a good value\<close>

definition ensures :: "('s \<Rightarrow> 's \<Rightarrow> bool) \<Rightarrow> ('a \<Rightarrow> bool) \<Rightarrow> ('s, 'e, 'a) action \<Rightarrow> bool" where
  "ensures K P m \<longleftrightarrow> (\<forall>s. K s (snd (m s)) \<and> (\<forall>x. fst (m s) = Inr x \<longrightarrow> P x))"

definition returns :: "('a \<Rightarrow> bool) \<Rightarrow> 'e + 'a \<Rightarrow> bool" where
  "returns P m \<longleftrightarrow> (\<forall>x. m = Inr x \<longrightarrow> P x)"

lemma returns_Inl [intro]: "returns P (Inl e)"
  by (simp add: returns_def)

lemma returns_Inr [intro]: "P x \<Longrightarrow> returns P (Inr x)"
  by (simp add: returns_def)

lemma returns_bind [intro]: "(\<And>x. m = Inr x \<Longrightarrow> returns P (f x)) \<Longrightarrow> returns P (rbind m f)"
  by (auto simp: returns_def rbind_Inr_iff)

lemma returns_if [intro]:
  "(b \<Longrightarrow> returns P m) \<Longrightarrow> (\<not> b \<Longrightarrow> returns P m') \<Longrightarrow> returns P (if b then m else m')"
  by simp

lemma returns_expect [intro]:
  "(\<And>t. returns P (h t)) \<Longrightarrow> (\<And>x. v = Inr x \<Longrightarrow> returns P (f x)) \<Longrightarrow> returns P (expect_result v h f)"
  by (auto simp: returns_def expect_result_def split: sum.splits if_splits)

lemmas returns_intros = returns_Inl returns_Inr returns_bind returns_if returns_expect

lemma ensures_mono: "ensures K P m \<Longrightarrow> (\<And>x. P x \<Longrightarrow> Q x) \<Longrightarrow> ensures K Q m"
  by (auto simp: ensures_def)

lemma ensuresD: "ensures K P m \<Longrightarrow> m s = (Inr x, s') \<Longrightarrow> P x \<and> K s s'"
  unfolding ensures_def by (metis fst_conv snd_conv)

locale kept_relation =
  fixes K :: "'s \<Rightarrow> 's \<Rightarrow> bool"
  assumes refl: "K s s"
    and trans: "K s t \<Longrightarrow> K t u \<Longrightarrow> K s u"
begin

lemma ensures_lift: "returns P m \<Longrightarrow> ensures K P (act_lift m)"
  by (simp add: ensures_def act_lift_def refl returns_def)

lemma ensures_ret: "P x \<Longrightarrow> ensures K P (act_ret x)"
  by (simp add: ensures_def act_ret_def refl)

lemma ensures_pair: "returns P m \<Longrightarrow> ensures K P (Pair m)"
  by (simp add: ensures_def returns_def refl)

lemma ensures_get: "(\<And>s. P (f s)) \<Longrightarrow> ensures K P (act_get f)"
  by (simp add: ensures_def act_get_def refl)

lemma ensures_bind:
  assumes "ensures K P m" and "\<And>x. P x \<Longrightarrow> ensures K Q (f x)"
  shows "ensures K Q (act_bind m f)"
proof -
  have "K s (snd (act_bind m f s)) \<and> (\<forall>x. fst (act_bind m f s) = Inr x \<longrightarrow> Q x)" for s
  proof (cases "m s")
    case (Pair out s')
    then have "K s s'" using assms(1) by (metis ensures_def snd_conv)
    moreover have "P x" if "out = Inr x" for x using assms(1) Pair that by (auto simp: ensures_def dest: spec [of _ s])
    ultimately show ?thesis
      using assms(2) Pair trans by (cases out) (auto simp: act_bind_def ensures_def)
  qed
  then show ?thesis by (simp add: ensures_def)
qed

lemma ensures_bind_lift: "(\<And>x. m = Inr x \<Longrightarrow> ensures K Q (f x)) \<Longrightarrow> ensures K Q (act_bind (act_lift m) f)"
  by (rule ensures_bind [where P = "\<lambda>x. m = Inr x"]) (auto intro: ensures_lift simp: returns_def)

lemma ensures_catch:
  assumes "ensures K P m" and "\<And>e. ensures K P (h e)"
  shows "ensures K P (act_catch m h)"
proof -
  have "K s (snd (act_catch m h s)) \<and> (\<forall>x. fst (act_catch m h s) = Inr x \<longrightarrow> P x)" for s
  proof (cases "m s")
    case (Pair out s')
    then have "K s s'" using assms(1) by (metis ensures_def snd_conv)
    then show ?thesis
      using assms Pair trans by (cases out) (auto simp: act_catch_def ensures_def, metis fst_conv)
  qed
  then show ?thesis by (simp add: ensures_def)
qed

end

section \<open>Handlers that only read\<close>

definition cwd_ok :: "command_result \<Rightarrow> bool" where
  "cwd_ok r \<longleftrightarrow> (\<forall>p. rs_resulting_cwd r = Some p \<longrightarrow> path_ok p)"

definition plain :: "command_result \<Rightarrow> bool" where
  "plain r \<longleftrightarrow> rs_resulting_cwd r = None \<and> rs_environment_changes r = []"

lemma plain_cwd_ok: "plain r \<Longrightarrow> cwd_ok r"
  by (simp add: plain_def cwd_ok_def)

lemma plain_results [intro, simp]:
  "returns plain (command_result_new x fc out err None [])"
  "returns plain (failure_with fc' x out n m)"
  "returns plain (invalid n m)" "returns plain (usage n u)"
  "returns plain (protected_value n)" "returns plain (command_success out err None)"
  by (auto simp: returns_def plain_def command_result_new_ok failure_with_def invalid_def usage_def
      protected_value_def command_success_def)

lemma plain_resultD:
  "failure_with fc' x out n m = Inr r \<Longrightarrow> plain r" "protected_value n = Inr r \<Longrightarrow> plain r"
  "invalid n m = Inr r \<Longrightarrow> plain r" "usage n u = Inr r \<Longrightarrow> plain r"
  using plain_results unfolding returns_def by blast+

lemma returns_cwd:
  "returns plain m \<Longrightarrow> returns cwd_ok m"
  "path_ok p \<Longrightarrow> returns cwd_ok (command_success out err (Some p))"
  "returns cwd_ok (changes_result changes)"
  using plain_cwd_ok
  by (auto simp: returns_def cwd_ok_def command_success_def changes_result_def command_result_new_ok)

lemmas cwd_results = plain_results [THEN returns_cwd(1)] returns_cwd(2,3)

text \<open>An early result that is plain, or a value.\<close>

definition early_plain :: "command_result + 'a \<Rightarrow> bool" where
  "early_plain x \<longleftrightarrow> (\<forall>r. x = Inl r \<longrightarrow> plain r)"

lemma early_plain_simps [simp]: "early_plain (Inr x)" "early_plain (Inl r) = plain r"
  by (simp_all add: early_plain_def)

lemma returns_early [intro, simp]:
  "returns plain m \<Longrightarrow> returns early_plain (rbind m (\<lambda>f. Inr (Inl f)))"
  "returns early_plain (Inr (Inr x))"
  by (auto simp: returns_def rbind_Inr_iff)

lemma early_rbind:
  "returns early_plain m \<Longrightarrow> (\<And>x. returns P (f x)) \<Longrightarrow> (\<And>r. plain r \<Longrightarrow> P r) \<Longrightarrow>
     returns P (rbind m (\<lambda>i. case i of Inl bad \<Rightarrow> Inr bad | Inr x \<Rightarrow> f x))"
  by (auto simp: returns_def rbind_def early_plain_def split: sum.splits)

lemma early_expect:
  "returns early_plain m \<Longrightarrow> (\<And>t. returns plain (h t)) \<Longrightarrow> (\<And>x. returns plain (f x)) \<Longrightarrow>
     returns plain (expect_result m h (\<lambda>i. case i of Inl bad \<Rightarrow> Inr bad | Inr x \<Rightarrow> f x))"
  by (auto simp: returns_def expect_result_def early_plain_def split: sum.splits if_splits)

lemma returns_read_operands: "returns early_plain (read_operands n w given ops r c out)"
  by (induction n w given ops r c out rule: read_operands.induct)
     (auto intro!: returns_intros dest: plain_resultD)

lemma returns_ls_operands: "returns plain (ls_operands w c multiple ops sections)"
  by (induction w c multiple ops sections rule: ls_operands.induct) (auto intro!: returns_intros)

lemma returns_cat_operands: "returns plain (cat_operands w r c ops out)"
  by (induction w r c ops out rule: cat_operands.induct) (auto intro!: returns_intros)

lemma returns_grep_sources: "returns early_plain (grep_sources frames w recursive r c ops out)"
  by (induction frames w recursive r c ops out rule: grep_sources.induct)
     (auto intro!: returns_intros dest: plain_resultD)

lemma returns_parse_count: "returns early_plain (parse_count nd n as)"
  by (auto simp: parse_count_def usage_count_def Let_def split: option.splits intro!: returns_intros)

lemma returns_export_changes: "returns early_plain (export_changes c as changes)"
  by (induction c as changes rule: export_changes.induct)
     (auto simp: Let_def intro!: returns_bind dest: plain_resultD)

lemma changes_case:
  "returns early_plain m \<Longrightarrow>
     returns cwd_ok
       (case m of
          Inl e \<Rightarrow> if value_caught e then usage n u else Inl e
        | Inr (Inl early) \<Rightarrow> Inr early
        | Inr (Inr changes) \<Rightarrow> changes_result changes)"
  using cwd_results plain_cwd_ok by (auto simp: returns_def early_plain_def split: sum.splits)

lemma resolved_operand: "path_ok (cx_cwd c) \<Longrightarrow> resolve_operand w c v = Inr p \<Longrightarrow> path_ok p"
  using resolve_path_ok(1) by (fastforce simp: resolve_operand_def resolve_path_def)

locale read_relation = kept_relation K
  for K :: "memory_workspace \<Rightarrow> memory_workspace \<Rightarrow> bool"
begin

lemma ensures_reads: "(\<And>w. returns P (f w)) \<Longrightarrow> ensures K P (reads f)"
  by (simp add: ensures_def reads_def refl returns_def)

lemma ensures_unless:
  "ensures K P m \<Longrightarrow> (\<And>r. plain r \<Longrightarrow> P r) \<Longrightarrow> ensures K P (unless_stdin n r m)"
  "ensures K P m \<Longrightarrow> (\<And>r. plain r \<Longrightarrow> P r) \<Longrightarrow> ensures K P (unless_protected n ops c m)"
  using plain_results by (auto simp: unless_stdin_def unless_protected_def returns_def intro!: ensures_lift)

lemma ensures_filtering: "(\<And>xs. returns plain (f xs)) \<Longrightarrow> ensures K plain (filtering n ops r c f)"
  unfolding filtering_def read_inputs_def by (auto intro!: ensures_reads early_rbind returns_read_operands)

lemmas ensures_rules = ensures_unless ensures_lift ensures_reads ensures_filtering

lemma read_only_handlers:
  "ensures K plain (pwd_execute r c)"
  "ensures K plain (ls_execute r c)"
  "ensures K plain (cat_execute r c)"
  "ensures K plain (echo_execute r c)"
  "ensures K plain (env_execute r c)"
  "ensures K plain (wc_execute r c)"
  "ensures K plain (sort_execute nd r c)"
  "ensures K plain (uniq_execute r c)"
  "ensures K plain (find_execute frames nd r c)"
  by (auto simp: pwd_execute_def ls_execute_def cat_execute_def echo_execute_def env_execute_def wc_execute_def
      sort_execute_def uniq_execute_def find_execute_def Let_def returns_ls_operands returns_cat_operands
      split: option.splits prod.splits sum.splits list.splits intro!: ensures_rules returns_intros)

lemma end_execute_eq:
  "end_execute nd n from_end r c =
     (case parse_count nd n (arguments_of r) of
        Inl e \<Rightarrow> act_lift (Inl e)
      | Inr (Inl early) \<Rightarrow> act_lift (Inr early)
      | Inr (Inr (number, operands)) \<Rightarrow>
          filtering n operands r c
            (\<lambda>inputs. command_success (limited_input_output inputs number from_end) [] None))"
  by (rule ext) (auto simp: end_execute_def split: sum.splits prod.splits)

lemma ensures_end: "ensures K plain (end_execute nd n from_end r c)"
  using returns_parse_count [of nd n "arguments_of r"]
  by (auto simp: end_execute_eq returns_def early_plain_def split: sum.splits prod.splits
      intro!: ensures_rules returns_intros)

lemma ensures_grep: "ensures K plain (grep_execute frames re_compile r c)"
  by (auto simp: grep_execute_def Let_def simp del: grep_sources.simps split: option.splits list.splits sum.splits
      intro!: ensures_rules early_expect returns_grep_sources)

lemma ensures_cd: "path_ok (cx_cwd c) \<Longrightarrow> ensures K cwd_ok (cd_execute r c)"
  by (auto simp: cd_execute_def Let_def plain_cwd_ok dest: resolved_operand
      intro!: ensures_unless ensures_reads cwd_results returns_expect ensures_lift
      simp: rbind_Inr_iff split: list.splits)

lemma ensures_environment:
  "ensures K cwd_ok (export_execute r c)" "ensures K cwd_ok (unset_execute r c)"
  by (auto simp: export_execute_def unset_execute_def Let_def plain_cwd_ok
      intro!: ensures_unless ensures_lift cwd_results changes_case returns_export_changes
        returns_bind returns_early returns_if)

end

section \<open>Handlers that change the workspace\<close>

locale workspace_relation = read_relation K
  for K :: "memory_workspace \<Rightarrow> memory_workspace \<Rightarrow> bool" +
  fixes nd :: "nat \<Rightarrow> nat option"
  assumes mutation: "op_paths_ok op \<Longrightarrow> K w (snd (run_op nd op w))"
begin

lemma op_relation:
  "path_ok (mk_path mk) \<Longrightarrow> K w (snd (ws_mkdir mk w))"
  "path_ok (wr_path wr) \<Longrightarrow> K w (snd (ws_write wr w))"
  "path_ok (wr_path wr) \<Longrightarrow> K w (snd (ws_append wr w))"
  "path_ok (rm_path rm) \<Longrightarrow> K w (snd (ws_remove rm w))"
  "path_ok (tf_source tf) \<Longrightarrow> path_ok (tf_destination tf) \<Longrightarrow> K w (snd (ws_copy tf w))"
  "path_ok (tf_source tf) \<Longrightarrow> path_ok (tf_destination tf) \<Longrightarrow> K w (snd (ws_move tf w))"
  using mutation [of "Mkdir mk" w] mutation [of "Write wr" w] mutation [of "Append wr" w] mutation [of "Remove rm" w]
    mutation [of "Copy tf" w] mutation [of "Move tf" w]
  by (simp_all add: wrap_def)

lemma ensures_op:
  "path_ok (mk_path mk) \<Longrightarrow> ensures K (\<lambda>_. True) (ws_mkdir mk)"
  "path_ok (wr_path wr) \<Longrightarrow> ensures K (\<lambda>_. True) (ws_write wr)"
  "path_ok (wr_path wr) \<Longrightarrow> ensures K (\<lambda>_. True) (ws_append wr)"
  "path_ok (rm_path rm) \<Longrightarrow> ensures K (\<lambda>_. True) (ws_remove rm)"
  "path_ok (tf_source tf) \<Longrightarrow> path_ok (tf_destination tf) \<Longrightarrow> ensures K (\<lambda>_. True) (ws_copy tf)"
  "path_ok (tf_source tf) \<Longrightarrow> path_ok (tf_destination tf) \<Longrightarrow> ensures K (\<lambda>_. True) (ws_move tf)"
  using op_relation by (auto simp: ensures_def)

lemma ensures_operand: "path_ok (cx_cwd c) \<Longrightarrow> ensures K path_ok (reads (\<lambda>w. resolve_operand w c v))"
  by (rule ensures_reads) (auto simp: returns_def dest: resolved_operand)

lemma ensures_attempt:
  assumes "ensures K P m" and "\<And>x. P x \<Longrightarrow> ensures K Q (f x)" and "\<And>t. returns Q (h t)"
  shows "ensures K Q (attempt m h f)"
proof -
  have "K w (snd (attempt m h f w)) \<and> (\<forall>x. fst (attempt m h f w) = Inr x \<longrightarrow> Q x)" for w
  proof (cases "m w")
    case (Pair out w')
    then have "K w w'" using assms(1) by (metis ensures_def snd_conv)
    moreover have "P x" if "out = Inr x" for x using assms(1) Pair that by (auto simp: ensures_def dest: spec [of _ w])
    ultimately show ?thesis
      using assms(2,3) Pair trans by (cases out) (auto simp: attempt_def ensures_def returns_def)
  qed
  then show ?thesis by (simp add: ensures_def)
qed

lemma ensures_mkdir_paths: "path_ok (cx_cwd c) \<Longrightarrow> ensures K plain (mkdir_paths parents c vs)"
  by (induction vs) (auto intro!: ensures_attempt ensures_operand ensures_op ensures_lift)

lemma ensures_touch_one: "path_ok (cx_cwd c) \<Longrightarrow> ensures K (\<lambda>_. True) (touch_one c v)"
  unfolding touch_one_def
  by (rule ensures_bind [OF ensures_operand])
     (auto intro!: ensures_bind [where P = "\<lambda>_. True"] ensures_reads ensures_op ensures_ret
       simp: returns_def split: option.splits)

lemma ensures_touch_paths: "path_ok (cx_cwd c) \<Longrightarrow> ensures K plain (touch_paths c vs)"
  by (induction vs) (auto intro!: ensures_attempt [OF ensures_touch_one] ensures_lift split: option.splits)

lemma ensures_rm_paths: "path_ok (cx_cwd c) \<Longrightarrow> ensures K plain (rm_paths recursive force c vs)"
  by (induction vs)
     (auto intro!: ensures_attempt ensures_bind [OF ensures_operand] ensures_op ensures_lift)

lemma ensures_join: "path_ok p \<Longrightarrow> returns path_ok (path_join p segments mp ms)"
  by (auto simp: returns_def path_join_def dest: resolve_path_ok(1))

lemma ensures_stat_or_none: "ensures K (\<lambda>_. True) (reads (\<lambda>w. stat_or_none w p))"
  by (rule ensures_reads) (simp add: returns_def)

lemma ensures_transfer_one:
  assumes "path_ok (cx_cwd c)" and "path_ok destination"
  shows "ensures K (\<lambda>_. True) (transfer_one recursive move c destination destination_entry v)"
  unfolding transfer_one_def
  by (rule ensures_bind [OF ensures_operand], rule assms)
     (auto intro!: ensures_bind [where P = "\<lambda>_. True"] ensures_bind [where P = path_ok] ensures_reads
       ensures_op ensures_ret ensures_lift ensures_join assms ensures_stat_or_none simp: returns_def)

lemma ensures_transfer_all:
  assumes "path_ok (cx_cwd c)" and "path_ok destination"
  shows "ensures K (\<lambda>_. True) (transfer_all recursive move c destination destination_entry vs)"
  by (induction vs)
     (auto intro!: ensures_bind [OF ensures_transfer_one] ensures_ret ensures_pair assms split: option.splits)

lemma ensures_transfer:
  assumes "path_ok (cx_cwd c)"
  shows "ensures K plain (transfer n sources destination c recursive move)"
proof -
  have "ensures K plain
      (attempt
         (act_bind (reads (\<lambda>w. resolve_operand w c destination)) (\<lambda>d.
          act_bind (reads (\<lambda>w. stat_or_none w d)) (\<lambda>e.
            if length sources > 1 \<and> \<not> is_directory e
            then act_ret (Some (pstr ''destination must be an existing directory''))
            else transfer_all recursive move c d e sources)))
         (failure n)
         (\<lambda>stop. act_lift (case stop of Some m \<Rightarrow> failure n m | None \<Rightarrow> command_success [] [] None)))"
    by (rule ensures_attempt [where P = "\<lambda>_. True"])
       (auto intro!: ensures_bind [OF ensures_operand] ensures_bind [OF ensures_stat_or_none] ensures_ret
         ensures_transfer_all ensures_lift assms split: option.splits)
  then show ?thesis unfolding transfer_def by (rule ensures_unless) simp
qed

lemma mutating_handlers:
  assumes "path_ok (cx_cwd c)"
  shows "ensures K plain (mkdir_execute r c)" "ensures K plain (touch_execute r c)"
    "ensures K plain (rm_execute r c)" "ensures K plain (cp_execute r c)" "ensures K plain (mv_execute r c)"
  using assms
  by (auto simp: mkdir_execute_def touch_execute_def rm_execute_def cp_execute_def mv_execute_def Let_def
      split: option.splits prod.splits
      intro!: ensures_unless ensures_lift ensures_mkdir_paths ensures_touch_paths ensures_rm_paths ensures_transfer)

definition handler_ok :: "command_handler \<Rightarrow> bool" where
  "handler_ok h \<longleftrightarrow> (\<forall>r c. path_ok (cx_cwd c) \<longrightarrow> ensures K cwd_ok (h r c))"

lemma profile_handlers:
  assumes "command \<in> set (command_profile frames nd' re_compile)"
  shows "handler_ok (vc_execute command)"
proof -
  have "ensures K cwd_ok (vc_execute command r c)" if "path_ok (cx_cwd c)" for r c
    using assms that read_only_handlers [THEN ensures_mono] mutating_handlers [OF that, THEN ensures_mono]
      ensures_cd ensures_environment ensures_end [THEN ensures_mono] ensures_grep [THEN ensures_mono] plain_cwd_ok
    by (auto simp: command_profile_def first_wave_commands_def make_command_def head_execute_def tail_execute_def)
  then show ?thesis by (simp add: handler_ok_def)
qed

end

section \<open>Executions\<close>

text \<open>Every command that is prepared comes from the registry.\<close>

definition registered :: "command_registry \<Rightarrow> prepared_stage \<Rightarrow> bool" where
  "registered reg s \<longleftrightarrow> (\<exists>name. registry_resolve reg name = Some (ps_command s))"

definition failure_plain :: "command_result option \<Rightarrow> bool" where
  "failure_plain f \<longleftrightarrow> (\<forall>r. f = Some r \<longrightarrow> plain r)"

definition sound_preparation :: "command_registry \<Rightarrow> preparation \<Rightarrow> bool" where
  "sound_preparation reg st \<longleftrightarrow> list_all (registered reg) (pr_prepared st) \<and> failure_plain (pr_failure st)"

lemma sound_updates [simp]:
  "sound_preparation reg (st\<lparr>pr_final_argv := a\<rparr>) = sound_preparation reg st"
  "sound_preparation reg (st\<lparr>pr_final_command := cm\<rparr>) = sound_preparation reg st"
  "sound_preparation reg (st\<lparr>pr_admitted := b\<rparr>) = sound_preparation reg st"
  "sound_preparation reg (st\<lparr>pr_prepared := pr_prepared st @ [s]\<rparr>) \<longleftrightarrow>
     sound_preparation reg st \<and> registered reg s"
  by (auto simp: sound_preparation_def)

lemma failed_plain: "returns plain (failed x fc' m)" "returns plain protected_arguments"
  using plain_results by (simp_all add: failed_def protected_arguments_def)

lemma returns_bind_via: "returns P m \<Longrightarrow> (\<And>x. P x \<Longrightarrow> returns Q (f x)) \<Longrightarrow> returns Q (rbind m f)"
  by (auto simp: returns_def rbind_Inr_iff)

lemma first_failure_sound:
  "sound_preparation reg st \<Longrightarrow> returns plain r \<Longrightarrow> returns (sound_preparation reg) (first_failure r st)"
  by (auto simp: first_failure_def rbind_Inr_iff sound_preparation_def failure_plain_def returns_def
      split: option.splits)

lemma refuse_if_sound:
  "sound_preparation reg st \<Longrightarrow> returns plain r \<Longrightarrow> returns (sound_preparation reg) (refuse_if bad r st)"
  by (auto simp: refuse_if_def intro!: returns_bind_via [OF first_failure_sound])

lemma prepare_stage_sound:
  assumes "sound_preparation reg st"
  shows "returns (sound_preparation reg)
    (prepare_stage ua reg request env cwd prot destination is_pipeline index is_last stage st)"
  unfolding prepare_stage_def Let_def
  by (rule returns_bind, auto intro!: assms returns_bind [where m = "argv0 as" for as] returns_bind_via [OF refuse_if_sound] refuse_if_sound first_failure_sound failed_plain
       returns_Inr split: option.splits simp: registered_def) blast+

lemma prepare_stages_sound:
  "sound_preparation reg st \<Longrightarrow> returns (sound_preparation reg)
    (prepare_stages (prepare_stage ua reg request env cwd prot destination is_pipeline) index stages st)"
  by (induction stages arbitrary: index st) (auto intro!: returns_bind_via [OF prepare_stage_sound])

lemma prepare_unit_sound:
  "returns (\<lambda>u. list_all (registered reg) (pd_stages u) \<and> failure_plain (pd_failure u))
    (prepare_unit ua reg item request env cwd prot)"
  unfolding prepare_unit_def Let_def
  by (rule returns_bind, rule returns_bind_via [OF refuse_if_sound [where reg = reg]],
      simp add: sound_preparation_def failure_plain_def, rule failed_plain,
      rule returns_bind_via [OF prepare_stages_sound])
     (use failed_plain(1) in \<open>auto simp: returns_def rbind_Inr_iff sound_preparation_def failure_plain_def
        split: option.splits\<close>)

lemma sanitized_cwd: "cwd_ok r \<Longrightarrow> returns cwd_ok (sanitize_stage r name prot env)"
  using plain_results by (auto simp: sanitize_stage_def protected_failure_def failed_def returns_def
      rbind_Inr_iff command_result_new_ok cwd_ok_def split: if_splits)

lemma sanitized_cwd': "sanitize_stage r name prot env = Inr r' \<Longrightarrow> cwd_ok r \<Longrightarrow> cwd_ok r'"
  using sanitized_cwd by (simp add: returns_def)

sublocale workspace_relation \<subseteq> exec: kept_relation "\<lambda>s s'. K (es_workspace s) (es_workspace s')"
  using refl trans by unfold_locales blast+

context workspace_relation
begin

abbreviation (input) E :: "execution_state \<Rightarrow> execution_state \<Rightarrow> bool" where
  "E \<equiv> \<lambda>s s'. K (es_workspace s) (es_workspace s')"

lemma ensures_on_workspace: "ensures K P m \<Longrightarrow> ensures E P (on_workspace m)"
  by (auto simp: ensures_def on_workspace_def split: prod.splits) (metis fst_conv snd_conv)+

lemma ensures_reading: "ensures E (\<lambda>_. True) next_reading"
  by (simp add: ensures_def next_reading_def refl)

lemma ensures_check: "ensures E (\<lambda>_. True) (check_execution_state ctx)"
  unfolding check_execution_state_def
  by (rule exec.ensures_bind [OF ensures_reading]) (auto intro!: exec.ensures_lift simp: returns_def)

lemma ensures_scope: "ensures E P m \<Longrightarrow> ensures E P (timeout_scope m)"
  unfolding timeout_scope_def
  by (rule exec.ensures_catch)
     (auto intro!: exec.ensures_bind [OF ensures_reading] exec.ensures_lift simp: returns_def)

lemma ensures_dispatch:
  assumes "handler_ok (vc_execute (ps_command stage))" and "path_ok cwd"
  shows "ensures E cwd_ok (dispatch stage stdin piped env cwd ctx)"
  unfolding dispatch_def Let_def
  by (rule exec.ensures_bind [where P = cwd_ok], rule exec.ensures_catch, rule exec.ensures_bind [where P = "\<lambda>_. True"])
     (use assms in \<open>auto intro!: exec.ensures_lift ensures_on_workspace sanitized_cwd simp: handler_ok_def returns_def\<close>)

lemma ensures_pipeline:
  assumes "\<And>stage stdin piped. stage \<in> set stages \<Longrightarrow> ensures E cwd_ok (run stage stdin piped)"
  shows "ensures E cwd_ok (run_pipeline run ctx l piped stages p)"
  using assms
proof (induction stages arbitrary: piped p)
  case Nil
  then show ?case by (auto intro!: exec.ensures_pair cwd_results)
next
  case (Cons stage stages)
  show ?case
by (auto simp: Let_def simp del: act_bind_lift intro!: exec.ensures_bind [OF ensures_check]
        exec.ensures_bind [OF Cons.prems] exec.ensures_bind_lift exec.ensures_lift Cons.IH Cons.prems
        returns_Inl cwd_results simp: failed_def)
qed

lemma ensures_unit:
  assumes "list_all (\<lambda>s. handler_ok (vc_execute (ps_command s))) (pd_stages prepared)" and "path_ok cwd"
  shows "ensures E cwd_ok (execute_unit prepared request ctx env cwd)"
  using assms
  by (auto simp: execute_unit_def list_all_iff simp del: run_pipeline.simps split: list.splits
      intro!: ensures_dispatch ensures_pipeline)

lemma ensures_redirect_write: "path_ok cwd \<Longrightarrow> ensures K (\<lambda>_. True) (redirect_write destination mode cwd text)"
  unfolding redirect_write_def
  by (auto intro!: ensures_bind [where P = "\<lambda>_. True"] ensures_bind [where P = path_ok] ensures_get
      ensures_lift ensures_op ensures_ret
      simp: returns_def resolve_path_def dest: resolve_path_ok(1) split: option.splits)

lemma ensures_redirection:
  assumes "path_ok cwd" and "cwd_ok stage"
  shows "ensures E cwd_ok (apply_redirection name destination mode cwd stage request ctx)"
proof -
  have early: "returns (\<lambda>x. \<forall>r. x = Some r \<longrightarrow> cwd_ok r) (rbind m (\<lambda>r. Inr (Some r)))"
    if "returns cwd_ok m" for m using that by (auto simp: returns_def rbind_Inr_iff)
  show ?thesis
    using assms(2)
    unfolding apply_redirection_def protected_failure_def failed_def
    by (auto intro!: exec.ensures_bind [where P = "\<lambda>_. True"]
        exec.ensures_bind [where P = "\<lambda>x. \<forall>r. x = Some r \<longrightarrow> cwd_ok r"] exec.ensures_catch exec.ensures_lift
        exec.ensures_ret ensures_on_workspace ensures_redirect_write assms early cwd_results
        simp: returns_def command_result_new_ok cwd_ok_def rbind_Inr_iff split: option.splits)
qed

lemma ensures_deliver:
  assumes "path_ok (pn_cwd st)" and "cwd_ok stage"
  shows "ensures E (\<lambda>(r, st'). cwd_ok r \<and> path_ok (pn_cwd st'))
    (deliver_output ua item prepared request ctx env stage st)"
  using assms unfolding deliver_output_def Let_def
  by (auto intro!: exec.ensures_bind [OF ensures_redirection] exec.ensures_bind [OF ensures_check]
      exec.ensures_bind_lift exec.ensures_lift exec.ensures_ret simp: returns_Inl sanitized_cwd'
      split: option.splits)

lemma unit_done_cwd:
  "unit_done stage st = Inr st' \<Longrightarrow> cwd_ok stage \<longrightarrow> path_ok (pn_cwd st) \<longrightarrow> path_ok (pn_cwd st')"
  by (auto simp: unit_done_def Let_def cwd_ok_def rbind_Inr_iff split: if_splits option.splits)

lemma ensures_plan_unit:
  assumes handlers: "\<And>name c. registry_resolve reg name = Some c \<Longrightarrow> handler_ok (vc_execute c)"
    and cwd: "path_ok (pn_cwd st)"
  shows "ensures E (\<lambda>st'. path_ok (pn_cwd st')) (execute_plan_unit ua reg request ctx item st)"
proof -
  let ?env = "\<lparr>vw_base = pn_environment st, vw_overlay = xr_overlay request\<rparr>"
  have run: "ensures E cwd_ok (run_unit prepared request ctx ?env (pn_cwd st))"
    if p: "list_all (registered reg) (pd_stages prepared)" "failure_plain (pd_failure prepared)" for prepared
  proof -
    have "list_all (\<lambda>s. handler_ok (vc_execute (ps_command s))) (pd_stages prepared)"
      using p(1) handlers by (auto simp: list_all_iff registered_def)
    with p(2) cwd show ?thesis
    unfolding run_unit_def
    by (intro exec.ensures_bind [where P = cwd_ok])
       (auto intro!: exec.ensures_ret exec.ensures_lift ensures_unit sanitized_cwd plain_cwd_ok
         simp: failure_plain_def split: option.splits)
  qed
  show ?thesis
    unfolding execute_plan_unit_def Let_def
    using cwd prepare_unit_sound
    by (auto intro!: exec.ensures_ret exec.ensures_lift exec.ensures_bind [OF ensures_check] exec.ensures_bind_lift
        exec.ensures_bind [OF run] exec.ensures_bind [OF ensures_deliver] simp: returns_def dest!: unit_done_cwd)
qed

lemma ensures_plan_units:
  assumes "\<And>name c. registry_resolve reg name = Some c \<Longrightarrow> handler_ok (vc_execute c)"
  shows "path_ok (pn_cwd st) \<Longrightarrow>
    ensures E (\<lambda>st'. path_ok (pn_cwd st')) (execute_plan_units (execute_plan_unit ua reg request ctx) items st)"
  by (induction items arbitrary: st)
     (auto intro!: exec.ensures_ret exec.ensures_pair returns_Inr exec.ensures_bind [OF ensures_plan_unit] assms)

lemma ensures_execute:
  assumes "\<And>name c. registry_resolve reg name = Some c \<Longrightarrow> handler_ok (vc_execute c)"
    and "path_ok (xr_cwd request)"
  shows "ensures E (\<lambda>r. path_ok (xs_resulting_cwd r)) (executor_execute ua reg duration_ms request ctx)"
proof -
  have start: "path_ok (pn_cwd st0)" if "initial_plan_state request = Inr st0" for st0
    using that assms(2) by (auto simp: initial_plan_state_def rbind_Inr_iff)
  have finish: "path_ok (xs_resulting_cwd r')" if "execute_result_new r = Inr r'" "path_ok (xs_resulting_cwd r)" for r r'
    using that by (auto simp: execute_result_new_def rbind_Inr_iff)
  have "path_ok (xs_resulting_cwd r)" if "plan_result st = Inr r" "path_ok (pn_cwd st)" for st r
    using that finish by (auto simp: plan_result_def Let_def dest!: finish split: if_splits)
  then have "ensures E (\<lambda>r. path_ok (xs_resulting_cwd r)) (execute_plan ua reg request ctx units)" for units
    unfolding execute_plan_def
    by (auto intro!: exec.ensures_bind_lift exec.ensures_bind [OF ensures_plan_units] assms start exec.ensures_lift
        simp: returns_def)
  then show ?thesis
    unfolding executor_execute_def
    by (auto intro!: exec.ensures_bind_lift exec.ensures_bind [OF ensures_scope] exec.ensures_lift
        simp: returns_def dest!: finish)
qed

end

section \<open>The workspace under command text\<close>

text \<open>Reading only, and reachability by operations of the workspace, are such relations.\<close>

interpretation unchanged: read_relation "(=)"
  by unfold_locales auto

definition reaches :: "(nat \<Rightarrow> nat option) \<Rightarrow> memory_workspace \<Rightarrow> memory_workspace \<Rightarrow> bool" where
  "reaches nd w w' \<longleftrightarrow> (\<exists>ops. ws_run nd w ops w')"

lemma ws_run_append: "ws_run nd w' ops' w'' \<Longrightarrow> ws_run nd w ops w' \<Longrightarrow> ws_run nd w (ops @ ops') w''"
  by (induction rule: ws_run.induct) (auto simp del: append_assoc simp: append_assoc [symmetric] intro: ws_run.extend)

interpretation reachable: workspace_relation "reaches nd" nd for nd
proof unfold_locales
  show "reaches nd w w" for w by (auto simp: reaches_def intro: ws_run.start)
  show "reaches nd w w''" if "reaches nd w w'" "reaches nd w' w''" for w w' w''
    using that ws_run_append by (fastforce simp: reaches_def)
  show "reaches nd w (snd (run_op nd op w))" if "op_paths_ok op" for op w
    using ws_run.extend [OF ws_run.start, of nd w op] that by (auto simp: reaches_def ws_step_iff)
qed

text \<open>
  C31: executing command text with the default registry changes the workspace only through its
  operations: from a workspace that satisfies the invariant an execution, whatever it returns or
  raises, ends in one that a sequence of operations reaches, so the invariant and the limits are
  kept, the revision does not decrease, and the directory it reports is a canonical path.
\<close>

theorem executor_keeps_workspace:
  assumes registry: "create_default_registry frames nd re_compile = Inr reg"
    and inv: "ws_inv (es_workspace s)" and cwd: "path_ok (xr_cwd request)"
    and run: "executor_execute ua reg duration_ms request ctx s = (out, s')"
  shows "(\<exists>ops. ws_run nd (es_workspace s) ops (es_workspace s')) \<and> ws_inv (es_workspace s') \<and>
    ws_limits (es_workspace s') = ws_limits (es_workspace s) \<and>
    rev_value (ws_revision (ws_stats (es_workspace s))) \<le> rev_value (ws_revision (ws_stats (es_workspace s'))) \<and>
    (\<forall>r. out = Inr r \<longrightarrow> path_ok (xs_resulting_cwd r))"
proof -
  have handlers: "reachable.handler_ok nd (vc_execute c)" if "registry_resolve reg name = Some c" for name c
  proof -
    have "(name, c) \<in> set (all_names (command_profile frames nd re_compile))"
      using registry that
      by (auto simp: create_default_registry_def command_registry_new_def rbind_Inr_iff register_commands_iff
          registry_resolve_def dest: map_of_SomeD)
    then have "c \<in> set (command_profile frames nd re_compile)" by (auto simp: all_names_def)
    then show ?thesis by (rule reachable.profile_handlers)
  qed
  have e: "ensures (\<lambda>s s'. reaches nd (es_workspace s) (es_workspace s')) (\<lambda>r. path_ok (xs_resulting_cwd r))
      (executor_execute ua reg duration_ms request ctx)"
    by (rule reachable.ensures_execute) (use handlers cwd in blast)+
  then obtain ops where ops: "ws_run nd (es_workspace s) ops (es_workspace s')"
    using run by (auto simp: ensures_def reaches_def) (metis snd_conv)
  moreover have "\<forall>r. out = Inr r \<longrightarrow> path_ok (xs_resulting_cwd r)"
    using e run by (auto simp: ensures_def) (metis fst_conv)
  ultimately show ?thesis using ws_run_facts [OF ops inv] by auto
qed

lemma command_names:
  "map fst (all_names (command_profile frames nd re_compile)) =
     map pstr [''pwd'', ''cd'', ''ls'', ''cat'', ''echo'', ''mkdir'', ''touch'', ''rm'', ''head'', ''tail'', ''grep'',
       ''find'', ''wc'', ''sort'', ''uniq'', ''cp'', ''mv'', ''env'', ''export'', ''unset'']"
  by (simp add: command_profile_def first_wave_commands_def make_command_def descriptor_names_def descriptor_def
      pwd_descriptor_def cd_descriptor_def ls_descriptor_def cat_descriptor_def echo_descriptor_def
      mkdir_descriptor_def touch_descriptor_def rm_descriptor_def head_descriptor_def tail_descriptor_def
      grep_descriptor_def find_descriptor_def wc_descriptor_def sort_descriptor_def uniq_descriptor_def
      cp_descriptor_def mv_descriptor_def env_descriptor_def export_descriptor_def unset_descriptor_def)

lemma default_registry: "\<exists>reg. create_default_registry frames nd re_compile = Inr reg"
proof -
  have "distinct (map fst (all_names (command_profile frames nd re_compile)))"
    unfolding command_names by (simp add: pstr_simps)
  then show ?thesis
    by (auto simp: create_default_registry_def command_registry_new_def rbind_Inr_iff register_commands_iff)
qed

lemma executor_keeps_workspace_witness:
  "\<exists>reg s out s'. create_default_registry 100 (\<lambda>_. None) (\<lambda>_ _. Inl []) = Inr reg \<and>
     executor_execute (\<lambda>_. False) reg (Finite 1) sample_request sample_context s = (out, s') \<and>
     ws_inv (es_workspace s')"
proof -
  obtain reg where reg: "create_default_registry 100 (\<lambda>_. None) (\<lambda>_ _. Inl []) = Inr reg"
    using default_registry by blast
  obtain w where w: "ws_inv w" using empty_workspace by metis
  obtain out s' where run: "executor_execute (\<lambda>_. False) reg (Finite 1) sample_request sample_context
      (quiet_state w) = (out, s')" by (metis prod.collapse)
  have "ws_inv (es_workspace (quiet_state w))" "path_ok (xr_cwd sample_request)"
    using w by (simp_all add: quiet_state_def sample_request_def)
  from executor_keeps_workspace [OF reg this run] reg run show ?thesis by blast
qed

text \<open>
  C33: a command of the default profile that may stand in a pipeline leaves the workspace as it is and
  reports neither a directory nor environment changes, whatever it is given; so do failures.
\<close>

theorem pipeline_commands_read_only:
  assumes "c \<in> set (command_profile frames nd re_compile)" and "dc_pipeline_safe (vc_descriptor c)"
  shows "snd (vc_execute c r cx w) = w \<and>
    (\<forall>res. fst (vc_execute c r cx w) = Inr res \<longrightarrow> rs_resulting_cwd res = None \<and> rs_environment_changes res = [])"
proof -
  have "ensures (=) plain (vc_execute c r cx)"
    using assms unchanged.read_only_handlers unchanged.ensures_end unchanged.ensures_grep
    by (auto simp: command_profile_def first_wave_commands_def make_command_def head_execute_def tail_execute_def
        descriptor_def cd_descriptor_def mkdir_descriptor_def touch_descriptor_def rm_descriptor_def
        cp_descriptor_def mv_descriptor_def export_descriptor_def unset_descriptor_def)
  then show ?thesis unfolding ensures_def plain_def by metis
qed

lemma pipeline_commands_read_only_witness:
  "\<forall>r cx w. snd (pwd_execute r cx w) = w"
proof (intro allI)
  fix r cx w
  have "make_command pwd_descriptor pwd_execute \<in> set (command_profile 100 (\<lambda>_. None) (\<lambda>_ _. Inl []))"
    "dc_pipeline_safe (vc_descriptor (make_command pwd_descriptor pwd_execute))"
    by (simp_all add: command_profile_def first_wave_commands_def make_command_def pwd_descriptor_def descriptor_def)
  from pipeline_commands_read_only [OF this, of r cx w] show "snd (pwd_execute r cx w) = w"
    by (simp add: make_command_def)
qed

end
