(* ===== verification/Command_Properties.thy ===== *)
theory Command_Properties
  imports Command_Effects
begin

text \<open>
  What single commands compute: the walk of a subtree behind \<open>find\<close> and \<open>grep -r\<close> and the number of
  nested calls it needs, the lines \<open>sort\<close> prints, the records \<open>head\<close>, \<open>tail\<close> and \<open>uniq\<close> keep.
\<close>

declare tree_ok.simps(2) [simp del] nodes.simps(2) [simp del] content_bytes.simps(2) [simp del]
  inside.simps(2) [simp del] hash_rec.simps(2) [simp del]

section \<open>The walk of a subtree\<close>

fun height :: "node \<Rightarrow> nat" where
  "height (FileNode b) = 0"
| "height (DirNode cs) = foldr (\<lambda>x. max (Suc (height (snd x)))) cs 0"

lemma height_child: "foldr (\<lambda>x. max (Suc (f x))) cs 0 \<le> k \<longleftrightarrow> (\<forall>x \<in> set cs. f x < k)"
  by (induction cs) auto

lemma height_le: "height (DirNode cs) \<le> k \<longleftrightarrow> (\<forall>(name, child) \<in> set cs. height child < k)"
  by (auto simp: height_child)

text \<open>The reference: a directory before its children, the children in the order of their names.\<close>

function listing :: "int option \<Rightarrow> position \<Rightarrow> nat \<Rightarrow> node \<Rightarrow> walked list" where
  "listing md ps k (FileNode b) = [(path_of ps, k, FILE)]"
| "listing md ps k (DirNode cs) =
     (path_of ps, k, DIRECTORY) #
       (if \<exists>m. md = Some m \<and> m \<le> int k then []
        else concat (map (\<lambda>(name, child). listing md (ps @ [name]) (k + 1) child) (sort_key fst cs)))"
  by pat_completeness auto
termination
  by (relation "measure (\<lambda>(md, ps, k, n). size n)") (auto simp: less_Suc_eq_le intro!: size_list_estimation')

text \<open>A subtree of a workspace, with what the invariant says of it.\<close>

definition subtree :: "memory_workspace \<Rightarrow> position \<Rightarrow> node \<Rightarrow> bool" where
  "subtree w ps n \<longleftrightarrow>
     limits_ok (ws_limits w) \<and> list_all seg_ok ps \<and> tree_ok n \<and> inside (ws_limits w) ps n \<and>
     \<not> isl (hash_rec n) \<and> fits (ws_limits w) (path_of ps) \<and> lookup (DirNode (ws_root w)) ps = Some n"

lemma subtree_child:
  assumes "subtree w ps (DirNode cs)" and "(name, child) \<in> set cs"
  shows "subtree w (ps @ [name]) child"
proof -
  have m: "map_of cs name = Some child"
    using assms by (auto simp: subtree_def tree_ok.simps dict_ok_def)
  have "\<not> isl (hash_rec child)"
    using assms hash_rec_DirNode [of cs] by (cases "hash_rec (DirNode cs)") (auto simp: subtree_def)
  with assms m show ?thesis
    by (auto simp: subtree_def tree_ok.simps inside.simps lookup_append)
qed

lemma subtree_lookup: "subtree w ps n \<Longrightarrow> lookup n q = Some m \<Longrightarrow> subtree w (ps @ q) m"
proof (induction q arbitrary: ps n)
  case (Cons s q)
  then obtain cs c where "n = DirNode cs" "map_of cs s = Some c" "lookup c q = Some m"
    by (cases n) (auto split: option.splits)
  then show ?case
    using subtree_child [of w ps cs s c] Cons.IH [of "ps @ [s]" c] Cons.prems by (auto dest!: map_of_SomeD)
qed simp

lemma subtree_path: "subtree w ps n \<Longrightarrow> path_ok (path_of ps) \<and> path_parts (path_of ps) = ps"
  by (auto simp: subtree_def seg_ok_no_slash)

lemma descend:
  "tree_ok n \<Longrightarrow> inside l ps n \<Longrightarrow> \<not> isl (hash_rec n) \<Longrightarrow> lookup n q = Some m \<Longrightarrow>
     inside l (ps @ q) m \<and> \<not> isl (hash_rec m)"
proof (induction q arbitrary: ps n)
  case (Cons s q)
  then obtain cs c where n: "n = DirNode cs" and c: "(s, c) \<in> set cs" "lookup c q = Some m"
    by (cases n) (auto split: option.splits dest: map_of_SomeD)
  have "tree_ok c" "inside l (ps @ [s]) c"
    using Cons.prems(1,2) n c(1) by (auto simp: tree_ok.simps inside.simps)
  moreover have "\<not> isl (hash_rec c)"
    using Cons.prems(3) n c(1) hash_rec_DirNode [of cs] by (cases "hash_rec (DirNode cs)") auto
  ultimately have "inside l ((ps @ [s]) @ q) m \<and> \<not> isl (hash_rec m)" using Cons.IH c(2) by blast
  then show ?case by simp
qed simp

lemma subtree_origin:
  assumes "ws_inv w" and "path_ok p" and "fits (ws_limits w) p" and "lookup (DirNode (ws_root w)) (path_parts p) = Some n"
  shows "subtree w (path_parts p) n"
proof -
  obtain ps where ps: "p = path_of ps" "list_all seg_ok ps" using assms(2) by (rule path_ok_obtain)
  have whole: "limits_ok (ws_limits w)" "tree_ok (DirNode (ws_root w))" "inside (ws_limits w) [] (DirNode (ws_root w))"
    "\<not> isl (hash_rec (DirNode (ws_root w)))"
    using assms(1) by (auto simp: ws_inv_def state_ok_def)
  have "tree_ok n" using whole(2) assms(4) by (rule tree_ok_lookup)
  moreover have "inside (ws_limits w) ps n \<and> \<not> isl (hash_rec n)"
    using descend [of "DirNode (ws_root w)" "ws_limits w" "[]" ps n] whole assms(4) ps by (simp add: seg_ok_no_slash)
  ultimately show ?thesis
    using assms ps whole(1) by (simp add: subtree_def seg_ok_no_slash)
qed

lemma stat_subtree:
  assumes "subtree w ps n"
  shows "\<exists>e. ws_stat w (path_of ps) = Inr e \<and> we_path e = path_of ps \<and> we_kind e = node_kind n"
proof -
  have "validate_path (ws_limits w) (path_of ps) = Inr (path_of ps)"
    using validate_path_iff subtree_path [OF assms] assms by (auto simp: subtree_def)
  moreover have "get_node (ws_root w) (path_of ps) = Inr n"
    using assms subtree_path [OF assms] by (auto simp: get_node_ok subtree_def)
  moreover have "\<not> isl (node_hash n)" using assms by (simp add: subtree_def node_hash_eq)
  ultimately show ?thesis by (cases "node_hash n") (auto simp: ws_stat_def entry_def)
qed

lemma list_subtree:
  assumes "subtree w ps (DirNode cs)"
  shows "\<exists>es. ws_list w (path_of ps) = Inr es \<and>
    map we_path es = map (\<lambda>(name, child). path_of (ps @ [name])) (sort_key fst cs)"
proof -
  let ?f = "\<lambda>(name, child). rbind (join_child (ws_limits w) (path_of ps) name) (\<lambda>q. entry q child (ws_revision (ws_stats w)))"
  let ?g = "\<lambda>(name, child). \<lparr>we_path = path_of (ps @ [name]), we_kind = node_kind child,
      we_size_bytes = (case child of FileNode b \<Rightarrow> int (length b) | DirNode _ \<Rightarrow> 0),
      we_content_hash = projr (node_hash child), we_revision = ws_revision (ws_stats w)\<rparr>"
  have "?f x = Inr (?g x)" if "x \<in> set (sort_key fst cs)" for x
  proof -
    obtain name child where x0: "x = (name, child)" by (cases x)
    with that have x: "x = (name, child)" "(name, child) \<in> set cs" by simp_all
    note c = subtree_child [OF assms x(2)]
    have "join_child (ws_limits w) (path_of ps) name = Inr (path_of (ps @ [name]))"
      using c by (subst join_child_ok) (auto simp: subtree_def)
    moreover have "\<not> isl (node_hash child)" using c by (simp add: subtree_def node_hash_eq)
    ultimately show ?thesis using x(1) by (cases "node_hash child") (auto simp: entry_def)
  qed
  then have "rmap ?f (sort_key fst cs) = Inr (map ?g (sort_key fst cs))" by (rule rmap_all_Inr)
  moreover have "validate_path (ws_limits w) (path_of ps) = Inr (path_of ps)"
    using validate_path_iff subtree_path [OF assms] assms by (auto simp: subtree_def)
  moreover have "get_node (ws_root w) (path_of ps) = Inr (DirNode cs)"
    using assms subtree_path [OF assms] by (auto simp: get_node_ok subtree_def)
  ultimately show ?thesis by (auto simp: ws_list_def split: prod.splits)
qed

lemma rmap_raises:
  assumes "\<And>x. x \<in> set xs \<Longrightarrow> f x = Inl e \<or> \<not> isl (f x)" and "\<exists>x \<in> set xs. f x = Inl e"
  shows "rmap f xs = Inl e"
  using assms
proof (induction xs)
  case (Cons x xs)
  then show ?case
  proof (cases "f x")
    case (Inr y)
    with Cons show ?thesis by auto
  qed (use Cons.prems(1) [of x] in auto)
qed simp

lemma visit_subtree:
  assumes "subtree w ps n"
  shows "(height n < frames \<longrightarrow> visit frames w md (path_of ps) k = Inr (listing md ps k n)) \<and>
    (frames \<le> height n \<longrightarrow> md = None \<longrightarrow> visit frames w md (path_of ps) k = Inl recursion_error)"
  using assms
proof (induction frames arbitrary: ps k n)
  case (Suc frames)
  obtain e where e: "ws_stat w (path_of ps) = Inr e" "we_path e = path_of ps" "we_kind e = node_kind n"
    using stat_subtree [OF Suc.prems] by blast
  show ?case
  proof (cases n)
    case (FileNode b)
    with e show ?thesis by (simp add: node_kind_def)
  next
    case (DirNode cs)
    obtain es where es: "ws_list w (path_of ps) = Inr es"
      "map we_path es = map (\<lambda>(name, child). path_of (ps @ [name])) (sort_key fst cs)"
      using list_subtree Suc.prems DirNode by blast
    let ?v = "\<lambda>x. visit frames w md (path_of (ps @ [fst x])) (Suc k)"
    have "rmap (\<lambda>child. visit frames w md (we_path child) (Suc k)) es =
        rmap (\<lambda>p. visit frames w md p (Suc k)) (map we_path es)"
      by (simp add: rmap_map comp_def)
    also have "\<dots> = rmap ?v (sort_key fst cs)" using es(2) by (simp add: rmap_map comp_def case_prod_unfold)
    finally have parts: "rmap (\<lambda>child. visit frames w md (we_path child) (Suc k)) es = rmap ?v (sort_key fst cs)" .
    have step: "visit (Suc frames) w md (path_of ps) k =
        (if \<exists>m. md = Some m \<and> m \<le> int k then Inr [(path_of ps, k, DIRECTORY)]
         else rbind (rmap ?v (sort_key fst cs)) (\<lambda>xs. Inr ((path_of ps, k, DIRECTORY) # concat xs)))"
      using e es(1) DirNode by (simp add: node_kind_def parts cong: if_cong)
    have IH: "(height (snd x) < frames \<longrightarrow> ?v x = Inr (listing md (ps @ [fst x]) (Suc k) (snd x))) \<and>
        (frames \<le> height (snd x) \<longrightarrow> md = None \<longrightarrow> ?v x = Inl recursion_error)" if "x \<in> set cs" for x
      using Suc.IH [OF subtree_child [of w ps cs "fst x" "snd x"]] Suc.prems that DirNode by simp
    have "rmap ?v (sort_key fst cs) =
        Inr (map (\<lambda>x. listing md (ps @ [fst x]) (Suc k) (snd x)) (sort_key fst cs))" if "height n < Suc frames"
      using IH that DirNode height_le [of cs frames] by (intro rmap_all_Inr) (auto simp del: height.simps)
    moreover have "rmap ?v (sort_key fst cs) = Inl recursion_error" if "Suc frames \<le> height n" "md = None"
    proof (rule rmap_raises)
      show "?v x = Inl recursion_error \<or> \<not> isl (?v x)" if "x \<in> set (sort_key fst cs)" for x
        using IH [of x] that \<open>md = None\<close> by (cases "height (snd x) < frames") auto
      have "\<not> height (DirNode cs) \<le> frames" using that(1) DirNode by simp
      then obtain x where "x \<in> set cs" "frames \<le> height (snd x)"
        unfolding height_le by (auto simp: not_less)
      then show "\<exists>x \<in> set (sort_key fst cs). ?v x = Inl recursion_error"
        using IH [of x] that(2) by (auto intro!: bexI [of _ x])
    qed
    ultimately show ?thesis
      unfolding step using DirNode by (auto simp: case_prod_unfold simp del: height.simps)
  qed
qed simp

lemma set_listing:
  "tree_ok n \<Longrightarrow> x \<in> set (listing None ps k n) \<longleftrightarrow>
     (\<exists>q m. lookup n q = Some m \<and> x = (path_of (ps @ q), k + length q, node_kind m))"
proof (induction "None :: int option" ps k n rule: listing.induct)
  case (1 ps k b)
  have "lookup (FileNode b) q = Some m \<longleftrightarrow> q = [] \<and> m = FileNode b" for q m by (cases q) auto
  then show ?case by (auto simp: node_kind_def)
next
  case (2 ps k cs)
  have IH: "x \<in> set (listing None (ps @ [s]) (k + 1) c) \<longleftrightarrow>
      (\<exists>q m. lookup c q = Some m \<and> x = (path_of ((ps @ [s]) @ q), k + 1 + length q, node_kind m))"
    if "(s, c) \<in> set cs" for s c
  proof -
    have "tree_ok c" using "2.prems" that by (auto simp: tree_ok.simps)
    then show ?thesis using "2.hyps" [of "(s, c)" s c] that by simp
  qed
  have m: "map_of cs s = Some c \<longleftrightarrow> (s, c) \<in> set cs" for s c
    using "2.prems" by (simp add: tree_ok.simps dict_ok_def map_of_eq_Some_iff)
  have "x \<in> set (listing None ps k (DirNode cs)) \<longleftrightarrow>
      x = (path_of ps, k, DIRECTORY) \<or> (\<exists>(s, c) \<in> set cs. x \<in> set (listing None (ps @ [s]) (k + 1) c))"
    by auto
  also have "\<dots> \<longleftrightarrow> x = (path_of ps, k, DIRECTORY) \<or>
      (\<exists>s c q m. (s, c) \<in> set cs \<and> lookup c q = Some m \<and> x = (path_of (ps @ s # q), k + length (s # q), node_kind m))"
    using IH by fastforce
  also have "\<dots> \<longleftrightarrow> (\<exists>q m. lookup (DirNode cs) q = Some m \<and> x = (path_of (ps @ q), k + length q, node_kind m))"
    (is "_ \<or> ?below \<longleftrightarrow> ?all")
  proof
    assume "x = (path_of ps, k, DIRECTORY) \<or> ?below"
    then show ?all
    proof
      assume "x = (path_of ps, k, DIRECTORY)"
      then show ?all by (intro exI [of _ "[]"] exI [of _ "DirNode cs"]) (simp add: node_kind_def)
    next
      assume ?below
      then obtain s c q m' where "(s, c) \<in> set cs" "lookup c q = Some m'"
        "x = (path_of (ps @ s # q), k + length (s # q), node_kind m')" by blast
      then show ?all by (intro exI [of _ "s # q"] exI [of _ m']) (simp add: m [THEN iffD2])
    qed
  next
    assume ?all
    then obtain q m' where q: "lookup (DirNode cs) q = Some m'" "x = (path_of (ps @ q), k + length q, node_kind m')" by blast
    then show "x = (path_of ps, k, DIRECTORY) \<or> ?below"
      by (cases q) (auto simp: m node_kind_def split: option.splits)
  qed
  finally show ?case .
qed

text \<open>
  C32: the walk of \<open>find\<close> and \<open>grep -r\<close> returns if and only if the interpreter allows more nested
  calls than the subtree has levels below its origin; it then lists every node of the subtree once per
  position with its depth and kind, a directory before its children and these in the order of their
  names, cut below the maximal depth; with fewer calls it raises the recursion error.
\<close>

theorem walk_returns:
  assumes "ws_inv w" and "path_ok p" and "fits (ws_limits w) p"
    and "lookup (DirNode (ws_root w)) (path_parts p) = Some n"
  shows "((\<exists>found. walk frames w None p = Inr found) \<longleftrightarrow> height n < frames) \<and>
    (height n < frames \<longrightarrow> walk frames w md p = Inr (listing md (path_parts p) 0 n)) \<and>
    (frames \<le> height n \<longrightarrow> walk frames w None p = Inl recursion_error) \<and>
    set (listing None (path_parts p) 0 n) =
      {(path_of (path_parts p @ q), length q, node_kind m) | q m. lookup n q = Some m}"
proof -
  have sub: "subtree w (path_parts p) n" by (rule subtree_origin) (rule assms)+
  have p: "path_of (path_parts p) = p" using assms(2) by (rule path_ok_obtain) (simp add: seg_ok_no_slash)
  have v: "height n < frames \<Longrightarrow> walk frames w md' p = Inr (listing md' (path_parts p) 0 n)"
    "frames \<le> height n \<Longrightarrow> walk frames w None p = Inl recursion_error" for md'
    using visit_subtree [OF sub, of frames _ 0] p by (auto simp: walk_def)
  then have "(\<exists>found. walk frames w None p = Inr found) \<longleftrightarrow> height n < frames"
    by (cases "height n < frames") auto
  moreover have "tree_ok n" using sub by (simp add: subtree_def)
  then have "set (listing None (path_parts p) 0 n) =
      {(path_of (path_parts p @ q), length q, node_kind m) | q m. lookup n q = Some m}"
    by (intro set_eqI) (simp add: set_listing conj_commute)
  ultimately show ?thesis using v by blast
qed

lemma walk_returns_witness:
  "\<exists>w. walk 1 w None root_path = Inr [(root_path, 0, DIRECTORY)] \<and> walk 0 w None root_path = Inl recursion_error"
proof -
  obtain w where w: "ws_inv w" "ws_limits w = default_limits" "ws_root w = []"
    using empty_workspace by metis
  have "fits (ws_limits w) root_path"
    using w(2) path_parts_path_of [of "[]"]
    by (simp add: fits_def path_fits_def text_fits_def root_path_def ROOT_def workspace_segment_def utf8_char_def
        is_scalar_def is_surrogate_def pstr_simps default_limits_def)
  moreover have "lookup (DirNode (ws_root w)) (path_parts root_path) = Some (DirNode [])"
    using w(3) path_parts_path_of [of "[]"] by simp
  ultimately show ?thesis
    using walk_returns [of w root_path "DirNode []" 1 None] walk_returns [of w root_path "DirNode []" 0 None] w(1)
      path_parts_path_of [of "[]"] by auto
qed

section \<open>Sorted lines\<close>

lemma map_insort_key: "map f (insort_key (\<lambda>x. g (f x)) x xs) = insort_key g (f x) (map f xs)"
  by (induction xs) auto

lemma map_sort_key_comp: "map f (sort_key (\<lambda>x. g (f x)) xs) = sort_key g (map f xs)"
  by (induction xs) (auto simp: map_insort_key)

lemma unique_by_map: "unique_by (\<lambda>x. g (f x)) p xs = ys \<Longrightarrow> unique_by g p (map f xs) = map f ys"
  by (induction xs arbitrary: p ys) auto

lemma sort_lines_by_map:
  "sort_lines_by g reverse unique (map f xs) = map f (sort_lines_by (\<lambda>x. g (f x)) reverse unique xs)"
  by (simp add: sort_lines_by_def stable_sort_def Let_def rev_map flip: map_sort_key_comp unique_by_map)

text \<open>One element of every run of equal keys remains, the first.\<close>

lemma unique_by_sorted:
  assumes anti: "\<forall>a b. le a b \<longrightarrow> le b a \<longrightarrow> a = b"
  shows "sorted_wrt (\<lambda>x y. le (key x) (key y)) xs \<Longrightarrow> (\<And>p x. prev = Some p \<Longrightarrow> x \<in> set xs \<Longrightarrow> le p (key x)) \<Longrightarrow>
     sorted_wrt (\<lambda>x y. le (key x) (key y) \<and> key x \<noteq> key y) (unique_by key prev xs) \<and>
     set (unique_by key prev xs) \<subseteq> set xs \<and>
     (\<forall>k. filter (\<lambda>x. key x = k) (unique_by key prev xs) =
        (if prev = Some k then [] else take 1 (filter (\<lambda>x. key x = k) xs)))"
proof (induction key prev xs rule: unique_by.induct)
  case (2 key prev x xs)
  have sorted: "sorted_wrt (\<lambda>x y. le (key x) (key y)) xs" and le: "\<forall>y \<in> set xs. le (key x) (key y)"
    using "2.prems"(1) by auto
  have rest: "sorted_wrt (\<lambda>x y. le (key x) (key y) \<and> key x \<noteq> key y) (unique_by key (Some (key x)) xs)"
    "set (unique_by key (Some (key x)) xs) \<subseteq> set xs"
    "\<And>k. filter (\<lambda>y. key y = k) (unique_by key (Some (key x)) xs) =
       (if key x = k then [] else take 1 (filter (\<lambda>y. key y = k) xs))"
  proof -
    have "le p (key y)" if "Some (key x) = Some p" "y \<in> set xs" for p y using le that by simp
    then have r: "sorted_wrt (\<lambda>x y. le (key x) (key y) \<and> key x \<noteq> key y) (unique_by key (Some (key x)) xs) \<and>
        set (unique_by key (Some (key x)) xs) \<subseteq> set xs \<and>
        (\<forall>k. filter (\<lambda>y. key y = k) (unique_by key (Some (key x)) xs) =
          (if Some (key x) = Some k then [] else take 1 (filter (\<lambda>y. key y = k) xs)))"
      using "2.IH" [OF _ sorted] by (cases "prev = Some (key x)") blast+
    then show "sorted_wrt (\<lambda>x y. le (key x) (key y) \<and> key x \<noteq> key y) (unique_by key (Some (key x)) xs)"
      "set (unique_by key (Some (key x)) xs) \<subseteq> set xs"
      "\<And>k. filter (\<lambda>y. key y = k) (unique_by key (Some (key x)) xs) =
         (if key x = k then [] else take 1 (filter (\<lambda>y. key y = k) xs))" by simp_all
  qed
  show ?case
  proof (cases "prev = Some (key x)")
    case True
    with rest show ?thesis by auto
  next
    case False
    have "key y \<noteq> key x" if "y \<in> set (unique_by key (Some (key x)) xs)" for y
      using rest(3) [of "key x"] that by (auto simp: filter_empty_conv)
    with rest(1,2) le have s: "sorted_wrt (\<lambda>x y. le (key x) (key y) \<and> key x \<noteq> key y) (x # unique_by key (Some (key x)) xs)"
      by (simp add: subset_iff) metis
    have none: "filter (\<lambda>y. key y = k) xs = []" if "prev = Some k" for k
    proof -
      have "le k (key x)" using "2.prems"(2) that by simp
      moreover have "k \<noteq> key x" using False that by simp
      ultimately have "key y \<noteq> k" if "y \<in> set xs" for y using le that anti by metis
      then show ?thesis by (simp add: filter_empty_conv)
    qed
    have "filter (\<lambda>y. key y = k) (x # unique_by key (Some (key x)) xs) =
        (if prev = Some k then [] else take 1 (filter (\<lambda>y. key y = k) (x # xs)))" for k
      using rest(3) [of k] False none [of k] by auto
    with s rest(2) False show ?thesis by auto
  qed
qed simp

text \<open>The order of lines that \<open>sort\<close> prints: by value, or by their bytes.\<close>

definition line_le :: "(nat \<Rightarrow> nat option) \<Rightarrow> bool \<Rightarrow> pystr \<Rightarrow> pystr \<Rightarrow> bool" where
  "line_le nd numeric a b =
     (if numeric then numeric_sort_key nd a \<le> numeric_sort_key nd b
      else the (utf8_encode a) \<le> the (utf8_encode b))"

definition line_eq :: "(nat \<Rightarrow> nat option) \<Rightarrow> bool \<Rightarrow> pystr \<Rightarrow> pystr \<Rightarrow> bool" where
  "line_eq nd numeric a b \<longleftrightarrow> line_le nd numeric a b \<and> line_le nd numeric b a"

lemma stable_sort_spec:
  "sorted_wrt (\<lambda>x y. if reverse then key y \<le> key x else key x \<le> key y) (stable_sort key reverse xs)"
  "filter (\<lambda>x. key x = k) (stable_sort key reverse xs) = filter (\<lambda>x. key x = k) xs"
proof -
  have "sorted_wrt (\<lambda>x y. key x \<le> key y) (sort_key key ys)" for ys
    using sorted_sort_key [of key ys] by (simp add: sorted_map)
  then show "sorted_wrt (\<lambda>x y. if reverse then key y \<le> key x else key x \<le> key y) (stable_sort key reverse xs)"
    by (simp add: stable_sort_def sorted_wrt_rev)
  have "filter (\<lambda>x. key x = k) (sort_key key ys) = filter (\<lambda>x. key x = k) ys" for ys
    by (metis sort_key_stable)
  then show "filter (\<lambda>x. key x = k) (stable_sort key reverse xs) = filter (\<lambda>x. key x = k) xs"
    by (simp add: stable_sort_def flip: rev_filter)
qed

lemma sort_lines_by_spec:
  "sorted_wrt (\<lambda>x y. (if reverse then key y \<le> key x else key x \<le> key y) \<and> (unique \<longrightarrow> key x \<noteq> key y))
     (sort_lines_by key reverse unique xs) \<and>
   filter (\<lambda>x. key x = k) (sort_lines_by key reverse unique xs) =
     (if unique then take 1 (filter (\<lambda>x. key x = k) xs) else filter (\<lambda>x. key x = k) xs)"
proof (cases unique)
  case True
  have "sorted_wrt (\<lambda>x y. (if reverse then key y \<le> key x else key x \<le> key y) \<and> key x \<noteq> key y)
      (unique_by key None (stable_sort key reverse xs)) \<and>
    filter (\<lambda>x. key x = k) (unique_by key None (stable_sort key reverse xs)) =
      take 1 (filter (\<lambda>x. key x = k) (stable_sort key reverse xs))"
  proof -
    have anti: "\<forall>a b :: 'b. (if reverse then b \<le> a else a \<le> b) \<longrightarrow> (if reverse then a \<le> b else b \<le> a) \<longrightarrow> a = b"
      by auto
    show ?thesis
      using unique_by_sorted [where le = "\<lambda>a b. if reverse then b \<le> a else a \<le> b" and prev = None
          and key = key and xs = "stable_sort key reverse xs", OF anti stable_sort_spec(1)] by (simp split del: if_split)
  qed
  with True show ?thesis by (simp add: sort_lines_by_def stable_sort_spec(2))
next
  case False
  then show ?thesis using stable_sort_spec [where key = key and reverse = reverse and xs = xs]
    by (simp add: sort_lines_by_def)
qed

lemma sort_lines_by_le:
  assumes "\<And>a b. le a b \<longleftrightarrow> key a \<le> (key b :: 'k::linorder)"
  shows "sorted_wrt (\<lambda>a b. (if reverse then le b a else le a b) \<and> (unique \<longrightarrow> \<not> (le a b \<and> le b a)))
      (sort_lines_by key reverse unique xs) \<and>
    filter (\<lambda>b. le a b \<and> le b a) (sort_lines_by key reverse unique xs) =
      (if unique then take 1 (filter (\<lambda>b. le a b \<and> le b a) xs) else filter (\<lambda>b. le a b \<and> le b a) xs)"
proof -
  have eq: "le a b \<and> le b a \<longleftrightarrow> key b = key a" "le a b \<and> le b a \<longleftrightarrow> key a = key b" for a b
    using assms by auto
  have "(\<lambda>a b. (if reverse then le b a else le a b) \<and> (unique \<longrightarrow> \<not> (le a b \<and> le b a))) =
      (\<lambda>x y. (if reverse then key y \<le> key x else key x \<le> key y) \<and> (unique \<longrightarrow> key x \<noteq> key y))"
    by (intro ext) (auto simp: assms)
  moreover have "(\<lambda>b. le a b \<and> le b a) = (\<lambda>b. key b = key a)" using eq(1) by simp
  ultimately show ?thesis using sort_lines_by_spec [of reverse key unique xs] by simp
qed

lemma sort_lines_eq:
  "sort_lines nd numeric reverse unique lines = Inr out \<longleftrightarrow>
     (numeric \<or> list_all encodable lines) \<and>
     out = (if numeric then sort_lines_by (numeric_sort_key nd) reverse unique lines
            else sort_lines_by (\<lambda>x. the (utf8_encode x)) reverse unique lines)"
proof -
  have "rmap encode_text lines = Inr keys \<longleftrightarrow> list_all encodable lines \<and> keys = map (\<lambda>x. the (utf8_encode x)) lines" for keys
    by (induction lines arbitrary: keys)
       (auto simp: rbind_Inr_iff encode_text_def encodable_def split: option.splits)
  moreover have "map snd (sort_lines_by fst reverse unique (zip (map (\<lambda>x. the (utf8_encode x)) lines) lines)) =
      sort_lines_by (\<lambda>x. the (utf8_encode x)) reverse unique lines"
    by (simp add: zip_map1 zip_same_conv_map sort_lines_by_map [of fst] comp_def)
  ultimately show ?thesis by (auto simp: sort_lines_def rbind_Inr_iff)
qed

text \<open>
  C34: \<open>sort\<close> returns for every input that is valid text, in the order asked for; for every line it
  prints exactly the input lines of the same key, in their input order, and with \<open>-u\<close> the first of
  them only.
\<close>

theorem sort_lines_sorted:
  "((\<exists>out. sort_lines nd numeric reverse unique lines = Inr out) \<longleftrightarrow> numeric \<or> list_all encodable lines) \<and>
   (\<forall>out. sort_lines nd numeric reverse unique lines = Inr out \<longrightarrow>
      sorted_wrt (\<lambda>a b. (if reverse then line_le nd numeric b a else line_le nd numeric a b) \<and>
        (unique \<longrightarrow> \<not> line_eq nd numeric a b)) out \<and>
      (\<forall>a. filter (line_eq nd numeric a) out =
         (if unique then take 1 (filter (line_eq nd numeric a) lines) else filter (line_eq nd numeric a) lines)))"
proof (intro conjI allI impI)
  show "(\<exists>out. sort_lines nd numeric reverse unique lines = Inr out) \<longleftrightarrow> numeric \<or> list_all encodable lines"
    by (auto simp: sort_lines_eq)
next
  fix out a
  assume out: "sort_lines nd numeric reverse unique lines = Inr out"
  have "sorted_wrt (\<lambda>a b. (if reverse then line_le nd numeric b a else line_le nd numeric a b) \<and>
      (unique \<longrightarrow> \<not> line_eq nd numeric a b)) out \<and>
    filter (line_eq nd numeric a) out =
      (if unique then take 1 (filter (line_eq nd numeric a) lines) else filter (line_eq nd numeric a) lines)" for a
  proof (cases numeric)
    case True
    have le: "line_le nd numeric a b \<longleftrightarrow> numeric_sort_key nd a \<le> numeric_sort_key nd b" for a b
      using True by (simp add: line_le_def)
    have "out = sort_lines_by (numeric_sort_key nd) reverse unique lines" using out True by (simp add: sort_lines_eq)
    then show ?thesis
      using sort_lines_by_le [of "line_le nd numeric" "numeric_sort_key nd" reverse unique lines a, OF le]
      unfolding line_eq_def [abs_def] by blast
  next
    case False
    have le: "line_le nd numeric a b \<longleftrightarrow> the (utf8_encode a) \<le> the (utf8_encode b)" for a b
      using False by (simp add: line_le_def)
    have "out = sort_lines_by (\<lambda>x. the (utf8_encode x)) reverse unique lines" using out False by (simp add: sort_lines_eq)
    then show ?thesis
      using sort_lines_by_le [of "line_le nd numeric" "\<lambda>x. the (utf8_encode x)" reverse unique lines a, OF le]
      unfolding line_eq_def [abs_def] by blast
  qed
  then show "sorted_wrt (\<lambda>a b. (if reverse then line_le nd numeric b a else line_le nd numeric a b) \<and>
      (unique \<longrightarrow> \<not> line_eq nd numeric a b)) out"
    and "filter (line_eq nd numeric a) out =
      (if unique then take 1 (filter (line_eq nd numeric a) lines) else filter (line_eq nd numeric a) lines)"
    by blast+
qed

section \<open>Adjacent duplicates\<close>

text \<open>
  The groups of \<open>uniq\<close> repeat to exactly the records they stand for, none is empty, and no two
  neighbours have the same text.
\<close>

theorem uniq_groups_expand:
  "concat (map (\<lambda>(n, line). replicate n line) (uniq_groups rs)) = rs \<and>
   (\<forall>(n, line) \<in> set (uniq_groups rs). 0 < n) \<and>
   (\<forall>i. Suc i < length (uniq_groups rs) \<longrightarrow> snd (uniq_groups rs ! i) \<noteq> snd (uniq_groups rs ! Suc i))"
proof (induction rs rule: uniq_groups.induct)
  case (2 r rs)
  let ?same = "takeWhile (\<lambda>x. x = r) rs" and ?rest = "dropWhile (\<lambda>x. x = r) rs"
  have "replicate (length ?same) r = ?same"
    by (rule replicate_length_same) (auto dest: set_takeWhileD)
  then have "concat (map (\<lambda>(n, line). replicate n line) (uniq_groups (r # rs))) = r # rs"
    using 2 by (simp add: takeWhile_dropWhile_id)
  moreover have "snd (hd (uniq_groups ?rest)) \<noteq> r" if "uniq_groups ?rest \<noteq> []"
    using that hd_dropWhile [of "\<lambda>x. x = r" rs] by (cases ?rest) auto
  then have "snd (uniq_groups (r # rs) ! i) \<noteq> snd (uniq_groups (r # rs) ! Suc i)"
    if "Suc i < length (uniq_groups (r # rs))" for i
    using 2 that by (cases i) (auto simp: hd_conv_nth)
  ultimately show ?case using 2 by auto
qed simp

lemma sort_lines_sorted_witness:
  "\<exists>out. sort_lines (\<lambda>_. None) True False True [[50], [49]] = Inr out \<and>
     sorted_wrt (\<lambda>a b. line_le (\<lambda>_. None) True a b \<and> \<not> line_eq (\<lambda>_. None) True a b) out"
  using sort_lines_sorted [of "\<lambda>_. None" True False True "[[50], [49]]"] by auto

end
