(* ===== verification/Py_Json.thy ===== *)
theory Py_Json
  imports Identifiers
begin

text \<open>
  \<open>json.dumps\<close> of the standard library with \<open>ensure_ascii=False\<close>, compact separators and sorted keys.
  The text of a float is the parameter \<open>float_repr\<close>.
\<close>

datatype json =
    JNull
  | JBool bool
  | JInt int
  | JFloat py_float
  | JString pystr
  | JArray "json list"
  | JObject "(pystr \<times> json) list"

definition json_char :: "nat \<Rightarrow> pystr" where
  "json_char c =
     (if c = 34 then [92, 34]
      else if c = 92 then [92, 92]
      else if c = 10 then [92, 110]
      else if c = 13 then [92, 114]
      else if c = 9 then [92, 116]
      else if c = 12 then [92, 102]
      else if c = 8 then [92, 98]
      else if c < 32 then [92, 117] @ hex_fixed 4 c
      else [c])"

definition json_string :: "pystr \<Rightarrow> pystr" where
  "json_string s = [34] @ concat (map json_char s) @ [34]"

function json_dumps :: "(py_float \<Rightarrow> pystr) \<Rightarrow> json \<Rightarrow> pystr" where
  "json_dumps float_repr JNull = pstr ''null''"
| "json_dumps float_repr (JBool b) = (if b then pstr ''true'' else pstr ''false'')"
| "json_dumps float_repr (JInt i) = str_int i"
| "json_dumps float_repr (JFloat x) = float_repr x"
| "json_dumps float_repr (JString s) = json_string s"
| "json_dumps float_repr (JArray xs) = [91] @ join_with [44] (map (json_dumps float_repr) xs) @ [93]"
| "json_dumps float_repr (JObject kvs) =
     [123] @ join_with [44] (map (\<lambda>(k, v). json_string k @ [58] @ json_dumps float_repr v) (sort_key fst kvs)) @ [125]"
  by pat_completeness auto
termination
  by (relation "measure (\<lambda>(f, j). size j)")
     (auto simp: less_Suc_eq_le intro!: size_list_estimation')

end
