(* ===== verification/Event_Models.thy ===== *)
theory Event_Models
  imports Py_Json Command_Output
begin

text \<open>
  \<open>events/models.py\<close>: classified attributes, events and their canonical bytes. The constructors that
  accept the text of an enum convert it; the model's arguments are the enums themselves.
\<close>

section \<open>Enums\<close>

datatype event_category = LIFECYCLE | OPERATION | SNAPSHOT_CATEGORY | SERVICE_LIFECYCLE

datatype event_sensitivity = PUBLIC_DATA | INTERNAL_DATA | PROTECTED_DATA | SECRET_DATA

fun sensitivity_value :: "event_sensitivity \<Rightarrow> string" where
  "sensitivity_value PUBLIC_DATA = ''public''"
| "sensitivity_value INTERNAL_DATA = ''internal''"
| "sensitivity_value PROTECTED_DATA = ''protected''"
| "sensitivity_value SECRET_DATA = ''secret''"

datatype event_type =
    SANDBOX_CREATED | SANDBOX_DELETED | SANDBOX_STARTED | SANDBOX_CLOSING | SANDBOX_CLOSED | SANDBOX_FAILED
  | OPERATION_STARTED | OPERATION_COMPLETED | OPERATION_FAILED | OPERATION_CANCELLED | OPERATION_TIMED_OUT
  | SNAPSHOT_CREATED | SNAPSHOT_RESTORED

fun event_type_value :: "event_type \<Rightarrow> string" where
  "event_type_value SANDBOX_CREATED = ''sandbox.created''"
| "event_type_value SANDBOX_DELETED = ''sandbox.deleted''"
| "event_type_value SANDBOX_STARTED = ''sandbox.started''"
| "event_type_value SANDBOX_CLOSING = ''sandbox.closing''"
| "event_type_value SANDBOX_CLOSED = ''sandbox.closed''"
| "event_type_value SANDBOX_FAILED = ''sandbox.failed''"
| "event_type_value OPERATION_STARTED = ''operation.started''"
| "event_type_value OPERATION_COMPLETED = ''operation.completed''"
| "event_type_value OPERATION_FAILED = ''operation.failed''"
| "event_type_value OPERATION_CANCELLED = ''operation.cancelled''"
| "event_type_value OPERATION_TIMED_OUT = ''operation.timed_out''"
| "event_type_value SNAPSHOT_CREATED = ''snapshot.created''"
| "event_type_value SNAPSHOT_RESTORED = ''snapshot.restored''"

definition event_type_category :: "event_type \<Rightarrow> event_category" where
  "event_type_category t =
     (if t \<in> {SANDBOX_CREATED, SANDBOX_DELETED} then SERVICE_LIFECYCLE
      else if startswith (event_type_value t) ''sandbox.'' then LIFECYCLE
      else if startswith (event_type_value t) ''operation.'' then OPERATION
      else SNAPSHOT_CATEGORY)"

section \<open>Attributes\<close>

datatype event_value =
    EvText pystr
  | EvInt int
  | EvFloat py_float
  | EvBool bool
  | EvNone

record event_attribute =
  at_name :: pystr
  at_value :: event_value
  at_sensitivity :: event_sensitivity

abbreviation event_value_error :: "pystr \<Rightarrow> sandbox_error" where
  "event_value_error m \<equiv> Raise (Builtin ValueError) m"

definition event_attribute_new :: "pystr \<Rightarrow> event_value \<Rightarrow> event_sensitivity \<Rightarrow> event_attribute result" where
  "event_attribute_new name v s =
     rbind (guard (name \<noteq> []) (event_value_error (pstr ''event attribute name must not be empty''))) (\<lambda>_.
     rbind (guard (\<forall>x. v = EvFloat x \<longrightarrow> (\<exists>q. x = Finite q))
       (event_value_error (pstr ''event float attribute values must be finite''))) (\<lambda>_.
     Inr \<lparr>at_name = name, at_value = v, at_sensitivity = s\<rparr>))"

section \<open>Events\<close>

definition require_sequence :: "int \<Rightarrow> unit result" where
  "require_sequence n = guard (\<not> n \<le> 0) (event_value_error (pstr ''sequence must be positive''))"

record event_id =
  ei_session_id :: session_id
  ei_sequence :: int

definition event_id_new :: "session_id \<Rightarrow> int \<Rightarrow> event_id result" where
  "event_id_new s n = rbind (require_sequence n) (\<lambda>_. Inr \<lparr>ei_session_id = s, ei_sequence = n\<rparr>)"

definition event_id_str :: "event_id \<Rightarrow> pystr" where
  "event_id_str i = identifier_str (ei_session_id i) @ [58] @ str_int (ei_sequence i)"

record sandbox_event =
  ev_type :: event_type
  ev_occurred_at :: py_datetime
  ev_session_id :: session_id
  ev_sequence :: int
  ev_operation_id :: "operation_id option"
  ev_parent_operation_id :: "operation_id option"
  ev_operation_kind :: "operation_kind option"
  ev_attributes :: "event_attribute list"

definition order_attributes :: "event_attribute list \<Rightarrow> event_attribute list result" where
  "order_attributes as =
     rbind (rmap (\<lambda>a. encode_text (at_name a)) as) (\<lambda>keys.
     Inr (map snd (sort_key fst (zip keys as))))"

definition sandbox_event_new :: "sandbox_event \<Rightarrow> sandbox_event result" where
  "sandbox_event_new e =
     rbind (require_aware_utc (pstr ''occurred_at'') (ev_occurred_at e)) (\<lambda>_.
     rbind (require_sequence (ev_sequence e)) (\<lambda>_.
     rbind (order_attributes (ev_attributes e)) (\<lambda>ordered.
     rbind (guard (card (at_name ` set ordered) = length ordered)
       (event_value_error (pstr ''event attribute names must not contain duplicates''))) (\<lambda>_.
     Inr (e\<lparr>ev_attributes := ordered\<rparr>)))))"

definition ev_event_id :: "sandbox_event \<Rightarrow> event_id result" where
  "ev_event_id e = event_id_new (ev_session_id e) (ev_sequence e)"

definition ev_category :: "sandbox_event \<Rightarrow> event_category" where
  "ev_category e = event_type_category (ev_type e)"

section \<open>Limits and policies\<close>

record event_payload_limits =
  max_attributes :: int
  max_attribute_name_bytes :: int
  max_string_bytes :: int
  max_event_bytes :: int

definition default_payload_limits :: event_payload_limits where
  "default_payload_limits = \<lparr>max_attributes = 32, max_attribute_name_bytes = 64, max_string_bytes = 1024,
     max_event_bytes = 16 * 1024\<rparr>"

definition require_positive_integer :: "pystr \<Rightarrow> int \<Rightarrow> unit result" where
  "require_positive_integer name v = guard (\<not> v \<le> 0) (event_value_error (name @ pstr '' must be positive''))"

definition event_payload_limits_new :: "event_payload_limits \<Rightarrow> event_payload_limits result" where
  "event_payload_limits_new l =
     rbind (require_positive_integer (pstr ''max_attributes'') (max_attributes l)) (\<lambda>_.
     rbind (require_positive_integer (pstr ''max_attribute_name_bytes'') (max_attribute_name_bytes l)) (\<lambda>_.
     rbind (require_positive_integer (pstr ''max_string_bytes'') (max_string_bytes l)) (\<lambda>_.
     rbind (require_positive_integer (pstr ''max_event_bytes'') (max_event_bytes l)) (\<lambda>_.
     Inr l))))"

text \<open>\<open>EventPayloadPolicy\<close> is the boolean \<open>allow_protected\<close>.\<close>

datatype event_delivery_mode = REQUIRED | BEST_EFFORT

record event_delivery_policy =
  dp_mode :: event_delivery_mode
  dp_max_pending_events :: int
  dp_sink_timeout_seconds :: py_float

definition event_delivery_policy_new :: "event_delivery_policy \<Rightarrow> event_delivery_policy result" where
  "event_delivery_policy_new p =
     rbind (require_positive_integer (pstr ''max_pending_events'') (dp_max_pending_events p)) (\<lambda>_.
     rbind (require_positive_finite (pstr ''sink_timeout_seconds'') (dp_sink_timeout_seconds p)) (\<lambda>_.
     Inr p))"

record event_diagnostic =
  dg_event_id :: event_id
  dg_failure_code :: pystr
  dg_message :: pystr

definition event_diagnostic_new :: "event_id \<Rightarrow> pystr \<Rightarrow> pystr \<Rightarrow> event_diagnostic result" where
  "event_diagnostic_new i code_text m =
     rbind (guard (code_text \<noteq> []) (event_value_error (pstr ''failure_code must not be empty''))) (\<lambda>_.
     rbind (guard (m \<noteq> []) (event_value_error (pstr ''message must not be empty''))) (\<lambda>_.
     Inr \<lparr>dg_event_id = i, dg_failure_code = code_text, dg_message = m\<rparr>))"

record event_query =
  eq_session_id :: "session_id option"
  eq_operation_id :: "operation_id option"
  eq_category :: "event_category option"
  eq_event_type :: "event_type option"

definition any_event :: event_query where
  "any_event = \<lparr>eq_session_id = None, eq_operation_id = None, eq_category = None, eq_event_type = None\<rparr>"

section \<open>Canonical bytes\<close>

text \<open>
  The date of a day counted from \<open>datetime.min\<close>, as \<open>_ord2ymd\<close> of the standard library computes it, and
  \<open>strftime\<close>. (The C library prints years before 1000 without leading zeros on some platforms.)
\<close>

definition ord2ymd :: "nat \<Rightarrow> nat \<times> nat \<times> nat" where
  "ord2ymd n0 =
     (let n400 = n0 div 146097; n = n0 mod 146097;
          n100 = n div 36524; n = n mod 36524;
          n4 = n div 1461; n = n mod 1461;
          n1 = n div 365; n = n mod 365;
          year = n400 * 400 + 1 + n100 * 100 + n4 * 4 + n1
      in if n1 = 4 \<or> n100 = 4 then (year - 1, 12, 31)
         else
           let leap = (if n1 = 3 \<and> (n4 \<noteq> 24 \<or> n100 = 3) then 1 else 0);
               month_days = [31, 28 + leap, 31, 30, 31, 30, 31, 31, 30, 31, 30, 31];
               month = length (takeWhile (\<lambda>k. sum_list (take k month_days) \<le> n) [1..<12]) + 1
           in (year, month, n - sum_list (take (month - 1) month_days) + 1))"

definition pad_left :: "nat \<Rightarrow> nat \<Rightarrow> pystr" where
  "pad_left k n = (let d = str_nat n in replicate (k - length d) 48 @ d)"

definition canonical_timestamp :: "py_datetime \<Rightarrow> pystr" where
  "canonical_timestamp d =
     (let us = nat (wall_us d - (case utc_offset_us d of None \<Rightarrow> 0 | Some off \<Rightarrow> off));
          (y, mo, dd) = ord2ymd (us div 86400000000);
          s = us div 1000000 mod 86400
      in pad_left 4 y @ [45] @ pad_left 2 mo @ [45] @ pad_left 2 dd @ [84]
         @ pad_left 2 (s div 3600) @ [58] @ pad_left 2 (s div 60 mod 60) @ [58] @ pad_left 2 (s mod 60)
         @ [46] @ pad_left 6 (us mod 1000000) @ [90])"

fun json_of_value :: "event_value \<Rightarrow> json" where
  "json_of_value (EvText t) = JString t"
| "json_of_value (EvInt i) = JInt i"
| "json_of_value (EvFloat x) = JFloat x"
| "json_of_value (EvBool b) = JBool b"
| "json_of_value EvNone = JNull"

definition json_option :: "('a \<Rightarrow> pystr) \<Rightarrow> 'a option \<Rightarrow> json" where
  "json_option f x = (case x of None \<Rightarrow> JNull | Some y \<Rightarrow> JString (f y))"

definition json_attribute :: "event_attribute \<Rightarrow> json" where
  "json_attribute a = JObject
     [(pstr ''name'', JString (at_name a)),
      (pstr ''sensitivity'', JString (pstr (sensitivity_value (at_sensitivity a)))),
      (pstr ''value'', json_of_value (at_value a))]"

definition json_event :: "sandbox_event \<Rightarrow> event_id \<Rightarrow> json" where
  "json_event e i = JObject
     [(pstr ''attributes'', JArray (map json_attribute (ev_attributes e))),
      (pstr ''event_id'', JString (event_id_str i)),
      (pstr ''event_type'', JString (pstr (event_type_value (ev_type e)))),
      (pstr ''occurred_at'', JString (canonical_timestamp (ev_occurred_at e))),
      (pstr ''operation_id'', json_option identifier_str (ev_operation_id e)),
      (pstr ''operation_kind'', json_option (\<lambda>k. pstr (operation_kind_value k)) (ev_operation_kind e)),
      (pstr ''parent_operation_id'', json_option identifier_str (ev_parent_operation_id e)),
      (pstr ''sequence'', JInt (ev_sequence e)),
      (pstr ''session_id'', JString (identifier_str (ev_session_id e)))]"

definition canonical_event_bytes :: "(py_float \<Rightarrow> pystr) \<Rightarrow> sandbox_event \<Rightarrow> byte list result" where
  "canonical_event_bytes float_repr e =
     rbind (ev_event_id e) (\<lambda>i. encode_text (json_dumps float_repr (json_event e i)))"

end
