(* ===== verification/Event_Redaction.thy ===== *)
theory Event_Redaction
  imports Event_Models
begin

text \<open>
  \<open>events/redaction.py\<close>: the redaction of registered values, and the preparation of an event before a
  sink can observe it. The text and the byte versions are the same computation on lists.
\<close>

section \<open>Spans\<close>

lemma find_from_range: "find_from i s p = Some k \<Longrightarrow> k \<le> i + length s"
  by (induction i s p rule: find_from.induct) (auto split: if_splits)

lemma find_sub_range: "find_sub s p start = Some k \<Longrightarrow> k \<le> length s"
  by (auto simp: find_sub_def split: if_splits dest!: find_from_range)

lemma find_sub_bound: "find_sub s p start = Some k \<Longrightarrow> k + length p \<le> length s"
  using find_sub_Some(2) [of s p start k] find_sub_range [of s p start k]
  by (auto simp: startswith_def dest: prefix_length_le)

function match_positions :: "'a list \<Rightarrow> 'a list \<Rightarrow> nat \<Rightarrow> nat list" where
  "match_positions value candidate start =
     (case find_sub value candidate start of
        None \<Rightarrow> []
      | Some m \<Rightarrow> m # match_positions value candidate (m + 1))"
  by pat_completeness auto
termination
proof (relation "measure (\<lambda>(v, c, s). Suc (length v) - s)", goal_cases)
  case (2 v c s m)
  have "s \<le> m" "m \<le> length v" using find_sub_Some(1) [OF 2] find_sub_range [OF 2] by simp_all
  then show ?case by simp
qed simp

declare match_positions.simps [simp del]

definition match_spans :: "'a list \<Rightarrow> 'a list list \<Rightarrow> (nat \<times> nat) list" where
  "match_spans value protected_values =
     concat (map (\<lambda>c. map (\<lambda>m. (m, m + length c)) (match_positions value c 0)) protected_values)"

text \<open>The last merged span is the head of the accumulator.\<close>

fun merge_spans :: "(nat \<times> nat) list \<Rightarrow> (nat \<times> nat) list \<Rightarrow> (nat \<times> nat) list" where
  "merge_spans [] merged = rev merged"
| "merge_spans ((start, stop) # spans) [] = merge_spans spans [(start, stop)]"
| "merge_spans ((start, stop) # spans) ((a, b) # merged) =
     (if start \<ge> b then merge_spans spans ((start, stop) # (a, b) # merged)
      else merge_spans spans ((a, max b stop) # merged))"

definition merge_overlapping_spans :: "(nat \<times> nat) list \<Rightarrow> (nat \<times> nat) list" where
  "merge_overlapping_spans spans = merge_spans (sort_key (\<lambda>(a, b). (int a, - int b)) spans) []"

fun replace_spans :: "'a list \<Rightarrow> 'a list \<Rightarrow> nat \<Rightarrow> (nat \<times> nat) list \<Rightarrow> 'a list" where
  "replace_spans token value cursor [] = drop cursor value"
| "replace_spans token value cursor ((start, stop) # spans) =
     take (start - cursor) (drop cursor value) @ token @ replace_spans token value stop spans"

definition redact_spans :: "'a list \<Rightarrow> 'a list \<Rightarrow> 'a list list \<Rightarrow> 'a list" where
  "redact_spans token value protected_values =
     (let spans = match_spans value protected_values
      in if spans = [] then value else replace_spans token value 0 (merge_overlapping_spans spans))"

section \<open>The redactor\<close>

definition redaction_text :: pystr where
  "redaction_text = pstr ''[REDACTED]''"

definition redaction_bytes :: "byte list" where
  "redaction_bytes = map of_nat redaction_text"

record redactor =
  rd_text_values :: "pystr list"
  rd_byte_values :: "byte list list"

text \<open>The variables of the two loops; registered values are kept once.\<close>

fun register_texts :: "pystr list \<Rightarrow> pystr list \<times> byte list list \<Rightarrow> (pystr list \<times> byte list list) result" where
  "register_texts [] reg = Inr reg"
| "register_texts (t # ts) (texts, bytes) =
     (if t = [] then Inl (event_value_error (pstr ''protected registrations must not be empty''))
      else rbind (encode_text t) (\<lambda>b. register_texts ts (List.insert t texts, List.insert b bytes)))"

fun register_bytes :: "byte list list \<Rightarrow> pystr list \<times> byte list list \<Rightarrow> (pystr list \<times> byte list list) result" where
  "register_bytes [] reg = Inr reg"
| "register_bytes (b # bs) (texts, bytes) =
     (if b = [] then Inl (event_value_error (pstr ''protected registrations must not be empty''))
      else register_bytes bs
        ((case utf8_decode b of Inr t \<Rightarrow> List.insert t texts | Inl _ \<Rightarrow> texts), List.insert b bytes))"

definition longest_first :: "('a::linorder) list list \<Rightarrow> 'a list list" where
  "longest_first xs = sort_key (\<lambda>x. (- int (length x), x)) xs"

definition redactor_new :: "pystr list \<Rightarrow> byte list list \<Rightarrow> redactor result" where
  "redactor_new text_values byte_values =
     rbind (register_texts text_values ([], [])) (\<lambda>reg.
     rbind (register_bytes byte_values reg) (\<lambda>(texts, bytes).
     Inr \<lparr>rd_text_values = longest_first texts, rd_byte_values = longest_first bytes\<rparr>))"

definition redact_text_value :: "redactor \<Rightarrow> pystr \<Rightarrow> pystr" where
  "redact_text_value r value = redact_spans redaction_text value (rd_text_values r)"

definition redact_bytes_value :: "redactor \<Rightarrow> byte list \<Rightarrow> byte list" where
  "redact_bytes_value r value = redact_spans redaction_bytes value (rd_byte_values r)"

definition redact_attribute :: "redactor \<Rightarrow> event_attribute \<Rightarrow> event_attribute result" where
  "redact_attribute r a =
     (case at_value a of
        EvText t \<Rightarrow>
          (let redacted = redact_text_value r t;
               redacted = (if at_sensitivity a = PROTECTED_DATA \<and> redacted \<noteq> t then redaction_text else redacted)
           in event_attribute_new (at_name a) (EvText redacted) (at_sensitivity a))
      | _ \<Rightarrow> Inr a)"

definition redact_event :: "redactor \<Rightarrow> sandbox_event \<Rightarrow> sandbox_event result" where
  "redact_event r e =
     rbind (rmap (redact_attribute r) (ev_attributes e)) (\<lambda>attributes.
     if attributes = ev_attributes e then Inr e
     else sandbox_event_new (e\<lparr>ev_attributes := attributes\<rparr>))"

section \<open>Preparation\<close>

definition payload_rejected :: "pystr \<Rightarrow> sandbox_error" where
  "payload_rejected m = Raise (Event EventPayloadRejected) m"

fun check_sensitivities :: "bool \<Rightarrow> event_attribute list \<Rightarrow> unit result" where
  "check_sensitivities allow [] = Inr ()"
| "check_sensitivities allow (a # as) =
     (if at_sensitivity a = SECRET_DATA
      then Inl (payload_rejected (pstr ''secret event attributes are not allowed''))
      else if at_sensitivity a = PROTECTED_DATA \<and> \<not> allow
      then Inl (payload_rejected (pstr ''protected event attributes require explicit payload-policy opt-in''))
      else check_sensitivities allow as)"

text \<open>\<open>zip(..., strict=True)\<close> raises when the lengths differ.\<close>

fun check_redacted :: "event_attribute list \<Rightarrow> event_attribute list \<Rightarrow> unit result" where
  "check_redacted [] [] = Inr ()"
| "check_redacted (original # os) (redacted # rs) =
     (if at_sensitivity original \<noteq> PROTECTED_DATA then check_redacted os rs
      else if (\<nexists>t. at_value original = EvText t) \<or> at_value original = at_value redacted
      then Inl (payload_rejected (pstr ''protected event attributes must be structurally redacted''))
      else check_redacted os rs)"
| "check_redacted _ _ = Inl (event_value_error (pstr ''zip() argument lengths differ''))"

fun validate_field_limits :: "event_payload_limits \<Rightarrow> event_attribute list \<Rightarrow> unit result" where
  "validate_field_limits l [] = Inr ()"
| "validate_field_limits l (a # as) =
     rbind (encode_text (at_name a)) (\<lambda>name.
       if int (length name) > max_attribute_name_bytes l
       then Inl (payload_rejected (pstr ''event attribute name exceeds '' @ str_int (max_attribute_name_bytes l)
              @ pstr '' UTF-8 bytes''))
       else
         (case at_value a of
            EvText t \<Rightarrow>
              rbind (encode_text t) (\<lambda>v.
                if int (length v) > max_string_bytes l
                then Inl (payload_rejected (pstr ''event string value exceeds '' @ str_int (max_string_bytes l)
                       @ pstr '' UTF-8 bytes''))
                else validate_field_limits l as)
          | _ \<Rightarrow> validate_field_limits l as))"

definition prepare_event ::
  "(py_float \<Rightarrow> pystr) \<Rightarrow> redactor \<Rightarrow> bool \<Rightarrow> event_payload_limits \<Rightarrow> sandbox_event \<Rightarrow> sandbox_event result" where
  "prepare_event float_repr r allow_protected l e =
     rbind (guard (\<not> int (length (ev_attributes e)) > max_attributes l)
       (payload_rejected (pstr ''event payload exceeds '' @ str_int (max_attributes l) @ pstr '' attributes''))) (\<lambda>_.
     rbind (check_sensitivities allow_protected (ev_attributes e)) (\<lambda>_.
     rbind (redact_event r e) (\<lambda>prepared.
     rbind (check_redacted (ev_attributes e) (ev_attributes prepared)) (\<lambda>_.
     rbind (validate_field_limits l (ev_attributes prepared)) (\<lambda>_.
     rbind (canonical_event_bytes float_repr prepared) (\<lambda>bs.
       if int (length bs) > max_event_bytes l
       then Inl (payload_rejected (pstr ''canonical event payload exceeds '' @ str_int (max_event_bytes l)
              @ pstr '' UTF-8 bytes''))
       else Inr prepared))))))"

section \<open>What redaction replaces\<close>

text \<open>A position is covered when it lies inside an occurrence of a registered v.\<close>

definition covered :: "'a list list \<Rightarrow> 'a list \<Rightarrow> nat \<Rightarrow> bool" where
  "covered protected_values v i \<longleftrightarrow>
     (\<exists>c \<in> set protected_values. \<exists>s \<le> i. i < s + length c \<and> startswith (drop s v) c)"

definition span_union :: "(nat \<times> nat) list \<Rightarrow> nat set" where
  "span_union spans = (\<Union>(a, b) \<in> set spans. {a..<b})"

lemma span_union_simps [simp]:
  "span_union [] = {}" "span_union ((a, b) # spans) = {a..<b} \<union> span_union spans"
  "span_union (xs @ ys) = span_union xs \<union> span_union ys"
  by (simp_all add: span_union_def)

lemma set_match_positions:
  "set (match_positions v c start) = {m. start \<le> m \<and> m \<le> length v \<and> startswith (drop m v) c}"
proof (induction v c start rule: match_positions.induct)
  case (1 v c start)
  show ?case
  proof (cases "find_sub v c start")
    case None
    then show ?thesis using find_sub_None [of v c start] by (auto simp: match_positions.simps [of v c start])
  next
    case (Some m)
    note s = find_sub_Some [OF Some] find_sub_range [OF Some]
    have "set (match_positions v c start) =
        insert m {k. m + 1 \<le> k \<and> k \<le> length v \<and> startswith (drop k v) c}"
      using 1 [OF Some] Some by (simp add: match_positions.simps [of v c start])
    moreover have "m \<le> k" if "start \<le> k" "startswith (drop k v) c" for k
      using s(3) that not_le by blast
    ultimately show ?thesis using s by (auto simp: Suc_le_eq le_less)
  qed
qed

lemma startswith_drop_bound: "startswith (drop m v) c \<Longrightarrow> c \<noteq> [] \<Longrightarrow> m + length c \<le> length v"
  by (cases "m \<le> length v") (auto simp: startswith_def dest!: prefix_length_le)

lemma match_spans_union:
  assumes "[] \<notin> set protected_values"
  shows "span_union (match_spans v protected_values) = {i. covered protected_values v i}"
    and "(a, b) \<in> set (match_spans v protected_values) \<Longrightarrow> a < b \<and> b \<le> length v"
proof -
  show "span_union (match_spans v protected_values) = {i. covered protected_values v i}"
  proof (intro set_eqI iffI)
    fix i assume "i \<in> span_union (match_spans v protected_values)"
    then show "i \<in> {i. covered protected_values v i}"
      by (auto simp: span_union_def match_spans_def set_match_positions covered_def)
  next
    fix i assume "i \<in> {i. covered protected_values v i}"
    then obtain c s where c: "c \<in> set protected_values" "s \<le> i" "i < s + length c" "startswith (drop s v) c"
      by (auto simp: covered_def)
    then have "c \<noteq> []" using assms by auto
    with c have "s \<in> set (match_positions v c 0)"
      using startswith_drop_bound [of s v c] by (auto simp: set_match_positions)
    with c show "i \<in> span_union (match_spans v protected_values)"
      by (auto simp: span_union_def match_spans_def intro!: bexI [of _ c] bexI [of _ s])
  qed
  show "(a, b) \<in> set (match_spans v protected_values) \<Longrightarrow> a < b \<and> b \<le> length v"
    using assms startswith_drop_bound [of a v] by (auto simp: match_spans_def set_match_positions)
qed

text \<open>Disjoint spans in order.\<close>

definition apart :: "(nat \<times> nat) list \<Rightarrow> bool" where
  "apart spans \<longleftrightarrow> sorted_wrt (\<lambda>x y. snd x \<le> fst y) spans \<and> (\<forall>(a, b) \<in> set spans. a < b)"

lemma merge_spans_spec:
  assumes "sorted_wrt (\<lambda>x y. fst x \<le> fst y) spans" and "\<forall>(a, b) \<in> set spans. a < b"
    and "apart (rev merged)" and "\<forall>x \<in> set spans. \<forall>y \<in> set merged. fst y \<le> fst x"
  shows "apart (merge_spans spans merged) \<and>
    span_union (merge_spans spans merged) = span_union spans \<union> span_union merged"
  using assms
proof (induction spans merged rule: merge_spans.induct)
  case (1 merged)
  then show ?case by (simp add: span_union_def)
next
  case (2 start stop spans)
  then show ?case by (auto simp: apart_def)
next
  case (3 start stop spans a b merged)
  show ?case
  proof (cases "start \<ge> b")
    case True
    have "apart (rev ((start, stop) # (a, b) # merged))"
      using 3(3-6) True by (fastforce simp: apart_def sorted_wrt_append)
    with 3 True show ?thesis by auto
  next
    case False
    have "a \<le> start" using 3(6) by auto
    then have u: "{a..<max b stop} = {a..<b} \<union> {start..<stop}" using False by auto
    have "apart (rev ((a, max b stop) # merged))"
      using 3(3-6) False by (auto simp: apart_def sorted_wrt_append)
    moreover have "\<forall>x \<in> set spans. \<forall>y \<in> set ((a, max b stop) # merged). fst y \<le> fst x" using 3(6) by auto
    ultimately have "apart (merge_spans spans ((a, max b stop) # merged)) \<and>
        span_union (merge_spans spans ((a, max b stop) # merged)) =
        span_union spans \<union> span_union ((a, max b stop) # merged)"
      using 3(2-4) False by simp
    with False u show ?thesis by auto
  qed
qed

lemma merge_overlapping_spec:
  assumes "\<forall>(a, b) \<in> set spans. a < b"
  shows "apart (merge_overlapping_spans spans)"
    and "span_union (merge_overlapping_spans spans) = span_union spans"
proof -
  let ?k = "\<lambda>(a, b). (int a, - int b)"
  have "sorted (map ?k (sort_key ?k spans))" by simp
  then have "sorted_wrt (\<lambda>x y. fst x \<le> fst y) (sort_key ?k spans)"
    by (auto simp: sorted_map less_eq_prod_def elim!: sorted_wrt_mono_rel [rotated])
  with assms merge_spans_spec [of "sort_key ?k spans" "[]"]
  show "apart (merge_overlapping_spans spans)"
    and "span_union (merge_overlapping_spans spans) = span_union spans"
    by (auto simp: merge_overlapping_spans_def apart_def span_union_def)
qed

text \<open>Pieces that are kept, with what is cut out between them.\<close>

fun weave :: "('a list \<Rightarrow> 'b list) \<Rightarrow> ('a list \<Rightarrow> 'b list) \<Rightarrow> 'a list list \<Rightarrow> 'a list list \<Rightarrow> 'b list" where
  "weave f g (p # ps) (c # cs) = f p @ g c @ weave f g ps cs"
| "weave f g (p # ps) [] = f p"
| "weave f g [] cs = []"

fun pieces :: "'a list \<Rightarrow> nat \<Rightarrow> (nat \<times> nat) list \<Rightarrow> 'a list list" where
  "pieces v cursor [] = [drop cursor v]"
| "pieces v cursor ((a, b) # spans) = take (a - cursor) (drop cursor v) # pieces v b spans"

definition clusters :: "'a list \<Rightarrow> (nat \<times> nat) list \<Rightarrow> 'a list list" where
  "clusters v spans = map (\<lambda>(a, b). take (b - a) (drop a v)) spans"

lemma apart_Cons: "apart ((a, b) # spans) \<longleftrightarrow> a < b \<and> (\<forall>x \<in> set spans. b \<le> fst x) \<and> apart spans"
  by (auto simp: apart_def)

lemma pieces_not_Nil [simp]: "pieces v cursor spans \<noteq> []"
  by (cases "(v, cursor, spans)" rule: pieces.cases) auto

lemma replace_spans_join: "replace_spans token v cursor spans = join_with token (pieces v cursor spans)"
  by (induction token v cursor spans rule: replace_spans.induct) (auto simp: join_with_Cons)

lemma take_drop_split:
  "cursor \<le> a \<Longrightarrow> a \<le> b \<Longrightarrow> b \<le> length v \<Longrightarrow>
     drop cursor v = take (a - cursor) (drop cursor v) @ take (b - a) (drop a v) @ drop b v"
proof -
  assume le: "cursor \<le> a" "a \<le> b" "b \<le> length v"
  have "drop cursor v = take (a - cursor) (drop cursor v) @ drop (a - cursor) (drop cursor v)"
    by (rule append_take_drop_id [symmetric])
  also have "drop (a - cursor) (drop cursor v) = drop a v" using le by simp
  also have "drop a v = take (b - a) (drop a v) @ drop (b - a) (drop a v)"
    by (rule append_take_drop_id [symmetric])
  also have "drop (b - a) (drop a v) = drop b v" using le by simp
  finally show ?thesis .
qed

lemma weave_value:
  assumes "apart spans" and "\<forall>(a, b) \<in> set spans. cursor \<le> a \<and> b \<le> length v"
  shows "weave (\<lambda>x. x) (\<lambda>x. x) (pieces v cursor spans) (clusters v spans) = drop cursor v"
  using assms
proof (induction v cursor spans rule: pieces.induct)
  case (2 v cursor a b spans)
  have "weave (\<lambda>x. x) (\<lambda>x. x) (pieces v b spans) (clusters v spans) = drop b v"
    using 2 by (fastforce simp: apart_Cons)
  moreover have "drop cursor v = take (a - cursor) (drop cursor v) @ take (b - a) (drop a v) @ drop b v"
    using 2(2,3) by (intro take_drop_split) (auto simp: apart_Cons)
  ultimately show ?case by (simp add: clusters_def)
qed (simp add: clusters_def)

lemma weave_marks:
  assumes "apart spans" and "\<forall>(a, b) \<in> set spans. cursor \<le> a \<and> b \<le> length v" and "cursor \<le> length v"
  shows "weave (\<lambda>x. replicate (length x) False) (\<lambda>x. replicate (length x) True) (pieces v cursor spans) (clusters v spans) =
    map (\<lambda>i. i \<in> span_union spans) [cursor..<length v]"
  using assms
proof (induction v cursor spans rule: pieces.induct)
  case (1 v cursor)
  then show ?case by (simp add: clusters_def map_replicate_const)
next
  case (2 v cursor a b spans)
  have le: "cursor \<le> a" "a < b" "b \<le> length v" "\<forall>x \<in> set spans. b \<le> fst x" "apart spans"
    using 2(2,3) by (auto simp: apart_Cons)
  have u: "i \<notin> span_union spans" if "i < b" for i using le(4) that by (fastforce simp: span_union_def)
  have IH: "weave (\<lambda>x. replicate (length x) False) (\<lambda>x. replicate (length x) True) (pieces v b spans) (clusters v spans) =
      map (\<lambda>i. i \<in> span_union spans) [b..<length v]"
    using 2 le by fastforce
  have "[cursor..<length v] = [cursor..<a] @ [a..<b] @ [b..<length v]"
    using le upt_add_eq_append [of cursor a "length v - a"] upt_add_eq_append [of a b "length v - b"] by simp
  moreover have "map (\<lambda>i. i \<in> span_union ((a, b) # spans)) [cursor..<a] = replicate (a - cursor) False"
    using u le by (intro nth_equalityI) auto
  moreover have "map (\<lambda>i. i \<in> span_union ((a, b) # spans)) [a..<b] = replicate (b - a) True"
    by (intro nth_equalityI) auto
  moreover have "map (\<lambda>i. i \<in> span_union ((a, b) # spans)) [b..<length v] = map (\<lambda>i. i \<in> span_union spans) [b..<length v]"
    by simp
  moreover have "length (take (a - cursor) (drop cursor v)) = a - cursor" "length (take (b - a) (drop a v)) = b - a"
    using le by auto
  ultimately show ?case using IH by (simp only: clusters_def pieces.simps weave.simps list.map case_prod_conv map_append)
qed

text \<open>
  C37: redaction cuts a text into pieces that are kept and non-empty clusters that are each replaced by
  the marker, and a position is in a cluster exactly when it lies inside an occurrence of a registered
  value: nothing else is lost, and no character of an occurrence is kept.
\<close>

theorem redaction_exact:
  assumes "[] \<notin> set (rd_text_values r)"
  shows "\<exists>ps cs. redact_text_value r v = join_with redaction_text ps \<and> length ps = Suc (length cs) \<and>
    [] \<notin> set cs \<and> weave (\<lambda>x. x) (\<lambda>x. x) ps cs = v \<and>
    weave (\<lambda>x. replicate (length x) False) (\<lambda>x. replicate (length x) True) ps cs =
      map (covered (rd_text_values r) v) [0..<length v]"
proof -
  let ?spans = "match_spans v (rd_text_values r)"
  define merged where "merged = merge_overlapping_spans ?spans"
  note u = match_spans_union [OF assms, where v = v]
  have "\<forall>(a, b) \<in> set ?spans. a < b" using u(2) by blast
  note m = merge_overlapping_spec [OF this, folded merged_def]
  have bound: "b \<le> length v \<and> a < b" if "(a, b) \<in> set merged" for a b
  proof -
    have ab: "a < b" using m(1) that by (auto simp: apart_def)
    then have "b - 1 \<in> span_union merged" using that by (auto simp: span_union_def intro!: bexI [of _ "(a, b)"])
    then have "b - 1 \<in> span_union ?spans" using m(2) by simp
    then obtain c d where "(c, d) \<in> set ?spans" "b - 1 < d" by (auto simp: span_union_def)
    then show ?thesis using u(2) ab by fastforce
  qed
  have whole: "redact_text_value r v = replace_spans redaction_text v 0 merged"
    by (auto simp: redact_text_value_def redact_spans_def Let_def merged_def merge_overlapping_spans_def)
  let ?ps = "pieces v 0 merged" and ?cs = "clusters v merged"
  have "length (pieces v k sp) = Suc (length sp)" for k sp by (induction v k sp rule: pieces.induct) auto
  moreover have "[] \<notin> set ?cs"
  proof
    assume "[] \<in> set ?cs"
    then obtain a b where "(a, b) \<in> set merged" "take (b - a) (drop a v) = []" by (auto simp: clusters_def)
    then show False using bound by fastforce
  qed
  moreover have "weave (\<lambda>x. x) (\<lambda>x. x) ?ps ?cs = v"
    using weave_value [OF m(1), where cursor = 0 and v = v] bound by auto
  moreover have "weave (\<lambda>x. replicate (length x) False) (\<lambda>x. replicate (length x) True) ?ps ?cs =
      map (covered (rd_text_values r) v) [0..<length v]"
    using weave_marks [OF m(1), where cursor = 0 and v = v] bound m(2) u(1) by auto
  ultimately show ?thesis
    using whole by (intro exI [of _ ?ps] exI [of _ ?cs]) (simp add: replace_spans_join clusters_def)
qed

lemma redaction_exact_witness:
  "\<exists>ps cs. redact_text_value \<lparr>rd_text_values = [[97]], rd_byte_values = []\<rparr> [98, 97] = join_with redaction_text ps \<and>
     weave (\<lambda>x. x) (\<lambda>x. x) ps cs = [98, 97]"
  using redaction_exact [of "\<lparr>rd_text_values = [[97]], rd_byte_values = []\<rparr>" "[98, 97]"] by auto

lemma registered_not_empty:
  assumes "redactor_new texts bytes = Inr r"
  shows "[] \<notin> set (rd_text_values r)"
proof -
  have texts: "[] \<notin> set (fst reg')" if "register_texts ts reg = Inr reg'" "[] \<notin> set (fst reg)" for ts reg reg'
    using that by (induction ts reg rule: register_texts.induct) (auto simp: rbind_Inr_iff split: if_splits)
  have bytes: "[] \<notin> set (fst reg')" if "register_bytes bs reg = Inr reg'" "[] \<notin> set (fst reg)" for bs reg reg'
    using that
  proof (induction bs reg rule: register_bytes.induct)
    case (2 b bs texts bytes)
    have "t \<noteq> []" if "utf8_decode b = Inr t" "b \<noteq> []" for t
      using that by (auto simp: utf8_decode_iff)
    with 2 show ?case by (auto split: if_splits sum.splits)
  qed simp
  show ?thesis
    using assms texts bytes by (fastforce simp: redactor_new_def rbind_Inr_iff longest_first_def)
qed

section \<open>Prepared events\<close>

text \<open>An event as the constructor leaves it.\<close>

definition event_ok :: "sandbox_event \<Rightarrow> bool" where
  "event_ok e \<longleftrightarrow> sandbox_event_new e = Inr e"

definition name_key :: "event_attribute \<Rightarrow> byte list" where
  "name_key a = the (utf8_encode (at_name a))"

lemma insort_key_map: "map f (insort_key (\<lambda>x. g (f x)) x xs) = insort_key g (f x) (map f xs)"
  by (induction xs) auto

lemma sort_key_map: "map f (sort_key (\<lambda>x. g (f x)) xs) = sort_key g (map f xs)"
  by (induction xs) (auto simp: insort_key_map)

lemma order_attributes_eq:
  "order_attributes as = Inr bs \<longleftrightarrow> (\<forall>a \<in> set as. encodable (at_name a)) \<and> bs = sort_key name_key as"
proof -
  have "rmap (\<lambda>a. encode_text (at_name a)) as = Inr keys \<longleftrightarrow>
      (\<forall>a \<in> set as. encodable (at_name a)) \<and> keys = map name_key as" for keys
    by (induction as arbitrary: keys)
       (auto simp: rbind_Inr_iff encode_text_def encodable_def name_key_def split: option.splits)
  moreover have "map snd (sort_key fst (zip (map name_key as) as)) = sort_key name_key as"
  proof -
    have "zip (map name_key as) as = map (\<lambda>a. (name_key a, a)) as" by (induction as) auto
    moreover have "sort_key fst (map (\<lambda>a. (name_key a, a)) as) = map (\<lambda>a. (name_key a, a)) (sort_key name_key as)"
      using sort_key_map [of "\<lambda>a. (name_key a, a)" fst as] by simp
    moreover have "map snd (map (\<lambda>a. (name_key a, a)) xs) = xs" for xs by (induction xs) auto
    ultimately show ?thesis by (simp only:)
  qed
  ultimately show ?thesis by (auto simp: order_attributes_def rbind_Inr_iff)
qed

lemma event_ok_attributes:
  assumes "event_ok e"
  shows "sort_key name_key (ev_attributes e) = ev_attributes e" and "\<forall>a \<in> set (ev_attributes e). encodable (at_name a)"
  using assms
  by (auto simp: event_ok_def sandbox_event_new_def rbind_Inr_iff order_attributes_eq)
     (metis sandbox_event.select_convs(8) sandbox_event.update_convs(8) sandbox_event.surjective)+

lemma redact_attribute_facts:
  assumes "redact_attribute r a = Inr a'"
  shows "at_name a' = at_name a" "at_sensitivity a' = at_sensitivity a"
    "at_sensitivity a = PROTECTED_DATA \<Longrightarrow> at_value a' \<noteq> at_value a \<Longrightarrow> at_value a' = EvText redaction_text"
    "\<nexists>t. at_value a = EvText t \<Longrightarrow> a' = a"
  using assms
  by (auto simp: redact_attribute_def event_attribute_new_def rbind_Inr_iff Let_def
      split: event_value.splits if_splits)

lemma redact_event_attributes:
  assumes "redact_event r e = Inr e'" and "event_ok e"
  shows "list_all2 (\<lambda>a a'. redact_attribute r a = Inr a') (ev_attributes e) (ev_attributes e')"
proof -
  obtain as where as: "list_all2 (\<lambda>a a'. redact_attribute r a = Inr a') (ev_attributes e) as"
    and e': "(if as = ev_attributes e then Inr e else sandbox_event_new (e\<lparr>ev_attributes := as\<rparr>)) = Inr e'"
    using assms(1) by (auto simp: redact_event_def rbind_Inr_iff rmap_Inr_iff)
  have names: "map name_key as = map name_key (ev_attributes e)"
    using as by (induction rule: list_all2_induct) (auto simp: name_key_def redact_attribute_facts)
  have "sorted (map name_key (ev_attributes e))"
    using event_ok_attributes(1) [OF assms(2)] sorted_sort_key [of name_key "ev_attributes e"] by simp
  then have "sort_key name_key as = as" using names by (simp add: sort_key_id_if_sorted)
  then have "ev_attributes e' = as"
    using e' by (auto simp: sandbox_event_new_def rbind_Inr_iff order_attributes_eq split: if_splits)
  with as show ?thesis by simp
qed

lemma check_sensitivities_ok:
  "check_sensitivities allow as = Inr u \<longleftrightarrow>
     (\<forall>a \<in> set as. at_sensitivity a \<noteq> SECRET_DATA \<and> (at_sensitivity a = PROTECTED_DATA \<longrightarrow> allow))"
  by (induction allow as rule: check_sensitivities.induct) auto

lemma check_redacted_ok:
  "list_all2 (\<lambda>a a'. redact_attribute r a = Inr a') as as' \<Longrightarrow> check_redacted as as' = Inr u \<Longrightarrow>
     \<forall>a \<in> set as'. at_sensitivity a = PROTECTED_DATA \<longrightarrow> at_value a = EvText redaction_text"
proof (induction rule: list_all2_induct)
  case (Cons a as a' as')
  note f = redact_attribute_facts [OF Cons.hyps(1)]
  show ?case using Cons f by (auto split: if_splits)
qed simp

lemma validate_field_limits_ok:
  "validate_field_limits l as = Inr u \<longleftrightarrow>
     (\<forall>a \<in> set as. encodable (at_name a) \<and> int (text_bytes (at_name a)) \<le> max_attribute_name_bytes l \<and>
        (\<forall>t. at_value a = EvText t \<longrightarrow> encodable t \<and> int (text_bytes t) \<le> max_string_bytes l))"
proof (induction l as rule: validate_field_limits.induct)
  case (2 l a as)
  have e: "encode_text t = Inr b \<longleftrightarrow> encodable t \<and> b = the (utf8_encode t)" for t b
    by (auto simp: encode_text_def encodable_def split: option.splits)
  have n: "encodable t \<Longrightarrow> length (the (utf8_encode t)) = text_bytes t" for t
    by (auto simp: encodable_def text_bytes_def)
  show ?case
    using 2 by (cases "at_value a") (auto simp: rbind_Inr_iff e n)
qed simp

text \<open>
  C36: an event that is prepared carries no secret attribute, a protected one only if the policy allows
  it and then with the marker as its whole value, and its names, its texts and its canonical encoding
  are within the limits; its attributes keep their names, their classes and their order.
\<close>

theorem prepared_event_safe:
  assumes "prepare_event float_repr r allow l e = Inr e'" and "event_ok e"
  shows "int (length (ev_attributes e')) \<le> max_attributes l \<and>
    map at_name (ev_attributes e') = map at_name (ev_attributes e) \<and>
    map at_sensitivity (ev_attributes e') = map at_sensitivity (ev_attributes e) \<and>
    (\<forall>a \<in> set (ev_attributes e'). at_sensitivity a \<noteq> SECRET_DATA \<and>
       (at_sensitivity a = PROTECTED_DATA \<longrightarrow> allow \<and> at_value a = EvText redaction_text) \<and>
       encodable (at_name a) \<and> int (text_bytes (at_name a)) \<le> max_attribute_name_bytes l \<and>
       (\<forall>t. at_value a = EvText t \<longrightarrow> encodable t \<and> int (text_bytes t) \<le> max_string_bytes l)) \<and>
    (\<exists>bs. canonical_event_bytes float_repr e' = Inr bs \<and> int (length bs) \<le> max_event_bytes l)"
proof -
  obtain bs where run: "int (length (ev_attributes e)) \<le> max_attributes l"
    "check_sensitivities allow (ev_attributes e) = Inr ()" "redact_event r e = Inr e'"
    "check_redacted (ev_attributes e) (ev_attributes e') = Inr ()"
    "validate_field_limits l (ev_attributes e') = Inr ()"
    "canonical_event_bytes float_repr e' = Inr bs" "int (length bs) \<le> max_event_bytes l"
    using assms(1) by (auto simp: prepare_event_def rbind_Inr_iff split: if_splits)
  note rel = redact_event_attributes [OF run(3) assms(2)]
  have names: "map at_name (ev_attributes e') = map at_name (ev_attributes e)"
    and classes: "map at_sensitivity (ev_attributes e') = map at_sensitivity (ev_attributes e)"
    using rel by (induction rule: list_all2_induct) (auto simp: redact_attribute_facts)
  have "length (ev_attributes e') = length (ev_attributes e)" using rel by (auto dest: list_all2_lengthD)
  moreover have "at_sensitivity a \<noteq> SECRET_DATA \<and> (at_sensitivity a = PROTECTED_DATA \<longrightarrow> allow)"
    if "a \<in> set (ev_attributes e')" for a
  proof -
    have "at_sensitivity a \<in> at_sensitivity ` set (ev_attributes e)" using that classes by (metis image_eqI image_set)
    then show ?thesis using run(2) by (auto simp: check_sensitivities_ok)
  qed
  ultimately show ?thesis
    using names classes run check_redacted_ok [OF rel run(4)] by (auto simp: validate_field_limits_ok)
qed

section \<open>The canonical bytes exist\<close>

lemma ascii_scalar: "c < 128 \<Longrightarrow> is_scalar c"
  by (simp add: is_scalar_def is_surrogate_def)

lemma encodable_pstr [simp]: "(\<forall>c \<in> set s. (of_char c :: nat) < 128) \<Longrightarrow> encodable (pstr s)"
  by (auto simp: encodable_iff pstr_def intro: ascii_scalar)

lemma encodable_numbers [simp]: "encodable (str_nat n)" "encodable (str_int i)"
  by (auto simp: encodable_iff str_int_def is_ascii_digit_def dest!: str_nat_digits intro!: ascii_scalar)

lemma encodable_hex [simp]: "encodable (hex_fixed k n)"
  by (auto simp: encodable_iff is_lower_hex_def is_ascii_digit_def dest!: hex_fixed_lower intro!: ascii_scalar)

lemma encodable_uuid [simp]: "encodable (identifier_str i)"
  by (auto simp: encodable_iff identifier_str_def is_lower_hex_def is_ascii_digit_def dest!: uuid_str_chars intro!: ascii_scalar)

lemma encodable_json_string: "encodable s \<Longrightarrow> encodable (json_string s)"
proof -
  have "encodable (json_char c)" if "is_scalar c" for c
    using that by (auto simp: json_char_def ascii_scalar)
  then show "encodable s \<Longrightarrow> encodable (json_string s)"
    by (induction s) (auto simp: json_string_def ascii_scalar)
qed

lemma encodable_join: "encodable (join_with [x] ps) \<longleftrightarrow> (length ps > 1 \<longrightarrow> is_scalar x) \<and> list_all encodable ps"
  by (induction "[x]" ps rule: join_with.induct) auto

fun json_encodable :: "json \<Rightarrow> bool" where
  "json_encodable (JString s) = encodable s"
| "json_encodable (JArray xs) = list_all json_encodable xs"
| "json_encodable (JObject kvs) = list_all (\<lambda>(k, v). encodable k \<and> json_encodable v) kvs"
| "json_encodable _ = True"

lemma encodable_dumps:
  "(\<And>x. encodable (float_repr x)) \<Longrightarrow> json_encodable j \<Longrightarrow> encodable (json_dumps float_repr j)"
proof (induction float_repr j rule: json_dumps.induct)
  case (6 f xs)
  then show ?case by (auto simp: ascii_scalar encodable_join list_all_iff)
next
  case (7 f kvs)
  then show ?case by (fastforce simp: ascii_scalar encodable_join list_all_iff encodable_json_string)
qed (auto intro: encodable_json_string)

lemma encodable_timestamp [simp]: "encodable (canonical_timestamp d)"
  by (auto simp: canonical_timestamp_def Let_def pad_left_def encodable_iff ascii_scalar split: prod.splits)
     (auto simp: is_ascii_digit_def dest!: str_nat_digits intro!: ascii_scalar)

lemma canonical_bytes_exist:
  assumes "\<And>x. encodable (float_repr x)" and "0 < ev_sequence e"
    and "\<forall>a \<in> set (ev_attributes e). encodable (at_name a) \<and> (\<forall>t. at_value a = EvText t \<longrightarrow> encodable t)"
  shows "\<exists>bs. canonical_event_bytes float_repr e = Inr bs"
proof -
  have v: "json_encodable (json_of_value v)" if "\<forall>t. v = EvText t \<longrightarrow> encodable t" for v
    using that by (cases v) auto
  have s: "encodable (pstr (sensitivity_value s))" for s by (cases s) simp_all
  have ty: "encodable (pstr (event_type_value ty))" for ty by (cases ty) simp_all
  have k: "encodable (pstr (operation_kind_value k))" for k by (cases k) simp_all
  note names = s ty k
  have "json_encodable (json_attribute a)" if "a \<in> set (ev_attributes e)" for a
    using assms(3) that names v by (auto simp: json_attribute_def)
  then have "json_encodable (json_event e i)" for i
    using names by (auto simp: json_event_def json_option_def event_id_str_def ascii_scalar list_all_iff split: option.splits)
  then have "encodable (json_dumps float_repr (json_event e i))" for i
    using encodable_dumps assms(1) by blast
  then show ?thesis
    using assms(2) by (auto simp: canonical_event_bytes_def ev_event_id_def event_id_new_def require_sequence_def
        rbind_def encode_text_def encodable_def split: sum.splits option.splits)
qed

definition sample_event :: sandbox_event where
  "sample_event = \<lparr>ev_type = OPERATION_STARTED, ev_occurred_at = \<lparr>wall_us = 0, utc_offset_us = Some 0\<rparr>,
     ev_session_id = UuidIdentifier 1, ev_sequence = 1, ev_operation_id = None, ev_parent_operation_id = None,
     ev_operation_kind = None,
     ev_attributes = [\<lparr>at_name = [110], at_value = EvText [97, 98], at_sensitivity = PROTECTED_DATA\<rparr>]\<rparr>"

definition sample_redactor :: redactor where
  "sample_redactor = \<lparr>rd_text_values = [[97]], rd_byte_values = []\<rparr>"

lemma sample_event_ok: "event_ok sample_event"
  by (simp add: event_ok_def sandbox_event_new_def sample_event_def require_aware_utc_def require_sequence_def
      order_attributes_def encode_text_def utf8_char_def is_scalar_def is_surrogate_def)

lemma sample_redacted: "redact_text_value sample_redactor [97, 98] = redaction_text @ [98]"
  by (simp add: redact_text_value_def sample_redactor_def redact_spans_def match_spans_def
      merge_overlapping_spans_def match_positions.simps find_sub_def startswith_def)

lemma prepared_event_safe_witness:
  "\<exists>l e'. prepare_event (\<lambda>_. []) sample_redactor True l sample_event = Inr e' \<and>
     map at_value (ev_attributes e') = [EvText redaction_text]"
proof -
  define a where "a = \<lparr>at_name = [110], at_value = EvText redaction_text, at_sensitivity = PROTECTED_DATA\<rparr>"
  define e' where "e' = sample_event\<lparr>ev_attributes := [a]\<rparr>"
  have e: "encodable redaction_text" "encodable [110]" by (simp_all add: redaction_text_def is_scalar_def is_surrogate_def)
  have differs: "[97, 98] \<noteq> redaction_text" "redaction_text @ [98] \<noteq> [97, 98]" by (simp_all add: redaction_text_def pstr_simps)
  have red: "redact_attribute sample_redactor \<lparr>at_name = [110], at_value = EvText [97, 98], at_sensitivity = PROTECTED_DATA\<rparr> = Inr a"
    using differs by (simp add: redact_attribute_def sample_redacted event_attribute_new_def a_def)
  have new: "sandbox_event_new (sample_event\<lparr>ev_attributes := [a]\<rparr>) = Inr e'"
    by (simp add: e'_def sandbox_event_new_def sample_event_def require_aware_utc_def require_sequence_def
      order_attributes_def encode_text_def utf8_char_def is_scalar_def is_surrogate_def a_def)
  have "redact_event sample_redactor sample_event = Inr e'"
    using differs red new by (simp add: redact_event_def sample_event_def a_def)
  moreover obtain bs where bs: "canonical_event_bytes (\<lambda>_. []) e' = Inr bs"
    using canonical_bytes_exist [of "\<lambda>_. []" e'] e by (auto simp: e'_def a_def sample_event_def)
  define l where "l = \<lparr>max_attributes = 1, max_attribute_name_bytes = int (text_bytes [110]),
      max_string_bytes = int (text_bytes redaction_text), max_event_bytes = int (length bs)\<rparr>"
  moreover have "validate_field_limits l (ev_attributes e') = Inr ()"
    unfolding validate_field_limits_ok using e by (simp add: e'_def a_def l_def)
  ultimately have run: "prepare_event (\<lambda>_. []) sample_redactor True l sample_event = Inr e'"
    using bs differs by (simp add: prepare_event_def l_def sample_event_def e'_def a_def)
  have "at_sensitivity a = PROTECTED_DATA" "a \<in> set (ev_attributes e')" by (simp_all add: a_def e'_def)
  then have "at_value a = EvText redaction_text" using prepared_event_safe [OF run sample_event_ok] by blast
  then have "map at_value (ev_attributes e') = [EvText redaction_text]" by (simp add: e'_def)
  with run show ?thesis by (intro exI conjI)
qed

end
