(* ===== verification/Event_Sink.thy ===== *)
theory Event_Sink
  imports Event_Redaction Transactional
begin

text \<open>
  \<open>events/sink.py\<close>: the bounded in-memory history. Every method holds the sink's lock over its whole
  effect, so a method is one function of the sink's state.
\<close>

section \<open>The sink\<close>

definition no_op_emit :: "sandbox_event \<Rightarrow> unit result" where
  "no_op_emit e = Inr ()"

record memory_sink =
  ms_max_events :: int
  ms_max_payload_bytes :: int
  ms_events :: "sandbox_event list"
  ms_payload_bytes :: int
  ms_last_sequences :: "(session_id, int) dict"
  ms_closed :: bool

definition memory_sink_new :: "int \<Rightarrow> int \<Rightarrow> memory_sink result" where
  "memory_sink_new max_events max_payload_bytes =
     rbind (require_positive_integer (pstr ''max_events'') max_events) (\<lambda>_.
     rbind (require_positive_integer (pstr ''max_payload_bytes'') max_payload_bytes) (\<lambda>_.
     Inr \<lparr>ms_max_events = max_events, ms_max_payload_bytes = max_payload_bytes, ms_events = [],
          ms_payload_bytes = 0, ms_last_sequences = [], ms_closed = False\<rparr>))"

type_synonym 'a sink_action = "(memory_sink, sandbox_error, 'a) action"

definition sink_emit :: "(py_float \<Rightarrow> pystr) \<Rightarrow> sandbox_event \<Rightarrow> unit sink_action" where
  "sink_emit float_repr e =
     act_bind (act_lift (canonical_event_bytes float_repr e)) (\<lambda>encoded.
     let encoded_size = int (length encoded) in
     act_bind (act_get ms_closed) (\<lambda>shut.
     if shut then act_lift (throw (Event EventSinkClosed) (pstr ''event sink is closed''))
     else act_bind (act_get (\<lambda>s. map_of (ms_last_sequences s) (ev_session_id e))) (\<lambda>previous.
     if (case previous of None \<Rightarrow> False | Some p \<Rightarrow> ev_sequence e \<le> p)
     then act_lift (throw (Event EventInvalid)
       (pstr ''accepted event sequences must be strictly increasing per session''))
     else act_bind (act_get (\<lambda>s.
         ms_max_events s < int (length (ms_events s)) + 1 \<or>
         ms_max_payload_bytes s < ms_payload_bytes s + encoded_size)) (\<lambda>full.
     if full then act_lift (throw (Event EventBufferLimitExceeded)
       (pstr ''accepting the event would exceed the in-memory sink limits''))
     else act_put (\<lambda>s. s\<lparr>ms_events := ms_events s @ [e],
       ms_payload_bytes := ms_payload_bytes s + encoded_size,
       ms_last_sequences := dict_put (ev_session_id e) (ev_sequence e) (ms_last_sequences s)\<rparr>)))))"

definition event_matches :: "sandbox_event \<Rightarrow> event_query \<Rightarrow> bool" where
  "event_matches e q \<longleftrightarrow>
     (eq_session_id q = None \<or> Some (ev_session_id e) = eq_session_id q) \<and>
     (eq_operation_id q = None \<or> ev_operation_id e = eq_operation_id q) \<and>
     (eq_category q = None \<or> Some (ev_category e) = eq_category q) \<and>
     (eq_event_type q = None \<or> Some (ev_type e) = eq_event_type q)"

text \<open>Instants compare by what they are in UTC.\<close>

definition utc_us :: "py_datetime \<Rightarrow> int" where
  "utc_us d = wall_us d - (case utc_offset_us d of None \<Rightarrow> 0 | Some off \<Rightarrow> off)"

definition history_key :: "sandbox_event \<Rightarrow> int \<times> pystr \<times> int" where
  "history_key e = (utc_us (ev_occurred_at e), identifier_str (ev_session_id e), ev_sequence e)"

definition sink_query :: "event_query option \<Rightarrow> sandbox_event list sink_action" where
  "sink_query query =
     (let requested = (case query of None \<Rightarrow> any_event | Some q \<Rightarrow> q) in
      act_get (\<lambda>s. sort_key history_key (filter (\<lambda>e. event_matches e requested) (ms_events s))))"

record sink_stats =
  ss_event_count :: int
  ss_payload_bytes :: int

definition sink_get_stats :: "sink_stats sink_action" where
  "sink_get_stats = act_get (\<lambda>s. \<lparr>ss_event_count = int (length (ms_events s)), ss_payload_bytes = ms_payload_bytes s\<rparr>)"

definition sink_flush :: "unit sink_action" where
  "sink_flush = act_ret ()"

definition sink_close :: "unit sink_action" where
  "sink_close = act_put (\<lambda>s. s\<lparr>ms_closed := True\<rparr>)"

section \<open>The invariant and the contract\<close>

definition event_size :: "(py_float \<Rightarrow> pystr) \<Rightarrow> sandbox_event \<Rightarrow> int" where
  "event_size float_repr e = (case canonical_event_bytes float_repr e of Inl _ \<Rightarrow> 0 | Inr bs \<Rightarrow> int (length bs))"

definition in_sequence :: "sandbox_event list \<Rightarrow> bool" where
  "in_sequence es \<longleftrightarrow> sorted_wrt (\<lambda>a b. ev_session_id a = ev_session_id b \<longrightarrow> ev_sequence a < ev_sequence b) es"

definition sink_inv :: "(py_float \<Rightarrow> pystr) \<Rightarrow> memory_sink \<Rightarrow> bool" where
  "sink_inv float_repr s \<longleftrightarrow>
     int (length (ms_events s)) \<le> ms_max_events s \<and>
     ms_payload_bytes s = (\<Sum>e\<leftarrow>ms_events s. event_size float_repr e) \<and>
     ms_payload_bytes s \<le> ms_max_payload_bytes s \<and>
     in_sequence (ms_events s) \<and>
     (\<forall>e \<in> set (ms_events s). \<exists>n. map_of (ms_last_sequences s) (ev_session_id e) = Some n \<and> ev_sequence e \<le> n)"

datatype sink_op = SinkEmit sandbox_event | SinkQuery "event_query option" | SinkStats | SinkFlush | SinkClose

fun sink_exec :: "(py_float \<Rightarrow> pystr) \<Rightarrow> sink_op \<Rightarrow> unit sink_action" where
  "sink_exec float_repr (SinkEmit e) = sink_emit float_repr e"
| "sink_exec float_repr (SinkQuery q) = act_bind (sink_query q) (\<lambda>_. act_ret ())"
| "sink_exec float_repr SinkStats = act_bind sink_get_stats (\<lambda>_. act_ret ())"
| "sink_exec float_repr SinkFlush = sink_flush"
| "sink_exec float_repr SinkClose = sink_close"

text \<open>The abstract sink: the accepted events, and whether it is closed.\<close>

fun sink_spec :: "sink_op \<Rightarrow> sandbox_event list \<times> bool \<Rightarrow> sandbox_event list \<times> bool" where
  "sink_spec (SinkEmit e) (es, shut) = (es @ [e], shut)"
| "sink_spec SinkClose (es, shut) = (es, True)"
| "sink_spec _ h = h"

definition sink_view :: "memory_sink \<Rightarrow> sandbox_event list \<times> bool" where
  "sink_view s = (ms_events s, ms_closed s)"

lemma sink_emit_ok:
  "sink_emit fr e s = (Inr u, s') \<longleftrightarrow>
     (\<exists>bs. canonical_event_bytes fr e = Inr bs \<and> \<not> ms_closed s \<and>
        (\<forall>p. map_of (ms_last_sequences s) (ev_session_id e) = Some p \<longrightarrow> p < ev_sequence e) \<and>
        int (length (ms_events s)) + 1 \<le> ms_max_events s \<and>
        ms_payload_bytes s + int (length bs) \<le> ms_max_payload_bytes s \<and>
        s' = s\<lparr>ms_events := ms_events s @ [e], ms_payload_bytes := ms_payload_bytes s + int (length bs),
              ms_last_sequences := dict_put (ev_session_id e) (ev_sequence e) (ms_last_sequences s)\<rparr>)"
  by (cases "map_of (ms_last_sequences s) (ev_session_id e)")
     (auto simp: sink_emit_def Let_def not_le split: sum.splits if_splits)

lemma sink_emit_error: "sink_emit fr e s = (Inl err, s') \<Longrightarrow> s' = s"
  by (auto simp: sink_emit_def Let_def split: sum.splits if_splits)

lemma sink_emit_inv:
  assumes "sink_inv fr s" and "sink_emit fr e s = (Inr u, s')"
  shows "sink_inv fr s'"
proof -
  let ?k = "ev_session_id e" and ?n = "ev_sequence e"
  obtain bs where bs: "canonical_event_bytes fr e = Inr bs"
    and fresh: "\<And>p. map_of (ms_last_sequences s) ?k = Some p \<Longrightarrow> p < ?n"
    and fits: "int (length (ms_events s)) + 1 \<le> ms_max_events s"
      "ms_payload_bytes s + int (length bs) \<le> ms_max_payload_bytes s"
    and s': "s' = s\<lparr>ms_events := ms_events s @ [e], ms_payload_bytes := ms_payload_bytes s + int (length bs),
      ms_last_sequences := dict_put ?k ?n (ms_last_sequences s)\<rparr>"
    using assms(2) by (auto simp: sink_emit_ok)
  have last: "\<exists>n. map_of (ms_last_sequences s) (ev_session_id a) = Some n \<and> ev_sequence a \<le> n" if "a \<in> set (ms_events s)" for a
    using assms(1) that by (auto simp: sink_inv_def)
  have before: "ev_sequence a < ?n" if "a \<in> set (ms_events s)" "ev_session_id a = ?k" for a
    using last [OF that(1)] fresh that(2) by fastforce
  show ?thesis
    using assms(1) bs fits before last less_imp_le [OF before]
    by (auto simp: sink_inv_def s' in_sequence_def sorted_wrt_append event_size_def split: if_splits)
qed

lemma sink_exec_simple:
  "sink_exec fr (SinkQuery q) s = (Inr (), s)"
  "sink_exec fr SinkStats s = (Inr (), s)"
  "sink_exec fr SinkFlush s = (Inr (), s)"
  "sink_exec fr SinkClose s = (Inr (), s\<lparr>ms_closed := True\<rparr>)"
  by (simp_all add: sink_query_def sink_get_stats_def sink_flush_def sink_close_def Let_def)

lemma sink_exec_keeps_limits:
  "sink_exec fr op s = (r, s') \<Longrightarrow>
     ms_max_events s' = ms_max_events s \<and> ms_max_payload_bytes s' = ms_max_payload_bytes s"
  by (cases op; cases r) (auto simp: sink_exec_simple sink_emit_ok dest: sink_emit_error simp del: sink_exec.simps(2-))

interpretation sink: transactional
  "\<lambda>s. sink_inv fr s \<and> ms_max_events s = m \<and> ms_max_payload_bytes s = p" "\<lambda>_. True" "sink_exec fr" sink_view sink_spec
  for fr m p
proof
  fix s op err s'
  show "sink_exec fr op s = (Inl err, s') \<Longrightarrow> s' = s"
    by (cases op) (auto simp: sink_exec_simple simp del: sink_exec.simps(2-) dest: sink_emit_error)
next
  fix s op r s'
  assume s: "sink_inv fr s \<and> ms_max_events s = m \<and> ms_max_payload_bytes s = p" and run: "sink_exec fr op s = (Inr r, s')"
  have "sink_inv fr s' \<and> sink_view s' = sink_spec op (sink_view s)"
  proof (cases op)
    case (SinkEmit e)
    then show ?thesis using s run sink_emit_inv [of fr s e r s'] by (auto simp: sink_emit_ok sink_view_def)
  qed (use s run in \<open>auto simp: sink_exec_simple sink_view_def sink_inv_def simp del: sink_exec.simps\<close>)
  then show "(sink_inv fr s' \<and> ms_max_events s' = m \<and> ms_max_payload_bytes s' = p) \<and> sink_view s' = sink_spec op (sink_view s)"
    using s sink_exec_keeps_limits [OF run] by simp
qed

section \<open>Properties\<close>

fun emitted :: "sink_op list \<Rightarrow> sandbox_event list" where
  "emitted [] = []"
| "emitted (SinkEmit e # ops) = e # emitted ops"
| "emitted (_ # ops) = emitted ops"

lemma fold_sink_spec: "fst (fold sink_spec ops h) = fst h @ emitted ops"
proof (induction ops arbitrary: h)
  case Nil
  then show ?case by simp
next
  case (Cons op ops)
  then show ?case by (cases op; cases h) simp_all
qed

lemma memory_sink_new_inv:
  assumes "memory_sink_new m p = Inr s"
  shows "sink_inv fr s \<and> ms_max_events s = m \<and> ms_max_payload_bytes s = p" and "sink_view s = ([], False)"
  using assms
  by (auto simp: memory_sink_new_def require_positive_integer_def ok_iff sink_inv_def in_sequence_def sink_view_def)

text \<open>
  C38: a bounded sink. Whatever is emitted, queried and closed, in whatever order, the history of an
  in-memory sink holds exactly the events whose emission returned, in the order they were emitted; it
  never has more events than its limit, never more canonical bytes (which it counts exactly), and the
  sequence numbers of every session are strictly increasing.
\<close>

theorem sink_history:
  assumes "memory_sink_new m p = Inr s"
    and "exec_all (sink_exec fr) ops s = s'"
  shows "ms_events s' = emitted (succeeded (sink_exec fr) ops s) \<and>
    int (length (ms_events s')) \<le> m \<and>
    ms_payload_bytes s' = (\<Sum>e\<leftarrow>ms_events s'. event_size fr e) \<and> ms_payload_bytes s' \<le> p \<and>
    in_sequence (ms_events s')"
proof -
  note start = memory_sink_new_inv(1) [OF assms(1), of fr] memory_sink_new_inv(2) [OF assms(1)]
  have "list_all (\<lambda>_. True) ops" by (simp add: list_all_iff)
  from sink.exec_all_refines [OF start(1) this]
  show ?thesis
    using start(2) fold_sink_spec [of "succeeded (sink_exec fr) ops s" "([], False)"]
    by (auto simp: assms(2) sink_inv_def sink_view_def prod_eq_iff)
qed

lemma sink_history_witness:
  "\<exists>fr m p s. memory_sink_new m p = Inr s \<and>
     ms_events (exec_all (sink_exec fr) [SinkEmit sample_event, SinkEmit sample_event, SinkClose] s) = [sample_event]"
proof -
  obtain bs where bs: "canonical_event_bytes (\<lambda>_. []) sample_event = Inr bs"
    using canonical_bytes_exist [of "\<lambda>_. []" sample_event]
    by (auto simp: sample_event_def is_scalar_def is_surrogate_def)
  define p where "p = 2 * int (length bs) + 1"
  have "0 < p" by (simp add: p_def)
  then obtain s where new: "memory_sink_new 2 p = Inr s"
    by (auto simp: memory_sink_new_def require_positive_integer_def)
  then have s: "s = \<lparr>ms_max_events = 2, ms_max_payload_bytes = p, ms_events = [], ms_payload_bytes = 0,
      ms_last_sequences = [], ms_closed = False\<rparr>"
    by (auto simp: memory_sink_new_def ok_iff require_positive_integer_def)
  have "succeeded (sink_exec (\<lambda>_. [])) [SinkEmit sample_event, SinkEmit sample_event, SinkClose] s
      = [SinkEmit sample_event, SinkClose]"
    using bs by (simp add: s p_def sink_emit_def Let_def sink_close_def sample_event_def)
  with sink_history [OF new refl, of "\<lambda>_. []" "[SinkEmit sample_event, SinkEmit sample_event, SinkClose]"]
  have "ms_events (exec_all (sink_exec (\<lambda>_. [])) [SinkEmit sample_event, SinkEmit sample_event, SinkClose] s)
      = [sample_event]"
    by (simp only: emitted.simps)
  with new show ?thesis by blast
qed

end
