(* ===== verification/Secret_Broker.thy ===== *)
theory Secret_Broker
  imports Identifiers "HOL-Library.Stream"
begin

text \<open>
  \<open>secrets/models.py\<close>, \<open>secrets/source.py\<close> and \<open>secrets/broker.py\<close>: references, values, finite
  leases. A broker reads its clock through a stream of replies; what a source replies to a request is
  an argument of the step that follows the request, because other tasks run while it is awaited.
\<close>

section \<open>References, values, requests and limits\<close>

datatype secret_ref = SecretRef (ref_name: pystr)

definition secret_name_ok :: "pystr \<Rightarrow> bool" where
  "secret_name_ok name \<longleftrightarrow>
     (case name of
        [] \<Rightarrow> False
      | x # rest \<Rightarrow>
          (is_ascii_letter x \<or> is_ascii_digit x) \<and> length rest \<le> 127 \<and>
          list_all (\<lambda>c. is_ascii_letter c \<or> is_ascii_digit c \<or> c = 95 \<or> c = 46 \<or> c = 45) rest)"

definition secret_ref_new :: "pystr \<Rightarrow> secret_ref result" where
  "secret_ref_new name =
     rbind (guard (secret_name_ok name)
       (Raise (Secret SecretReferenceInvalid) (pstr ''secret reference name is invalid''))) (\<lambda>_.
     Inr (SecretRef name))"

datatype secret_value = SecretValue (reveal_text: pystr)

definition reveal_bytes :: "secret_value \<Rightarrow> byte list result" where
  "reveal_bytes v =
     (case utf8_encode (reveal_text v) of
        Some bs \<Rightarrow> Inr bs
      | None \<Rightarrow> throw (Builtin UnicodeEncodeError) (pstr ''surrogates not allowed''))"

record secret_access_request =
  sr_session_id :: session_id
  sr_operation_id :: operation_id
  sr_secret_ref :: secret_ref
  sr_command_name :: "pystr option"
  sr_max_lease_seconds :: py_float

definition secret_access_request_new :: "secret_access_request \<Rightarrow> secret_access_request result" where
  "secret_access_request_new r =
     rbind (require_positive_finite (pstr ''max_lease_seconds'') (sr_max_lease_seconds r)) (\<lambda>_. Inr r)"

record secret_broker_limits =
  sb_max_active_leases :: int
  sb_max_lease_seconds :: py_float
  sb_max_value_bytes :: int

definition require_positive_int :: "pystr \<Rightarrow> int \<Rightarrow> unit result" where
  "require_positive_int name v =
     guard (\<not> v \<le> 0) (Raise (Builtin ValueError) (name @ pstr '' must be positive''))"

definition secret_broker_limits_new :: "secret_broker_limits \<Rightarrow> secret_broker_limits result" where
  "secret_broker_limits_new l =
     rbind (require_positive_int (pstr ''max_active_leases'') (sb_max_active_leases l)) (\<lambda>_.
     rbind (require_positive_int (pstr ''max_value_bytes'') (sb_max_value_bytes l)) (\<lambda>_.
     rbind (require_positive_finite (pstr ''max_lease_seconds'') (sb_max_lease_seconds l)) (\<lambda>_. Inr l)))"

section \<open>Sources\<close>

text \<open>What awaiting \<open>source.resolve\<close> gives: a value, something else, or an exception.\<close>

datatype source_reply =
    SourceValue secret_value
  | SourceOther
  | SourceRaises sandbox_error

type_synonym mapping_source = "(secret_ref, secret_value) dict"

fun mapping_source_new :: "(secret_ref \<times> secret_value) list \<Rightarrow> mapping_source \<Rightarrow> mapping_source" where
  "mapping_source_new [] copied = copied"
| "mapping_source_new ((r, v) # items) copied = mapping_source_new items (dict_put r v copied)"

definition mapping_resolve :: "mapping_source \<Rightarrow> secret_ref \<Rightarrow> source_reply" where
  "mapping_resolve values r =
     (case map_of values r of
        None \<Rightarrow> SourceRaises (Raise (Secret SecretNotFound)
                  (pstr ''secret reference '' @ ref_name r @ pstr '' does not exist''))
      | Some v \<Rightarrow> SourceValue v)"

section \<open>The broker\<close>

datatype clock_reply =
    ClockTime py_datetime
  | ClockOther
  | ClockRaises
  | ClockOffsetRaises

record secret_broker =
  bk_limits :: secret_broker_limits
  bk_records :: "(nat, py_datetime) dict"
  bk_next_token :: nat
  bk_clock :: "clock_reply stream"

type_synonym 'a broker_action = "(secret_broker, sandbox_error, 'a) action"

definition broker_new :: "secret_broker_limits \<Rightarrow> clock_reply stream \<Rightarrow> secret_broker" where
  "broker_new l clock = \<lparr>bk_limits = l, bk_records = [], bk_next_token = 1, bk_clock = clock\<rparr>"

definition source_unavailable :: "pystr \<Rightarrow> sandbox_error" where
  "source_unavailable m = Raise (Secret SecretSourceUnavailable) m"

definition check_clock :: "clock_reply \<Rightarrow> py_datetime result" where
  "check_clock reply =
     (case reply of
        ClockRaises \<Rightarrow> Inl (source_unavailable (pstr ''secret broker clock is unavailable''))
      | ClockOther \<Rightarrow> Inl (source_unavailable (pstr ''secret broker clock must return a datetime''))
      | ClockOffsetRaises \<Rightarrow> Inl (source_unavailable (pstr ''secret broker clock returned an invalid datetime''))
      | ClockTime d \<Rightarrow>
          (case utc_offset_us d of
             None \<Rightarrow> Inl (source_unavailable (pstr ''secret broker clock must return an aware datetime''))
           | Some off \<Rightarrow>
               if off \<noteq> 0 then Inl (source_unavailable (pstr ''secret broker clock must return UTC'')) else Inr d))"

definition broker_now :: "py_datetime broker_action" where
  "broker_now = (\<lambda>b. (check_clock (shd (bk_clock b)), b\<lparr>bk_clock := stl (bk_clock b)\<rparr>))"

definition release :: "nat \<Rightarrow> secret_broker \<Rightarrow> secret_broker" where
  "release token b = b\<lparr>bk_records := dict_del token (bk_records b)\<rparr>"

definition purge_expired :: "py_datetime \<Rightarrow> secret_broker \<Rightarrow> secret_broker" where
  "purge_expired now b =
     fold release (map fst (filter (\<lambda>(token, expires_at). wall_us expires_at \<le> wall_us now) (bk_records b))) b"

text \<open>
  \<open>min\<close> of two finite floats, \<open>timedelta(seconds=...)\<close> rounded to microseconds (to even), and the sum
  with a \<open>datetime\<close>; \<open>None\<close> is \<open>OverflowError\<close>. Wall times count microseconds from \<open>datetime.min\<close>.
\<close>

definition float_min :: "py_float \<Rightarrow> py_float \<Rightarrow> py_float" where
  "float_min a b = (case (a, b) of (Finite p, Finite q) \<Rightarrow> Finite (if q < p then q else p) | _ \<Rightarrow> a)"

definition round_half_even :: "rat \<Rightarrow> int" where
  "round_half_even q =
     (let f = \<lfloor>q\<rfloor>; d = q - of_int f
      in if d < 1 / 2 then f else if 1 / 2 < d then f + 1 else if even f then f else f + 1)"

definition max_wall_us :: int where
  "max_wall_us = 3652059 * 86400000000 - 1"

definition add_seconds :: "py_datetime \<Rightarrow> py_float \<Rightarrow> py_datetime option" where
  "add_seconds d seconds =
     (case seconds of
        Finite q \<Rightarrow>
          (let total_us = wall_us d + round_half_even (q * 1000000)
           in if 0 \<le> total_us \<and> total_us \<le> max_wall_us then Some (d\<lparr>wall_us := total_us\<rparr>) else None)
      | _ \<Rightarrow> None)"

text \<open>The admission of a lease, under the broker's lock.\<close>

definition lease_accept :: "secret_access_request \<Rightarrow> (nat \<times> py_datetime) broker_action" where
  "lease_accept r =
     act_bind broker_now (\<lambda>accepted_at.
     act_bind (act_put (purge_expired accepted_at)) (\<lambda>_.
     act_bind (act_get (\<lambda>b. b)) (\<lambda>b.
       if int (length (bk_records b)) \<ge> sb_max_active_leases (bk_limits b)
       then act_lift (throw (Secret SecretLeaseLimitExceeded)
              (pstr ''accepting the secret lease would exceed the configured active-lease limit''))
       else
         case add_seconds accepted_at (float_min (sr_max_lease_seconds r) (sb_max_lease_seconds (bk_limits b))) of
           None \<Rightarrow> act_lift (Inl (source_unavailable
                     (pstr ''secret lease expiration exceeds the supported datetime range'')))
         | Some expires_at \<Rightarrow>
             act_bind (act_put (\<lambda>b. b\<lparr>bk_next_token := bk_next_token b + 1,
                 bk_records := dict_put (bk_next_token b) expires_at (bk_records b)\<rparr>)) (\<lambda>_.
             act_ret (bk_next_token b, expires_at)))))"

text \<open>\<open>_resolve\<close>: \<open>Inl\<close> is a cancellation, otherwise a value or the failure to raise.\<close>

definition resolve_reply ::
  "secret_access_request \<Rightarrow> source_reply \<Rightarrow> (secret_value option \<times> sandbox_error option) result" where
  "resolve_reply r reply =
     (let name = ref_name (sr_secret_ref r);
          unavailable = Inr (None, Some (source_unavailable
            (pstr ''secret source is unavailable for reference '' @ name)))
      in case reply of
        SourceValue v \<Rightarrow> Inr (Some v, None)
      | SourceOther \<Rightarrow> Inr (None, Some (Raise (Secret SecretSourceValueInvalid)
          (pstr ''secret source returned an invalid value for reference '' @ name)))
      | SourceRaises e \<Rightarrow>
          if err_class e = Builtin CancelledError then Inl e
          else if err_class e = Secret SecretNotFound
          then Inr (None, Some (Raise (Secret SecretNotFound)
                 (pstr ''secret reference '' @ name @ pstr '' does not exist'')))
          else if err_class e = Secret SecretSourceValueInvalid
          then Inr (None, Some (Raise (Secret SecretSourceValueInvalid)
                 (pstr ''secret source value for reference '' @ name @ pstr '' is invalid'')))
          else unavailable)"

record secret_lease =
  ls_value :: secret_value
  ls_expires_at :: py_datetime
  ls_token :: nat
  ls_closed :: bool

text \<open>The body of the \<open>try\<close>, and the release of the record when it raises.\<close>

definition checked_value :: "secret_broker_limits \<Rightarrow> secret_access_request \<Rightarrow> source_reply \<Rightarrow> secret_value result" where
  "checked_value l r reply =
     (let name = ref_name (sr_secret_ref r) in
      rbind (resolve_reply r reply) (\<lambda>(found, failure).
        case failure of
          Some e \<Rightarrow> Inl e
        | None \<Rightarrow>
            (case found of
               None \<Rightarrow> Inl (source_unavailable (pstr ''secret source returned no value for reference '' @ name))
             | Some v \<Rightarrow>
                 (case reveal_bytes v of
                    Inl _ \<Rightarrow> throw (Secret SecretSourceValueInvalid)
                      (pstr ''secret source value for reference '' @ name @ pstr '' is not valid UTF-8'')
                  | Inr bs \<Rightarrow>
                      if bs = [] \<or> int (length bs) > sb_max_value_bytes l
                      then throw (Secret SecretSourceValueInvalid)
                             (pstr ''secret source value for reference '' @ name
                              @ pstr '' is outside the configured UTF-8 byte bounds'')
                      else Inr v))))"

definition lease_settle ::
  "nat \<Rightarrow> py_datetime \<Rightarrow> secret_access_request \<Rightarrow> source_reply \<Rightarrow> secret_lease broker_action" where
  "lease_settle token expires_at r reply = (\<lambda>b.
     case checked_value (bk_limits b) r reply of
       Inl e \<Rightarrow> (Inl e, release token b)
     | Inr v \<Rightarrow> (Inr \<lparr>ls_value = v, ls_expires_at = expires_at, ls_token = token, ls_closed = False\<rparr>, b))"

definition broker_lease :: "secret_access_request \<Rightarrow> source_reply \<Rightarrow> secret_lease broker_action" where
  "broker_lease r reply =
     act_bind (lease_accept r) (\<lambda>(token, expires_at). lease_settle token expires_at r reply)"

definition no_broker_lease :: "secret_access_request \<Rightarrow> secret_lease result" where
  "no_broker_lease r =
     throw (Secret SecretDenied)
       (pstr ''secret access is unsupported for reference '' @ ref_name (sr_secret_ref r))"

section \<open>Leases\<close>

definition lease_value :: "secret_lease \<Rightarrow> secret_value broker_action" where
  "lease_value l =
     (if ls_closed l then act_lift (throw (Secret SecretLeaseClosed) (pstr ''secret lease is closed''))
      else
        act_bind broker_now (\<lambda>now.
          if wall_us now \<ge> wall_us (ls_expires_at l)
          then act_lift (throw (Secret SecretExpired) (pstr ''secret lease is expired''))
          else act_ret (ls_value l)))"

text \<open>\<open>close\<close>: the removal of a record never raises.\<close>

definition lease_close :: "secret_lease \<Rightarrow> secret_broker \<Rightarrow> secret_lease \<times> secret_broker" where
  "lease_close l b = (if ls_closed l then (l, b) else (l\<lparr>ls_closed := True\<rparr>, release (ls_token l) b))"

section \<open>Requests that overlap\<close>

text \<open>
  The tasks that use one broker: admitted requests whose source is still awaited, leases that were
  granted, and the latest time at which a request was admitted or refused for capacity.
\<close>

record lease_world =
  lw_broker :: secret_broker
  lw_pending :: "nat \<Rightarrow> (secret_access_request \<times> py_datetime) option"
  lw_leases :: "nat \<Rightarrow> secret_lease option"
  lw_latest :: int

definition lease_world_new :: "secret_broker_limits \<Rightarrow> clock_reply stream \<Rightarrow> lease_world" where
  "lease_world_new l clock =
     \<lparr>lw_broker = broker_new l clock, lw_pending = Map.empty, lw_leases = Map.empty, lw_latest = 0\<rparr>"

text \<open>The time that an admission reads.\<close>

definition read_time :: "secret_broker \<Rightarrow> int" where
  "read_time b = (case check_clock (shd (bk_clock b)) of Inl _ \<Rightarrow> 0 | Inr d \<Rightarrow> wall_us d)"

inductive lease_step :: "lease_world \<Rightarrow> lease_world \<Rightarrow> bool" where
  accept: "lease_accept r (lw_broker w) = (Inr (t, e), b) \<Longrightarrow>
    lease_step w (w\<lparr>lw_broker := b, lw_pending := (lw_pending w)(t \<mapsto> (r, e)),
      lw_latest := max (lw_latest w) (read_time (lw_broker w))\<rparr>)"
| refuse: "lease_accept r (lw_broker w) = (Inl e, b) \<Longrightarrow>
    lease_step w (w\<lparr>lw_broker := b, lw_latest := max (lw_latest w) (read_time (lw_broker w))\<rparr>)"
| grant: "lw_pending w t = Some (r, e) \<Longrightarrow> lease_settle t e r reply (lw_broker w) = (Inr l, b) \<Longrightarrow>
    lease_step w (w\<lparr>lw_broker := b, lw_pending := (lw_pending w)(t := None), lw_leases := (lw_leases w)(t \<mapsto> l)\<rparr>)"
| deny: "lw_pending w t = Some (r, e) \<Longrightarrow> lease_settle t e r reply (lw_broker w) = (Inl x, b) \<Longrightarrow>
    lease_step w (w\<lparr>lw_broker := b, lw_pending := (lw_pending w)(t := None)\<rparr>)"
| reveal: "lw_leases w t = Some l \<Longrightarrow> lease_value l (lw_broker w) = (out, b) \<Longrightarrow>
    lease_step w (w\<lparr>lw_broker := b\<rparr>)"
| close: "lw_leases w t = Some l \<Longrightarrow> lease_close l (lw_broker w) = (l', b) \<Longrightarrow>
    lease_step w (w\<lparr>lw_broker := b, lw_leases := (lw_leases w)(t \<mapsto> l')\<rparr>)"

inductive_cases lease_stepE: "lease_step w w'"

inductive lease_reachable :: "secret_broker_limits \<Rightarrow> lease_world \<Rightarrow> bool" for limits where
  start: "lease_reachable limits (lease_world_new limits clock)"
| step: "lease_reachable limits w \<Longrightarrow> lease_step w w' \<Longrightarrow> lease_reachable limits w'"

text \<open>A request that is awaited, or a lease that is not closed, with the time it ends.\<close>

definition holds ::
  "(nat \<Rightarrow> (secret_access_request \<times> py_datetime) option) \<Rightarrow> (nat \<Rightarrow> secret_lease option) \<Rightarrow> nat \<Rightarrow> py_datetime option" where
  "holds pending leases t =
     (case pending t of
        Some x \<Rightarrow> Some (snd x)
      | None \<Rightarrow> (case leases t of
                  Some l \<Rightarrow> if ls_closed l then None else Some (ls_expires_at l)
                | None \<Rightarrow> None))"

abbreviation holds_until :: "lease_world \<Rightarrow> nat \<Rightarrow> py_datetime option" where
  "holds_until w \<equiv> holds (lw_pending w) (lw_leases w)"

definition lease_inv :: "secret_broker_limits \<Rightarrow> lease_world \<Rightarrow> bool" where
  "lease_inv limits w \<longleftrightarrow>
     (let b = lw_broker w in
      bk_limits b = limits \<and> dict_ok (bk_records b) \<and>
      (bk_records b \<noteq> [] \<longrightarrow> int (length (bk_records b)) \<le> sb_max_active_leases limits) \<and>
      (\<forall>t e. map_of (bk_records b) t = Some e \<longrightarrow> holds_until w t = Some e) \<and>
      (\<forall>t e. holds_until w t = Some e \<longrightarrow> map_of (bk_records b) t = Some e \<or> wall_us e \<le> lw_latest w) \<and>
      (\<forall>t. t \<ge> bk_next_token b \<longrightarrow> lw_pending w t = None \<and> lw_leases w t = None) \<and>
      (\<forall>t. lw_pending w t = None \<or> lw_leases w t = None) \<and>
      (\<forall>t l. lw_leases w t = Some l \<longrightarrow> ls_token l = t))"

lemma release_simps [simp]:
  "bk_limits (release t b) = bk_limits b" "bk_next_token (release t b) = bk_next_token b"
  "bk_clock (release t b) = bk_clock b" "bk_records (release t b) = dict_del t (bk_records b)"
  by (simp_all add: release_def)

lemma length_dict_del: "length (dict_del k d) \<le> length d"
  by (simp add: dict_del_def)

lemma length_dict_put: "map_of d k = None \<Longrightarrow> length (dict_put k v d) = Suc (length d)"
  by (induction k v d rule: dict_put.induct) (auto split: if_splits)

lemma fold_release:
  "bk_limits (fold release ts b) = bk_limits b \<and> bk_next_token (fold release ts b) = bk_next_token b \<and>
   bk_clock (fold release ts b) = bk_clock b \<and>
   bk_records (fold release ts b) = filter (\<lambda>kv. fst kv \<notin> set ts) (bk_records b)"
  by (induction ts arbitrary: b) (auto simp: dict_del_def intro!: filter_cong)

lemma purge_facts:
  assumes "dict_ok (bk_records b)"
  shows "bk_limits (purge_expired now b) = bk_limits b" "bk_next_token (purge_expired now b) = bk_next_token b"
    "bk_clock (purge_expired now b) = bk_clock b"
    "bk_records (purge_expired now b) = filter (\<lambda>(t, e). wall_us now < wall_us e) (bk_records b)"
proof -
  have "(fst kv \<notin> fst ` {kv \<in> set (bk_records b). wall_us (snd kv) \<le> wall_us now}) \<longleftrightarrow> wall_us now < wall_us (snd kv)"
    if "kv \<in> set (bk_records b)" for kv
  proof -
    have "kv' = kv" if kv': "kv' \<in> set (bk_records b)" "fst kv' = fst kv" for kv'
    proof -
      have "inj_on fst (set (bk_records b))" using assms by (simp add: dict_ok_def distinct_map)
      then show ?thesis using kv' \<open>kv \<in> set (bk_records b)\<close> by (auto dest: inj_onD)
    qed
    then have "fst kv \<in> fst ` {kv \<in> set (bk_records b). wall_us (snd kv) \<le> wall_us now} \<longleftrightarrow>
        wall_us (snd kv) \<le> wall_us now"
      using that by fastforce
    then show ?thesis by auto
  qed
  then show "bk_records (purge_expired now b) = filter (\<lambda>(t, e). wall_us now < wall_us e) (bk_records b)"
    by (auto simp: purge_expired_def fold_release case_prod_unfold intro!: filter_cong)
qed (simp_all add: purge_expired_def fold_release)

lemma lease_accept_facts:
  assumes "lease_accept r b = (out, b')" and "dict_ok (bk_records b)"
  shows "bk_limits b' = bk_limits b \<and>
    ((\<exists>kept. bk_records b' = filter kept (bk_records b) \<and> (\<forall>t e. (t, e) \<in> set (bk_records b) \<longrightarrow>
         kept (t, e) \<or> wall_us e \<le> read_time b) \<and> bk_next_token b' = bk_next_token b \<and> isl out) \<or>
     (\<exists>e kept. out = Inr (bk_next_token b, e) \<and> (\<forall>t e. (t, e) \<in> set (bk_records b) \<longrightarrow>
         kept (t, e) \<or> wall_us e \<le> read_time b) \<and>
       int (length (filter kept (bk_records b))) < sb_max_active_leases (bk_limits b) \<and>
       bk_records b' = dict_put (bk_next_token b) e (filter kept (bk_records b)) \<and>
       bk_next_token b' = bk_next_token b + 1))"
proof (cases "check_clock (shd (bk_clock b))")
  case (Inl e)
  then have "b' = b\<lparr>bk_clock := stl (bk_clock b)\<rparr>" "isl out"
    using assms(1) by (auto simp: lease_accept_def broker_now_def act_bind_def)
  then show ?thesis by (intro conjI disjI1 exI [of _ "\<lambda>_. True"]) auto
next
  case (Inr now)
  define b1 where "b1 = b\<lparr>bk_clock := stl (bk_clock b)\<rparr>"
  define kept where "kept = (\<lambda>(t :: nat, e :: py_datetime). wall_us now < wall_us e)"
  have now: "read_time b = wall_us now" using Inr by (simp add: read_time_def)
  have p: "bk_limits (purge_expired now b1) = bk_limits b" "bk_next_token (purge_expired now b1) = bk_next_token b"
    "bk_records (purge_expired now b1) = filter kept (bk_records b)"
    using purge_facts [of b1 now] assms(2) by (simp_all add: b1_def kept_def)
  have k: "\<forall>t e. (t, e) \<in> set (bk_records b) \<longrightarrow> kept (t, e) \<or> wall_us e \<le> read_time b"
    using now by (auto simp: kept_def)
  have run: "lease_accept r b = (let b2 = purge_expired now b1 in
      if int (length (bk_records b2)) \<ge> sb_max_active_leases (bk_limits b2)
      then (throw (Secret SecretLeaseLimitExceeded)
              (pstr ''accepting the secret lease would exceed the configured active-lease limit''), b2)
      else case add_seconds now (float_min (sr_max_lease_seconds r) (sb_max_lease_seconds (bk_limits b2))) of
             None \<Rightarrow> (Inl (source_unavailable
                     (pstr ''secret lease expiration exceeds the supported datetime range'')), b2)
           | Some e \<Rightarrow> (Inr (bk_next_token b2, e), b2\<lparr>bk_next_token := bk_next_token b2 + 1,
                 bk_records := dict_put (bk_next_token b2) e (bk_records b2)\<rparr>))"
    using Inr by (simp add: lease_accept_def broker_now_def act_bind_def b1_def Let_def split: option.splits)
  show ?thesis
  proof (cases "isl out")
    case True
    with assms(1) p k show ?thesis unfolding run Let_def
      by (intro conjI disjI1 exI [of _ kept]) (auto split: if_splits option.splits)
  next
    case False
    then obtain e where e: "out = Inr (bk_next_token b, e)"
      using assms(1) p unfolding run Let_def by (auto split: if_splits option.splits)
    with assms(1) p k show ?thesis unfolding run Let_def
      by (intro conjI disjI2 exI [of _ kept] exI [of _ e]) (auto split: if_splits option.splits)
  qed
qed

lemma lease_settle_facts:
  "lease_settle t e r reply b = (Inr l, b') \<Longrightarrow>
     b' = b \<and> ls_expires_at l = e \<and> ls_token l = t \<and> \<not> ls_closed l"
  "lease_settle t e r reply b = (Inl x, b') \<Longrightarrow> b' = release t b"
  by (auto simp: lease_settle_def split: sum.splits)

lemma lease_value_facts: "lease_value l b = (out, b') \<Longrightarrow> \<exists>c. b' = b\<lparr>bk_clock := c\<rparr>"
  by (auto simp: lease_value_def broker_now_def act_bind_def split: if_splits sum.splits)
     (metis secret_broker.surjective secret_broker.update_convs(4))+

lemma map_of_filter_dict:
  "dict_ok d \<Longrightarrow> map_of (filter keep d) k = Some v \<longleftrightarrow> map_of d k = Some v \<and> keep (k, v)"
  by (induction d) (auto simp: rev_image_eqI dest: map_of_SomeD)

lemma dict_ok_filter [simp]: "dict_ok d \<Longrightarrow> dict_ok (filter keep d)"
  by (auto simp: dict_ok_def distinct_map_filter)

lemma lease_inv_facts:
  assumes "lease_inv limits w"
  shows "bk_limits (lw_broker w) = limits" and "dict_ok (bk_records (lw_broker w))"
    and "bk_records (lw_broker w) \<noteq> [] \<Longrightarrow> int (length (bk_records (lw_broker w))) \<le> sb_max_active_leases limits"
    and "map_of (bk_records (lw_broker w)) t = Some e \<Longrightarrow> holds_until w t = Some e"
    and "holds_until w t = Some e \<Longrightarrow> map_of (bk_records (lw_broker w)) t = Some e \<or> wall_us e \<le> lw_latest w"
    and "bk_next_token (lw_broker w) \<le> t \<Longrightarrow> lw_pending w t = None \<and> lw_leases w t = None"
    and "lw_pending w t = None \<or> lw_leases w t = None"
    and "lw_leases w t = Some l \<Longrightarrow> ls_token l = t"
  using assms by (auto simp: lease_inv_def Let_def)

lemma lease_inv_accept:
  assumes acc: "lease_accept r (lw_broker w) = (out, b)" and inv: "lease_inv limits w"
    and w': "w' = w\<lparr>lw_broker := b, lw_pending := (case out of Inr (t, e) \<Rightarrow> (lw_pending w)(t \<mapsto> (r, e)) | Inl _ \<Rightarrow> lw_pending w),
      lw_latest := max (lw_latest w) (read_time (lw_broker w))\<rparr>"
  shows "lease_inv limits w'"
proof -
  let ?b = "lw_broker w" and ?n = "bk_next_token (lw_broker w)"
  note f = lease_inv_facts [OF inv]
  have none: "map_of (bk_records ?b) ?n = None"
  proof (rule ccontr)
    assume "map_of (bk_records ?b) ?n \<noteq> None"
    then obtain e where "holds_until w ?n = Some e" using f(4) by blast
    then show False using f(6) [of ?n] by (simp add: holds_def)
  qed
  obtain kept where lim: "bk_limits b = bk_limits ?b"
    and kept: "\<And>t e. map_of (bk_records ?b) t = Some e \<Longrightarrow> kept (t, e) \<or> wall_us e \<le> read_time ?b"
    and cases: "bk_records b = filter kept (bk_records ?b) \<and> isl out \<and> bk_next_token b = ?n \<or>
      (\<exists>e. out = Inr (?n, e) \<and> bk_next_token b = ?n + 1 \<and>
        int (length (filter kept (bk_records ?b))) < sb_max_active_leases limits \<and>
        bk_records b = dict_put ?n e (filter kept (bk_records ?b)))"
    using lease_accept_facts [OF acc f(2)] f(1) by (metis map_of_SomeD)
  have size: "int (length (filter kept (bk_records ?b))) \<le> sb_max_active_leases limits"
    if "filter kept (bk_records ?b) \<noteq> []"
  proof -
    have "bk_records ?b \<noteq> []" using that by auto
    then show ?thesis using f(3) length_filter_le [of kept "bk_records ?b"] by linarith
  qed
  have old: "map_of (filter kept (bk_records ?b)) t = Some e \<longleftrightarrow> map_of (bk_records ?b) t = Some e \<and> kept (t, e)" for t e
    using map_of_filter_dict f(2) by metis
  have still: "map_of (filter kept (bk_records ?b)) t = Some e \<or> wall_us e \<le> max (lw_latest w) (read_time ?b)"
    if "holds_until w t = Some e" for t e
    using f(5) [OF that] kept [of t e] old [of t e] by auto
  from cases show ?thesis
  proof
    assume out: "bk_records b = filter kept (bk_records ?b) \<and> isl out \<and> bk_next_token b = ?n"
    then have p: "lw_pending w' = lw_pending w" "lw_leases w' = lw_leases w" by (auto simp: w' isl_def)
    show ?thesis
      unfolding lease_inv_def Let_def p
      using out lim f(1,2,4,6,7,8) size old still by (simp add: w')
  next
    assume "\<exists>e. out = Inr (?n, e) \<and> bk_next_token b = ?n + 1 \<and>
        int (length (filter kept (bk_records ?b))) < sb_max_active_leases limits \<and>
        bk_records b = dict_put ?n e (filter kept (bk_records ?b))"
    then obtain e where new: "out = Inr (?n, e)" "bk_next_token b = ?n + 1"
        "int (length (filter kept (bk_records ?b))) < sb_max_active_leases limits"
        "bk_records b = dict_put ?n e (filter kept (bk_records ?b))" by blast
    have p: "lw_pending w' = (lw_pending w)(?n \<mapsto> (r, e))" "lw_leases w' = lw_leases w"
      using new(1) by (simp_all add: w')
    have h: "holds_until w' t = (if t = ?n then Some e else holds_until w t)" for t by (simp add: p holds_def)
    have free: "map_of (filter kept (bk_records ?b)) ?n = None" using old [of ?n] none by (metis not_None_eq option.distinct(1))
    have len: "int (length (bk_records b)) \<le> sb_max_active_leases limits"
      using new(3,4) length_dict_put [OF free, of e] by simp
    have m: "map_of (bk_records b) t = Some e' \<longleftrightarrow> (if t = ?n then e' = e else map_of (bk_records ?b) t = Some e' \<and> kept (t, e'))" for t e'
      using old [of t e'] by (auto simp: new(4))
    have "dict_ok (bk_records b)" using f(2) by (simp add: new(4))
    moreover have "\<forall>t e. map_of (bk_records b) t = Some e \<longrightarrow> holds_until w' t = Some e"
      using m h f(4) by simp
    moreover have "\<forall>t e. holds_until w' t = Some e \<longrightarrow> map_of (bk_records b) t = Some e \<or> wall_us e \<le> lw_latest w'"
      using m h still old by (simp add: w') 
    moreover have "\<forall>t. bk_next_token b \<le> t \<longrightarrow> lw_pending w' t = None \<and> lw_leases w' t = None"
      using f(6) new(2) by (auto simp: p)
    moreover have "\<forall>t. lw_pending w' t = None \<or> lw_leases w' t = None"
      using f(6) [of ?n] f(7) by (auto simp: p)
    ultimately show ?thesis
      unfolding lease_inv_def Let_def using lim f(1,8) len by (simp add: w')
  qed
qed

lemma released_size:
  assumes "d \<noteq> [] \<Longrightarrow> int (length d) \<le> n" and "dict_del t d \<noteq> []"
  shows "int (length (dict_del t d)) \<le> n"
proof -
  have "d \<noteq> []" using assms(2) by (auto simp: dict_del_def)
  then show ?thesis using assms(1) length_dict_del [of t d] by linarith
qed

lemma lease_inv_step:
  assumes "lease_step w w'" and inv: "lease_inv limits w"
  shows "lease_inv limits w'"
  using assms(1)
proof (cases rule: lease_stepE [consumes 1, case_names accept refuse grant deny reveal close])
  case (accept r t e b)
  show ?thesis by (rule lease_inv_accept [OF accept(2) inv]) (simp add: accept)
next
  case (refuse r e b)
  show ?thesis by (rule lease_inv_accept [OF refuse(2) inv]) (simp add: refuse)
next
  case (grant t r e reply l b)
  note f = lease_inv_facts [OF inv]
  note l = lease_settle_facts(1) [OF grant(3)]
  have "holds_until w' = holds_until w"
    using grant(2) l by (auto simp: grant(1) holds_def fun_eq_iff split: option.split)
  then show ?thesis
    unfolding lease_inv_def Let_def using f grant(2) l by (auto simp: grant(1))
next
  case (deny t r e reply x b)
  note f = lease_inv_facts [OF inv]
  note l = lease_settle_facts(2) [OF deny(3)]
  have "lw_leases w t = None" using f(7) [of t] deny(2) by simp
  then have h: "holds_until w' q = (if q = t then None else holds_until w q)" for q
    by (simp add: deny(1) holds_def)
  have len: "int (length (bk_records b)) \<le> sb_max_active_leases limits" if "bk_records b \<noteq> []"
    using that l released_size [OF f(3)] by simp
  show ?thesis
    unfolding lease_inv_def Let_def h using f(1,2,4,5,6,7,8) l len by (simp add: deny(1))
next
  case (reveal t l out b)
  note f = lease_inv_facts [OF inv]
  obtain c where "b = (lw_broker w)\<lparr>bk_clock := c\<rparr>" using lease_value_facts reveal(3) by blast
  then show ?thesis
    unfolding lease_inv_def Let_def using f by (simp add: reveal(1))
next
  case (close t l l' b)
  note f = lease_inv_facts [OF inv]
  show ?thesis
  proof (cases "ls_closed l")
    case True
    then have "w' = w" using close by (simp add: lease_close_def fun_upd_idem)
    then show ?thesis using inv by simp
  next
    case False
    then have c: "l' = l\<lparr>ls_closed := True\<rparr>" "b = release t (lw_broker w)"
      using close f(8) [of t l] by (simp_all add: lease_close_def)
    have "lw_pending w t = None" using f(7) [of t] close(2) by simp
    then have h: "holds_until w' q = (if q = t then None else holds_until w q)" for q
      by (simp add: close(1) holds_def c split: option.split)
    have len: "int (length (bk_records b)) \<le> sb_max_active_leases limits" if "bk_records b \<noteq> []"
      using that c(2) released_size [OF f(3)] f(8) close(2) by simp
    have "\<not> bk_next_token (lw_broker w) \<le> t \<and> lw_pending w t = None"
      using f(6) [of t] f(7) [of t] close(2) by auto
    then show ?thesis
      unfolding lease_inv_def Let_def h using f(1,2,4,5,6,7,8) c len close(2) f(8) [of t l]
      by (simp add: close(1))
  qed
qed

lemma lease_inv_reachable: "lease_reachable limits w \<Longrightarrow> lease_inv limits w"
proof (induction rule: lease_reachable.induct)
  case (start clock)
  show ?case by (simp add: lease_inv_def lease_world_new_def broker_new_def holds_def)
qed (rule lease_inv_step)

text \<open>Who holds a lease at a time.\<close>

definition live :: "lease_world \<Rightarrow> int \<Rightarrow> nat set" where
  "live w now = {t. \<exists>e. holds_until w t = Some e \<and> now < wall_us e}"

text \<open>
  C35: however requests, their sources and the closing of leases interleave, at any time that is not
  before the latest admission at most the configured number of leases are awaited or open and not
  expired, and every record of the broker belongs to one that is awaited or open, so that a refused
  request and a closed lease give their capacity back.
\<close>

theorem leases_bounded:
  assumes "lease_reachable limits w" and "0 \<le> sb_max_active_leases limits" and "lw_latest w \<le> now"
  shows "finite (live w now) \<and> int (card (live w now)) \<le> sb_max_active_leases limits \<and>
    fst ` set (bk_records (lw_broker w)) \<subseteq> {t. holds_until w t \<noteq> None}"
proof -
  note f = lease_inv_facts [OF lease_inv_reachable [OF assms(1)]]
  let ?d = "bk_records (lw_broker w)"
  have sub: "live w now \<subseteq> fst ` set ?d"
  proof
    fix t assume "t \<in> live w now"
    then obtain e where e: "holds_until w t = Some e" "now < wall_us e" by (auto simp: live_def)
    then have "map_of ?d t = Some e" using f(5) [OF e(1)] assms(3) by auto
    then show "t \<in> fst ` set ?d" by (force dest: map_of_SomeD)
  qed
  have "card (live w now) \<le> card (fst ` set ?d)" using sub by (intro card_mono) auto
  also have "\<dots> \<le> length ?d" using card_image_le [of "set ?d" fst] card_length [of ?d] by simp
  finally have "int (card (live w now)) \<le> sb_max_active_leases limits"
    using f(3) assms(2) by (cases "?d = []") auto
  moreover have "holds_until w t \<noteq> None" if t: "t \<in> fst ` set ?d" for t
  proof -
    obtain e where "map_of ?d t = Some e" using t by (cases "map_of ?d t") (auto simp: map_of_eq_None_iff)
    then show ?thesis using f(4) by simp
  qed
  ultimately show ?thesis using sub finite_subset by blast
qed

definition sample_broker_limits :: secret_broker_limits where
  "sample_broker_limits = \<lparr>sb_max_active_leases = 1, sb_max_lease_seconds = Finite 5, sb_max_value_bytes = 10\<rparr>"

definition sample_clock :: "clock_reply stream" where
  "sample_clock = sconst (ClockTime \<lparr>wall_us = 0, utc_offset_us = Some 0\<rparr>)"

definition sample_access :: secret_access_request where
  "sample_access = \<lparr>sr_session_id = UuidIdentifier 1, sr_operation_id = UuidIdentifier 2,
     sr_secret_ref = SecretRef [97], sr_command_name = None, sr_max_lease_seconds = Finite 1\<rparr>"

lemma sample_seconds:
  "add_seconds \<lparr>wall_us = 0, utc_offset_us = Some 0\<rparr> (float_min (Finite 1) (Finite 5)) =
     Some \<lparr>wall_us = 1000000, utc_offset_us = Some 0\<rparr>"
proof -
  have "round_half_even 1000000 = 1000000" by (simp add: round_half_even_def Let_def)
  then show ?thesis by (simp add: add_seconds_def float_min_def max_wall_us_def)
qed

lemma sample_accepted:
  "\<exists>b. lease_accept sample_access (broker_new sample_broker_limits sample_clock) =
     (Inr (1, \<lparr>wall_us = 1000000, utc_offset_us = Some 0\<rparr>), b)"
proof -
  have now: "broker_now (broker_new sample_broker_limits sample_clock) =
      (Inr \<lparr>wall_us = 0, utc_offset_us = Some 0\<rparr>, broker_new sample_broker_limits (stl sample_clock))"
    by (simp add: broker_now_def broker_new_def sample_clock_def check_clock_def)
  have sel: "sr_max_lease_seconds sample_access = Finite 1" "sb_max_lease_seconds sample_broker_limits = Finite 5"
    "sb_max_active_leases sample_broker_limits = 1"
    by (simp_all add: sample_access_def sample_broker_limits_def)
  have p: "purge_expired d (broker_new l c) = broker_new l c" for d l c
    by (simp add: purge_expired_def broker_new_def)
  show ?thesis
    by (simp add: lease_accept_def act_bind_def now p sel sample_seconds)
       (simp add: broker_new_def purge_expired_def sel sample_seconds)
qed

lemma leases_bounded_witness:
  "\<exists>w. lease_reachable sample_broker_limits w \<and> live w 0 = {1}"
proof -
  let ?w0 = "lease_world_new sample_broker_limits sample_clock"
  obtain b where b: "lease_accept sample_access (broker_new sample_broker_limits sample_clock) =
      (Inr (1, \<lparr>wall_us = 1000000, utc_offset_us = Some 0\<rparr>), b)" using sample_accepted by blast
  define w where "w = ?w0\<lparr>lw_broker := b, lw_pending := (lw_pending ?w0)(1 \<mapsto> (sample_access, \<lparr>wall_us = 1000000, utc_offset_us = Some 0\<rparr>)),
      lw_latest := max (lw_latest ?w0) (read_time (lw_broker ?w0))\<rparr>"
  have "lease_step ?w0 w"
    unfolding w_def by (rule lease_step.accept) (use b in \<open>simp add: lease_world_new_def\<close>)
  then have r: "lease_reachable sample_broker_limits w" using lease_reachable.intros by blast
  have l: "lw_latest w \<le> 0"
    by (simp add: w_def lease_world_new_def read_time_def broker_new_def sample_clock_def check_clock_def)
  have "1 \<in> live w 0" by (simp add: w_def live_def holds_def)
  moreover have "finite (live w 0)" "int (card (live w 0)) \<le> 1"
    using leases_bounded [OF r _ l] by (simp_all add: sample_broker_limits_def)
  ultimately have "live w 0 = {1}" by (metis One_nat_def card_le_Suc0_iff_eq int_ops(2) is_singletonI' is_singleton_the_elem of_nat_le_iff singletonD empty_iff)
  with r show ?thesis by blast
qed

end
