(* ===== verification/Policy_Models.thy ===== *)
theory Policy_Models
  imports Secret_Broker Sandbox_Path
begin

text \<open>
  \<open>policy/models.py\<close> and \<open>policy/engine.py\<close>: what a policy engine is asked and what it answers.
\<close>

record path_mutation_context =
  pmc_create_parents :: bool
  pmc_exist_ok :: bool
  pmc_recursive :: bool
  pmc_missing_ok :: bool

record policy_request =
  po_session_id :: session_id
  po_operation_id :: operation_id
  po_operation_kind :: operation_kind
  po_path :: "sandbox_path option"
  po_command_name :: "pystr option"
  po_requested_limits :: operation_limits
  po_secret_refs :: "secret_ref list"
  po_path_mutation :: "path_mutation_context option"

definition policy_request_new :: "policy_request \<Rightarrow> policy_request result" where
  "policy_request_new r =
     rbind (guard (sort_key ref_name (po_secret_refs r) = po_secret_refs r)
       (Raise (Builtin ValueError) (pstr ''secret_refs must be sorted by reference name''))) (\<lambda>_.
     rbind (guard (card (set (po_secret_refs r)) = length (po_secret_refs r))
       (Raise (Builtin ValueError) (pstr ''secret_refs must not contain duplicates''))) (\<lambda>_.
     Inr r))"

record policy_decision =
  pd_allowed :: bool
  pd_reason_code :: pystr
  pd_effective_limits :: operation_limits

definition policy_decision_new :: "bool \<Rightarrow> pystr \<Rightarrow> operation_limits \<Rightarrow> policy_decision result" where
  "policy_decision_new allowed reason limits =
     rbind (guard (\<exists>x \<in> set reason. \<not> is_space x)
       (Raise (Builtin ValueError) (pstr ''reason_code must not be empty''))) (\<lambda>_.
     Inr \<lparr>pd_allowed = allowed, pd_reason_code = reason, pd_effective_limits = limits\<rparr>)"

definition allow_all_evaluate :: "policy_request \<Rightarrow> policy_decision result" where
  "allow_all_evaluate r = policy_decision_new True (pstr ''allow_all'') (po_requested_limits r)"

end
