(* ===== verification/Network_Models.thy ===== *)
theory Network_Models
  imports Policy_Models Py_Numbers
begin

text \<open>
  \<open>network/models.py\<close>: controlled HTTP requests, responses, limits and grants. Text values are plain
  strings, so the copies that strip subclasses of \<open>str\<close>, \<open>int\<close> and \<open>float\<close> are the values themselves.
\<close>

section \<open>Identifiers and headers\<close>

datatype http_method = GET | HEAD

fun http_method_value :: "http_method \<Rightarrow> string" where
  "http_method_value GET = ''GET''"
| "http_method_value HEAD = ''HEAD''"

datatype http_scheme = HTTP | HTTPS

fun http_scheme_value :: "http_scheme \<Rightarrow> string" where
  "http_scheme_value HTTP = ''http''"
| "http_scheme_value HTTPS = ''https''"

datatype http_event_delivery = DELIVER_BEST_EFFORT | DELIVER_REQUIRED

definition identifier_text_ok :: "pystr \<Rightarrow> bool" where
  "identifier_text_ok v \<longleftrightarrow>
     (case v of
        [] \<Rightarrow> False
      | x # rest \<Rightarrow>
          (is_ascii_letter x \<or> is_ascii_digit x) \<and> length rest \<le> 127 \<and>
          list_all (\<lambda>c. is_ascii_letter c \<or> is_ascii_digit c \<or> c \<in> {95, 46, 58, 45}) rest)"

definition require_identifier :: "pystr \<Rightarrow> pystr \<Rightarrow> unit result" where
  "require_identifier name v = guard (identifier_text_ok v) (Raise (Builtin ValueError) (name @ pstr '' is invalid''))"

datatype policy_id = NetworkPolicyId (policy_id_value: pystr)

definition policy_id_new :: "pystr \<Rightarrow> policy_id result" where
  "policy_id_new v = rbind (require_identifier (pstr ''network policy identifier'') v) (\<lambda>_. Inr (NetworkPolicyId v))"

datatype credential_route = CredentialRouteId (route_value: pystr)

definition credential_route_new :: "pystr \<Rightarrow> credential_route result" where
  "credential_route_new v =
     rbind (require_identifier (pstr ''credential route identifier'') v) (\<lambda>_. Inr (CredentialRouteId v))"

record http_header =
  hh_name :: pystr
  hh_value :: pystr

text \<open>The characters of \<open>_HEADER_NAME\<close>.\<close>

definition header_name_char :: "nat \<Rightarrow> bool" where
  "header_name_char c \<longleftrightarrow> c \<in> set (pstr ''!#$%&*+-.^_|~'') \<or> c = 39 \<or> c = 96 \<or> is_ascii_digit c \<or> is_ascii_letter c"

definition request_invalid :: "pystr \<Rightarrow> sandbox_error" where
  "request_invalid m = Raise (Network OutboundHttpRequestInvalid) m"

definition limit_exceeded :: "pystr \<Rightarrow> sandbox_error" where
  "limit_exceeded m = Raise (Network OutboundHttpLimitExceeded) m"

definition http_header_new :: "pystr \<Rightarrow> pystr \<Rightarrow> http_header result" where
  "http_header_new name v =
     rbind (guard (name \<noteq> [] \<and> list_all header_name_char name)
       (request_invalid (pstr ''HTTP header name is invalid''))) (\<lambda>_.
     rbind (guard (\<not> list_ex (\<lambda>c. (c < 32 \<and> c \<noteq> 9) \<or> c = 127) v)
       (request_invalid (pstr ''HTTP header value contains a control character''))) (\<lambda>_.
     case utf8_encode v of
       None \<Rightarrow> Inl (request_invalid (pstr ''HTTP header value must be valid UTF-8''))
     | Some bs \<Rightarrow>
         if length bs > 64 * 1024 then Inl (limit_exceeded (pstr ''HTTP header value exceeds its byte limit''))
         else Inr \<lparr>hh_name = name, hh_value = v\<rparr>))"

text \<open>A header name is ASCII, so its bytes are its characters.\<close>

definition headers_size :: "http_header list \<Rightarrow> int" where
  "headers_size hs =
     (\<Sum>h\<leftarrow>hs. int (length (hh_name h)) + 2 + int (length (the (utf8_encode (hh_value h)))) + 2)"

section \<open>Limits\<close>

record http_limits =
  hl_timeout_seconds :: py_float
  hl_max_request_header_bytes :: int
  hl_max_request_body_bytes :: int
  hl_max_response_header_bytes :: int
  hl_max_response_body_bytes :: int
  hl_max_decompressed_response_bytes :: int
  hl_max_redirects :: int
  hl_max_requests :: int
  hl_max_transferred_bytes :: int

definition default_http_limits :: http_limits where
  "default_http_limits =
     \<lparr>hl_timeout_seconds = Finite 10, hl_max_request_header_bytes = 16 * 1024, hl_max_request_body_bytes = 0,
      hl_max_response_header_bytes = 64 * 1024, hl_max_response_body_bytes = 512 * 1024,
      hl_max_decompressed_response_bytes = 512 * 1024, hl_max_redirects = 3, hl_max_requests = 4,
      hl_max_transferred_bytes = 1024 * 1024\<rparr>"

definition require_non_negative_integer :: "pystr \<Rightarrow> int \<Rightarrow> unit result" where
  "require_non_negative_integer name v =
     guard (\<not> v < 0) (Raise (Builtin ValueError) (name @ pstr '' must be non-negative''))"

definition require_positive_count :: "pystr \<Rightarrow> int \<Rightarrow> unit result" where
  "require_positive_count name v =
     rbind (require_non_negative_integer name v) (\<lambda>_.
     guard (v \<noteq> 0) (Raise (Builtin ValueError) (name @ pstr '' must be positive'')))"

fun require_all_non_negative :: "(pystr \<times> int) list \<Rightarrow> unit result" where
  "require_all_non_negative [] = Inr ()"
| "require_all_non_negative ((name, v) # rest) =
     rbind (require_non_negative_integer name v) (\<lambda>_. require_all_non_negative rest)"

definition http_limits_new :: "http_limits \<Rightarrow> http_limits result" where
  "http_limits_new l =
     rbind (require_positive_finite (pstr ''timeout_seconds'') (hl_timeout_seconds l)) (\<lambda>_.
     rbind (require_all_non_negative
       [(pstr ''max_request_header_bytes'', hl_max_request_header_bytes l),
        (pstr ''max_request_body_bytes'', hl_max_request_body_bytes l),
        (pstr ''max_response_header_bytes'', hl_max_response_header_bytes l),
        (pstr ''max_response_body_bytes'', hl_max_response_body_bytes l),
        (pstr ''max_decompressed_response_bytes'', hl_max_decompressed_response_bytes l),
        (pstr ''max_redirects'', hl_max_redirects l),
        (pstr ''max_transferred_bytes'', hl_max_transferred_bytes l)]) (\<lambda>_.
     rbind (require_positive_count (pstr ''max_requests'') (hl_max_requests l)) (\<lambda>_.
     rbind (guard (\<not> hl_max_decompressed_response_bytes l < hl_max_response_body_bytes l)
       (Raise (Builtin ValueError)
         (pstr ''max_decompressed_response_bytes must not be less than max_response_body_bytes''))) (\<lambda>_.
     Inr l))))"

text \<open>The order of floats; a comparison with NaN is false.\<close>

fun float_le :: "py_float \<Rightarrow> py_float \<Rightarrow> bool" where
  "float_le (Finite p) (Finite q) = (p \<le> q)"
| "float_le NotANumber _ = False"
| "float_le _ NotANumber = False"
| "float_le NegInf _ = True"
| "float_le _ PosInf = True"
| "float_le _ _ = False"

definition limits_within :: "http_limits \<Rightarrow> http_limits \<Rightarrow> bool" where
  "limits_within l ceil \<longleftrightarrow>
     float_le (hl_timeout_seconds l) (hl_timeout_seconds ceil) \<and>
     hl_max_request_header_bytes l \<le> hl_max_request_header_bytes ceil \<and>
     hl_max_request_body_bytes l \<le> hl_max_request_body_bytes ceil \<and>
     hl_max_response_header_bytes l \<le> hl_max_response_header_bytes ceil \<and>
     hl_max_response_body_bytes l \<le> hl_max_response_body_bytes ceil \<and>
     hl_max_decompressed_response_bytes l \<le> hl_max_decompressed_response_bytes ceil \<and>
     hl_max_redirects l \<le> hl_max_redirects ceil \<and>
     hl_max_requests l \<le> hl_max_requests ceil \<and>
     hl_max_transferred_bytes l \<le> hl_max_transferred_bytes ceil"

section \<open>Requests\<close>

record http_request =
  hr_method :: http_method
  hr_url :: pystr
  hr_limits :: http_limits
  hr_headers :: "http_header list"
  hr_body :: "byte list"
  hr_credential_route :: "credential_route option"
  hr_scheme :: http_scheme

text \<open>
  \<open>urlsplit\<close> of the standard library, as far as the scheme and the authority go: leading controls and
  blanks and all tabs and line breaks are dropped, a scheme is a letter and scheme characters before
  the first colon, an authority follows \<open>//\<close> up to a slash, a question mark or a hash. \<open>None\<close> is
  \<open>ValueError\<close>; \<open>authority_ok\<close> stands for its checks of Unicode normalization and bracketed hosts.
\<close>

definition scheme_char :: "nat \<Rightarrow> bool" where
  "scheme_char c \<longleftrightarrow> is_ascii_letter c \<or> is_ascii_digit c \<or> c \<in> {43, 45, 46}"

definition ascii_lower :: "nat \<Rightarrow> nat" where
  "ascii_lower c = (if 65 \<le> c \<and> c \<le> 90 then c + 32 else c)"

definition url_scheme :: "pystr \<Rightarrow> pystr \<times> pystr" where
  "url_scheme url =
     (let before = takeWhile (\<lambda>c. c \<noteq> 58) url in
      if before \<noteq> [] \<and> length before < length url \<and> is_ascii_letter (hd url) \<and> list_all scheme_char before
      then (map ascii_lower before, drop (length before + 1) url)
      else ([], url))"

definition urlsplit :: "(pystr \<Rightarrow> bool) \<Rightarrow> pystr \<Rightarrow> (pystr \<times> pystr) option" where
  "urlsplit authority_ok url =
     (let url = filter (\<lambda>c. c \<notin> {9, 10, 13}) (dropWhile (\<lambda>c. c \<le> 32) url);
          (scheme, rest) = url_scheme url;
          netloc = (if take 2 rest = [47, 47] then takeWhile (\<lambda>c. c \<notin> {47, 63, 35}) (drop 2 rest) else [])
      in if (91 \<in> set netloc) \<noteq> (93 \<in> set netloc) \<or> \<not> authority_ok netloc then None
         else Some (scheme, netloc))"

definition scheme_of_text :: "pystr \<Rightarrow> http_scheme option" where
  "scheme_of_text s =
     (if s = pstr ''http'' then Some HTTP else if s = pstr ''https'' then Some HTTPS else None)"

definition http_request_new ::
  "(pystr \<Rightarrow> bool) \<Rightarrow> http_method \<Rightarrow> pystr \<Rightarrow> http_limits \<Rightarrow> http_header list \<Rightarrow> byte list
     \<Rightarrow> credential_route option \<Rightarrow> http_request result" where
  "http_request_new authority_ok method url l headers body route =
     (case utf8_encode url of
        None \<Rightarrow> Inl (request_invalid (pstr ''URL must be valid UTF-8''))
      | Some bs \<Rightarrow>
          rbind (guard (\<not> (url = [] \<or> length bs > 8192 \<or> list_ex (\<lambda>c. c < 32) url))
            (request_invalid (pstr ''URL is empty, contains control data, or is too long''))) (\<lambda>_.
          case urlsplit authority_ok url of
            None \<Rightarrow> Inl (request_invalid (pstr ''URL must use an HTTP or HTTPS scheme''))
          | Some (scheme, netloc) \<Rightarrow>
              (case scheme_of_text scheme of
                 None \<Rightarrow> Inl (request_invalid (pstr ''URL must use an HTTP or HTTPS scheme''))
               | Some sch \<Rightarrow>
                   rbind (guard (netloc \<noteq> []) (request_invalid (pstr ''URL must contain an authority''))) (\<lambda>_.
                   rbind (guard (\<not> headers_size headers > hl_max_request_header_bytes l)
                     (limit_exceeded (pstr ''HTTP request headers exceed the requested limit''))) (\<lambda>_.
                   rbind (guard (\<not> int (length body) > hl_max_request_body_bytes l)
                     (limit_exceeded (pstr ''HTTP request body exceeds the requested limit''))) (\<lambda>_.
                   rbind (guard (body = [])
                     (request_invalid (pstr (http_method_value method) @ pstr '' requests must not contain a body''))) (\<lambda>_.
                   Inr \<lparr>hr_method = method, hr_url = url, hr_limits = l, hr_headers = headers, hr_body = body,
                        hr_credential_route = route, hr_scheme = sch\<rparr>)))))))"

section \<open>Responses\<close>

record http_usage =
  hu_request_count :: int
  hu_request_bytes :: int
  hu_response_bytes :: int
  hu_response_wire_bytes :: int
  hu_decompressed_response_bytes :: int
  hu_redirect_count :: int
  hu_duration_ms :: py_float

definition http_usage_new :: "http_usage \<Rightarrow> http_usage result" where
  "http_usage_new u =
     rbind (require_all_non_negative
       [(pstr ''request_count'', hu_request_count u), (pstr ''request_bytes'', hu_request_bytes u),
        (pstr ''response_bytes'', hu_response_bytes u), (pstr ''response_wire_bytes'', hu_response_wire_bytes u),
        (pstr ''decompressed_response_bytes'', hu_decompressed_response_bytes u),
        (pstr ''redirect_count'', hu_redirect_count u)]) (\<lambda>_.
     rbind (guard (hu_request_count u \<noteq> 0) (Raise (Builtin ValueError) (pstr ''request_count must be positive''))) (\<lambda>_.
     rbind (guard (\<not> hu_response_wire_bytes u < hu_response_bytes u)
       (Raise (Builtin ValueError) (pstr ''response_wire_bytes must include response_bytes''))) (\<lambda>_.
     rbind (guard (case hu_duration_ms u of Finite q \<Rightarrow> 0 \<le> q | _ \<Rightarrow> False)
       (Raise (Builtin ValueError) (pstr ''duration_ms must be non-negative and finite''))) (\<lambda>_.
     Inr u))))"

record http_response =
  hs_status_code :: int
  hs_headers :: "http_header list"
  hs_body :: "byte list"
  hs_usage :: http_usage

definition http_response_new :: "http_response \<Rightarrow> http_response result" where
  "http_response_new r =
     rbind (guard (\<not> (hs_status_code r < 200 \<or> hs_status_code r > 599))
       (Raise (Builtin ValueError) (pstr ''status_code must be between 200 and 599''))) (\<lambda>_. Inr r)"

section \<open>Grants\<close>

record http_grant =
  hg_policy_id :: policy_id
  hg_methods :: "http_method list"
  hg_schemes :: "http_scheme list"
  hg_limits :: http_limits
  hg_credential_routes :: "credential_route list"
  hg_event_delivery :: http_event_delivery

definition ordered_enum :: "pystr \<Rightarrow> ('a \<Rightarrow> string) \<Rightarrow> 'a list \<Rightarrow> 'a list result" where
  "ordered_enum name text_of xs =
     (let ordered = sort_key (\<lambda>x. pstr (text_of x)) xs in
      rbind (guard (card (set ordered) = length ordered)
        (Raise (Builtin ValueError) (name @ pstr '' must not contain duplicates''))) (\<lambda>_. Inr ordered))"

definition http_grant_new :: "http_grant \<Rightarrow> http_grant result" where
  "http_grant_new g =
     rbind (ordered_enum (pstr ''methods'') http_method_value (hg_methods g)) (\<lambda>methods.
     rbind (ordered_enum (pstr ''schemes'') http_scheme_value (hg_schemes g)) (\<lambda>schemes.
     rbind (guard (methods \<noteq> []) (Raise (Builtin ValueError) (pstr ''methods must not be empty''))) (\<lambda>_.
     rbind (guard (schemes \<noteq> []) (Raise (Builtin ValueError) (pstr ''schemes must not be empty''))) (\<lambda>_.
     let routes = sort_key route_value (hg_credential_routes g) in
     rbind (guard (card (set routes) = length routes)
       (Raise (Builtin ValueError) (pstr ''credential_routes must not contain duplicates''))) (\<lambda>_.
     Inr (g\<lparr>hg_methods := methods, hg_schemes := schemes, hg_credential_routes := routes\<rparr>))))))"

definition grant_within :: "http_grant \<Rightarrow> http_grant \<Rightarrow> bool" where
  "grant_within g ceil \<longleftrightarrow>
     hg_policy_id g = hg_policy_id ceil \<and>
     set (hg_methods g) \<subseteq> set (hg_methods ceil) \<and>
     set (hg_schemes g) \<subseteq> set (hg_schemes ceil) \<and>
     limits_within (hg_limits g) (hg_limits ceil) \<and>
     set (hg_credential_routes g) \<subseteq> set (hg_credential_routes ceil) \<and>
     (hg_event_delivery g = DELIVER_REQUIRED \<or> hg_event_delivery ceil = DELIVER_BEST_EFFORT)"

definition http_denied :: "pystr \<Rightarrow> sandbox_error" where
  "http_denied m = Raise (Network OutboundHttpDenied) m"

definition grant_require_request :: "http_grant \<Rightarrow> http_request \<Rightarrow> unit result" where
  "grant_require_request g r =
     rbind (guard (hr_method r \<in> set (hg_methods g))
       (http_denied (pstr ''HTTP method is outside the effective grant''))) (\<lambda>_.
     rbind (guard (hr_scheme r \<in> set (hg_schemes g))
       (http_denied (pstr ''HTTP scheme is outside the effective grant''))) (\<lambda>_.
     rbind (guard (case hr_credential_route r of None \<Rightarrow> True | Some c \<Rightarrow> c \<in> set (hg_credential_routes g))
       (http_denied (pstr ''credential route is outside the effective grant''))) (\<lambda>_.
     guard (limits_within (hr_limits r) (hg_limits g))
       (limit_exceeded (pstr ''requested HTTP limits exceed the effective grant'')))))"

definition float_scale :: "rat \<Rightarrow> py_float \<Rightarrow> py_float" where
  "float_scale k x = (case x of Finite q \<Rightarrow> Finite (k * q) | _ \<Rightarrow> x)"

definition grant_require_response :: "http_grant \<Rightarrow> http_request \<Rightarrow> http_response \<Rightarrow> unit result" where
  "grant_require_response g r s =
     (let l = hr_limits r; u = hs_usage s in
      rbind (grant_require_request g r) (\<lambda>_.
      rbind (guard (\<not> hs_status_code s < 200)
        (Raise (Network OutboundHttpResponseInvalid) (pstr ''outbound HTTP response must be a final response''))) (\<lambda>_.
      rbind (guard (\<not> headers_size (hs_headers s) > hl_max_response_header_bytes l)
        (limit_exceeded (pstr ''HTTP response headers exceed the requested limit''))) (\<lambda>_.
      rbind (guard (\<not> int (length (hs_body s)) > hl_max_decompressed_response_bytes l)
        (limit_exceeded (pstr ''HTTP decompressed response body exceeds the requested limit''))) (\<lambda>_.
      rbind (guard (\<not> hu_request_count u > hl_max_requests l)
        (limit_exceeded (pstr ''HTTP request count exceeds the requested limit''))) (\<lambda>_.
      rbind (guard (\<not> hu_response_bytes u > hl_max_response_body_bytes l)
        (limit_exceeded (pstr ''HTTP response usage exceeds the requested limit''))) (\<lambda>_.
      rbind (guard (\<not> hu_decompressed_response_bytes u > hl_max_decompressed_response_bytes l)
        (limit_exceeded (pstr ''HTTP decompressed usage exceeds the requested limit''))) (\<lambda>_.
      rbind (guard (hu_decompressed_response_bytes u = int (length (hs_body s)))
        (limit_exceeded (pstr ''HTTP decompressed usage does not match the published response body''))) (\<lambda>_.
      rbind (guard (\<not> hu_redirect_count u > hl_max_redirects l)
        (limit_exceeded (pstr ''HTTP redirect count exceeds the requested limit''))) (\<lambda>_.
      rbind (guard (\<not> hu_request_bytes u + hu_response_wire_bytes u > hl_max_transferred_bytes l)
        (limit_exceeded (pstr ''HTTP transferred bytes exceed the requested limit''))) (\<lambda>_.
      rbind (guard (float_le (hu_duration_ms u) (float_scale 1000 (hl_timeout_seconds l)))
        (limit_exceeded (pstr ''HTTP duration exceeds the requested limit''))) (\<lambda>_.
      guard (\<not> (hr_method r = HEAD \<and> hs_body s \<noteq> []))
        (limit_exceeded (pstr ''HEAD response contains a body''))))))))))))))"

text \<open>A binding is a gateway and its grant; the gateway is a parameter of what calls it.\<close>

definition binding_with_grant :: "http_grant \<Rightarrow> http_grant \<Rightarrow> http_grant result" where
  "binding_with_grant bound g =
     rbind (guard (grant_within g bound)
       (http_denied (pstr ''requested outbound HTTP grant exceeds the host grant ceiling''))) (\<lambda>_. Inr g)"

record network_context =
  nc_session_id :: session_id
  nc_operation_id :: operation_id
  nc_grant :: http_grant
  nc_deadline :: py_float
  nc_cancellation :: bool

definition network_context_new :: "network_context \<Rightarrow> network_context result" where
  "network_context_new c =
     rbind (require_positive_finite (pstr ''deadline_monotonic'') (nc_deadline c)) (\<lambda>_. Inr c)"

section \<open>Attenuation\<close>

text \<open>A grant within another admits no more: what it lets through, the wider one lets through.\<close>

lemma float_le_trans: "float_le a b \<Longrightarrow> float_le b c \<Longrightarrow> float_le a c"
  by (cases a; cases b; cases c) auto

lemma limits_within_trans: "limits_within a b \<Longrightarrow> limits_within b c \<Longrightarrow> limits_within a c"
  by (auto simp: limits_within_def intro: float_le_trans order_trans)

lemma grant_within_trans: "grant_within a b \<Longrightarrow> grant_within b c \<Longrightarrow> grant_within a c"
  by (auto simp: grant_within_def intro: limits_within_trans)

lemma grant_attenuates:
  assumes "grant_within g ceil" and "grant_require_request g r = Inr ()"
  shows "grant_require_request ceil r = Inr ()"
  using assms
  by (auto simp: grant_require_request_def grant_within_def ok_iff split: option.splits intro: limits_within_trans)

end
