(* ===== verification/Snapshot_Store.thy ===== *)
theory Snapshot_Store
  imports Policy_Models Workspace_Models Command_Models Transactional
begin

text \<open>
  \<open>snapshots/models.py\<close> and \<open>snapshots/store.py\<close>: snapshot values and the bounded store of one process.
  Every method of the store holds its lock over its whole effect. Its clock is a stream of readings;
  a \<open>timedelta\<close> is a number of microseconds.
\<close>

section \<open>Values\<close>

datatype snapshot_ref = SnapshotRef (ref_snapshot_id: snapshot_id)

record snapshot_metadata =
  sm_format_name :: pystr
  sm_payload_bytes :: int
  sm_process_local :: bool

definition snapshot_metadata_new :: "snapshot_metadata \<Rightarrow> snapshot_metadata result" where
  "snapshot_metadata_new m =
     rbind (guard (sm_format_name m \<noteq> [])
       (Raise (Builtin ValueError) (pstr ''format_name must not be empty''))) (\<lambda>_.
     rbind (guard (\<not> sm_payload_bytes m < 0)
       (Raise (Builtin ValueError) (pstr ''payload_bytes must be non-negative''))) (\<lambda>_.
     Inr m))"

record snapshot_draft =
  dr_snapshot_id :: snapshot_id
  dr_schema_version :: int
  dr_created_at :: py_datetime
  dr_source_session_id :: session_id
  dr_workspace_revision :: revision
  dr_content_hash :: content_hash
  dr_payload :: "byte list"
  dr_metadata :: snapshot_metadata
  dr_created_by :: "pystr option"

text \<open>A stored snapshot has the fields of its draft and an expiration.\<close>

record sandbox_snapshot = snapshot_draft +
  dr_expires_at :: py_datetime

definition validate_snapshot_fields :: "'a snapshot_draft_scheme \<Rightarrow> unit result" where
  "validate_snapshot_fields d =
     guard (\<not> dr_schema_version d < 0) (Raise (Builtin ValueError) (pstr ''schema_version must be non-negative''))"

definition require_creator :: "pystr option \<Rightarrow> unit result" where
  "require_creator creator =
     (case creator of
        None \<Rightarrow> Inr ()
      | Some c \<Rightarrow>
          (case utf8_encode c of
             None \<Rightarrow> throw (Builtin ValueError) (pstr ''created_by must be valid UTF-8'')
           | Some bs \<Rightarrow>
               if c = [] \<or> length bs > 256
               then throw (Builtin ValueError) (pstr ''created_by must contain between 1 and 256 UTF-8 bytes'')
               else Inr ()))"

definition snapshot_draft_new :: "snapshot_draft \<Rightarrow> snapshot_draft result" where
  "snapshot_draft_new d =
     rbind (validate_snapshot_fields d) (\<lambda>_.
     rbind (require_aware_utc (pstr ''created_at'') (dr_created_at d)) (\<lambda>_.
     rbind (require_creator (dr_created_by d)) (\<lambda>_.
     Inr d)))"

definition sandbox_snapshot_new :: "sandbox_snapshot \<Rightarrow> sandbox_snapshot result" where
  "sandbox_snapshot_new s =
     rbind (validate_snapshot_fields s) (\<lambda>_.
     rbind (require_aware_utc (pstr ''created_at'') (dr_created_at s)) (\<lambda>_.
     rbind (require_aware_utc (pstr ''expires_at'') (dr_expires_at s)) (\<lambda>_.
     rbind (require_creator (dr_created_by s)) (\<lambda>_.
     Inr s))))"

record snapshot_store_limits =
  sl_max_snapshots :: int
  sl_max_total_payload_bytes :: int

definition snapshot_store_limits_new :: "snapshot_store_limits \<Rightarrow> snapshot_store_limits result" where
  "snapshot_store_limits_new l =
     rbind (require_positive_int (pstr ''max_snapshots'') (sl_max_snapshots l)) (\<lambda>_.
     rbind (require_positive_int (pstr ''max_total_payload_bytes'') (sl_max_total_payload_bytes l)) (\<lambda>_.
     Inr l))"

record snapshot_store_stats =
  sy_snapshot_count :: int
  sy_payload_bytes :: int

record snapshot_purge_result =
  sg_removed_refs :: "snapshot_ref list"
  sg_removed_payload_bytes :: int

text \<open>The state of a session that a snapshot carries, and its encoded form.\<close>

record session_snapshot_state =
  sx_workspace :: snapshot_data
  sx_cwd :: sandbox_path
  sx_environment :: command_environment
  sx_schema_version :: int
  sx_capability_version :: int

definition session_snapshot_state_new :: "session_snapshot_state \<Rightarrow> session_snapshot_state result" where
  "session_snapshot_state_new x =
     rbind (guard (\<not> sx_schema_version x < 0)
       (Raise (Builtin ValueError) (pstr ''schema_version must be non-negative''))) (\<lambda>_.
     rbind (guard (\<not> sx_capability_version x < 0)
       (Raise (Builtin ValueError) (pstr ''capability_profile_version must be non-negative''))) (\<lambda>_.
     Inr x))"

record snapshot_payload =
  sq_payload :: "byte list"
  sq_content_hash :: content_hash
  sq_format_name :: pystr
  sq_schema_version :: int
  sq_workspace_revision :: revision

section \<open>The store\<close>

record snapshot_store =
  ks_default_ttl :: int
  ks_limits :: snapshot_store_limits
  ks_snapshots :: "(snapshot_ref, sandbox_snapshot) dict"
  ks_payload_bytes :: int
  ks_clock :: "py_datetime stream"

type_synonym 'a store_action = "(snapshot_store, sandbox_error, 'a) action"

definition snapshot_store_new :: "int \<Rightarrow> snapshot_store_limits \<Rightarrow> py_datetime stream \<Rightarrow> snapshot_store result" where
  "snapshot_store_new ttl l clock =
     rbind (guard (\<not> ttl \<le> 0) (Raise (Builtin ValueError) (pstr ''default_ttl must be positive''))) (\<lambda>_.
     Inr \<lparr>ks_default_ttl = ttl, ks_limits = l, ks_snapshots = [], ks_payload_bytes = 0, ks_clock = clock\<rparr>)"

definition check_store_clock :: "snapshot_error \<Rightarrow> py_datetime \<Rightarrow> py_datetime result" where
  "check_store_clock error_type now =
     (case utc_offset_us now of
        None \<Rightarrow> throw (Snapshot error_type) (pstr ''snapshot store clock must return an aware datetime'')
      | Some off \<Rightarrow>
          if off \<noteq> 0 then throw (Snapshot error_type) (pstr ''snapshot store clock must return UTC'')
          else Inr now)"

definition store_now :: "snapshot_error \<Rightarrow> py_datetime store_action" where
  "store_now error_type = (\<lambda>s. (check_store_clock error_type (shd (ks_clock s)), s\<lparr>ks_clock := stl (ks_clock s)\<rparr>))"

definition remove_locked :: "snapshot_ref \<Rightarrow> snapshot_store \<Rightarrow> snapshot_store" where
  "remove_locked r s =
     (case map_of (ks_snapshots s) r of
        None \<Rightarrow> s
      | Some p \<Rightarrow> s\<lparr>ks_snapshots := dict_del r (ks_snapshots s),
                   ks_payload_bytes := ks_payload_bytes s - int (length (dr_payload p))\<rparr>)"

definition expired_at :: "py_datetime \<Rightarrow> sandbox_snapshot \<Rightarrow> bool" where
  "expired_at now p \<longleftrightarrow> wall_us (dr_expires_at p) \<le> wall_us now"

definition expired_items :: "py_datetime \<Rightarrow> snapshot_store \<Rightarrow> (snapshot_ref \<times> sandbox_snapshot) list" where
  "expired_items now s = filter (\<lambda>(r, p). expired_at now p) (ks_snapshots s)"

definition purge_expired_locked :: "py_datetime \<Rightarrow> (snapshot_ref \<times> sandbox_snapshot) list store_action" where
  "purge_expired_locked now =
     act_bind (act_get (expired_items now)) (\<lambda>expired.
     act_bind (act_put (fold remove_locked (map fst expired))) (\<lambda>_.
     act_ret expired))"

definition stored_snapshot :: "snapshot_draft \<Rightarrow> snapshot_metadata \<Rightarrow> py_datetime \<Rightarrow> sandbox_snapshot" where
  "stored_snapshot d metadata expires_at =
     \<lparr>dr_snapshot_id = dr_snapshot_id d, dr_schema_version = dr_schema_version d, dr_created_at = dr_created_at d,
      dr_source_session_id = dr_source_session_id d, dr_workspace_revision = dr_workspace_revision d,
      dr_content_hash = dr_content_hash d, dr_payload = dr_payload d, dr_metadata = metadata,
      dr_created_by = dr_created_by d, dr_expires_at = expires_at\<rparr>"

definition store_save :: "snapshot_draft \<Rightarrow> snapshot_ref store_action" where
  "store_save draft =
     (let r = SnapshotRef (dr_snapshot_id draft); payload_bytes = int (length (dr_payload draft)) in
      act_bind (store_now SnapshotSaveFailed) (\<lambda>now.
      act_bind (purge_expired_locked now) (\<lambda>_.
      act_bind (act_get (\<lambda>s. s)) (\<lambda>s.
      if map_of (ks_snapshots s) r \<noteq> None
      then act_lift (throw (Snapshot SnapshotIdentifierConflict)
        (pstr ''snapshot identifier '' @ identifier_str (dr_snapshot_id draft) @ pstr '' already exists''))
      else if int (length (ks_snapshots s)) + 1 > sl_max_snapshots (ks_limits s) \<or>
        ks_payload_bytes s + payload_bytes > sl_max_total_payload_bytes (ks_limits s)
      then act_lift (throw (Snapshot SnapshotStoreFull)
        (pstr ''accepting the snapshot would exceed the configured store limits''))
      else if wall_us now + ks_default_ttl s > max_wall_us
      then act_lift (throw (Snapshot SnapshotSaveFailed)
        (pstr ''snapshot expiration exceeds the supported datetime range''))
      else act_bind (act_lift (snapshot_metadata_new ((dr_metadata draft)\<lparr>sm_process_local := True\<rparr>))) (\<lambda>metadata.
      act_bind (act_lift (sandbox_snapshot_new
        (stored_snapshot draft metadata (now\<lparr>wall_us := wall_us now + ks_default_ttl s\<rparr>)))) (\<lambda>snapshot.
      act_bind (act_put (\<lambda>s. s\<lparr>ks_snapshots := dict_put r snapshot (ks_snapshots s),
        ks_payload_bytes := ks_payload_bytes s + payload_bytes\<rparr>)) (\<lambda>_.
      act_ret r)))))))"

definition snapshot_missing :: "snapshot_ref \<Rightarrow> sandbox_error" where
  "snapshot_missing r = Raise (Snapshot SnapshotNotFound)
     (pstr ''snapshot '' @ identifier_str (ref_snapshot_id r) @ pstr '' does not exist'')"

definition store_load :: "snapshot_ref \<Rightarrow> sandbox_snapshot store_action" where
  "store_load r =
     act_bind (store_now SnapshotLoadFailed) (\<lambda>now.
     act_bind (act_get (\<lambda>s. map_of (ks_snapshots s) r)) (\<lambda>found.
     case found of
       None \<Rightarrow> act_lift (Inl (snapshot_missing r))
     | Some p \<Rightarrow>
         if expired_at now p
         then act_bind (act_put (remove_locked r)) (\<lambda>_. act_lift (Inl (snapshot_missing r)))
         else act_ret p))"

definition store_delete :: "snapshot_ref \<Rightarrow> unit store_action" where
  "store_delete r = act_put (remove_locked r)"

definition store_purge_expired :: "snapshot_purge_result store_action" where
  "store_purge_expired =
     act_bind (store_now SnapshotLoadFailed) (\<lambda>now.
     act_bind (purge_expired_locked now) (\<lambda>removed.
     act_ret \<lparr>sg_removed_refs = sort_key (\<lambda>r. identifier_str (ref_snapshot_id r)) (map fst removed),
              sg_removed_payload_bytes = (\<Sum>(r, p)\<leftarrow>removed. int (length (dr_payload p)))\<rparr>))"

definition store_get_stats :: "snapshot_store_stats store_action" where
  "store_get_stats =
     act_bind (store_now SnapshotLoadFailed) (\<lambda>now.
     act_bind (purge_expired_locked now) (\<lambda>_.
     act_get (\<lambda>s. \<lparr>sy_snapshot_count = int (length (ks_snapshots s)), sy_payload_bytes = ks_payload_bytes s\<rparr>)))"

section \<open>Runs of the store\<close>

datatype store_op = StoreSave snapshot_draft | StoreLoad snapshot_ref | StoreDelete snapshot_ref | StorePurge | StoreStats

fun store_exec :: "store_op \<Rightarrow> unit store_action" where
  "store_exec (StoreSave d) = act_bind (store_save d) (\<lambda>_. act_ret ())"
| "store_exec (StoreLoad r) = act_bind (store_load r) (\<lambda>_. act_ret ())"
| "store_exec (StoreDelete r) = store_delete r"
| "store_exec StorePurge = act_bind store_purge_expired (\<lambda>_. act_ret ())"
| "store_exec StoreStats = act_bind store_get_stats (\<lambda>_. act_ret ())"

text \<open>What a save stores: the draft, marked as local to the process, until the reading plus the time to live.\<close>

definition saved_as :: "snapshot_store \<Rightarrow> snapshot_draft \<Rightarrow> sandbox_snapshot" where
  "saved_as s d = (let now = shd (ks_clock s) in
     stored_snapshot d ((dr_metadata d)\<lparr>sm_process_local := True\<rparr>) (now\<lparr>wall_us := wall_us now + ks_default_ttl s\<rparr>))"

text \<open>The snapshots saved and not deleted, with the time each expires: nothing is ever purged here.\<close>

definition kept_after :: "store_op \<Rightarrow> snapshot_store \<Rightarrow> (snapshot_ref \<Rightarrow> sandbox_snapshot option) \<Rightarrow> snapshot_ref \<Rightarrow> sandbox_snapshot option" where
  "kept_after op s h =
     (case op of
        StoreSave d \<Rightarrow> if isl (fst (store_exec op s)) then h else h(SnapshotRef (dr_snapshot_id d) \<mapsto> saved_as s d)
      | StoreDelete r \<Rightarrow> h(r := None)
      | _ \<Rightarrow> h)"

fun kept :: "store_op list \<Rightarrow> snapshot_store \<Rightarrow> (snapshot_ref \<Rightarrow> sandbox_snapshot option) \<Rightarrow> snapshot_ref \<Rightarrow> sandbox_snapshot option" where
  "kept [] s h = h"
| "kept (op # ops) s h = kept ops (snd (store_exec op s)) (kept_after op s h)"

definition monotone_clock :: "py_datetime stream \<Rightarrow> bool" where
  "monotone_clock c \<longleftrightarrow>
     (\<forall>i j. i \<le> j \<longrightarrow> wall_us (c !! i) \<le> wall_us (c !! j)) \<and> (\<forall>i. utc_offset_us (c !! i) = Some 0)"

definition payload_sum :: "(snapshot_ref, sandbox_snapshot) dict \<Rightarrow> int" where
  "payload_sum d = (\<Sum>(r, p)\<leftarrow>d. int (length (dr_payload p)))"

definition store_inv :: "snapshot_store_limits \<Rightarrow> snapshot_store \<Rightarrow> bool" where
  "store_inv l s \<longleftrightarrow>
     ks_limits s = l \<and> dict_ok (ks_snapshots s) \<and> ks_payload_bytes s = payload_sum (ks_snapshots s) \<and>
     (ks_snapshots s \<noteq> [] \<longrightarrow> int (length (ks_snapshots s)) \<le> sl_max_snapshots l \<and>
        ks_payload_bytes s \<le> sl_max_total_payload_bytes l)"

text \<open>Everything in the store was kept, and what was kept and has not expired is in the store.\<close>

definition agrees :: "(snapshot_ref \<Rightarrow> sandbox_snapshot option) \<Rightarrow> snapshot_store \<Rightarrow> bool" where
  "agrees h s \<longleftrightarrow> monotone_clock (ks_clock s) \<and>
     (\<forall>r p. map_of (ks_snapshots s) r = Some p \<longrightarrow> h r = Some p) \<and>
     (\<forall>r p. h r = Some p \<longrightarrow> map_of (ks_snapshots s) r = Some p \<or> expired_at (shd (ks_clock s)) p)"

lemma monotone_stl:
  assumes "monotone_clock c"
  shows "monotone_clock (stl c)" and "wall_us (shd c) \<le> wall_us (shd (stl c))" and "utc_offset_us (shd c) = Some 0"
proof -
  have mono: "wall_us (c !! i) \<le> wall_us (c !! j)" if "i \<le> j" for i j
    using assms that by (simp add: monotone_clock_def)
  have utc: "utc_offset_us (c !! i) = Some 0" for i using assms by (simp add: monotone_clock_def)
  show "monotone_clock (stl c)"
    unfolding monotone_clock_def
    using mono [of "Suc i" "Suc j" for i j] utc [of "Suc i" for i] by simp
  show "wall_us (shd c) \<le> wall_us (shd (stl c))" using mono [of 0 1] by simp
  show "utc_offset_us (shd c) = Some 0" using utc [of 0] by simp
qed

lemma payload_sum_del:
  assumes "dict_ok d"
  shows "payload_sum (dict_del r d) =
    payload_sum d - (case map_of d r of None \<Rightarrow> 0 | Some p \<Rightarrow> int (length (dr_payload p)))"
  using assms
proof (induction d)
  case Nil
  then show ?case by (simp add: payload_sum_def dict_del_def)
next
  case (Cons kv d)
  moreover have "dict_del r d = d" if "r \<notin> fst ` set d"
    using that by (force simp: dict_del_def filter_id_conv)
  ultimately show ?case
    by (cases kv) (auto simp: payload_sum_def dict_del_def split: option.splits)
qed

lemma payload_sum_put: "map_of d r = None \<Longrightarrow> payload_sum (dict_put r p d) = payload_sum d + int (length (dr_payload p))"
  by (induction d) (auto simp: payload_sum_def split: if_splits)

lemma remove_locked_inv:
  assumes "store_inv l s"
  shows "store_inv l (remove_locked r s)"
proof (cases "map_of (ks_snapshots s) r")
  case None
  then show ?thesis using assms by (simp add: remove_locked_def)
next
  case (Some p)
  have "length (dict_del r (ks_snapshots s)) \<le> length (ks_snapshots s)" by (simp add: dict_del_def)
  moreover have "ks_snapshots s \<noteq> []" using Some by auto
  ultimately show ?thesis
    using assms Some payload_sum_del [of "ks_snapshots s" r] by (auto simp: remove_locked_def store_inv_def)
qed

lemma remove_locked_simps [simp]:
  "map_of (ks_snapshots (remove_locked r s)) = (map_of (ks_snapshots s))(r := None)"
  "ks_clock (remove_locked r s) = ks_clock s" "ks_default_ttl (remove_locked r s) = ks_default_ttl s"
  "ks_limits (remove_locked r s) = ks_limits s"
  by (auto simp: remove_locked_def fun_eq_iff split: option.splits)

lemma fold_remove:
  "store_inv l s \<Longrightarrow> store_inv l (fold remove_locked rs s) \<and>
     map_of (ks_snapshots (fold remove_locked rs s)) = (\<lambda>r. if r \<in> set rs then None else map_of (ks_snapshots s) r) \<and>
     ks_clock (fold remove_locked rs s) = ks_clock s \<and> ks_default_ttl (fold remove_locked rs s) = ks_default_ttl s \<and>
     ks_limits (fold remove_locked rs s) = ks_limits s"
  by (induction rs arbitrary: s) (auto simp: remove_locked_inv fun_eq_iff)

definition purged :: "py_datetime \<Rightarrow> snapshot_store \<Rightarrow> snapshot_store" where
  "purged now s = fold remove_locked (map fst (expired_items now s)) s"

lemma purge_expired_locked_eq: "purge_expired_locked now s = (Inr (expired_items now s), purged now s)"
  by (simp add: purge_expired_locked_def purged_def act_bind_def)

lemma purged_map:
  assumes "store_inv l s"
  shows "store_inv l (purged now s)" and "ks_clock (purged now s) = ks_clock s"
    and "map_of (ks_snapshots (purged now s)) r =
      (case map_of (ks_snapshots s) r of Some p \<Rightarrow> if expired_at now p then None else Some p | None \<Rightarrow> None)"
proof -
  have ok: "dict_ok (ks_snapshots s)" using assms by (simp add: store_inv_def)
  have "r \<in> fst ` set (expired_items now s) \<longleftrightarrow> (\<exists>p. map_of (ks_snapshots s) r = Some p \<and> expired_at now p)"
    using ok by (force simp: expired_items_def dict_ok_def)
  then show "map_of (ks_snapshots (purged now s)) r =
      (case map_of (ks_snapshots s) r of Some p \<Rightarrow> if expired_at now p then None else Some p | None \<Rightarrow> None)"
    using fold_remove [OF assms] by (auto simp: purged_def split: option.splits)
  show "store_inv l (purged now s)" "ks_clock (purged now s) = ks_clock s"
    using fold_remove [OF assms] by (simp_all add: purged_def)
qed

lemma store_now_eq:
  assumes "monotone_clock (ks_clock s)"
  shows "store_now e s = (Inr (shd (ks_clock s)), s\<lparr>ks_clock := stl (ks_clock s)\<rparr>)"
  using monotone_stl(3) [OF assms] by (simp add: store_now_def check_store_clock_def)

definition ticked :: "snapshot_store \<Rightarrow> snapshot_store" where
  "ticked s = s\<lparr>ks_clock := stl (ks_clock s)\<rparr>"

lemma expired_later: "expired_at a p \<Longrightarrow> wall_us a \<le> wall_us b \<Longrightarrow> expired_at b p"
  by (simp add: expired_at_def)

lemma agrees_ticked:
  assumes "agrees h s" and "store_inv l s"
  shows "agrees h (ticked s)" and "store_inv l (ticked s)"
    and "expired_at (shd (ks_clock s)) p \<Longrightarrow> expired_at (shd (ks_clock (ticked s))) p"
proof -
  have clock: "monotone_clock (ks_clock s)" using assms(1) by (simp add: agrees_def)
  note m = monotone_stl [OF clock]
  show later: "expired_at (shd (ks_clock (ticked s))) p" if "expired_at (shd (ks_clock s)) p" for p
    using expired_later [OF that m(2)] by (simp add: ticked_def)
  show "agrees h (ticked s)"
    unfolding agrees_def
  proof (intro conjI allI impI)
    show "monotone_clock (ks_clock (ticked s))" using m(1) by (simp add: ticked_def)
    show "h r = Some p" if "map_of (ks_snapshots (ticked s)) r = Some p" for r p
      using assms(1) that by (simp add: agrees_def ticked_def)
    show "map_of (ks_snapshots (ticked s)) r = Some p \<or> expired_at (shd (ks_clock (ticked s))) p" if "h r = Some p" for r p
      using assms(1) that later [of p] by (auto simp: agrees_def ticked_def)
  qed
  show "store_inv l (ticked s)" using assms(2) by (auto simp: store_inv_def ticked_def)
qed

lemma agrees_purged:
  assumes "agrees h s" and "store_inv l s" and "wall_us now \<le> wall_us (shd (ks_clock s))"
  shows "agrees h (purged now s)"
  unfolding agrees_def
proof (intro conjI allI impI)
  note p = purged_map [OF assms(2), of now]
  show "monotone_clock (ks_clock (purged now s))" using assms(1) p(2) by (simp add: agrees_def)
  show "h r = Some q" if "map_of (ks_snapshots (purged now s)) r = Some q" for r q
    using assms(1) that p(3) [of r] by (simp add: agrees_def split: option.splits if_splits)
  show "map_of (ks_snapshots (purged now s)) r = Some q \<or> expired_at (shd (ks_clock (purged now s))) q" if "h r = Some q" for r q
  proof (cases "expired_at (shd (ks_clock s)) q")
    case False
    then have "map_of (ks_snapshots s) r = Some q" "\<not> expired_at now q"
      using assms(1) that expired_later [OF _ assms(3), of q] by (auto simp: agrees_def)
    then show ?thesis using p(3) [of r] by simp
  qed (simp add: p(2))
qed

lemma agrees_removed:
  assumes "agrees h s" and "\<And>p. h r = Some p \<Longrightarrow> expired_at (shd (ks_clock s)) p"
  shows "agrees h (remove_locked r s)"
  using assms by (auto simp: agrees_def)

lemma agrees_deleted: "agrees h s \<Longrightarrow> agrees (h(r := None)) (remove_locked r s)"
  by (auto simp: agrees_def)

lemma saved_as_payload: "dr_payload (saved_as s d) = dr_payload d"
  by (simp add: saved_as_def stored_snapshot_def Let_def)

lemma store_save_cases:
  assumes "agrees h s" and "store_inv l s" and "store_save d s = (out, s')"
  defines "s1 \<equiv> purged (shd (ks_clock s)) (ticked s)" and "r \<equiv> SnapshotRef (dr_snapshot_id d)"
  obtains e where "out = Inl e" "s' = s1"
  | "out = Inr r" "map_of (ks_snapshots s1) r = None" "int (length (ks_snapshots s1)) + 1 \<le> sl_max_snapshots l"
      "ks_payload_bytes s1 + int (length (dr_payload d)) \<le> sl_max_total_payload_bytes l"
      "s' = s1\<lparr>ks_snapshots := dict_put r (saved_as s d) (ks_snapshots s1),
             ks_payload_bytes := ks_payload_bytes s1 + int (length (dr_payload d))\<rparr>"
proof -
  have now: "store_now SnapshotSaveFailed s = (Inr (shd (ks_clock s)), ticked s)"
    using assms(1) by (simp add: store_now_eq agrees_def ticked_def)
  have purge: "purge_expired_locked (shd (ks_clock s)) (ticked s) = (Inr (expired_items (shd (ks_clock s)) (ticked s)), s1)"
    by (simp add: purge_expired_locked_eq s1_def)
  have s1: "ks_limits s1 = l" "ks_default_ttl s1 = ks_default_ttl s"
    using fold_remove [OF agrees_ticked(2) [OF assms(1,2)]] assms(2)
    by (simp_all add: s1_def purged_def store_inv_def ticked_def)
  show thesis
  proof (cases out)
    case (Inl e)
    then have "s' = s1"
      using assms(3)
      by (auto simp: store_save_def Let_def act_bind_def now purge split: if_split_asm sum.split_asm)
    with Inl show thesis using that(1) by blast
  next
    case (Inr x)
    then show thesis
      using assms(3) that(2) s1
      by (auto simp: store_save_def Let_def act_bind_def now purge sandbox_snapshot_new_def saved_as_def
          snapshot_metadata_new_def ok_iff r_def split: if_split_asm sum.split_asm)
  qed
qed

lemma store_load_eq:
  assumes "agrees h s"
  shows "store_load r s =
    (case map_of (ks_snapshots s) r of
       None \<Rightarrow> (Inl (snapshot_missing r), ticked s)
     | Some p \<Rightarrow> if expired_at (shd (ks_clock s)) p then (Inl (snapshot_missing r), remove_locked r (ticked s))
                else (Inr p, ticked s))"
proof -
  have "store_now SnapshotLoadFailed s = (Inr (shd (ks_clock s)), ticked s)"
    using assms by (simp add: store_now_eq agrees_def ticked_def)
  moreover have "ks_snapshots (ticked s) = ks_snapshots s" by (simp add: ticked_def)
  ultimately show ?thesis by (simp add: store_load_def act_bind_def split: option.split)
qed

lemma purging_exec:
  assumes "agrees h s" and "store_inv l s"
  defines "s1 \<equiv> purged (shd (ks_clock s)) (ticked s)"
  shows "snd (store_exec StorePurge s) = s1" and "snd (store_exec StoreStats s) = s1"
    and "agrees h s1" and "store_inv l s1"
proof -
  have now: "store_now SnapshotLoadFailed s = (Inr (shd (ks_clock s)), ticked s)"
    and mono: "wall_us (shd (ks_clock s)) \<le> wall_us (shd (ks_clock (ticked s)))"
    using assms(1) monotone_stl(2) by (simp_all add: store_now_eq agrees_def ticked_def)
  show "snd (store_exec StorePurge s) = s1" "snd (store_exec StoreStats s) = s1"
    by (simp_all add: store_purge_expired_def store_get_stats_def act_bind_def now purge_expired_locked_eq s1_def)
  note t = agrees_ticked(1,2) [OF assms(1,2)]
  show "agrees h s1" "store_inv l s1"
    using agrees_purged [OF t mono] purged_map(1) [OF t(2)] by (simp_all add: s1_def)
qed

lemma store_save_step:
  assumes "agrees h s" and "store_inv l s"
  shows "agrees (kept_after (StoreSave d) s h) (snd (store_save d s)) \<and> store_inv l (snd (store_save d s))"
proof -
  let ?s1 = "purged (shd (ks_clock s)) (ticked s)" and ?r = "SnapshotRef (dr_snapshot_id d)"
  note s1 = purging_exec(3,4) [OF assms]
  obtain out s' where run: "store_save d s = (out, s')" by (cases "store_save d s") auto
  from assms run show ?thesis
  proof (cases rule: store_save_cases)
    case (1 e)
    then show ?thesis using run s1 by (simp add: kept_after_def act_bind_def)
  next
    case 2
    have "store_inv l s'"
      using s1(2) 2 saved_as_payload [of s d]
      by (auto simp: store_inv_def payload_sum_put length_dict_put)
    moreover have "agrees (h(?r \<mapsto> saved_as s d)) s'"
      using s1(1) by (simp add: 2(5) agrees_def)
    ultimately show ?thesis using run 2(1) by (simp add: kept_after_def act_bind_def)
  qed
qed

lemma store_exec_step:
  assumes "agrees h s" and "store_inv l s"
  shows "agrees (kept_after op s h) (snd (store_exec op s)) \<and> store_inv l (snd (store_exec op s))"
proof (cases op)
  case (StoreSave d)
  have "snd (store_exec (StoreSave d) s) = snd (store_save d s)"
    by (simp add: act_bind_def split: prod.split sum.split)
  then show ?thesis using store_save_step [OF assms, of d] StoreSave by simp
next
  case (StoreLoad r)
  note t = agrees_ticked [OF assms]
  have expired: "\<And>q. h r = Some q \<Longrightarrow> expired_at (shd (ks_clock (ticked s))) q"
    if "map_of (ks_snapshots s) r = Some p" "expired_at (shd (ks_clock s)) p" for p
    using assms(1) that t(3) by (auto simp: agrees_def)
  show ?thesis
    using t(1,2) agrees_removed [OF t(1) expired] remove_locked_inv [OF t(2)] StoreLoad
    by (auto simp: store_load_eq [OF assms(1)] act_bind_def kept_after_def split: option.split)
next
  case (StoreDelete r)
  then show ?thesis
    using assms agrees_deleted remove_locked_inv by (simp add: store_delete_def kept_after_def)
qed (use purging_exec [OF assms] in \<open>simp_all add: kept_after_def\<close>)

lemma store_exec_all:
  "agrees h s \<Longrightarrow> store_inv l s \<Longrightarrow>
     agrees (kept ops s h) (exec_all store_exec ops s) \<and> store_inv l (exec_all store_exec ops s)"
proof (induction ops arbitrary: s h)
  case Nil
  then show ?case by simp
next
  case (Cons op ops)
  have "agrees (kept_after op s h) (snd (store_exec op s))" "store_inv l (snd (store_exec op s))"
    using store_exec_step [OF Cons.prems] by blast+
  from Cons.IH [OF this] show ?case by simp
qed

lemma store_exec_clock:
  assumes "agrees h s" and "store_inv l s"
  shows "ks_clock (snd (store_exec StorePurge s)) = stl (ks_clock s)"
    and "ks_clock (snd (store_exec (StoreSave d) s)) = stl (ks_clock s)"
proof -
  have t: "ks_clock (ticked s) = stl (ks_clock s)" by (simp add: ticked_def)
  note p = purged_map(2) [OF agrees_ticked(2) [OF assms], of "shd (ks_clock s)"]
  show "ks_clock (snd (store_exec StorePurge s)) = stl (ks_clock s)"
    using purging_exec(1) [OF assms] p t by simp
  obtain out s' where run: "store_save d s = (out, s')" by (cases "store_save d s") auto
  from assms run have "ks_clock s' = stl (ks_clock s)"
    by (cases rule: store_save_cases) (simp_all add: p t)
  then show "ks_clock (snd (store_exec (StoreSave d) s)) = stl (ks_clock s)"
    using run by (simp add: act_bind_def split: sum.split)
qed

text \<open>
  C10: a bounded store that forgets only what has expired. With a clock that never goes back, after any
  run of saves, loads, deletions and purges the store holds at most the configured number of snapshots
  and payload bytes, counted exactly, and loading a reference returns exactly the snapshot last saved
  under it and not deleted, until its time to live has passed; from then on it is not found.
\<close>

theorem snapshot_store_keeps:
  assumes "snapshot_store_new ttl l clock = Inr s0" and "monotone_clock clock"
    and "exec_all store_exec ops s0 = s"
  shows "(ks_snapshots s \<noteq> [] \<longrightarrow> int (length (ks_snapshots s)) \<le> sl_max_snapshots l \<and>
      ks_payload_bytes s \<le> sl_max_total_payload_bytes l) \<and>
    ks_payload_bytes s = payload_sum (ks_snapshots s) \<and>
    fst (store_load r s) =
      (case kept ops s0 Map.empty r of
         Some p \<Rightarrow> if expired_at (shd (ks_clock s)) p then Inl (snapshot_missing r) else Inr p
       | None \<Rightarrow> Inl (snapshot_missing r))"
proof -
  have "agrees Map.empty s0" "store_inv l s0"
    using assms(1,2) by (auto simp: snapshot_store_new_def ok_iff agrees_def store_inv_def payload_sum_def)
  from store_exec_all [OF this, of ops] assms(3)
  have s: "agrees (kept ops s0 Map.empty) s" "store_inv l s" by simp_all
  have "fst (store_load r s) =
      (case kept ops s0 Map.empty r of
         Some p \<Rightarrow> if expired_at (shd (ks_clock s)) p then Inl (snapshot_missing r) else Inr p
       | None \<Rightarrow> Inl (snapshot_missing r))"
  proof (cases "map_of (ks_snapshots s) r")
    case None
    then have "expired_at (shd (ks_clock s)) p" if "kept ops s0 Map.empty r = Some p" for p
      using s(1) that by (metis agrees_def option.distinct(1))
    then show ?thesis using None by (auto simp: store_load_eq [OF s(1)] split: option.split)
  next
    case (Some p)
    then have "kept ops s0 Map.empty r = Some p" using s(1) by (simp add: agrees_def)
    then show ?thesis using Some by (simp add: store_load_eq [OF s(1)])
  qed
  moreover have "(ks_snapshots s \<noteq> [] \<longrightarrow> int (length (ks_snapshots s)) \<le> sl_max_snapshots l \<and>
      ks_payload_bytes s \<le> sl_max_total_payload_bytes l) \<and> ks_payload_bytes s = payload_sum (ks_snapshots s)"
    using s(2) unfolding store_inv_def by blast
  ultimately show ?thesis by blast
qed

definition sample_draft :: snapshot_draft where
  "sample_draft = \<lparr>dr_snapshot_id = UuidIdentifier 1, dr_schema_version = 1,
     dr_created_at = \<lparr>wall_us = 0, utc_offset_us = Some 0\<rparr>, dr_source_session_id = UuidIdentifier 2,
     dr_workspace_revision = revision_initial, dr_content_hash = from_bytes [], dr_payload = [1, 2],
     dr_metadata = \<lparr>sm_format_name = [106], sm_payload_bytes = 2, sm_process_local = False\<rparr>, dr_created_by = None\<rparr>"

lemma snapshot_store_keeps_witness:
  "\<exists>l s0 p. snapshot_store_new 10 l (sconst \<lparr>wall_us = 5, utc_offset_us = Some 0\<rparr>) = Inr s0 \<and>
     fst (store_load (SnapshotRef (UuidIdentifier 1)) (exec_all store_exec [StoreSave sample_draft, StorePurge] s0)) = Inr p \<and>
     dr_payload p = [1, 2]"
proof -
  let ?now = "\<lparr>wall_us = 5, utc_offset_us = Some 0\<rparr> :: py_datetime"
  let ?l = "\<lparr>sl_max_snapshots = 1, sl_max_total_payload_bytes = 2\<rparr>" and ?ops = "[StoreSave sample_draft, StorePurge]"
  define s0 where "s0 = \<lparr>ks_default_ttl = 10, ks_limits = ?l, ks_snapshots = [], ks_payload_bytes = 0, ks_clock = sconst ?now\<rparr>"
  have new: "snapshot_store_new 10 ?l (sconst ?now) = Inr s0" by (simp add: snapshot_store_new_def s0_def)
  have clock: "monotone_clock (sconst ?now)" by (simp add: monotone_clock_def)
  have "\<not> isl (fst (store_save sample_draft s0))"
    by (simp add: store_save_def s0_def sample_draft_def Let_def act_bind_def store_now_def check_store_clock_def
        purge_expired_locked_def expired_items_def snapshot_metadata_new_def sandbox_snapshot_new_def stored_snapshot_def
        validate_snapshot_fields_def require_aware_utc_def require_creator_def max_wall_us_def)
  then have "kept ?ops s0 Map.empty (SnapshotRef (UuidIdentifier 1)) = Some (saved_as s0 sample_draft)"
    by (auto simp: kept_after_def sample_draft_def act_bind_def split: prod.split sum.split)
  moreover have start: "agrees Map.empty s0" "store_inv ?l s0"
    using clock by (simp_all add: agrees_def store_inv_def payload_sum_def s0_def)
  have "agrees (kept_after (StoreSave sample_draft) s0 Map.empty) (snd (store_exec (StoreSave sample_draft) s0))"
    "store_inv ?l (snd (store_exec (StoreSave sample_draft) s0))"
    using store_exec_step [OF start] by blast+
  from store_exec_clock(1) [OF this] store_exec_clock(2) [OF start, of sample_draft]
  have "ks_clock (exec_all store_exec ?ops s0) = sconst ?now" by (simp add: s0_def del: store_exec.simps)
  then have "\<not> expired_at (shd (ks_clock (exec_all store_exec ?ops s0))) (saved_as s0 sample_draft)"
    by (simp add: expired_at_def saved_as_def stored_snapshot_def s0_def Let_def del: store_exec.simps)
  ultimately show ?thesis
    using snapshot_store_keeps [OF new clock refl, of ?ops "SnapshotRef (UuidIdentifier 1)"] new saved_as_payload [of s0 sample_draft]
    by (intro exI [of _ ?l] exI [of _ s0] exI [of _ "saved_as s0 sample_draft"])
       (simp del: store_exec.simps exec_all.simps kept.simps add: sample_draft_def)
qed

end
