(* ===== verification/Session_Models.thy ===== *)
theory Session_Models
  imports Network_Models Snapshot_Store Workspace_Restore Command_Executor Event_Redaction
begin

text \<open>
  \<open>session/models.py\<close>: the requests and results of a session. Every request carries its limits and
  whether it has a cancellation signal, the fields of \<open>operation_options\<close>.
\<close>

datatype session_state = CREATED | RUNNING | CLOSING | CLOSED | FAILED

fun session_state_value :: "session_state \<Rightarrow> string" where
  "session_state_value CREATED = ''created''"
| "session_state_value RUNNING = ''running''"
| "session_state_value CLOSING = ''closing''"
| "session_state_value CLOSED = ''closed''"
| "session_state_value FAILED = ''failed''"

record secret_binding =
  bd_name :: pystr
  bd_secret_ref :: secret_ref

definition secret_binding_new :: "pystr \<Rightarrow> secret_ref \<Rightarrow> secret_binding result" where
  "secret_binding_new name r =
     rbind (environment_value_new name []) (\<lambda>_.
     rbind (guard (name \<noteq> pstr ''PWD'')
       (Raise (Builtin ValueError) (pstr ''PWD cannot be used as a secret environment binding''))) (\<lambda>_.
     Inr \<lparr>bd_name = name, bd_secret_ref = r\<rparr>))"

record operation_options =
  op_limits :: operation_limits
  op_cancellation :: bool

record session_execute_request = operation_options +
  xe_command :: pystr
  xe_secret_environment :: "secret_binding list"
  xe_command_limits :: command_limits

definition session_execute_request_new :: "session_execute_request \<Rightarrow> session_execute_request result" where
  "session_execute_request_new r =
     (let bindings = xe_secret_environment r; names = map bd_name bindings;
          bound = max_secret_bindings (xe_command_limits r) in
      rbind (guard (card (set names) = length names)
        (Raise (Builtin ValueError) (pstr ''secret_environment contains duplicate environment names''))) (\<lambda>_.
      rbind (guard (\<not> int (length bindings) > bound)
        (Raise (Builtin ValueError) (pstr ''secret_environment exceeds command_limits.max_secret_bindings''))) (\<lambda>_.
      rbind (guard (\<not> int (card (bd_secret_ref ` set bindings)) > bound)
        (Raise (Builtin ValueError)
          (pstr ''secret_environment references exceed command_limits.max_secret_bindings''))) (\<lambda>_.
      Inr (r\<lparr>xe_secret_environment := sort_key bd_name bindings\<rparr>)))))"

record session_execute_result =
  er_metadata :: operation_result_metadata
  er_result :: execute_result

record send_http_request = operation_options +
  sh_request :: http_request

record send_http_result =
  sr_metadata :: operation_result_metadata
  sr_response :: http_response

record read_file_request = operation_options +
  rf_path :: pystr
  rf_start_line :: int
  rf_end_line :: "int option"

definition require_line_range :: "int \<Rightarrow> int option \<Rightarrow> unit result" where
  "require_line_range start_line end_line =
     rbind (guard (\<not> start_line < 1) (Raise (Builtin ValueError) (pstr ''start_line must be at least 1''))) (\<lambda>_.
     case end_line of
       None \<Rightarrow> Inr ()
     | Some e \<Rightarrow> guard (\<not> e < start_line)
         (Raise (Builtin ValueError) (pstr ''end_line must not be before start_line'')))"

definition read_file_request_new :: "read_file_request \<Rightarrow> read_file_request result" where
  "read_file_request_new r = rbind (require_line_range (rf_start_line r) (rf_end_line r)) (\<lambda>_. Inr r)"

record read_file_result =
  rr_metadata :: operation_result_metadata
  rr_range :: range_result

definition require_utf8 :: "pystr \<Rightarrow> pystr \<Rightarrow> unit result" where
  "require_utf8 name v =
     guard (utf8_encode v \<noteq> None) (Raise (Builtin ValueError) (name @ pstr '' must be valid UTF-8''))"

record write_file_request = operation_options +
  wf_path :: pystr
  wf_content :: pystr
  wf_precondition :: write_precondition
  wf_create_parents :: bool

definition write_file_request_new :: "write_file_request \<Rightarrow> write_file_request result" where
  "write_file_request_new r = rbind (require_utf8 (pstr ''content'') (wf_content r)) (\<lambda>_. Inr r)"

record write_bytes_request = operation_options +
  wb_path :: pystr
  wb_content :: "byte list"
  wb_precondition :: write_precondition
  wb_create_parents :: bool

record path_mutation_result =
  mr_metadata :: operation_result_metadata
  mr_mutation :: workspace_mutation

record create_directory_request = operation_options +
  cd_path :: pystr
  cd_create_parents :: bool
  cd_exist_ok :: bool

record remove_entry_request = operation_options +
  re_path :: pystr
  re_recursive :: bool
  re_missing_ok :: bool

text \<open>An expected hash names its path by text, or by a path of the workspace.\<close>

datatype session_expected_hash =
    ExpectedText pystr content_hash
  | ExpectedPath sandbox_path content_hash

record apply_patch_request = operation_options +
  ap_patch :: pystr
  ap_expected_hashes :: "session_expected_hash list"

definition apply_patch_request_new :: "apply_patch_request \<Rightarrow> apply_patch_request result" where
  "apply_patch_request_new r = rbind (require_utf8 (pstr ''patch'') (ap_patch r)) (\<lambda>_. Inr r)"

record patch_mutation_result =
  pm_metadata :: operation_result_metadata
  pm_files :: "patched_file list"

record path_request = operation_options +
  pq_path :: pystr

record read_bytes_result =
  rb_metadata :: operation_result_metadata
  rb_result :: binary_result

record stat_result =
  sa_metadata :: operation_result_metadata
  sa_entry :: workspace_entry

record list_entries_result =
  le_metadata :: operation_result_metadata
  le_entries :: "workspace_entry list"

record create_snapshot_result =
  cs_metadata :: operation_result_metadata
  cs_snapshot_ref :: snapshot_ref
  cs_content_hash :: content_hash

record restore_snapshot_request = operation_options +
  rt_snapshot_ref :: snapshot_ref

record restore_snapshot_result =
  rs_metadata :: operation_result_metadata
  rs_snapshot_ref :: snapshot_ref

record session_execution_context =
  sc_cwd :: sandbox_path
  sc_environment :: command_environment

end
