(* ===== verification/Event_Delivery.thy ===== *)
theory Event_Delivery
  imports Event_Redaction
begin

text \<open>
  \<open>events/delivery.py\<close>: the dispatcher. Required delivery awaits the sink; best-effort delivery
  queues prepared events for a worker task. The event loop runs one task at a time from one \<open>await\<close>
  to the next: each such stretch is a function of the dispatcher here, and \<open>delivery_step\<close> is any of
  them. What the awaited sink answers is an argument. Nothing but the worker itself ends its task.
\<close>

section \<open>The dispatcher\<close>

datatype queue_item = QueuedEvent sandbox_event | STOP

datatype worker_state =
    NoWorker
  | AwaitingItem
  | AwaitingSink sandbox_event
  | WorkerDone

datatype close_state =
    NotClosing
  | CloseCreated
  | AwaitingJoin
  | AwaitingWorker
  | CloseDone

record dispatcher =
  ds_policy :: event_delivery_policy
  ds_allow_protected :: bool
  ds_limits :: event_payload_limits
  ds_redactor :: redactor
  ds_queue :: "queue_item list"
  ds_unfinished :: nat
  ds_worker :: worker_state
  ds_accepting :: bool
  ds_close :: close_state
  ds_delivered :: "sandbox_event list"
  ds_reported :: "event_diagnostic list"

text \<open>A diagnostic handler is whether its \<open>report\<close> is a coroutine function.\<close>

definition dispatcher_new ::
  "event_delivery_policy \<Rightarrow> bool \<Rightarrow> event_payload_limits \<Rightarrow> redactor \<Rightarrow> bool option \<Rightarrow> dispatcher result" where
  "dispatcher_new policy allow_protected limits r handler =
     rbind (guard (\<not> (dp_mode policy = BEST_EFFORT \<and> handler = None))
       (Raise (Builtin ValueError) (pstr ''best-effort delivery requires a diagnostic handler''))) (\<lambda>_.
     rbind (guard (handler \<noteq> Some True)
       (Raise (Builtin TypeError) (pstr ''event diagnostic handler must be synchronous''))) (\<lambda>_.
     Inr \<lparr>ds_policy = policy, ds_allow_protected = allow_protected, ds_limits = limits, ds_redactor = r,
          ds_queue = [], ds_unfinished = 0, ds_worker = NoWorker, ds_accepting = True,
          ds_close = NotClosing, ds_delivered = [], ds_reported = []\<rparr>))"

type_synonym 'a delivery_action = "(dispatcher, sandbox_error, 'a) action"

definition dispatcher_prepare :: "(py_float \<Rightarrow> pystr) \<Rightarrow> dispatcher \<Rightarrow> sandbox_event \<Rightarrow> sandbox_event result" where
  "dispatcher_prepare float_repr d e = prepare_event float_repr (ds_redactor d) (ds_allow_protected d) (ds_limits d) e"

text \<open>The diagnostic that \<open>_report\<close> gives to the handler; what the handler answers changes nothing.\<close>

definition failure_diagnostic :: "sandbox_event \<Rightarrow> sandbox_error \<Rightarrow> event_diagnostic result" where
  "failure_diagnostic e error =
     (let code_value = error_code (err_class error);
          code_text = (case code_value of
              Some c \<Rightarrow> if c \<noteq> [] then pstr c else pstr (event_error_code EventDeliveryFailed)
            | None \<Rightarrow> pstr (event_error_code EventDeliveryFailed));
          message = (if is_sandbox_error error \<and> err_msg error \<noteq> [] then err_msg error
            else pstr ''event delivery failed ('' @ class_name (err_class error) @ pstr '')'')
      in rbind (ev_event_id e) (\<lambda>i. event_diagnostic_new i code_text message))"

definition dispatcher_report :: "sandbox_event \<Rightarrow> sandbox_error \<Rightarrow> unit delivery_action" where
  "dispatcher_report e error =
     act_bind (act_lift (failure_diagnostic e error)) (\<lambda>diagnostic.
     act_put (\<lambda>d. d\<lparr>ds_reported := ds_reported d @ [diagnostic]\<rparr>))"

section \<open>Emitting\<close>

datatype sink_reply =
    SinkAccepts
  | SinkRaises sandbox_error

text \<open>Required delivery: the caller waits for the sink and learns of every failure.\<close>

definition required_emit :: "(py_float \<Rightarrow> pystr) \<Rightarrow> sandbox_event \<Rightarrow> sink_reply \<Rightarrow> unit delivery_action" where
  "required_emit float_repr e reply =
     act_bind (act_get ds_accepting) (\<lambda>accepting.
     if \<not> accepting then act_lift (throw (Event EventSinkClosed) (pstr ''event dispatcher is closed''))
     else act_bind (act_get (\<lambda>d. dispatcher_prepare float_repr d e)) (\<lambda>p.
     act_bind (act_lift p) (\<lambda>prepared.
     case reply of
       SinkAccepts \<Rightarrow> act_put (\<lambda>d. d\<lparr>ds_delivered := ds_delivered d @ [prepared]\<rparr>)
     | SinkRaises error \<Rightarrow>
         act_lift (Inl (if err_class error = Builtin CancelledError \<or> is_sandbox_error error then error
           else Raise (Event EventDeliveryFailed) (pstr ''event delivery failed''))))))"

definition ensure_worker :: "unit delivery_action" where
  "ensure_worker = act_put (\<lambda>d.
     if ds_worker d \<in> {NoWorker, WorkerDone} then d\<lparr>ds_worker := AwaitingItem\<rparr> else d)"

definition put_nowait :: "queue_item \<Rightarrow> dispatcher \<Rightarrow> dispatcher option" where
  "put_nowait x d =
     (if dp_max_pending_events (ds_policy d) \<le> int (length (ds_queue d)) then None
      else Some (d\<lparr>ds_queue := ds_queue d @ [x], ds_unfinished := ds_unfinished d + 1\<rparr>))"

definition best_effort_emit :: "(py_float \<Rightarrow> pystr) \<Rightarrow> sandbox_event \<Rightarrow> unit delivery_action" where
  "best_effort_emit float_repr e =
     act_bind (act_get ds_accepting) (\<lambda>accepting.
     if \<not> accepting
     then dispatcher_report e (Raise (Event EventSinkClosed) (pstr ''event dispatcher is closed''))
     else act_bind (act_get (\<lambda>d. dispatcher_prepare float_repr d e)) (\<lambda>p.
     case p of
       Inl error \<Rightarrow> dispatcher_report e error
     | Inr prepared \<Rightarrow>
         act_bind ensure_worker (\<lambda>_.
         act_bind (act_get (put_nowait (QueuedEvent prepared))) (\<lambda>q.
         case q of
           Some d' \<Rightarrow> act_put (\<lambda>_. d')
         | None \<Rightarrow> dispatcher_report e
             (Raise (Event EventBufferLimitExceeded) (pstr ''best-effort event queue is full''))))))"

section \<open>The worker\<close>

definition task_done :: "dispatcher \<Rightarrow> dispatcher" where
  "task_done d = d\<lparr>ds_unfinished := ds_unfinished d - 1\<rparr>"

text \<open>\<open>queue.get()\<close> returns an item, and the worker goes on to its next \<open>await\<close>.\<close>

definition worker_take :: "dispatcher \<Rightarrow> dispatcher option" where
  "worker_take d =
     (case (ds_worker d, ds_queue d) of
        (AwaitingItem, QueuedEvent e # items) \<Rightarrow> Some (d\<lparr>ds_worker := AwaitingSink e, ds_queue := items\<rparr>)
      | (AwaitingItem, STOP # items) \<Rightarrow> Some (task_done (d\<lparr>ds_worker := WorkerDone, ds_queue := items\<rparr>))
      | _ \<Rightarrow> None)"

text \<open>
  \<open>sink.emit\<close> ends under its timeout. Any exception is reported, a \<open>TimeoutError\<close> and a
  cancellation that is not the worker's own too.
\<close>

definition worker_reply :: "sink_reply \<Rightarrow> dispatcher \<Rightarrow> dispatcher option" where
  "worker_reply reply d =
     (case ds_worker d of
        AwaitingSink e \<Rightarrow>
          Some (task_done (case reply of
              SinkAccepts \<Rightarrow> d\<lparr>ds_worker := AwaitingItem, ds_delivered := ds_delivered d @ [e]\<rparr>
            | SinkRaises error \<Rightarrow> (snd (dispatcher_report e error d))\<lparr>ds_worker := AwaitingItem\<rparr>))
      | _ \<Rightarrow> None)"

section \<open>Closing\<close>

definition dispatcher_close :: "dispatcher \<Rightarrow> dispatcher" where
  "dispatcher_close d =
     (if ds_close d = NotClosing then d\<lparr>ds_accepting := False, ds_close := CloseCreated\<rparr> else d)"

text \<open>The task of \<open>_close_once\<close> from one \<open>await\<close> to the next; \<open>None\<close> while it is blocked.\<close>

definition close_turn :: "dispatcher \<Rightarrow> dispatcher option" where
  "close_turn d =
     (case ds_close d of
        CloseCreated \<Rightarrow>
          Some (d\<lparr>ds_close := (if dp_mode (ds_policy d) = REQUIRED \<or> ds_worker d = NoWorker then CloseDone else AwaitingJoin)\<rparr>)
      | AwaitingJoin \<Rightarrow>
          if ds_unfinished d \<noteq> 0 then None
          else if ds_worker d = WorkerDone then Some (d\<lparr>ds_close := CloseDone\<rparr>)
          else (case put_nowait STOP d of
                  None \<Rightarrow> None
                | Some d' \<Rightarrow> Some (d'\<lparr>ds_close := AwaitingWorker\<rparr>))
      | AwaitingWorker \<Rightarrow> if ds_worker d = WorkerDone then Some (d\<lparr>ds_close := CloseDone\<rparr>) else None
      | _ \<Rightarrow> None)"

text \<open>\<open>flush\<close> returns once every queued item is done.\<close>

definition flush_returns :: "dispatcher \<Rightarrow> bool" where
  "flush_returns d \<longleftrightarrow> dp_mode (ds_policy d) = REQUIRED \<or> ds_unfinished d = 0"

section \<open>Runs\<close>

text \<open>\<open>Emits e\<close> is a call, the others are turns of the worker and of the closing task.\<close>

datatype delivery_label = Emits sandbox_event | Takes | Replies sink_reply | Closes | CloseTurns

inductive delivery_step :: "(py_float \<Rightarrow> pystr) \<Rightarrow> dispatcher \<Rightarrow> delivery_label \<Rightarrow> dispatcher \<Rightarrow> bool"
  for float_repr where
  emits: "best_effort_emit float_repr e d = (r, d') \<Longrightarrow> delivery_step float_repr d (Emits e) d'"
| takes: "worker_take d = Some d' \<Longrightarrow> delivery_step float_repr d Takes d'"
| replies: "worker_reply reply d = Some d' \<Longrightarrow> delivery_step float_repr d (Replies reply) d'"
| closes: "delivery_step float_repr d Closes (dispatcher_close d)"
| turns: "close_turn d = Some d' \<Longrightarrow> delivery_step float_repr d CloseTurns d'"

inductive_cases delivery_stepE [consumes 1, case_names emits takes replies closes turns]:
  "delivery_step float_repr d label d'"

text \<open>The runs of a best-effort dispatcher, with the events it was given so far.\<close>

inductive delivery_run :: "(py_float \<Rightarrow> pystr) \<Rightarrow> dispatcher \<Rightarrow> sandbox_event list \<Rightarrow> dispatcher \<Rightarrow> bool"
  for float_repr d0 where
  init: "delivery_run float_repr d0 [] d0"
| emit: "delivery_run float_repr d0 es d \<Longrightarrow> event_ok e \<Longrightarrow> delivery_step float_repr d (Emits e) d'
    \<Longrightarrow> delivery_run float_repr d0 (es @ [e]) d'"
| turn: "delivery_run float_repr d0 es d \<Longrightarrow> delivery_step float_repr d label d'
    \<Longrightarrow> (\<And>e. label \<noteq> Emits e) \<Longrightarrow> delivery_run float_repr d0 es d'"

section \<open>The invariant\<close>

definition raw_id :: "sandbox_event \<Rightarrow> event_id" where
  "raw_id e = \<lparr>ei_session_id = ev_session_id e, ei_sequence = ev_sequence e\<rparr>"

fun queued_events :: "queue_item list \<Rightarrow> sandbox_event list" where
  "queued_events [] = []"
| "queued_events (QueuedEvent e # items) = e # queued_events items"
| "queued_events (STOP # items) = queued_events items"

fun in_flight :: "worker_state \<Rightarrow> sandbox_event list" where
  "in_flight (AwaitingSink e) = [e]"
| "in_flight _ = []"

text \<open>What is accepted and not yet settled, and the events that preparation let through.\<close>

definition unsettled :: "dispatcher \<Rightarrow> sandbox_event list" where
  "unsettled d = in_flight (ds_worker d) @ queued_events (ds_queue d)"

fun prepared_events :: "(py_float \<Rightarrow> pystr) \<Rightarrow> dispatcher \<Rightarrow> sandbox_event list \<Rightarrow> sandbox_event list" where
  "prepared_events fr d [] = []"
| "prepared_events fr d (e # es) =
     (case dispatcher_prepare fr d e of Inl _ \<Rightarrow> [] | Inr p \<Rightarrow> [p]) @ prepared_events fr d es"

definition same_configuration :: "dispatcher \<Rightarrow> dispatcher \<Rightarrow> bool" where
  "same_configuration d d' \<longleftrightarrow>
     ds_policy d' = ds_policy d \<and> ds_allow_protected d' = ds_allow_protected d \<and>
     ds_limits d' = ds_limits d \<and> ds_redactor d' = ds_redactor d"

definition phases_ok :: "dispatcher \<Rightarrow> bool" where
  "phases_ok d \<longleftrightarrow>
     ds_accepting d = (ds_close d = NotClosing) \<and>
     ds_unfinished d = length (ds_queue d) + length (in_flight (ds_worker d)) \<and>
     (ds_worker d = NoWorker \<longrightarrow> ds_queue d = []) \<and>
     (case ds_close d of
        AwaitingJoin \<Rightarrow> ds_worker d \<notin> {NoWorker, WorkerDone} \<and> STOP \<notin> set (ds_queue d)
      | AwaitingWorker \<Rightarrow> (ds_queue d = [STOP] \<and> ds_worker d = AwaitingItem) \<or> (ds_queue d = [] \<and> ds_worker d = WorkerDone)
      | CloseDone \<Rightarrow> ds_queue d = [] \<and> ds_worker d \<in> {NoWorker, WorkerDone}
      | _ \<Rightarrow> ds_worker d \<noteq> WorkerDone \<and> STOP \<notin> set (ds_queue d))"

definition accounted :: "sandbox_event list \<Rightarrow> dispatcher \<Rightarrow> bool" where
  "accounted es d \<longleftrightarrow>
     mset (map raw_id es) =
       mset (map raw_id (ds_delivered d)) + mset (map dg_event_id (ds_reported d)) + mset (map raw_id (unsettled d))"

definition delivery_inv :: "(py_float \<Rightarrow> pystr) \<Rightarrow> dispatcher \<Rightarrow> sandbox_event list \<Rightarrow> dispatcher \<Rightarrow> bool" where
  "delivery_inv fr d0 es d \<longleftrightarrow>
     same_configuration d0 d \<and> phases_ok d \<and> accounted es d \<and>
     int (length (ds_queue d)) \<le> dp_max_pending_events (ds_policy d0) \<and>
     subseq (ds_delivered d @ unsettled d) (prepared_events fr d0 es) \<and>
     (\<forall>e \<in> set (unsettled d). 0 < ev_sequence e)"

lemma queued_events_append [simp]: "queued_events (xs @ ys) = queued_events xs @ queued_events ys"
  by (induction xs rule: queued_events.induct) simp_all

lemma queued_events_length: "STOP \<notin> set items \<Longrightarrow> length (queued_events items) = length items"
  by (induction items rule: queued_events.induct) auto

lemma prepared_events_append [simp]:
  "prepared_events fr d (xs @ ys) = prepared_events fr d xs @ prepared_events fr d ys"
  by (induction xs) simp_all

lemma prepare_same:
  "same_configuration d d' \<Longrightarrow> dispatcher_prepare fr d' e = dispatcher_prepare fr d e"
  by (simp add: same_configuration_def dispatcher_prepare_def)

lemma redact_event_id: "redact_event r e = Inr e' \<Longrightarrow> ev_sequence e' = ev_sequence e \<and> ev_session_id e' = ev_session_id e"
  by (auto simp: redact_event_def sandbox_event_new_def ok_iff split: if_splits)

lemma prepare_id: "dispatcher_prepare fr d e = Inr p \<Longrightarrow> raw_id p = raw_id e \<and> ev_sequence p = ev_sequence e"
  by (auto simp: dispatcher_prepare_def prepare_event_def ok_iff raw_id_def dest: redact_event_id split: if_splits)

lemma event_ok_sequence: "event_ok e \<Longrightarrow> 0 < ev_sequence e"
  by (auto simp: event_ok_def sandbox_event_new_def require_sequence_def ok_iff)

text \<open>Reporting always succeeds: the code and the message of a diagnostic are never empty.\<close>

lemma event_codes: "event_error_code c \<noteq> []"
  by (cases c) simp_all

lemma dispatcher_report_returns:
  assumes "0 < ev_sequence e"
  shows "\<exists>dg. dispatcher_report e error d = (Inr (), d\<lparr>ds_reported := ds_reported d @ [dg]\<rparr>) \<and> dg_event_id dg = raw_id e"
proof -
  let ?code = "case error_code (err_class error) of Some c \<Rightarrow> if c \<noteq> [] then pstr c else pstr (event_error_code EventDeliveryFailed)
    | None \<Rightarrow> pstr (event_error_code EventDeliveryFailed)"
  have "?code \<noteq> []" by (auto simp: pstr_def split: option.split)
  moreover have "pstr ''event delivery failed ('' @ x \<noteq> []" for x by (simp add: pstr_simps)
  ultimately have "\<exists>dg. failure_diagnostic e error = Inr dg \<and> dg_event_id dg = raw_id e"
    using assms
    by (simp add: failure_diagnostic_def Let_def ev_event_id_def event_id_new_def require_sequence_def
        event_diagnostic_new_def raw_id_def)
  then show ?thesis by (auto simp: dispatcher_report_def)
qed

definition ensured :: "dispatcher \<Rightarrow> dispatcher" where
  "ensured d = (if ds_worker d \<in> {NoWorker, WorkerDone} then d\<lparr>ds_worker := AwaitingItem\<rparr> else d)"

lemma best_effort_emit_cases:
  assumes "best_effort_emit fr e d = (r, d')" and "0 < ev_sequence e"
  obtains
    (reported) d1 dg where "d1 = d \<or> (ds_accepting d \<and> d1 = ensured d)"
      "d' = d1\<lparr>ds_reported := ds_reported d1 @ [dg]\<rparr>" "dg_event_id dg = raw_id e"
  | (queued) p where "ds_accepting d" "dispatcher_prepare fr d e = Inr p"
      "int (length (ds_queue d)) < dp_max_pending_events (ds_policy d)"
      "d' = (ensured d)\<lparr>ds_queue := ds_queue d @ [QueuedEvent p], ds_unfinished := ds_unfinished d + 1\<rparr>"
proof -
  note report = dispatcher_report_returns [OF assms(2)]
  show thesis
  proof (cases "ds_accepting d")
    case False
    let ?err = "Raise (Event EventSinkClosed) (pstr ''event dispatcher is closed'')"
    have "dispatcher_report e ?err d = (r, d')" using assms(1) False by (simp add: best_effort_emit_def)
    with report [of ?err d] show thesis by (auto intro: reported [of d])
  next
    case True
    show thesis
    proof (cases "dispatcher_prepare fr d e")
      case (Inl err)
      then have "dispatcher_report e err d = (r, d')" using assms(1) True by (simp add: best_effort_emit_def)
      with report [of err d] show thesis by (auto intro: reported [of d])
    next
      case (Inr p)
      let ?err = "Raise (Event EventBufferLimitExceeded) (pstr ''best-effort event queue is full'')"
      have "ensure_worker d = (Inr (), ensured d)" by (simp add: ensure_worker_def ensured_def)
      then have "(case put_nowait (QueuedEvent p) (ensured d) of Some d2 \<Rightarrow> (Inr (), d2)
          | None \<Rightarrow> dispatcher_report e ?err (ensured d)) = (r, d')"
        using assms(1) True Inr by (simp add: best_effort_emit_def act_bind_def split: option.splits)
      with report [of ?err "ensured d"] True Inr show thesis
        by (auto simp: put_nowait_def ensured_def not_le split: if_splits intro: reported [of "ensured d"] queued [of p])
    qed
  qed
qed

lemma delivery_inv_report:
  assumes "delivery_inv fr d0 es d" and "dg_event_id dg = raw_id e"
  shows "delivery_inv fr d0 (es @ [e]) (d\<lparr>ds_reported := ds_reported d @ [dg]\<rparr>)"
proof -
  have "subseq xs (ys @ zs)" if "subseq xs ys" for xs ys zs :: "sandbox_event list"
    using that by (meson list_emb_append2 list_emb_append_mono subseq_order.order_trans subseq_rev_drop_many)
  then show ?thesis
    using assms
    by (cases "ds_close d") (auto simp: delivery_inv_def same_configuration_def phases_ok_def accounted_def unsettled_def)
qed

lemma delivery_inv_ensured:
  assumes "delivery_inv fr d0 es d" and "ds_accepting d"
  shows "delivery_inv fr d0 es (ensured d)"
proof -
  have "ds_close d = NotClosing" using assms by (simp add: delivery_inv_def phases_ok_def)
  then show ?thesis
    using assms
    by (cases "ds_worker d")
       (auto simp: delivery_inv_def ensured_def same_configuration_def phases_ok_def accounted_def unsettled_def)
qed

lemma delivery_inv_queued:
  assumes inv: "delivery_inv fr d0 es d" and "ds_accepting d" and prep: "dispatcher_prepare fr d e = Inr p"
    and room: "int (length (ds_queue d)) < dp_max_pending_events (ds_policy d0)" and "0 < ev_sequence e"
    and worker: "ds_worker d \<noteq> NoWorker"
  shows "delivery_inv fr d0 (es @ [e])
    (d\<lparr>ds_queue := ds_queue d @ [QueuedEvent p], ds_unfinished := ds_unfinished d + 1\<rparr>)" (is "delivery_inv _ _ _ ?d")
proof -
  have "ds_close d = NotClosing" using assms(1,2) by (simp add: delivery_inv_def phases_ok_def)
  then have d: "unsettled ?d = unsettled d @ [p]" "phases_ok ?d"
    using inv worker by (simp_all add: delivery_inv_def phases_ok_def unsettled_def)
  have e: "dispatcher_prepare fr d0 e = Inr p" "raw_id p = raw_id e" "ev_sequence p = ev_sequence e"
    using inv prep prepare_same [of d0 d fr e] prepare_id [OF prep] by (simp_all add: delivery_inv_def)
  have sub: "subseq ((ds_delivered d @ unsettled d) @ [p]) (prepared_events fr d0 es @ [p])"
    using inv by (intro list_emb_append_mono) (simp_all add: delivery_inv_def)
  show ?thesis
    using inv d e sub room assms(5) by (simp add: delivery_inv_def same_configuration_def accounted_def)
qed

lemma delivery_inv_emits:
  assumes inv: "delivery_inv fr d0 es d" and "event_ok e" and "best_effort_emit fr e d = (r, d')"
  shows "delivery_inv fr d0 (es @ [e]) d'"
  using assms(3) event_ok_sequence [OF assms(2)]
proof (cases rule: best_effort_emit_cases)
  case (reported d1 dg)
  then have "delivery_inv fr d0 es d1" using inv delivery_inv_ensured by blast
  then show ?thesis using reported(2,3) delivery_inv_report by blast
next
  case (queued p)
  note e = delivery_inv_ensured [OF inv queued(1)]
  have same: "ds_accepting (ensured d)" "dispatcher_prepare fr (ensured d) e = Inr p"
      "ds_queue (ensured d) = ds_queue d" "ds_policy (ensured d) = ds_policy d"
      "ds_unfinished (ensured d) = ds_unfinished d" "ds_worker (ensured d) \<noteq> NoWorker"
    using queued(1,2) by (auto simp: ensured_def dispatcher_prepare_def)
  have "ds_policy d = ds_policy d0" using inv by (simp add: delivery_inv_def same_configuration_def)
  show ?thesis
    using delivery_inv_queued [OF e same(1,2) _ event_ok_sequence [OF assms(2)] same(6)] same(3-5) queued(3,4) \<open>ds_policy d = ds_policy d0\<close> by simp
qed

lemma subseq_without: "subseq (xs @ e # ys) zs \<Longrightarrow> subseq (xs @ ys) zs"
  by (rule subseq_order.order_trans [of _ "xs @ e # ys"]) (auto intro!: list_emb_append_mono)

lemma phases_active: "phases_ok d \<Longrightarrow> ds_worker d = AwaitingSink e \<Longrightarrow> ds_close d \<in> {NotClosing, CloseCreated, AwaitingJoin}"
  by (cases "ds_close d") (auto simp: phases_ok_def)

lemma delivery_inv_takes:
  assumes inv: "delivery_inv fr d0 es d" and take: "worker_take d = Some d'"
  shows "delivery_inv fr d0 es d'"
proof -
  have w: "ds_worker d = AwaitingItem" using take by (simp add: worker_take_def split: worker_state.splits)
  obtain x items where q: "ds_queue d = x # items" using take w by (auto simp: worker_take_def split: list.splits)
  show ?thesis
  proof (cases x)
    case (QueuedEvent e)
    then have "d' = d\<lparr>ds_worker := AwaitingSink e, ds_queue := items\<rparr>" using take w q by (simp add: worker_take_def)
    then show ?thesis
      using inv w q QueuedEvent
      by (cases "ds_close d")
         (auto simp: delivery_inv_def same_configuration_def phases_ok_def accounted_def unsettled_def)
  next
    case STOP
    then have "d' = task_done (d\<lparr>ds_worker := WorkerDone, ds_queue := items\<rparr>)" using take w q by (simp add: worker_take_def)
    then show ?thesis
      using inv w q STOP
      by (cases "ds_close d")
         (auto simp: delivery_inv_def task_done_def same_configuration_def phases_ok_def accounted_def unsettled_def)
  qed
qed

lemma delivery_inv_replies:
  assumes inv: "delivery_inv fr d0 es d" and reply: "worker_reply reply d = Some d'"
  shows "delivery_inv fr d0 es d'"
proof -
  obtain e where w: "ds_worker d = AwaitingSink e" using reply by (auto simp: worker_reply_def split: worker_state.splits)
  have pos: "0 < ev_sequence e" using inv w by (simp add: delivery_inv_def unsettled_def)
  obtain dg where d': "d' = task_done (d\<lparr>ds_worker := AwaitingItem, ds_delivered := ds_delivered d @ [e]\<rparr>) \<or>
      (d' = task_done (d\<lparr>ds_reported := ds_reported d @ [dg], ds_worker := AwaitingItem\<rparr>) \<and> dg_event_id dg = raw_id e)"
  proof (cases reply)
    case SinkAccepts
    then show ?thesis using reply w that by (simp add: worker_reply_def)
  next
    case (SinkRaises error)
    then obtain dg where "d' = task_done (d\<lparr>ds_reported := ds_reported d @ [dg], ds_worker := AwaitingItem\<rparr>)"
        "dg_event_id dg = raw_id e"
      using reply w dispatcher_report_returns [OF pos, of error d] by (auto simp: worker_reply_def)
    then show ?thesis using that by blast
  qed
  have phase: "phases_ok d'"
    using inv w d' phases_active [of d e] by (auto simp: delivery_inv_def phases_ok_def task_done_def)
  have un: "unsettled d = e # queued_events (ds_queue d)" "unsettled d' = queued_events (ds_queue d)"
      "same_configuration d d'" "ds_queue d' = ds_queue d"
    using w d' by (auto simp: unsettled_def same_configuration_def task_done_def)
  have "subseq (ds_delivered d' @ unsettled d') (prepared_events fr d0 es)"
    using inv un d' subseq_without [of "ds_delivered d" e "queued_events (ds_queue d)" "prepared_events fr d0 es"]
    by (auto simp: delivery_inv_def task_done_def)
  moreover have "accounted es d'" using inv un d' by (auto simp: delivery_inv_def accounted_def task_done_def)
  ultimately show ?thesis using inv un phase by (simp add: delivery_inv_def same_configuration_def)
qed

lemma delivery_inv_close:
  assumes "delivery_inv fr d0 es d"
  shows "delivery_inv fr d0 es (dispatcher_close d)"
  using assms
  by (cases "ds_close d")
     (auto simp: delivery_inv_def dispatcher_close_def same_configuration_def phases_ok_def accounted_def unsettled_def)

lemma delivery_inv_turns:
  assumes inv: "delivery_inv fr d0 es d" and turn: "close_turn d = Some d'" and "dp_mode (ds_policy d) = BEST_EFFORT"
  shows "delivery_inv fr d0 es d'"
proof (cases "ds_close d")
  case CloseCreated
  then show ?thesis
    using inv turn assms(3)
    by (cases "ds_worker d") (auto simp: delivery_inv_def close_turn_def same_configuration_def phases_ok_def accounted_def unsettled_def)
next
  case AwaitingJoin
  then have idle: "ds_unfinished d = 0" using turn by (simp add: close_turn_def split: if_splits)
  then have w: "ds_worker d = AwaitingItem" "ds_queue d = []"
    using AwaitingJoin inv by (cases "ds_worker d"; simp add: delivery_inv_def phases_ok_def)+
  then have "d' = d\<lparr>ds_queue := [STOP], ds_unfinished := 1, ds_close := AwaitingWorker\<rparr>" "1 \<le> dp_max_pending_events (ds_policy d0)"
    using inv turn AwaitingJoin idle
    by (auto simp: close_turn_def put_nowait_def delivery_inv_def same_configuration_def split: if_splits)
  then show ?thesis
    using inv w AwaitingJoin by (auto simp: delivery_inv_def same_configuration_def phases_ok_def accounted_def unsettled_def)
next
  case AwaitingWorker
  then have "ds_worker d = WorkerDone" "d' = d\<lparr>ds_close := CloseDone\<rparr>" using turn by (simp_all add: close_turn_def split: if_splits)
  then show ?thesis
    using inv AwaitingWorker by (auto simp: delivery_inv_def same_configuration_def phases_ok_def accounted_def unsettled_def)
qed (use turn in \<open>simp_all add: close_turn_def\<close>)

lemma delivery_step_inv:
  assumes "delivery_inv fr d0 es d" and "delivery_step fr d label d'" and "dp_mode (ds_policy d0) = BEST_EFFORT"
    and "\<And>e. label = Emits e \<Longrightarrow> event_ok e"
  shows "delivery_inv fr d0 (es @ (case label of Emits e \<Rightarrow> [e] | _ \<Rightarrow> [])) d'"
proof -
  have mode: "dp_mode (ds_policy d) = BEST_EFFORT" using assms(1,3) by (simp add: delivery_inv_def same_configuration_def)
  from assms(2) show ?thesis
    using assms(1,4) mode delivery_inv_close
    by (cases rule: delivery_stepE)
       (auto intro: delivery_inv_emits delivery_inv_takes delivery_inv_replies delivery_inv_turns)
qed

lemma delivery_run_inv:
  assumes "dispatcher_new policy allow l r h = Inr d0" and "dp_mode policy = BEST_EFFORT"
    and "0 < dp_max_pending_events policy" and "delivery_run fr d0 es d"
  shows "delivery_inv fr d0 es d"
  using assms(4)
proof (induction rule: delivery_run.induct)
  case init
  then show ?case
    using assms(1-3)
    by (auto simp: dispatcher_new_def ok_iff delivery_inv_def same_configuration_def phases_ok_def accounted_def
        unsettled_def)
next
  case (emit es d e d')
  then have "dp_mode (ds_policy d0) = BEST_EFFORT" using assms(1,2) by (auto simp: dispatcher_new_def ok_iff)
  from delivery_step_inv [OF emit.IH emit.hyps(3) this] emit.hyps(2) show ?case by simp
next
  case (turn es d label d')
  then have "dp_mode (ds_policy d0) = BEST_EFFORT" using assms(1,2) by (auto simp: dispatcher_new_def ok_iff)
  from delivery_step_inv [OF turn.IH turn.hyps(2) this] turn.hyps(3) show ?case by (cases label) auto
qed

section \<open>Every event is accounted for\<close>

text \<open>An event without attributes passes preparation.\<close>

definition plain_event :: sandbox_event where
  "plain_event = sample_event\<lparr>ev_attributes := []\<rparr>"

lemma plain_event_ok: "event_ok plain_event"
  by (simp add: event_ok_def sandbox_event_new_def plain_event_def sample_event_def require_aware_utc_def
      require_sequence_def order_attributes_def)

lemma plain_prepared: "\<exists>l. prepare_event (\<lambda>_. []) r False l plain_event = Inr plain_event"
proof -
  obtain bs where bs: "canonical_event_bytes (\<lambda>_. []) plain_event = Inr bs"
    using canonical_bytes_exist [of "\<lambda>_. []" plain_event] by (auto simp: plain_event_def sample_event_def)
  let ?l = "\<lparr>max_attributes = 1, max_attribute_name_bytes = 1, max_string_bytes = 1, max_event_bytes = int (length bs)\<rparr>"
  have none: "ev_attributes plain_event = []" by (simp add: plain_event_def)
  have "prepare_event (\<lambda>_. []) r False ?l plain_event = Inr plain_event"
    using bs by (simp add: prepare_event_def redact_event_def none)
  then show ?thesis by blast
qed

definition one_pending :: event_delivery_policy where
  "one_pending = \<lparr>dp_mode = BEST_EFFORT, dp_max_pending_events = 1, dp_sink_timeout_seconds = Finite 1\<rparr>"

definition no_redactor :: redactor where
  "no_redactor = \<lparr>rd_text_values = [], rd_byte_values = []\<rparr>"

definition idle_dispatcher :: "event_payload_limits \<Rightarrow> dispatcher" where
  "idle_dispatcher l = \<lparr>ds_policy = one_pending, ds_allow_protected = False, ds_limits = l, ds_redactor = no_redactor,
     ds_queue = [], ds_unfinished = 0, ds_worker = NoWorker, ds_accepting = True, ds_close = NotClosing,
     ds_delivered = [], ds_reported = []\<rparr>"

definition busy_dispatcher :: "event_payload_limits \<Rightarrow> dispatcher" where
  "busy_dispatcher l = (idle_dispatcher l)\<lparr>ds_worker := AwaitingItem, ds_queue := [QueuedEvent plain_event], ds_unfinished := 1\<rparr>"

lemma idle_dispatcher_new: "dispatcher_new one_pending False l no_redactor (Some False) = Inr (idle_dispatcher l)"
  by (simp add: dispatcher_new_def idle_dispatcher_def)

lemma first_emit:
  "prepare_event (\<lambda>_. []) no_redactor False l plain_event = Inr plain_event \<Longrightarrow>
     best_effort_emit (\<lambda>_. []) plain_event (idle_dispatcher l) = (Inr (), busy_dispatcher l)"
  by (simp add: best_effort_emit_def dispatcher_prepare_def ensure_worker_def put_nowait_def idle_dispatcher_def
      busy_dispatcher_def one_pending_def)

text \<open>
  C39: best-effort delivery loses nothing silently. However emitting, the worker, the sink's answers and
  closing interleave, every event given to a best-effort dispatcher is counted exactly once among the
  delivered, the reported and the pending ones; delivery keeps the order of emission and delivers only
  what preparation let through; and the queue never exceeds its bound.
\<close>

theorem best_effort_accounted:
  assumes "dispatcher_new policy allow l r h = Inr d0" and "dp_mode policy = BEST_EFFORT"
    and "0 < dp_max_pending_events policy" and "delivery_run fr d0 es d"
  shows "mset (map raw_id es) =
      mset (map raw_id (ds_delivered d)) + mset (map dg_event_id (ds_reported d)) + mset (map raw_id (unsettled d)) \<and>
    subseq (ds_delivered d @ unsettled d) (prepared_events fr d0 es) \<and>
    int (length (ds_queue d)) \<le> dp_max_pending_events policy"
  using delivery_run_inv [OF assms] assms(1) by (auto simp: delivery_inv_def accounted_def dispatcher_new_def ok_iff)

lemma best_effort_accounted_witness:
  "\<exists>l d. delivery_run (\<lambda>_. []) (idle_dispatcher l) [plain_event, plain_event] d \<and>
     ds_queue d = [QueuedEvent plain_event] \<and> size (ds_delivered d) + size (ds_reported d) = 1"
proof -
  obtain l where l: "prepare_event (\<lambda>_. []) no_redactor False l plain_event = Inr plain_event" using plain_prepared by blast
  note new = idle_dispatcher_new [of l] and emit1 = first_emit [OF l]
  let ?d1 = "busy_dispatcher l" and ?err = "Raise (Event EventBufferLimitExceeded) (pstr ''best-effort event queue is full'')"
  have pos: "0 < ev_sequence plain_event" by (rule event_ok_sequence [OF plain_event_ok])
  obtain dg where dg: "dispatcher_report plain_event ?err ?d1 = (Inr (), ?d1\<lparr>ds_reported := ds_reported ?d1 @ [dg]\<rparr>)"
    using dispatcher_report_returns [OF pos, of ?err ?d1] by blast
  define d2 where "d2 = ?d1\<lparr>ds_reported := [dg]\<rparr>"
  have emit2: "best_effort_emit (\<lambda>_. []) plain_event ?d1 = (Inr (), d2)"
    using l dg by (simp add: best_effort_emit_def dispatcher_prepare_def ensure_worker_def put_nowait_def
        idle_dispatcher_def busy_dispatcher_def d2_def one_pending_def)
  have run: "delivery_run (\<lambda>_. []) (idle_dispatcher l) [plain_event, plain_event] d2"
    using delivery_run.emit [OF delivery_run.emit [OF delivery_run.init plain_event_ok emits [OF emit1]]
      plain_event_ok emits [OF emit2]] by simp
  have "mset (map raw_id [plain_event, plain_event]) =
      mset (map raw_id (ds_delivered d2)) + mset (map dg_event_id (ds_reported d2)) + mset (map raw_id (unsettled d2))"
    using best_effort_accounted [OF new _ _ run] by (simp add: one_pending_def)
  then have "size (ds_delivered d2) + size (ds_reported d2) = 1"
    by (auto dest!: arg_cong [where f = size] simp: unsettled_def d2_def busy_dispatcher_def)
  then show ?thesis using run by (intro exI [of _ l] exI [of _ d2]) (simp add: d2_def busy_dispatcher_def)
qed

section \<open>Closing completes\<close>

fun internal :: "delivery_label \<Rightarrow> bool" where
  "internal (Emits e) = False"
| "internal Closes = False"
| "internal _ = True"

fun label_events :: "delivery_label list \<Rightarrow> sandbox_event list" where
  "label_events [] = []"
| "label_events (Emits e # ls) = e # label_events ls"
| "label_events (_ # ls) = label_events ls"

inductive delivery_path :: "(py_float \<Rightarrow> pystr) \<Rightarrow> dispatcher \<Rightarrow> delivery_label list \<Rightarrow> dispatcher \<Rightarrow> bool"
  for float_repr where
  stay: "delivery_path float_repr d [] d"
| go: "delivery_step float_repr d label d1 \<Longrightarrow> list_all event_ok (label_events [label])
    \<Longrightarrow> delivery_path float_repr d1 ls d2 \<Longrightarrow> delivery_path float_repr d (label # ls) d2"

fun close_weight :: "close_state \<Rightarrow> nat" where
  "close_weight NotClosing = 7"
| "close_weight CloseCreated = 6"
| "close_weight AwaitingJoin = 5"
| "close_weight AwaitingWorker = 1"
| "close_weight CloseDone = 0"

definition turns_left :: "dispatcher \<Rightarrow> nat" where
  "turns_left d = 2 * length (ds_queue d) + length (in_flight (ds_worker d)) + close_weight (ds_close d)"

lemma label_events_Cons: "label_events (l # ls) = label_events [l] @ label_events ls"
  by (cases l) simp_all

lemma turns_left_step:
  assumes inv: "delivery_inv fr d0 es d" and closing: "ds_close d \<noteq> NotClosing" and step: "delivery_step fr d label d'"
    and "dp_mode (ds_policy d0) = BEST_EFFORT" and ok: "list_all event_ok (label_events [label])"
  shows "ds_close d' \<noteq> NotClosing" and "turns_left d' + (if internal label then 1 else 0) \<le> turns_left d"
proof -
  have "ds_close d' \<noteq> NotClosing \<and> turns_left d' + (if internal label then 1 else 0) \<le> turns_left d"
    using step
  proof (cases rule: delivery_stepE)
    case (emits e r)
    then have "0 < ev_sequence e" using ok event_ok_sequence by simp
    with emits(2) show ?thesis
      using emits(1) inv closing
      by (cases rule: best_effort_emit_cases) (auto simp: turns_left_def delivery_inv_def phases_ok_def)
  next
    case takes
    then show ?thesis
      using closing
      by (auto simp: worker_take_def task_done_def turns_left_def split: worker_state.splits list.splits queue_item.splits)
  next
    case (replies reply)
    then obtain e where e: "ds_worker d = AwaitingSink e" by (auto simp: worker_reply_def split: worker_state.splits)
    then have "ds_worker d' = AwaitingItem \<and> ds_queue d' = ds_queue d \<and> ds_close d' = ds_close d"
      using replies
      by (auto simp: worker_reply_def task_done_def dispatcher_report_def act_bind_def split: sink_reply.splits sum.splits)
    then show ?thesis using closing e replies(1) by (simp add: turns_left_def)
  next
    case closes
    then show ?thesis using closing by (simp add: dispatcher_close_def)
  next
    case turns
    then show ?thesis
      using closing
      by (auto simp: close_turn_def put_nowait_def turns_left_def split: close_state.splits if_splits)
  qed
  then show "ds_close d' \<noteq> NotClosing" and "turns_left d' + (if internal label then 1 else 0) \<le> turns_left d" by auto
qed

lemma delivery_path_closing:
  assumes "delivery_path fr d ls d'" and "delivery_inv fr d0 es d" and "ds_close d \<noteq> NotClosing"
    and mode: "dp_mode (ds_policy d0) = BEST_EFFORT"
  shows "delivery_inv fr d0 (es @ label_events ls) d' \<and> ds_close d' \<noteq> NotClosing \<and>
    turns_left d' + length (filter internal ls) \<le> turns_left d"
  using assms(1-3)
proof (induction arbitrary: es rule: delivery_path.induct)
  case (stay d)
  then show ?case by simp
next
  case (go d label d1 ls d2)
  note left = turns_left_step [OF go.prems(1,2) go.hyps(1) mode go.hyps(2)]
  have "delivery_inv fr d0 (es @ label_events [label]) d1"
    using delivery_step_inv [OF go.prems(1) go.hyps(1) mode] go.hyps(2) by (cases label) auto
  from go.IH [OF this left(1)] left(2) show ?case
    by (simp add: label_events_Cons [of label ls] split: if_splits)
qed

lemma closing_progress:
  assumes inv: "delivery_inv fr d0 es d" and "0 < dp_max_pending_events (ds_policy d0)"
    and "ds_close d \<noteq> NotClosing" and "ds_close d \<noteq> CloseDone"
  shows "(\<exists>d'. delivery_step fr d Takes d') \<or> (\<exists>d'. delivery_step fr d CloseTurns d') \<or>
    (\<forall>reply. \<exists>d'. delivery_step fr d (Replies reply) d')"
proof -
  have take: "\<exists>d'. delivery_step fr d Takes d'" if "ds_worker d = AwaitingItem" "ds_queue d \<noteq> []"
    using that by (cases "ds_queue d"; cases "hd (ds_queue d)") (auto intro!: exI delivery_step.takes simp: worker_take_def)
  have turn: "\<exists>d'. delivery_step fr d CloseTurns d'" if "close_turn d \<noteq> None"
    using that delivery_step.turns by blast
  have reply: "\<forall>reply. \<exists>d'. delivery_step fr d (Replies reply) d'" if "ds_worker d = AwaitingSink e" for e
    using that by (auto intro!: exI delivery_step.replies simp: worker_reply_def)
  show ?thesis
  proof (cases "ds_close d")
    case AwaitingJoin
    then show ?thesis
      using inv assms(2) take turn reply
      by (cases "ds_worker d"; cases "ds_queue d")
         (auto simp: delivery_inv_def phases_ok_def close_turn_def put_nowait_def same_configuration_def)
  next
    case AwaitingWorker
    then show ?thesis using inv take turn by (auto simp: delivery_inv_def phases_ok_def close_turn_def)
  qed (use assms(3,4) turn in \<open>auto simp: close_turn_def\<close>)
qed

text \<open>
  C40: closing a best-effort dispatcher completes. From the moment \<open>close\<close> is called, whatever is still
  emitted, at most \<open>2 n + 7\<close> turns of the worker and of the closing task are left, \<open>n\<close> being the bound of
  the queue, and until the closing task is done one of them is always possible (for every answer the
  sink may give); when it is done every event ever emitted was delivered or reported, exactly once.
\<close>

theorem close_completes:
  assumes "dispatcher_new policy allow l r h = Inr d0" and "dp_mode policy = BEST_EFFORT"
    and "0 < dp_max_pending_events policy" and "delivery_run fr d0 es d" and "ds_close d \<noteq> NotClosing"
    and "delivery_path fr d ls d'"
  shows "int (length (filter internal ls)) \<le> 2 * dp_max_pending_events policy + 7 \<and>
    (ds_close d' = CloseDone \<or> (\<exists>d''. delivery_step fr d' Takes d'') \<or> (\<exists>d''. delivery_step fr d' CloseTurns d'') \<or>
       (\<forall>reply. \<exists>d''. delivery_step fr d' (Replies reply) d'')) \<and>
    (ds_close d' = CloseDone \<longrightarrow>
       mset (map raw_id (es @ label_events ls)) = mset (map raw_id (ds_delivered d')) + mset (map dg_event_id (ds_reported d')))"
proof -
  have d0: "ds_policy d0 = policy" using assms(1) by (auto simp: dispatcher_new_def ok_iff)
  have inv: "delivery_inv fr d0 es d" using delivery_run_inv [OF assms(1-4)] .
  from delivery_path_closing [OF assms(6) inv assms(5)] d0 assms(2)
  have inv': "delivery_inv fr d0 (es @ label_events ls) d'" and "ds_close d' \<noteq> NotClosing"
    and left: "turns_left d' + length (filter internal ls) \<le> turns_left d" by simp_all
  then have "ds_close d' = CloseDone \<or> (\<exists>d''. delivery_step fr d' Takes d'') \<or> (\<exists>d''. delivery_step fr d' CloseTurns d'') \<or>
       (\<forall>reply. \<exists>d''. delivery_step fr d' (Replies reply) d'')"
    using closing_progress [OF inv'] assms(3) d0 by blast
  moreover have "length (in_flight (ds_worker d)) \<le> 1" by (cases "ds_worker d") simp_all
  then have "turns_left d \<le> 2 * length (ds_queue d) + 7"
    using assms(5) by (cases "ds_close d") (simp_all add: turns_left_def)
  then have "int (length (filter internal ls)) \<le> 2 * dp_max_pending_events policy + 7"
    using left inv d0 by (simp add: delivery_inv_def)
  moreover have "unsettled d' = []" if "ds_close d' = CloseDone"
    using that inv' by (auto simp: delivery_inv_def phases_ok_def unsettled_def)
  ultimately show ?thesis using inv' by (auto simp: delivery_inv_def accounted_def)
qed

lemma close_completes_witness:
  "\<exists>l d'. delivery_path (\<lambda>_. []) (dispatcher_close (busy_dispatcher l))
       [CloseTurns, Takes, Replies SinkAccepts, CloseTurns, Takes, CloseTurns] d' \<and>
     ds_close d' = CloseDone \<and> size (ds_delivered d') + size (ds_reported d') = 1"
proof -
  obtain l where l: "prepare_event (\<lambda>_. []) no_redactor False l plain_event = Inr plain_event" using plain_prepared by blast
  let ?d = "dispatcher_close (busy_dispatcher l)"
  let ?ls = "[CloseTurns, Takes, Replies SinkAccepts, CloseTurns, Takes, CloseTurns]"
  define d' where "d' = ?d\<lparr>ds_queue := [], ds_unfinished := 0, ds_worker := WorkerDone, ds_close := CloseDone,
      ds_delivered := [plain_event]\<rparr>"
  note start = delivery_run.emit [OF delivery_run.init plain_event_ok emits [OF first_emit [OF l]]]
  have run: "delivery_run (\<lambda>_. []) (idle_dispatcher l) [plain_event] ?d"
    using delivery_run.turn [OF start closes] by simp
  have path: "delivery_path (\<lambda>_. []) ?d ?ls d'"
    unfolding d'_def
    by (rule delivery_path.go [OF delivery_step.turns] delivery_path.go [OF delivery_step.takes]
          delivery_path.go [OF delivery_step.replies] delivery_path.stay
        | simp add: close_turn_def worker_take_def worker_reply_def task_done_def put_nowait_def dispatcher_close_def
            busy_dispatcher_def idle_dispatcher_def one_pending_def)+
  have "mset (map raw_id ([plain_event] @ label_events ?ls)) =
      mset (map raw_id (ds_delivered d')) + mset (map dg_event_id (ds_reported d'))"
    using close_completes [OF idle_dispatcher_new _ _ run _ path]
    by (simp add: one_pending_def dispatcher_close_def busy_dispatcher_def idle_dispatcher_def d'_def)
  from arg_cong [OF this, of size] show ?thesis
    using path by (intro exI [of _ l] exI [of _ d']) (simp add: d'_def)
qed

end
