(* ===== verification/Workspace_Export.thy ===== *)
theory Workspace_Export
  imports Restore_Properties
begin

text \<open>
  The operations of \<open>workspace/memory.py\<close> that hand the tree to a codec or take it from one. The
  codecs are arguments: \<open>encode\<close> and \<open>decode\<close> of the JSON codec, and of the archive codec with its
  format version. The awaits before and after an archive is encoded or decoded hold no lock, and what
  is encoded was read under the lock.
\<close>

type_synonym snapshot_encoder = "snapshot_entry list \<Rightarrow> workspace_stats \<Rightarrow> workspace_limits \<Rightarrow> snapshot_data result"
type_synonym snapshot_decoder =
  "snapshot_data \<Rightarrow> workspace_limits \<Rightarrow> (pystr \<Rightarrow> sandbox_path result) \<Rightarrow> decoded_snapshot result"
type_synonym archive_encoder = "snapshot_entry list \<Rightarrow> workspace_limits \<Rightarrow> byte list result"
type_synonym archive_decoder = "byte list \<Rightarrow> workspace_limits \<Rightarrow> decoded_tree result"

definition ws_export :: "snapshot_encoder \<Rightarrow> memory_workspace \<Rightarrow> snapshot_data result" where
  "ws_export encode w =
     rbind (snapshot_entries (ws_root w) root_path (ws_limits w)) (\<lambda>entries.
     encode entries (ws_stats w) (ws_limits w))"

definition ws_prepare_restore ::
  "snapshot_decoder \<Rightarrow> snapshot_data \<Rightarrow> sandbox_path \<Rightarrow> prepared_restore ws_action" where
  "ws_prepare_restore decode data required_directory =
     act_bind (act_get ws_limits) (\<lambda>l.
     act_bind (act_lift (validate_path l required_directory)) (\<lambda>required.
     act_bind (act_lift (decode data l (\<lambda>v. resolve_path l v None))) (\<lambda>decoded.
     prepare_restore_candidate (ds_entries decoded) (ds_stats decoded) required)))"

definition ws_export_archive :: "archive_encoder \<Rightarrow> int \<Rightarrow> memory_workspace \<Rightarrow> archive_data result" where
  "ws_export_archive encode format_version w =
     rbind (snapshot_entries (ws_root w) root_path (ws_limits w)) (\<lambda>entries.
     rbind (encode entries (ws_limits w)) (\<lambda>encoded.
     Inr \<lparr>ad_encoded = encoded, ad_format_version = format_version, ad_workspace_revision = ws_revision (ws_stats w),
          ad_root_hash = root_hash (ws_stats w)\<rparr>))"

definition ws_prepare_archive_restore ::
  "archive_decoder \<Rightarrow> int \<Rightarrow> archive_data \<Rightarrow> sandbox_path \<Rightarrow> prepared_restore ws_action" where
  "ws_prepare_archive_restore decode format_version data required_directory =
     act_bind (act_get ws_limits) (\<lambda>l.
     act_bind (act_lift (validate_path l required_directory)) (\<lambda>required.
     if ad_format_version data \<noteq> format_version
     then act_lift (throw (Workspace SnapshotIncompatibleError)
       (pstr ''archive format version '' @ str_int (ad_format_version data) @ pstr '' is unsupported''))
     else
       act_bind (act_lift (decode (ad_encoded data) l)) (\<lambda>decoded.
       if ts_root_hash (dt_tree_stats decoded) \<noteq> ad_root_hash data
       then act_lift (Inl (corrupt (pstr ''archive metadata root hash does not match decoded tree'')))
       else
         prepare_restore_candidate (dt_entries decoded)
           \<lparr>total_bytes = ts_total_bytes (dt_tree_stats decoded), node_count = ts_node_count (dt_tree_stats decoded),
            ws_revision = ad_workspace_revision data, root_hash = ts_root_hash (dt_tree_stats decoded)\<rparr>
           required)))"

definition ws_restore :: "snapshot_decoder \<Rightarrow> snapshot_data \<Rightarrow> unit ws_action" where
  "ws_restore decode data =
     act_bind (ws_prepare_restore decode data root_path) commit_restore"

end
