(* ===== verification/Session_Core.thy ===== *)
theory Session_Core
  imports Session_Models Event_Delivery Workspace_Export
begin

text \<open>
  \<open>session/session.py\<close>: the state of a session, the events it emits, how it awaits collaborators, its
  operation gate and \<open>_run_operation\<close>.

  An operation is an action on the session. What it cannot compute is read from the session's
  environment: the loop's clock, the wall clock, fresh UUIDs, what the cancellation signal says, and for
  every await what happens there. Only the holder of the gate works on the session; another task can
  meanwhile only call \<open>close\<close>, so each await says whether that happened. A call that waits at the gate
  behind another operation is a call made after it. Times are rational seconds; notes added to an
  exception are not part of it.
\<close>

section \<open>The environment\<close>

text \<open>
  One turn of a wait: the poll interval ends with the task still running, the task is done, or the wait is
  interrupted by a cancellation of the operation, the task being done or not.
\<close>

datatype poll_event = StillRunning | TaskDone | Interrupted bool

record poll =
  pl_closing :: bool
  pl_event :: poll_event

text \<open>How a cancelled task ends: did it run to its own end, was the wait for it interrupted, did it outlive the time given.\<close>

record settle =
  se_ran :: bool
  se_interrupted :: bool
  se_late :: bool
  se_closing :: bool

record sink_answer =
  an_closing :: bool
  an_interrupted :: bool
  an_reply :: sink_reply

datatype policy_reply = PolicyDecides policy_decision | PolicyOther | PolicyRaises sandbox_error

text \<open>A lease: what revealing its value gives, now and to the executor, and how closing it ends.\<close>

record lease_handle =
  lh_reveal :: "pystr result"
  lh_overlay_reveal :: "pystr result"
  lh_close_fails :: bool
  lh_close_interrupted :: bool
  lh_closing :: bool

datatype lease_reply = LeaseGranted lease_handle | LeaseRaises sandbox_error

datatype gateway_reply = GatewayResponds http_response | GatewayOther | GatewayRaises sandbox_error

text \<open>
  The exceptions reachable from one by cause, context and group, numbered from the root: their text and
  representation (\<open>None\<close> when rendering raises), and their notes (\<open>None\<close> when not a string).
\<close>

record exception_node =
  ex_text :: "pystr option"
  ex_repr :: "pystr option"
  ex_notes :: "pystr option list"
  ex_cause :: "nat option"
  ex_context :: "nat option"
  ex_group :: "nat list"

datatype gate_reply = GateAcquired | GateTimedOut | GateInterrupted

datatype resource_reply = ResourceClosed | ResourceRaises sandbox_error

record session_env =
  en_times :: "rat stream"
  en_clock :: "py_datetime stream"
  en_uuids :: "uuid stream"
  en_signals :: "bool stream"
  en_polls :: "poll list stream"
  en_settles :: "settle stream"
  en_sink :: "sink_answer stream"
  en_policy :: "policy_reply stream"
  en_leases :: "lease_reply stream"
  en_gateway :: "gateway_reply stream"
  en_saves :: "snapshot_ref result stream"
  en_loads :: "sandbox_snapshot result stream"
  en_graphs :: "exception_node list stream"
  en_readings :: "reading stream"
  en_gate :: "(bool \<times> gate_reply) stream"
  en_resource :: "resource_reply stream"

section \<open>The session\<close>

datatype close_task = NoCloseTask | CloseRequested | CloseFinished "sandbox_error option"

text \<open>
  \<open>ss_events\<close> logs what the sink was given and whether it accepted it, \<open>ss_calls\<close> what the other
  collaborators were asked, with the policy's answers; \<open>ss_leases\<close> are the leases an execute holds.
\<close>

datatype session_call =
    PolicyAsked policy_request policy_reply
  | LeaseAsked secret_access_request
  | LeaseClosed secret_ref
  | SnapshotSaved snapshot_draft
  | SnapshotLoaded snapshot_ref
  | RequestSent http_request network_context

record session = session_env +
  ss_id :: session_id
  ss_state :: session_state
  ss_cwd :: sandbox_path
  ss_environment :: command_environment
  ss_lifecycle_limits :: operation_limits
  ss_grant :: "http_grant option"
  ss_gate :: bool
  ss_event_sequence :: int
  ss_close_task :: close_task
  ss_network_close :: bool
  ss_workspace :: memory_workspace
  ss_leases :: "(secret_ref \<times> lease_handle) list"
  ss_events :: "(sandbox_event \<times> bool) list"
  ss_calls :: "session_call list"

type_synonym 'a sess = "(session, sandbox_error, 'a) action"

definition session_new ::
  "session_env \<Rightarrow> session_id \<Rightarrow> memory_workspace \<Rightarrow> http_grant option \<Rightarrow> sandbox_path option
     \<Rightarrow> command_environment \<Rightarrow> operation_limits \<Rightarrow> session" where
  "session_new env sid w grant cwd environment limits =
     session_env.extend env
       \<lparr>ss_id = sid, ss_state = CREATED, ss_cwd = (case cwd of None \<Rightarrow> root_path | Some p \<Rightarrow> p),
        ss_environment = environment, ss_lifecycle_limits = limits, ss_grant = grant, ss_gate = False,
        ss_event_sequence = 0, ss_close_task = NoCloseTask, ss_network_close = False, ss_workspace = w,
        ss_leases = [], ss_events = [], ss_calls = []\<rparr>"

text \<open>Reading the next answer of the environment.\<close>

definition next_answer :: "(session \<Rightarrow> 'x stream) \<Rightarrow> (('x stream \<Rightarrow> 'x stream) \<Rightarrow> session \<Rightarrow> session) \<Rightarrow> 'x sess" where
  "next_answer get update = (\<lambda>s. (Inr (shd (get s)), update stl s))"

text \<open>Asking a collaborator.\<close>

definition note_call :: "session_call \<Rightarrow> unit sess" where
  "note_call call = act_put (\<lambda>s. s\<lparr>ss_calls := ss_calls s @ [call]\<rparr>)"

definition ask ::
  "session_call \<Rightarrow> (session \<Rightarrow> 'x stream) \<Rightarrow> (('x stream \<Rightarrow> 'x stream) \<Rightarrow> session \<Rightarrow> session) \<Rightarrow> 'x sess" where
  "ask call get update =
     act_bind (note_call call) (\<lambda>_. next_answer get update)"

abbreviation loop_time :: "rat sess" where
  "loop_time \<equiv> next_answer en_times en_times_update"

abbreviation clock_now :: "py_datetime sess" where
  "clock_now \<equiv> next_answer en_clock en_clock_update"

definition act_finally :: "('s, 'e, 'a) action \<Rightarrow> ('s \<Rightarrow> 's) \<Rightarrow> ('s, 'e, 'a) action" where
  "act_finally m f = (\<lambda>s. case m s of (r, s') \<Rightarrow> (r, f s'))"

text \<open>The seconds of a validated limit, which is finite.\<close>

definition seconds :: "py_float \<Rightarrow> rat" where
  "seconds x = (case x of Finite q \<Rightarrow> q | _ \<Rightarrow> 0)"

abbreviation cancelled_error :: sandbox_error where
  "cancelled_error \<equiv> Raise (Builtin CancelledError) []"

definition is_cancelled :: "sandbox_error \<Rightarrow> bool" where
  "is_cancelled e \<longleftrightarrow> err_class e = Builtin CancelledError"

text \<open>The synchronous part of \<open>close\<close>, which another task may run during an await.\<close>

definition close_call :: "session \<Rightarrow> session" where
  "close_call s =
     (let s = s\<lparr>ss_network_close := True\<rparr> in
      if ss_close_task s \<noteq> NoCloseTask \<or> ss_state s = CLOSED then s
      else s\<lparr>ss_state := CLOSING, ss_close_task := CloseRequested\<rparr>)"

definition await_point :: "bool \<Rightarrow> unit sess" where
  "await_point closing = act_put (\<lambda>s. if closing then close_call s else s)"

section \<open>States and budgets\<close>

definition session_state_error :: "session_state \<Rightarrow> sandbox_error option" where
  "session_state_error st =
     (case st of
        RUNNING \<Rightarrow> None
      | CREATED \<Rightarrow> Some (Raise (Session SessionNotRunning) (pstr ''session has not been started''))
      | CLOSING \<Rightarrow> Some (Raise (Session SessionClosing) (pstr ''session is closing''))
      | CLOSED \<Rightarrow> Some (Raise (Session SessionClosed) (pstr ''session is closed''))
      | FAILED \<Rightarrow> Some (Raise (Session SessionFailed) (pstr ''session is failed'')))"

definition reject_non_running :: "unit sess" where
  "reject_non_running =
     act_bind (act_get ss_state) (\<lambda>st.
     case session_state_error st of None \<Rightarrow> act_ret () | Some e \<Rightarrow> act_lift (Inl e))"

definition budget_timeout :: sandbox_error where
  "budget_timeout = Raise (Session SessionOperationTimeout)
     (pstr ''operation exceeded its protected collaborator budget'')"

definition remaining :: "rat \<Rightarrow> rat sess" where
  "remaining deadline =
     act_bind loop_time (\<lambda>t.
     if deadline - t \<le> 0 then act_lift (Inl budget_timeout) else act_ret (deadline - t))"

text \<open>No signal, the signal of the request, or the one of an HTTP operation, which the closing session sets too.\<close>

datatype cancellation = NoSignal | RequestSignal | NetworkSignal bool

definition request_signal :: "bool \<Rightarrow> cancellation" where
  "request_signal present = (if present then RequestSignal else NoSignal)"

definition read_signal :: "bool sess" where
  "read_signal = next_answer en_signals en_signals_update"

definition signal_set :: "cancellation \<Rightarrow> bool sess" where
  "signal_set c =
     (case c of
        NoSignal \<Rightarrow> act_ret False
      | RequestSignal \<Rightarrow> read_signal
      | NetworkSignal present \<Rightarrow>
          act_bind (act_get ss_network_close) (\<lambda>closing.
          if closing then act_ret True else if present then read_signal else act_ret False))"

definition cooperative_cancel :: sandbox_error where
  "cooperative_cancel = Raise (Session SessionOperationCancelled) (pstr ''operation was cooperatively cancelled'')"

definition check_cooperative_cancellation :: "cancellation \<Rightarrow> unit sess" where
  "check_cooperative_cancellation c =
     act_bind (signal_set c) (\<lambda>on. if on then act_lift (Inl cooperative_cancel) else act_ret ())"

section \<open>Events\<close>

definition new_event ::
  "event_type \<Rightarrow> operation_id option \<Rightarrow> operation_kind option \<Rightarrow> event_attribute list \<Rightarrow> sandbox_event sess" where
  "new_event ty oid kind attributes =
     act_bind (act_put (\<lambda>s. s\<lparr>ss_event_sequence := ss_event_sequence s + 1\<rparr>)) (\<lambda>_.
     act_bind clock_now (\<lambda>now.
     act_bind (act_get (\<lambda>s. s)) (\<lambda>s.
     act_lift (sandbox_event_new
       \<lparr>ev_type = ty, ev_occurred_at = now, ev_session_id = ss_id s, ev_sequence = ss_event_sequence s,
        ev_operation_id = oid, ev_parent_operation_id = None, ev_operation_kind = kind,
        ev_attributes = attributes\<rparr>))))"

text \<open>
  Awaiting the sink under its timeout, which is a \<open>TimeoutError\<close>. A shielded delivery goes on when the
  operation is cancelled.
\<close>

definition await_sink :: "bool \<Rightarrow> sandbox_event \<Rightarrow> unit sess" where
  "await_sink shielded e =
     act_bind (next_answer en_sink en_sink_update) (\<lambda>a.
     act_bind (await_point (an_closing a)) (\<lambda>_.
     let interrupted = an_interrupted a \<and> \<not> shielded in
     act_bind (act_put (\<lambda>s. s\<lparr>ss_events := ss_events s @ [(e, \<not> interrupted \<and> an_reply a = SinkAccepts)]\<rparr>)) (\<lambda>_.
     if interrupted then act_lift (Inl cancelled_error)
     else (case an_reply a of
             SinkAccepts \<Rightarrow> act_ret ()
           | SinkRaises error \<Rightarrow> act_lift (Inl error)))))"

definition event_timeout :: "bool \<Rightarrow> sandbox_error" where
  "event_timeout close_timeout =
     (if close_timeout
      then Raise (Session SessionCloseTimeout) (pstr ''session lifecycle event delivery timed out'')
      else Raise (Session SessionOperationTimeout) (pstr ''required event delivery exceeded the operation deadline''))"

definition emit_event :: "bool \<Rightarrow> sandbox_event \<Rightarrow> rat \<Rightarrow> bool \<Rightarrow> unit sess" where
  "emit_event shielded e deadline close_timeout =
     act_bind loop_time (\<lambda>t.
     if deadline - t \<le> 0 then act_lift (Inl (event_timeout close_timeout))
     else
       act_catch (await_sink shielded e) (\<lambda>error.
         act_lift (Inl
           (if err_class error = Builtin TimeoutError then event_timeout close_timeout
            else if is_cancelled error then error
            else Raise (Session SessionEventDeliveryFailed)
              (pstr ''required event delivery failed for '' @ pstr (event_type_value (ev_type e)))))))"

text \<open>A new event and its delivery.\<close>

definition emit_new ::
  "bool \<Rightarrow> event_type \<Rightarrow> operation_id option \<Rightarrow> operation_kind option \<Rightarrow> event_attribute list \<Rightarrow> rat \<Rightarrow> bool
     \<Rightarrow> unit sess" where
  "emit_new shielded ty oid kind attributes deadline close_timeout =
     act_bind (new_event ty oid kind attributes) (\<lambda>e. emit_event shielded e deadline close_timeout)"

definition emit_terminal ::
  "bool \<Rightarrow> event_type \<Rightarrow> operation_kind \<Rightarrow> operation_id \<Rightarrow> rat \<Rightarrow> event_attribute list \<Rightarrow> unit sess" where
  "emit_terminal shielded ty kind oid deadline attributes =
     emit_new shielded ty (Some oid) (Some kind) attributes deadline False"

text \<open>\<open>except SandboxError\<close> around an action: the error as a value, anything else goes on.\<close>

definition try_sandbox :: "unit sess \<Rightarrow> sandbox_error option sess" where
  "try_sandbox m =
     act_catch (act_bind m (\<lambda>_. act_ret None))
       (\<lambda>e. if is_sandbox_error e then act_ret (Some e) else act_lift (Inl e))"

definition emit_failed_lifecycle :: "unit sess" where
  "emit_failed_lifecycle =
     act_bind loop_time (\<lambda>t.
     act_bind (act_get ss_lifecycle_limits) (\<lambda>l.
     act_bind (try_sandbox (emit_new False SANDBOX_FAILED None None [] (t + seconds (timeout_seconds l)) False)) (\<lambda>_.
     act_ret ())))"

section \<open>Awaiting a collaborator\<close>

datatype loop_end =
    LoopDone
  | LoopTimedOut
  | LoopSignalled
  | LoopInterrupted bool

fun poll_loop :: "rat \<Rightarrow> cancellation \<Rightarrow> poll list \<Rightarrow> loop_end sess" where
  "poll_loop deadline c [] = act_ret LoopDone"
| "poll_loop deadline c (p # ps) =
     act_bind (signal_set c) (\<lambda>on.
     if on then act_ret LoopSignalled
     else
       act_bind loop_time (\<lambda>t.
       if deadline - t \<le> 0 then act_ret LoopTimedOut
       else
         act_bind (await_point (pl_closing p)) (\<lambda>_.
         case pl_event p of
           StillRunning \<Rightarrow> poll_loop deadline c ps
         | TaskDone \<Rightarrow> act_ret LoopDone
         | Interrupted finished \<Rightarrow> act_ret (LoopInterrupted finished))))"

definition fail_closed :: "session \<Rightarrow> session" where
  "fail_closed s = (if ss_state s = RUNNING then s\<lparr>ss_state := FAILED\<rparr> else s)"

text \<open>Running a task for its effect: its result or exception is only noted.\<close>

definition run_aside :: "'a sess \<Rightarrow> unit sess" where
  "run_aside m = (\<lambda>s. (Inr (), snd (m s)))"

text \<open>
  \<open>_settle_cancelled_collaborator\<close>: with a time given, a task that outlives it or an interruption fails
  the session closed.
\<close>

definition settle_cancelled :: "'a sess \<Rightarrow> rat option \<Rightarrow> unit sess" where
  "settle_cancelled task budget =
     act_bind (next_answer en_settles en_settles_update) (\<lambda>x.
     act_bind (await_point (se_closing x)) (\<lambda>_.
     if budget \<noteq> None \<and> se_interrupted x
     then act_bind (act_put (\<lambda>s. if se_ran x then s else fail_closed s)) (\<lambda>_. act_lift (Inl cancelled_error))
     else if budget \<noteq> None \<and> se_late x then act_put fail_closed
     else if se_ran x then run_aside task
     else act_ret ()))"

text \<open>
  How a wait ends, by how its loop ended. A timeout settles the task inside the \<open>try\<close>, so an interruption
  there settles it once more.
\<close>

definition wait_outcome ::
  "'a sess \<Rightarrow> rat \<Rightarrow> cancellation \<Rightarrow> bool \<Rightarrow> rat option \<Rightarrow> loop_end \<Rightarrow> 'a sess" where
  "wait_outcome task deadline c authoritative budget ending =
     (case ending of
        LoopTimedOut \<Rightarrow>
          act_bind
            (act_catch (settle_cancelled task budget)
              (\<lambda>e. act_bind (settle_cancelled task budget) (\<lambda>_. act_lift (Inl e)))) (\<lambda>_.
          act_lift (Inl budget_timeout))
      | LoopSignalled \<Rightarrow>
          act_bind (settle_cancelled task budget) (\<lambda>_. act_lift (Inl cooperative_cancel))
      | LoopInterrupted finished \<Rightarrow>
          if finished
          then (\<lambda>s. case task s of
                  (Inr v, s') \<Rightarrow> if authoritative then (Inr v, s') else (Inl cancelled_error, s')
                | (Inl e, s') \<Rightarrow> (Inl cancelled_error, s'))
          else act_bind (settle_cancelled task budget) (\<lambda>_. act_lift (Inl cancelled_error))
      | LoopDone \<Rightarrow>
          act_bind task (\<lambda>v.
          if authoritative then act_ret v
          else
            act_bind (remaining deadline) (\<lambda>_.
            act_bind (check_cooperative_cancellation c) (\<lambda>_.
            act_ret v))))"

text \<open>\<open>_await_collaborator\<close>: the factory makes the task.\<close>

definition await_collaborator ::
  "'a sess sess \<Rightarrow> rat \<Rightarrow> cancellation \<Rightarrow> bool \<Rightarrow> rat option \<Rightarrow> 'a sess" where
  "await_collaborator factory deadline c authoritative budget =
     act_bind (remaining deadline) (\<lambda>_.
     act_bind (check_cooperative_cancellation c) (\<lambda>_.
     act_bind factory (\<lambda>task.
     act_bind (next_answer en_polls en_polls_update) (\<lambda>polls.
     act_bind (poll_loop deadline c polls) (wait_outcome task deadline c authoritative budget)))))"

section \<open>The gate\<close>

definition admission_timeout :: sandbox_error where
  "admission_timeout = Raise (Session SessionOperationTimeout)
     (pstr ''operation timed out while waiting for admission'')"

definition acquire_attempt :: "rat \<Rightarrow> cancellation \<Rightarrow> unit sess \<Rightarrow> unit sess" where
  "acquire_attempt deadline c wait =
     act_bind (check_cooperative_cancellation c) (\<lambda>_.
     act_bind loop_time (\<lambda>t.
     if deadline - t \<le> 0 then act_lift (Inl admission_timeout) else wait))"

text \<open>With no more turns to wait the gate is free.\<close>

fun acquire_loop :: "rat \<Rightarrow> cancellation \<Rightarrow> poll list \<Rightarrow> unit sess" where
  "acquire_loop deadline c [] = acquire_attempt deadline c (act_put (\<lambda>s. s\<lparr>ss_gate := True\<rparr>))"
| "acquire_loop deadline c (p # ps) =
     acquire_attempt deadline c
       (act_bind (await_point (pl_closing p)) (\<lambda>_.
        case pl_event p of
          TaskDone \<Rightarrow> act_put (\<lambda>s. s\<lparr>ss_gate := True\<rparr>)
        | Interrupted _ \<Rightarrow> act_lift (Inl cancelled_error)
        | StillRunning \<Rightarrow>
            act_bind loop_time (\<lambda>t.
            if t \<ge> deadline then act_lift (Inl admission_timeout) else acquire_loop deadline c ps)))"

definition acquire_operation_gate :: "rat \<Rightarrow> cancellation \<Rightarrow> unit sess" where
  "acquire_operation_gate deadline c =
     act_bind (next_answer en_polls en_polls_update) (acquire_loop deadline c)"

definition release_gate :: "session \<Rightarrow> session" where
  "release_gate s = s\<lparr>ss_gate := False\<rparr>"

section \<open>One operation\<close>

record operation_context =
  oc_operation_id :: operation_id
  oc_started_at :: py_datetime
  oc_started_monotonic :: rat
  oc_original_deadline :: rat
  oc_collaborator_deadline :: rat

definition policy_evaluate :: "policy_request \<Rightarrow> policy_reply sess sess" where
  "policy_evaluate request =
     act_bind (act_lift (policy_request_new request)) (\<lambda>_.
     act_ret
       (act_bind (next_answer en_policy en_policy_update) (\<lambda>reply.
        act_bind (note_call (PolicyAsked request reply)) (\<lambda>_.
        case reply of PolicyRaises e \<Rightarrow> act_lift (Inl e) | _ \<Rightarrow> act_ret reply))))"

definition policy_invalid :: "pystr \<Rightarrow> sandbox_error" where
  "policy_invalid m = Raise (Session SessionRequestInvalid) m"

definition validate_policy_decision :: "policy_reply \<Rightarrow> operation_limits \<Rightarrow> policy_decision result" where
  "validate_policy_decision reply requested =
     (case reply of
        PolicyDecides d \<Rightarrow>
          rbind (guard (\<not> seconds (timeout_seconds (pd_effective_limits d)) > seconds (timeout_seconds requested))
            (policy_invalid (pstr ''policy may only narrow timeout_seconds''))) (\<lambda>_.
          rbind (guard (terminal_event_reserve_seconds (pd_effective_limits d) = terminal_event_reserve_seconds requested)
            (policy_invalid (pstr ''policy must preserve terminal_event_reserve_seconds''))) (\<lambda>_.
          Inr d))
      | _ \<Rightarrow> Inl (policy_invalid (pstr ''policy engine returned an invalid decision'')))"

definition terminal_for_error :: "sandbox_error \<Rightarrow> event_type" where
  "terminal_for_error e =
     (if error_category (err_class e) = Some TIMEOUT then OPERATION_TIMED_OUT
      else if error_category (err_class e) = Some CANCELLED then OPERATION_CANCELLED
      else OPERATION_FAILED)"

definition revision_attribute :: "revision \<Rightarrow> event_attribute" where
  "revision_attribute r =
     \<lparr>at_name = pstr ''workspace_revision'', at_value = EvInt (rev_value r), at_sensitivity = INTERNAL_DATA\<rparr>"

text \<open>
  An operation: what it is, its limits and signal, what it normalizes and the path in that, the secrets
  and flags the policy sees, what it does, and the event it emits after it committed.
\<close>

record ('n, 'a) operation =
  on_kind :: operation_kind
  on_limits :: operation_limits
  on_cancellation :: cancellation
  on_normalize :: "'n sess"
  on_path :: "'n \<Rightarrow> sandbox_path option"
  on_secret_refs :: "secret_ref list"
  on_path_mutation :: "path_mutation_context option"
  on_authoritative :: bool
  on_action :: "'n \<Rightarrow> operation_context \<Rightarrow> ('a \<times> revision) sess"
  on_post_commit :: "('a \<Rightarrow> revision \<Rightarrow> (event_type \<times> event_attribute list) result) option"

text \<open>Up to the delivery of \<open>operation.started\<close>: nothing has to be reported when this fails.\<close>

definition begin_operation :: "('n, 'a) operation \<Rightarrow> rat \<Rightarrow> ('n \<times> operation_id \<times> py_datetime) sess" where
  "begin_operation p original_deadline =
     act_bind reject_non_running (\<lambda>_.
     act_bind (on_normalize p) (\<lambda>n.
     act_bind (check_cooperative_cancellation (on_cancellation p)) (\<lambda>_.
     act_bind (next_answer en_uuids en_uuids_update) (\<lambda>u.
     act_bind (act_lift (identifier_new u)) (\<lambda>oid.
     act_bind clock_now (\<lambda>began.
     act_bind (emit_new False OPERATION_STARTED (Some oid) (Some (on_kind p)) [] original_deadline False) (\<lambda>_.
     act_ret (n, oid, began))))))))"

definition post_commit_failed :: "operation_kind \<Rightarrow> sandbox_error" where
  "post_commit_failed kind = Raise (Session SessionEventDeliveryFailed)
     (pstr ''required post-commit event delivery failed for '' @ pstr (operation_kind_value kind))"

definition emit_post_commit :: "('n, 'a) operation \<Rightarrow> operation_id \<Rightarrow> rat \<Rightarrow> 'a \<Rightarrow> revision \<Rightarrow> unit sess" where
  "emit_post_commit p oid deadline v r =
     (case on_post_commit p of
        None \<Rightarrow> act_ret ()
      | Some event_of \<Rightarrow>
          act_catch
            (act_bind (act_lift (event_of v r)) (\<lambda>(ty, attributes).
             emit_new False ty (Some oid) (Some (on_kind p)) attributes deadline False))
            (\<lambda>error. act_lift (Inl (if is_cancelled error then error else post_commit_failed (on_kind p)))))"

definition admit_by_policy ::
  "('n, 'a) operation \<Rightarrow> 'n \<Rightarrow> operation_id \<Rightarrow> rat \<Rightarrow> policy_decision sess" where
  "admit_by_policy p n oid policy_deadline =
     act_bind (remaining policy_deadline) (\<lambda>_.
     act_bind (act_get ss_id) (\<lambda>sid.
     act_bind (await_collaborator
       (policy_evaluate
         \<lparr>po_session_id = sid, po_operation_id = oid, po_operation_kind = on_kind p, po_path = on_path p n,
          po_command_name = None, po_requested_limits = on_limits p, po_secret_refs = on_secret_refs p,
          po_path_mutation = on_path_mutation p\<rparr>)
       policy_deadline (on_cancellation p) False None) (\<lambda>reply.
     act_bind (act_lift (validate_policy_decision reply (on_limits p))) (\<lambda>d.
     if \<not> pd_allowed d
     then act_lift (throw (Session SessionPolicyDenied)
       (pstr ''policy denied '' @ pstr (operation_kind_value (on_kind p)) @ pstr '': '' @ pd_reason_code d))
     else act_ret d))))"

definition perform_operation ::
  "('n, 'a) operation \<Rightarrow> rat \<Rightarrow> 'n \<Rightarrow> operation_id \<Rightarrow> py_datetime
     \<Rightarrow> ('a \<times> revision \<times> operation_result_metadata) sess" where
  "perform_operation p started n oid began =
     (let original_deadline = started + seconds (timeout_seconds (on_limits p));
          reserve = seconds (terminal_event_reserve_seconds (on_limits p)) in
      act_bind (admit_by_policy p n oid (original_deadline - reserve)) (\<lambda>d.
      let collaborator_deadline = started + seconds (timeout_seconds (pd_effective_limits d)) - reserve in
      act_bind (remaining collaborator_deadline) (\<lambda>_.
      act_bind (on_action p n
        \<lparr>oc_operation_id = oid, oc_started_at = began, oc_started_monotonic = started,
         oc_original_deadline = original_deadline, oc_collaborator_deadline = collaborator_deadline\<rparr>) (\<lambda>(v, r).
      act_bind clock_now (\<lambda>completed_at.
      act_bind (act_get ss_id) (\<lambda>sid.
      act_bind (act_lift (operation_result_metadata_new sid oid r began completed_at)) (\<lambda>metadata.
      act_bind (emit_post_commit p oid (original_deadline - reserve / 2) v r) (\<lambda>_.
      act_ret (v, r, metadata)))))))))"

definition unexpected_failure :: sandbox_error where
  "unexpected_failure = Raise (Session SessionFailed) (pstr ''operation collaborator failed unexpectedly'')"

text \<open>The \<open>except\<close> clauses, before and after \<open>operation.started\<close> was delivered.\<close>

definition surfaced :: "sandbox_error \<Rightarrow> sandbox_error" where
  "surfaced e = (if is_cancelled e \<or> is_sandbox_error e then e else unexpected_failure)"

definition report_failure :: "operation_kind \<Rightarrow> operation_id \<Rightarrow> rat \<Rightarrow> sandbox_error \<Rightarrow> 'a sess" where
  "report_failure kind oid deadline e =
     (if is_cancelled e
      then act_bind (try_sandbox (emit_terminal False OPERATION_CANCELLED kind oid deadline [])) (\<lambda>_. act_lift (Inl e))
      else if is_sandbox_error e
      then act_bind (emit_terminal False (terminal_for_error e) kind oid deadline []) (\<lambda>_. act_lift (Inl e))
      else act_bind (emit_terminal False OPERATION_FAILED kind oid deadline []) (\<lambda>_. act_lift (Inl unexpected_failure)))"

definition operation_body :: "('n, 'a) operation \<Rightarrow> rat \<Rightarrow> ('a \<times> operation_result_metadata) sess" where
  "operation_body p started =
     (let deadline = started + seconds (timeout_seconds (on_limits p)) in
      act_bind (act_catch (begin_operation p deadline) (\<lambda>e. act_lift (Inl (surfaced e)))) (\<lambda>(n, oid, began).
      act_bind (act_catch (perform_operation p started n oid began)
        (report_failure (on_kind p) oid deadline)) (\<lambda>(v, r, metadata).
      act_bind (emit_terminal (on_authoritative p) OPERATION_COMPLETED (on_kind p) oid deadline [revision_attribute r]) (\<lambda>_.
      act_ret (v, metadata)))))"

definition run_operation :: "('n, 'a) operation \<Rightarrow> ('a \<times> operation_result_metadata) sess" where
  "run_operation p =
     act_bind reject_non_running (\<lambda>_.
     act_bind loop_time (\<lambda>started.
     act_bind (acquire_operation_gate (started + seconds (timeout_seconds (on_limits p))) (on_cancellation p)) (\<lambda>_.
     act_finally (operation_body p started) release_gate)))"

end
