(* ===== verification/Session_Workspace.thy ===== *)
theory Session_Workspace
  imports Session_Core
begin

text \<open>
  \<open>session/session.py\<close>: the operations on the workspace, snapshots and portable archives. The ports of
  \<open>session/ports.py\<close> are the modelled memory workspace, which is part of the session's state, and the
  collaborators below: the codecs, the command executor and what the standard library says of digits
  and authorities.
\<close>

record collaborators =
  co_execute :: "execute_request \<Rightarrow> execution_context \<Rightarrow> execute_result exec"
  co_encode_workspace :: snapshot_encoder
  co_decode_workspace :: snapshot_decoder
  co_encode_archive :: archive_encoder
  co_decode_archive :: archive_decoder
  co_archive_format :: int
  co_encode_state :: "session_snapshot_state \<Rightarrow> snapshot_payload result"
  co_decode_state :: "sandbox_snapshot \<Rightarrow> session_snapshot_state option result"
  co_process_local :: bool
  co_digits :: "nat \<Rightarrow> nat option"
  co_authority_ok :: "pystr \<Rightarrow> bool"

section \<open>Tasks on the workspace\<close>

definition ws_task :: "'a ws_action \<Rightarrow> 'a sess" where
  "ws_task m = (\<lambda>s. case m (ss_workspace s) of (x, w) \<Rightarrow> (x, s\<lparr>ss_workspace := w\<rparr>))"

definition ws_query :: "(memory_workspace \<Rightarrow> 'a result) \<Rightarrow> 'a sess" where
  "ws_query f = act_bind (act_get ss_workspace) (\<lambda>w. act_lift (f w))"

definition stats_task :: "workspace_stats sess" where
  "stats_task = ws_query (\<lambda>w. Inr (ws_stats w))"

definition collaborate :: "'a sess sess \<Rightarrow> operation_context \<Rightarrow> bool \<Rightarrow> 'a sess" where
  "collaborate factory ctx signal =
     await_collaborator factory (oc_collaborator_deadline ctx) (request_signal signal) False None"

definition collaborate_authoritative :: "'a sess sess \<Rightarrow> operation_context \<Rightarrow> bool \<Rightarrow> 'a sess" where
  "collaborate_authoritative factory ctx signal =
     await_collaborator factory (oc_collaborator_deadline ctx) (request_signal signal) True None"

text \<open>\<open>normalize\<close>: the path is resolved against the session's directory.\<close>

definition session_resolve :: "pystr \<Rightarrow> sandbox_path sess" where
  "session_resolve v =
     act_bind (act_get (\<lambda>s. s)) (\<lambda>s. act_lift (resolve_path (ws_limits (ss_workspace s)) v (Some (ss_cwd s))))"

definition path_operation ::
  "operation_kind \<Rightarrow> operation_limits \<Rightarrow> bool \<Rightarrow> pystr \<Rightarrow> path_mutation_context option \<Rightarrow> bool
     \<Rightarrow> (sandbox_path \<Rightarrow> operation_context \<Rightarrow> ('a \<times> revision) sess) \<Rightarrow> (sandbox_path, 'a) operation" where
  "path_operation kind limits signal path_text mutation authoritative action =
     \<lparr>on_kind = kind, on_limits = limits, on_cancellation = request_signal signal,
      on_normalize = session_resolve path_text, on_path = Some, on_secret_refs = [],
      on_path_mutation = mutation, on_authoritative = authoritative, on_action = action,
      on_post_commit = None\<rparr>"

text \<open>An operation that names no path.\<close>

definition plain_operation ::
  "operation_kind \<Rightarrow> operation_limits \<Rightarrow> cancellation \<Rightarrow> bool
     \<Rightarrow> (operation_context \<Rightarrow> ('a \<times> revision) sess) \<Rightarrow> (unit, 'a) operation" where
  "plain_operation kind limits c authoritative action =
     \<lparr>on_kind = kind, on_limits = limits, on_cancellation = c,
      on_normalize = act_ret (), on_path = (\<lambda>_. None), on_secret_refs = [],
      on_path_mutation = None, on_authoritative = authoritative, on_action = (\<lambda>_. action),
      on_post_commit = None\<rparr>"

section \<open>Reading\<close>

definition session_read_file :: "read_file_request \<Rightarrow> read_file_result sess" where
  "session_read_file r =
     act_bind (run_operation (path_operation READ_FILE (op_limits r) (op_cancellation r) (rf_path r) None False
       (\<lambda>path ctx.
          act_bind (collaborate
            (act_bind (act_lift (range_request_new path (rf_start_line r) (rf_end_line r)))
              (\<lambda>q. act_ret (ws_query (\<lambda>w. ws_read_range w q)))) ctx (op_cancellation r)) (\<lambda>v.
          act_ret (v, rr_revision v))))) (\<lambda>(v, metadata).
     act_ret \<lparr>rr_metadata = metadata, rr_range = v\<rparr>)"

definition session_read_bytes :: "path_request \<Rightarrow> read_bytes_result sess" where
  "session_read_bytes r =
     act_bind (run_operation (path_operation READ_BYTES (op_limits r) (op_cancellation r) (pq_path r) None False
       (\<lambda>path ctx.
          act_bind (collaborate (act_ret (ws_query (\<lambda>w. ws_read_bytes w path))) ctx (op_cancellation r)) (\<lambda>v.
          act_ret (v, br_revision v))))) (\<lambda>(v, metadata).
     act_ret \<lparr>rb_metadata = metadata, rb_result = v\<rparr>)"

text \<open>\<open>_entry_operation\<close>: an empty directory has no entry that tells the revision.\<close>

definition session_stat :: "path_request \<Rightarrow> stat_result sess" where
  "session_stat r =
     act_bind (run_operation (path_operation STAT (op_limits r) (op_cancellation r) (pq_path r) None False
       (\<lambda>path ctx.
          act_bind (collaborate (act_ret (ws_query (\<lambda>w. ws_stat w path))) ctx (op_cancellation r)) (\<lambda>found.
          act_ret (found, we_revision found))))) (\<lambda>(found, metadata).
     act_ret \<lparr>sa_metadata = metadata, sa_entry = found\<rparr>)"

definition session_list_entries :: "path_request \<Rightarrow> list_entries_result sess" where
  "session_list_entries r =
     act_bind (run_operation (path_operation LIST_ENTRIES (op_limits r) (op_cancellation r) (pq_path r) None False
       (\<lambda>path ctx.
          act_bind (collaborate (act_ret (ws_query (\<lambda>w. ws_list w path))) ctx (op_cancellation r)) (\<lambda>entries.
          case entries of
            found # _ \<Rightarrow> act_ret (entries, we_revision found)
          | [] \<Rightarrow>
              act_bind (collaborate (act_ret stats_task) ctx (op_cancellation r)) (\<lambda>stats.
              act_ret (entries, ws_revision stats)))))) (\<lambda>(entries, metadata).
     act_ret \<lparr>le_metadata = metadata, le_entries = entries\<rparr>)"

section \<open>Mutating\<close>

definition mutation_action :: "workspace_mutation ws_action \<Rightarrow> operation_context \<Rightarrow> bool \<Rightarrow> (workspace_mutation \<times> revision) sess" where
  "mutation_action m ctx signal =
     act_bind (collaborate_authoritative (act_ret (ws_task m)) ctx signal) (\<lambda>v.
     act_ret (v, ws_revision (wm_stats v)))"

definition path_mutation_of :: "workspace_mutation \<times> operation_result_metadata \<Rightarrow> path_mutation_result" where
  "path_mutation_of out = \<lparr>mr_metadata = snd out, mr_mutation = fst out\<rparr>"

definition session_write ::
  "operation_kind \<Rightarrow> pystr \<Rightarrow> byte list \<Rightarrow> write_precondition \<Rightarrow> bool \<Rightarrow> operation_limits \<Rightarrow> bool
     \<Rightarrow> path_mutation_result sess" where
  "session_write kind path_text bytes precondition create_parents limits signal =
     act_bind (run_operation (path_operation kind limits signal path_text None True
       (\<lambda>path ctx. mutation_action
          (ws_write \<lparr>wr_path = path, wr_content = bytes, wr_precondition = precondition,
             wr_create_parents = create_parents\<rparr>) ctx signal))) (\<lambda>out.
     act_ret (path_mutation_of out))"

definition session_write_file :: "write_file_request \<Rightarrow> path_mutation_result sess" where
  "session_write_file r =
     act_bind (act_lift (encode_utf8 (wf_content r))) (\<lambda>bytes.
     session_write WRITE_FILE (wf_path r) bytes (wf_precondition r) (wf_create_parents r) (op_limits r)
       (op_cancellation r))"

definition session_write_bytes :: "write_bytes_request \<Rightarrow> path_mutation_result sess" where
  "session_write_bytes r =
     session_write WRITE_BYTES (wb_path r) (wb_content r) (wb_precondition r) (wb_create_parents r) (op_limits r)
       (op_cancellation r)"

definition session_create_directory :: "create_directory_request \<Rightarrow> path_mutation_result sess" where
  "session_create_directory r =
     act_bind (run_operation (path_operation CREATE_DIRECTORY (op_limits r) (op_cancellation r) (cd_path r)
       (Some \<lparr>pmc_create_parents = cd_create_parents r, pmc_exist_ok = cd_exist_ok r, pmc_recursive = False,
              pmc_missing_ok = False\<rparr>) True
       (\<lambda>path ctx. mutation_action
          (ws_mkdir \<lparr>mk_path = path, mk_create_parents = cd_create_parents r, mk_exist_ok = cd_exist_ok r\<rparr>)
          ctx (op_cancellation r)))) (\<lambda>out.
     act_ret (path_mutation_of out))"

definition session_remove_path :: "remove_entry_request \<Rightarrow> path_mutation_result sess" where
  "session_remove_path r =
     act_bind (run_operation (path_operation REMOVE_PATH (op_limits r) (op_cancellation r) (re_path r)
       (Some \<lparr>pmc_create_parents = False, pmc_exist_ok = False, pmc_recursive = re_recursive r,
              pmc_missing_ok = re_missing_ok r\<rparr>) True
       (\<lambda>path ctx. mutation_action
          (ws_remove \<lparr>rm_path = path, rm_recursive = re_recursive r, rm_missing_ok = re_missing_ok r\<rparr>)
          ctx (op_cancellation r)))) (\<lambda>out.
     act_ret (path_mutation_of out))"

text \<open>The hashes an edit expects, resolved one after the other.\<close>

definition expected_hash :: "session_expected_hash \<Rightarrow> expected_file_hash sess" where
  "expected_hash item =
     (case item of
        ExpectedText v h \<Rightarrow>
          act_bind (session_resolve v) (\<lambda>path. act_ret \<lparr>ef_path = path, ef_content_hash = h\<rparr>)
      | ExpectedPath p h \<Rightarrow>
          act_bind (session_resolve (path_value p)) (\<lambda>path. act_ret \<lparr>ef_path = path, ef_content_hash = h\<rparr>))"

fun expected_hash_list :: "session_expected_hash list \<Rightarrow> expected_file_hash list sess" where
  "expected_hash_list [] = act_ret []"
| "expected_hash_list (item # items) =
     act_bind (expected_hash item) (\<lambda>h. act_bind (expected_hash_list items) (\<lambda>hs. act_ret (h # hs)))"

definition patch_operation ::
  "collaborators \<Rightarrow> apply_patch_request \<Rightarrow> (expected_file_hash list, patch_result) operation" where
  "patch_operation co r =
     \<lparr>on_kind = APPLY_PATCH, on_limits = op_limits r, on_cancellation = request_signal (op_cancellation r),
      on_normalize = expected_hash_list (ap_expected_hashes r), on_path = (\<lambda>_. None), on_secret_refs = [],
      on_path_mutation = None, on_authoritative = True,
      on_action = (\<lambda>hashes ctx.
        act_bind (collaborate_authoritative
          (act_bind (act_lift (patch_request_new (ap_patch r) hashes)) (\<lambda>q.
           act_ret (ws_task (ws_patch (co_digits co) q)))) ctx (op_cancellation r)) (\<lambda>v.
        act_ret (v, ws_revision (pt_stats v)))),
      on_post_commit = None\<rparr>"

definition session_apply_patch :: "collaborators \<Rightarrow> apply_patch_request \<Rightarrow> patch_mutation_result sess" where
  "session_apply_patch co r =
     act_bind (run_operation (patch_operation co r)) (\<lambda>(v, metadata).
     act_ret \<lparr>pm_metadata = metadata, pm_files = pt_files v\<rparr>)"

section \<open>Snapshots\<close>

definition text_attribute :: "string \<Rightarrow> pystr \<Rightarrow> event_attribute result" where
  "text_attribute name v = event_attribute_new (pstr name) (EvText v) INTERNAL_DATA"

definition created_event :: "snapshot_ref \<times> content_hash \<Rightarrow> revision \<Rightarrow> (event_type \<times> event_attribute list) result" where
  "created_event v r =
     rbind (text_attribute ''content_hash'' (hash_value (snd v))) (\<lambda>h.
     rbind (text_attribute ''snapshot_id'' (identifier_str (ref_snapshot_id (fst v)))) (\<lambda>i.
     Inr (SNAPSHOT_CREATED, [h, i, revision_attribute r])))"

definition restored_event :: "snapshot_ref \<Rightarrow> revision \<Rightarrow> (event_type \<times> event_attribute list) result" where
  "restored_event v r =
     rbind (text_attribute ''snapshot_id'' (identifier_str (ref_snapshot_id v))) (\<lambda>i.
     Inr (SNAPSHOT_RESTORED, [i, revision_attribute r]))"

text \<open>Encoding the session's state, and the draft that is saved.\<close>

definition snapshot_of_session :: "collaborators \<Rightarrow> snapshot_data \<Rightarrow> (snapshot_payload \<times> snapshot_draft) sess" where
  "snapshot_of_session co data =
     act_bind (act_get (\<lambda>s. s)) (\<lambda>s.
     act_bind (act_lift (co_encode_state co
       \<lparr>sx_workspace = data, sx_cwd = ss_cwd s, sx_environment = ss_environment s, sx_schema_version = 1,
        sx_capability_version = 1\<rparr>)) (\<lambda>payload.
     act_bind (next_answer en_uuids en_uuids_update) (\<lambda>u.
     act_bind (act_lift (identifier_new u)) (\<lambda>i.
     act_bind clock_now (\<lambda>now.
     act_bind (act_lift (snapshot_metadata_new
       \<lparr>sm_format_name = sq_format_name payload, sm_payload_bytes = int (length (sq_payload payload)),
        sm_process_local = co_process_local co\<rparr>)) (\<lambda>metadata.
     act_bind (act_lift (snapshot_draft_new
       \<lparr>dr_snapshot_id = i, dr_schema_version = sq_schema_version payload, dr_created_at = now,
        dr_source_session_id = ss_id s, dr_workspace_revision = sq_workspace_revision payload,
        dr_content_hash = sq_content_hash payload, dr_payload = sq_payload payload, dr_metadata = metadata,
        dr_created_by = None\<rparr>)) (\<lambda>draft.
     act_ret (payload, draft))))))))"

definition save_task :: "snapshot_draft \<Rightarrow> snapshot_ref sess" where
  "save_task draft = act_bind (ask (SnapshotSaved draft) en_saves en_saves_update) act_lift"

definition load_task :: "snapshot_ref \<Rightarrow> sandbox_snapshot sess" where
  "load_task r = act_bind (ask (SnapshotLoaded r) en_loads en_loads_update) act_lift"

definition create_snapshot_action ::
  "collaborators \<Rightarrow> bool \<Rightarrow> operation_context \<Rightarrow> ((snapshot_ref \<times> content_hash) \<times> revision) sess" where
  "create_snapshot_action co signal ctx =
     act_bind (collaborate (act_ret (ws_query (ws_export (co_encode_workspace co)))) ctx signal) (\<lambda>data.
     act_bind (remaining (oc_collaborator_deadline ctx)) (\<lambda>_.
     act_bind (snapshot_of_session co data) (\<lambda>(payload, draft).
     act_bind (collaborate (act_ret (save_task draft)) ctx signal) (\<lambda>r.
     if ref_snapshot_id r \<noteq> dr_snapshot_id draft
     then act_lift (throw (Snapshot SnapshotSaveFailed)
       (pstr ''snapshot store changed the allocated snapshot identity''))
     else act_ret ((r, sq_content_hash payload), sd_workspace_revision data)))))"

definition session_create_snapshot :: "collaborators \<Rightarrow> operation_options \<Rightarrow> create_snapshot_result sess" where
  "session_create_snapshot co r =
     act_bind (run_operation
       ((plain_operation CREATE_SNAPSHOT (op_limits r) (request_signal (op_cancellation r)) False
           (create_snapshot_action co (op_cancellation r)))\<lparr>on_post_commit := Some created_event\<rparr>)) (\<lambda>(v, metadata).
     act_ret \<lparr>cs_metadata = metadata, cs_snapshot_ref = fst v, cs_content_hash = snd v\<rparr>)"

section \<open>Publishing a restore\<close>

definition restore_unprovable :: sandbox_error where
  "restore_unprovable = Raise (Session SessionSnapshotRestoreFailed)
     (pstr ''snapshot state publication failed with an unprovable live-state outcome'')"

definition fail_session :: "session \<Rightarrow> session" where
  "fail_session s = s\<lparr>ss_state := FAILED\<rparr>"

text \<open>The outcome of the publishing task, awaited behind a shield.\<close>

definition finish_publication :: "unit sess \<Rightarrow> unit sess" where
  "finish_publication publish =
     act_catch publish (\<lambda>e.
       if is_cancelled e \<or> is_sandbox_error e then act_lift (Inl e)
       else
         act_bind (act_put fail_session) (\<lambda>_.
         act_bind emit_failed_lifecycle (\<lambda>_. act_lift (Inl restore_unprovable))))"

text \<open>The task was asked to stop for an error of the operation: what it ends with counts, if it ran.\<close>

definition settle_publication :: "unit sess \<Rightarrow> sandbox_error \<Rightarrow> unit sess" where
  "settle_publication publish pending =
     act_bind (next_answer en_settles en_settles_update) (\<lambda>x.
     act_bind (await_point (se_closing x)) (\<lambda>_.
     if se_interrupted x
     then act_bind (if se_ran x then run_aside publish else act_ret ()) (\<lambda>_. act_lift (Inl pending))
     else if se_ran x
     then act_catch (finish_publication publish)
       (\<lambda>e. act_lift (Inl (if is_cancelled e then pending else e)))
     else act_lift (Inl pending)))"

text \<open>The operation was cancelled: a publication that succeeded nevertheless takes the cancellation back.\<close>

definition publish_despite :: "unit sess \<Rightarrow> unit sess" where
  "publish_despite publish =
     act_catch publish (\<lambda>e.
       act_bind (act_put (if is_cancelled e \<or> is_sandbox_error e then (\<lambda>s. s) else fail_session)) (\<lambda>_.
       act_lift (Inl cancelled_error)))"

definition interrupted_publication :: "unit sess \<Rightarrow> unit sess" where
  "interrupted_publication publish =
     act_bind (next_answer en_settles en_settles_update) (\<lambda>x.
     act_bind (await_point (se_closing x)) (\<lambda>_.
     if se_ran x \<and> \<not> se_interrupted x then publish_despite publish
     else act_bind (if se_ran x then run_aside publish else act_ret ()) (\<lambda>_. act_lift (Inl cancelled_error))))"

definition publish_restore_action :: "unit sess \<Rightarrow> rat \<Rightarrow> cancellation \<Rightarrow> unit sess" where
  "publish_restore_action publish deadline c =
     act_bind (remaining deadline) (\<lambda>_.
     act_bind (check_cooperative_cancellation c) (\<lambda>_.
     act_bind (next_answer en_polls en_polls_update) (\<lambda>polls.
     act_bind (poll_loop deadline c polls) (\<lambda>ending.
     case ending of
       LoopDone \<Rightarrow> finish_publication publish
     | LoopSignalled \<Rightarrow> settle_publication publish cooperative_cancel
     | LoopTimedOut \<Rightarrow> settle_publication publish budget_timeout
     | LoopInterrupted finished \<Rightarrow>
         if finished then publish_despite publish else interrupted_publication publish))))"

definition publish_task :: "prepared_restore \<Rightarrow> (sandbox_path \<times> command_environment) option \<Rightarrow> unit sess" where
  "publish_task candidate to =
     act_bind (ws_task (commit_restore candidate)) (\<lambda>_.
     act_put (\<lambda>s. case to of None \<Rightarrow> s | Some (cwd, env) \<Rightarrow> s\<lparr>ss_cwd := cwd, ss_environment := env\<rparr>))"

section \<open>Restoring\<close>

definition validate_snapshot_state :: "session_snapshot_state option \<Rightarrow> session_snapshot_state result" where
  "validate_snapshot_state v =
     (case v of
        None \<Rightarrow> throw (Snapshot SnapshotCorrupt) (pstr ''snapshot codec returned an invalid session state'')
      | Some x \<Rightarrow>
          rbind (guard (sx_schema_version x = 1)
            (Raise (Snapshot SnapshotIncompatible) (pstr ''session snapshot schema version ''
               @ str_int (sx_schema_version x) @ pstr '' is unsupported''))) (\<lambda>_.
          rbind (guard (sx_capability_version x = 1)
            (Raise (Snapshot SnapshotIncompatible) (pstr ''capability profile version ''
               @ str_int (sx_capability_version x) @ pstr '' is unsupported''))) (\<lambda>_.
          Inr x)))"

definition restore_snapshot_action ::
  "collaborators \<Rightarrow> restore_snapshot_request \<Rightarrow> operation_context \<Rightarrow> (snapshot_ref \<times> revision) sess" where
  "restore_snapshot_action co r ctx =
     (let signal = op_cancellation r in
      act_bind (collaborate (act_ret (load_task (rt_snapshot_ref r))) ctx signal) (\<lambda>snapshot.
      act_bind (remaining (oc_collaborator_deadline ctx)) (\<lambda>_.
      act_bind (act_lift (rbind (co_decode_state co snapshot) validate_snapshot_state)) (\<lambda>x.
      act_bind (collaborate
        (act_ret (ws_task (ws_prepare_restore (co_decode_workspace co) (sx_workspace x) (sx_cwd x)))) ctx signal) (\<lambda>candidate.
      act_bind (publish_restore_action (publish_task candidate (Some (sx_cwd x, sx_environment x)))
        (oc_collaborator_deadline ctx) (request_signal signal)) (\<lambda>_.
      act_ret (rt_snapshot_ref r, sd_workspace_revision (sx_workspace x))))))))"

definition session_restore_snapshot :: "collaborators \<Rightarrow> restore_snapshot_request \<Rightarrow> restore_snapshot_result sess" where
  "session_restore_snapshot co r =
     act_bind (run_operation
       ((plain_operation RESTORE_SNAPSHOT (op_limits r) (request_signal (op_cancellation r)) False
           (restore_snapshot_action co r))\<lparr>on_post_commit := Some restored_event\<rparr>)) (\<lambda>(v, metadata).
     act_ret \<lparr>rs_metadata = metadata, rs_snapshot_ref = rt_snapshot_ref r\<rparr>)"

section \<open>Portable archives\<close>

definition default_operation_limits :: operation_limits where
  "default_operation_limits = \<lparr>timeout_seconds = Finite 30, terminal_event_reserve_seconds = Finite 1\<rparr>"

definition session_export_archive :: "collaborators \<Rightarrow> archive_data sess" where
  "session_export_archive co =
     act_bind (run_operation (plain_operation EXPORT_PORTABLE_ARCHIVE default_operation_limits NoSignal False
       (\<lambda>ctx.
          act_bind (collaborate
            (act_ret (ws_query (ws_export_archive (co_encode_archive co) (co_archive_format co)))) ctx False) (\<lambda>archive.
          act_ret (archive, ad_workspace_revision archive))))) (\<lambda>(archive, metadata).
     act_ret archive)"

definition require_unchanged :: "(revision \<times> content_hash) option \<Rightarrow> operation_context \<Rightarrow> unit sess" where
  "require_unchanged expected ctx =
     (case expected of
        None \<Rightarrow> act_ret ()
      | Some (r, h) \<Rightarrow>
          act_bind (collaborate (act_ret stats_task) ctx False) (\<lambda>stats.
          act_lift (guard (ws_revision stats = r \<and> root_hash stats = h)
            (Raise (Session SessionWorkspaceChanged)
              (pstr ''workspace changed after the restore source was captured'')))))"

definition restore_archive_action ::
  "collaborators \<Rightarrow> archive_data \<Rightarrow> session_execution_context option \<Rightarrow> (revision \<times> content_hash) option
     \<Rightarrow> operation_context \<Rightarrow> (unit \<times> revision) sess" where
  "restore_archive_action co data context expected ctx =
     act_bind (require_unchanged expected ctx) (\<lambda>_.
     act_bind (collaborate
       (act_bind (act_get ss_cwd) (\<lambda>cwd.
        act_ret (ws_task (ws_prepare_archive_restore (co_decode_archive co) (co_archive_format co) data
          (case context of None \<Rightarrow> cwd | Some x \<Rightarrow> sc_cwd x))))) ctx False) (\<lambda>candidate.
     act_bind (publish_restore_action
       (publish_task candidate (map_option (\<lambda>x. (sc_cwd x, sc_environment x)) context))
       (oc_collaborator_deadline ctx) NoSignal) (\<lambda>_.
     act_ret ((), ad_workspace_revision data))))"

definition session_restore_archive ::
  "collaborators \<Rightarrow> archive_data \<Rightarrow> session_execution_context option \<Rightarrow> revision option \<Rightarrow> content_hash option
     \<Rightarrow> unit sess" where
  "session_restore_archive co data context expected_revision expected_root =
     act_bind (act_lift (guard ((expected_revision = None) = (expected_root = None))
       (Raise (Builtin ValueError)
         (pstr ''expected_current_revision and expected_current_root_hash must be provided together'')))) (\<lambda>_.
     let expected = (case (expected_revision, expected_root) of (Some r, Some h) \<Rightarrow> Some (r, h) | _ \<Rightarrow> None) in
     act_bind (run_operation (plain_operation RESTORE_PORTABLE_ARCHIVE default_operation_limits NoSignal True
       (restore_archive_action co data context expected))) (\<lambda>_.
     act_ret ()))"

end
