(* ===== verification/Session_Execute.thy ===== *)
theory Session_Execute
  imports Session_Workspace
begin

text \<open>
  \<open>session/session.py\<close>: \<open>execute\<close>. Its secrets are leased one after the other, the command runs under
  their protection, the leases are closed whatever happened, and an error that would show a protected
  value is replaced. The leases held are \<open>ss_leases\<close>: closing one takes it out.
\<close>

section \<open>Leases\<close>

definition secret_refs :: "secret_binding list \<Rightarrow> secret_ref list" where
  "secret_refs bindings = sort_key ref_name (remdups (map bd_secret_ref bindings))"

definition lease_task :: "secret_access_request \<Rightarrow> unit sess" where
  "lease_task request =
     act_bind (act_lift (secret_access_request_new request)) (\<lambda>_.
     act_bind (ask (LeaseAsked request) en_leases en_leases_update) (\<lambda>reply.
     case reply of
       LeaseRaises e \<Rightarrow> act_lift (Inl e)
     | LeaseGranted h \<Rightarrow> act_put (\<lambda>s. s\<lparr>ss_leases := ss_leases s @ [(sr_secret_ref request, h)]\<rparr>)))"

fun lease_all :: "operation_context \<Rightarrow> bool \<Rightarrow> secret_ref list \<Rightarrow> unit sess" where
  "lease_all ctx signal [] = act_ret ()"
| "lease_all ctx signal (r # rs) =
     act_bind (remaining (oc_collaborator_deadline ctx)) (\<lambda>duration.
     act_bind (act_get ss_id) (\<lambda>sid.
     act_bind (collaborate
       (act_ret (lease_task
         \<lparr>sr_session_id = sid, sr_operation_id = oc_operation_id ctx, sr_secret_ref = r, sr_command_name = None,
          sr_max_lease_seconds = Finite duration\<rparr>)) ctx signal) (\<lambda>_.
     lease_all ctx signal rs)))"

text \<open>
  \<open>_close_secret_leases\<close>, over the leases from the last one: a close that fails or is interrupted does
  not keep the others from being closed. The result says whether one failed.
\<close>

definition close_lease :: "secret_ref \<times> lease_handle \<Rightarrow> session \<Rightarrow> session" where
  "close_lease l s =
     (let s = s\<lparr>ss_leases := remove1 l (ss_leases s), ss_calls := ss_calls s @ [LeaseClosed (fst l)]\<rparr> in
      if lh_closing (snd l) then close_call s else s)"

fun close_leases :: "(secret_ref \<times> lease_handle) list \<Rightarrow> bool \<Rightarrow> bool \<Rightarrow> bool sess" where
  "close_leases [] any_failed interrupted =
     (if interrupted then act_lift (Inl cancelled_error) else act_ret any_failed)"
| "close_leases (l # ls) any_failed interrupted =
     act_bind (act_put (close_lease l)) (\<lambda>_.
     close_leases ls (any_failed \<or> lh_close_fails (snd l)) (interrupted \<or> lh_close_interrupted (snd l)))"

definition close_secret_leases :: "bool sess" where
  "close_secret_leases = act_bind (act_get ss_leases) (\<lambda>ls. close_leases (rev ls) False False)"

section \<open>Protection\<close>

definition operation_protection :: "redactor \<Rightarrow> value_protection" where
  "operation_protection r =
     \<lparr>redact_text = redact_text_value r, redact_bytes = redact_bytes_value r,
      contains_protected_text = (\<lambda>v. redact_text_value r v \<noteq> v)\<rparr>"

definition protection_of_leases :: "value_protection sess" where
  "protection_of_leases =
     act_bind (act_get ss_leases) (\<lambda>ls.
     act_lift (rbind (rmap (\<lambda>l. lh_reveal (snd l)) ls) (\<lambda>texts.
       rbind (redactor_new texts []) (\<lambda>r. Inr (operation_protection r)))))"

text \<open>
  \<open>_exception_graph_contains_protected\<close>: a walk over the exceptions reachable from the error, the graph's
  first node, whose text is the error's. Each node is looked at once.
\<close>

definition shows_protected :: "value_protection \<Rightarrow> pystr option \<Rightarrow> bool" where
  "shows_protected prot v = (case v of None \<Rightarrow> True | Some t \<Rightarrow> contains_protected_text prot t)"

definition node_contains_protected :: "value_protection \<Rightarrow> exception_node \<Rightarrow> bool" where
  "node_contains_protected prot x \<longleftrightarrow>
     ex_text x = None \<or> ex_repr x = None \<or>
     shows_protected prot (ex_text x) \<or> shows_protected prot (ex_repr x) \<or>
     list_ex (shows_protected prot) (ex_notes x)"

definition linked_exceptions :: "exception_node \<Rightarrow> nat list" where
  "linked_exceptions x =
     (case ex_cause x of None \<Rightarrow> [] | Some i \<Rightarrow> [i]) @ (case ex_context x of None \<Rightarrow> [] | Some i \<Rightarrow> [i]) @ ex_group x"

definition unseen :: "nat \<Rightarrow> nat set \<Rightarrow> nat set" where
  "unseen n seen = {..<n} - seen"

lemma unseen_shrinks:
  assumes "i \<notin> seen" and "i < n"
  shows "card (unseen n (insert i seen)) < card (unseen n seen)"
proof (rule psubset_card_mono)
  show "finite (unseen n seen)" by (simp add: unseen_def)
  have "i \<in> unseen n seen" and "i \<notin> unseen n (insert i seen)" using assms by (simp_all add: unseen_def)
  moreover have "unseen n (insert i seen) \<subseteq> unseen n seen" unfolding unseen_def by blast
  ultimately show "unseen n (insert i seen) \<subset> unseen n seen" by blast
qed

text \<open>The pending exceptions are a stack, its top first here. An index outside the graph stands for nothing.\<close>

function graph_walk :: "value_protection \<Rightarrow> exception_node list \<Rightarrow> nat list \<Rightarrow> nat set \<Rightarrow> bool" where
  "graph_walk prot graph [] seen = False"
| "graph_walk prot graph (i # pending) seen =
     (if i \<in> seen \<or> length graph \<le> i then graph_walk prot graph pending seen
      else if node_contains_protected prot (graph ! i) then True
      else graph_walk prot graph (rev (linked_exceptions (graph ! i)) @ pending) (insert i seen))"
  by pat_completeness auto

termination
  by (relation "measures [\<lambda>(prot, graph, pending, seen). card (unseen (length graph) seen),
    \<lambda>(prot, graph, pending, seen). length pending]") (simp_all add: unseen_shrinks)

definition exception_graph_contains_protected :: "sandbox_error \<Rightarrow> value_protection \<Rightarrow> exception_node list \<Rightarrow> bool" where
  "exception_graph_contains_protected e prot graph =
     (case graph of
        [] \<Rightarrow> contains_protected_text prot (err_msg e)
      | x # xs \<Rightarrow>
          graph_walk prot (x\<lparr>ex_text := map_option (\<lambda>_. err_msg e) (ex_text x)\<rparr> # xs) [0] {})"

section \<open>The action\<close>

text \<open>The outcome of an action as a value.\<close>

definition attempted :: "'a sess \<Rightarrow> 'a result sess" where
  "attempted m = (\<lambda>s. case m s of (r, s') \<Rightarrow> (Inr r, s'))"

definition overlay_of_bindings :: "secret_binding list \<Rightarrow> (secret_ref \<times> lease_handle) list \<Rightarrow> environment_overlay result" where
  "overlay_of_bindings bindings leases =
     rbind (rmap (\<lambda>b. case map_of (rev leases) (bd_secret_ref b) of
         None \<Rightarrow> throw (Builtin KeyError) (ref_name (bd_secret_ref b))
       | Some h \<Rightarrow> overlay_entry_new (bd_name b) (lh_overlay_reveal h)) bindings) overlay_new"

definition execute_task :: "collaborators \<Rightarrow> execute_request \<Rightarrow> execution_context \<Rightarrow> execute_result sess" where
  "execute_task co request ctx =
     (\<lambda>s. case co_execute co request ctx \<lparr>es_workspace = ss_workspace s, es_readings = en_readings s\<rparr> of
        (x, t) \<Rightarrow> (x, s\<lparr>ss_workspace := es_workspace t, en_readings := es_readings t\<rparr>))"

definition run_command ::
  "collaborators \<Rightarrow> session_execute_request \<Rightarrow> operation_context \<Rightarrow> value_protection \<Rightarrow> execute_result sess" where
  "run_command co r ctx prot =
     (let signal = op_cancellation r; l = xe_command_limits r in
      act_bind (act_get ss_leases) (\<lambda>leases.
      act_bind (act_lift (overlay_of_bindings (xe_secret_environment r) leases)) (\<lambda>overlay.
      act_bind (remaining (oc_collaborator_deadline ctx)) (\<lambda>left.
      act_bind (act_lift (command_limits_new
        (l\<lparr>cl_timeout_seconds := float_min (cl_timeout_seconds l) (Finite left)\<rparr>))) (\<lambda>effective.
      collaborate
        (act_bind (act_get (\<lambda>s. s)) (\<lambda>s.
         act_bind (act_lift (execute_request_new (xe_command r) (ss_cwd s) (ss_environment s) effective overlay)) (\<lambda>request.
         act_ret (execute_task co request
           \<lparr>xc_session_id = Some (ss_id s), xc_operation_id = Some (oc_operation_id ctx),
            xc_cancellation = signal, xc_protection = prot\<rparr>)))) ctx signal)))))"

definition protected_failure_of :: "sandbox_error \<Rightarrow> sandbox_error" where
  "protected_failure_of e =
     (if is_cancelled e then Raise (Builtin CancelledError) (pstr ''secret-bearing execute was cancelled'')
      else Raise (Session SessionFailed) (pstr ''secret-bearing execute failed with protected error data''))"

definition surface_primary :: "bool \<Rightarrow> bool \<Rightarrow> sandbox_error \<Rightarrow> sandbox_error" where
  "surface_primary unsafe with_secrets e =
     (if unsafe then protected_failure_of e
      else if is_cancelled e \<or> \<not> with_secrets \<or> is_sandbox_error e then e
      else Raise (Session SessionFailed) (pstr ''secret-bearing execute collaborator failed unexpectedly''))"

text \<open>
  What the first \<open>try\<close> ends with: the protection, when it got that far, and the outcome of the command.
  An interruption of the cleanup counts only when there was no error before.
\<close>

definition guarded_command ::
  "collaborators \<Rightarrow> session_execute_request \<Rightarrow> operation_context
     \<Rightarrow> (value_protection option \<times> execute_result result) sess" where
  "guarded_command co r ctx =
     act_bind (attempted (act_bind (lease_all ctx (op_cancellation r) (secret_refs (xe_secret_environment r)))
       (\<lambda>_. protection_of_leases))) (\<lambda>protected.
     case protected of
       Inl e \<Rightarrow> act_ret (None, Inl e)
     | Inr prot \<Rightarrow>
         act_bind (attempted (run_command co r ctx prot)) (\<lambda>outcome. act_ret (Some prot, outcome)))"

definition settle_outcome :: "execute_result result \<Rightarrow> bool result \<Rightarrow> execute_result result" where
  "settle_outcome outcome cleanup =
     (case outcome of
        Inl e \<Rightarrow> Inl e
      | Inr v \<Rightarrow> rbind cleanup (\<lambda>_. Inr v))"

definition raise_primary ::
  "session_execute_request \<Rightarrow> value_protection option \<Rightarrow> sandbox_error \<Rightarrow> 'a sess" where
  "raise_primary r protection e =
     act_bind (next_answer en_graphs en_graphs_update) (\<lambda>graph.
     let with_secrets = xe_secret_environment r \<noteq> [];
         unsafe = with_secrets \<and>
           (case protection of
              None \<Rightarrow> False
            | Some prot \<Rightarrow> exception_graph_contains_protected e prot graph)
     in act_lift (Inl (surface_primary unsafe with_secrets e)))"

definition after_cleanup ::
  "session_execute_request \<Rightarrow> operation_context \<Rightarrow> value_protection option \<Rightarrow> execute_result result \<Rightarrow> bool result
     \<Rightarrow> (execute_result \<times> revision) sess" where
  "after_cleanup r ctx protection outcome cleanup =
     (case settle_outcome outcome cleanup of
        Inl e \<Rightarrow> raise_primary r protection e
      | Inr v \<Rightarrow>
          if cleanup = Inr True
          then act_lift (throw (Secret SecretLeaseCleanupFailed) (pstr ''secret lease cleanup failed''))
          else
            act_bind (act_get ss_environment) (\<lambda>env.
            act_bind (act_lift (apply_environment_changes env (xs_environment_changes v))) (\<lambda>env'.
            act_bind (collaborate (act_ret stats_task) ctx (op_cancellation r)) (\<lambda>stats.
            act_bind (act_put (\<lambda>s. s\<lparr>ss_cwd := xs_resulting_cwd v, ss_environment := env'\<rparr>)) (\<lambda>_.
            act_ret (v, ws_revision stats))))))"

definition execute_action ::
  "collaborators \<Rightarrow> session_execute_request \<Rightarrow> operation_context \<Rightarrow> (execute_result \<times> revision) sess" where
  "execute_action co r ctx =
     act_bind (act_put (\<lambda>s. s\<lparr>ss_leases := []\<rparr>)) (\<lambda>_.
     act_bind (guarded_command co r ctx) (\<lambda>(protection, outcome).
     act_bind (attempted close_secret_leases) (after_cleanup r ctx protection outcome)))"

definition session_execute :: "collaborators \<Rightarrow> session_execute_request \<Rightarrow> session_execute_result sess" where
  "session_execute co r =
     act_bind (run_operation
       ((plain_operation EXECUTE (op_limits r) (request_signal (op_cancellation r)) False
           (execute_action co r))\<lparr>on_secret_refs := secret_refs (xe_secret_environment r)\<rparr>)) (\<lambda>(v, metadata).
     act_ret \<lparr>er_metadata = metadata, er_result = v\<rparr>)"

end
