(* ===== verification/Session_Http.thy ===== *)
theory Session_Http
  imports Session_Workspace
begin

text \<open>
  \<open>session/session.py\<close>: \<open>send_http\<close> and the gateway call behind it. The checks of types and of missing
  attributes are the types; what the gateway returns that is not a response is \<open>GatewayOther\<close>.
\<close>

section \<open>Detached copies\<close>

text \<open>A header that its constructor refuses gives \<open>None\<close>; a \<open>ValueError\<close> of it would not be caught, but it raises none.\<close>

definition snapshot_headers :: "http_header list \<Rightarrow> http_header list option result" where
  "snapshot_headers hs =
     (case rmap (\<lambda>h. http_header_new (hh_name h) (hh_value h)) hs of
        Inr copies \<Rightarrow> Inr (Some copies)
      | Inl e \<Rightarrow>
          if err_class e \<in> {Network OutboundHttpLimitExceeded, Network OutboundHttpRequestInvalid, Builtin TypeError}
          then Inr None else Inl e)"

definition request_copy_invalid :: sandbox_error where
  "request_copy_invalid = request_invalid (pstr ''outbound HTTP request is invalid'')"

definition snapshot_http_request :: "(pystr \<Rightarrow> bool) \<Rightarrow> http_request \<Rightarrow> http_request result" where
  "snapshot_http_request authority_ok r =
     rbind (snapshot_headers (hr_headers r)) (\<lambda>copied.
     case copied of
       None \<Rightarrow> Inl request_copy_invalid
     | Some headers \<Rightarrow>
         rbind (case hr_credential_route r of
                  None \<Rightarrow> Inr None
                | Some route \<Rightarrow> rbind (credential_route_new (route_value route)) (\<lambda>x. Inr (Some x))) (\<lambda>route.
         rbind (http_limits_new (hr_limits r)) (\<lambda>l.
         http_request_new authority_ok (hr_method r) (hr_url r) l headers (hr_body r) route)))"

definition copy_network_context :: "network_context \<Rightarrow> network_context result" where
  "copy_network_context c =
     rbind (policy_id_new (policy_id_value (hg_policy_id (nc_grant c)))) (\<lambda>policy.
     rbind (http_limits_new (hg_limits (nc_grant c))) (\<lambda>l.
     rbind (rmap (\<lambda>r. credential_route_new (route_value r)) (hg_credential_routes (nc_grant c))) (\<lambda>routes.
     rbind (http_grant_new ((nc_grant c)\<lparr>hg_policy_id := policy, hg_limits := l, hg_credential_routes := routes\<rparr>)) (\<lambda>g.
     network_context_new (c\<lparr>nc_grant := g\<rparr>)))))"

definition response_invalid :: sandbox_error where
  "response_invalid = Raise (Network OutboundHttpResponseInvalid) (pstr ''outbound HTTP response was invalid'')"

text \<open>\<open>_try_snapshot_outbound_http_response\<close> and its caller: a value the constructors refuse is an invalid response.\<close>

definition snapshot_http_response :: "gateway_reply \<Rightarrow> http_response result" where
  "snapshot_http_response reply =
     (case reply of
        GatewayRaises e \<Rightarrow> Inl e
      | GatewayOther \<Rightarrow> Inl response_invalid
      | GatewayResponds r \<Rightarrow>
          rbind (snapshot_headers (hs_headers r)) (\<lambda>copied.
          case copied of
            None \<Rightarrow> Inl response_invalid
          | Some headers \<Rightarrow>
              (case rbind (http_usage_new (hs_usage r)) (\<lambda>u. http_response_new (r\<lparr>hs_headers := headers, hs_usage := u\<rparr>)) of
                 Inr v \<Rightarrow> Inr v
               | Inl e \<Rightarrow> if err_class e \<in> {Builtin TypeError, Builtin ValueError} then Inl response_invalid else Inl e)))"

section \<open>Sanitized failures\<close>

definition gateway_failed_unexpectedly :: sandbox_error where
  "gateway_failed_unexpectedly = Raise (Network OutboundHttpGatewayFailed)
     (pstr ''outbound HTTP gateway failed unexpectedly'')"

definition sanitize_http_failure :: "sandbox_error \<Rightarrow> sandbox_error" where
  "sanitize_http_failure e =
     (case err_class e of
        Network OutboundHttpDenied \<Rightarrow>
          Raise (Network OutboundHttpDenied) (pstr ''outbound HTTP gateway denied the request'')
      | Network OutboundHttpLimitExceeded \<Rightarrow>
          Raise (Network OutboundHttpLimitExceeded) (pstr ''outbound HTTP gateway reported a limit violation'')
      | Network OutboundHttpRequestInvalid \<Rightarrow>
          Raise (Network OutboundHttpRequestInvalid) (pstr ''outbound HTTP gateway rejected the request'')
      | Network OutboundHttpResolutionFailed \<Rightarrow>
          Raise (Network OutboundHttpResolutionFailed) (pstr ''outbound HTTP destination resolution failed'')
      | Network OutboundHttpResponseInvalid \<Rightarrow> response_invalid
      | Network OutboundHttpTimeout \<Rightarrow>
          Raise (Network OutboundHttpTimeout) (pstr ''outbound HTTP gateway timed out'')
      | Network OutboundHttpTransportFailed \<Rightarrow>
          Raise (Network OutboundHttpTransportFailed) (pstr ''outbound HTTP transport failed'')
      | _ \<Rightarrow> gateway_failed_unexpectedly)"

text \<open>The \<open>except\<close> clauses of \<open>_send_outbound_http_safely\<close>, when the operation itself is not being cancelled.\<close>

definition gateway_failure :: "sandbox_error \<Rightarrow> sandbox_error" where
  "gateway_failure e =
     (if err_class e = Network OutboundHttpCancelled
      then Raise (Session SessionOperationCancelled) (pstr ''outbound HTTP operation was cancelled'')
      else if \<exists>n. err_class e = Network n \<and>
        (n \<in> {OutboundHttpDenied, OutboundHttpLimitExceeded, OutboundHttpRequestInvalid, OutboundHttpTimeout} \<or>
         is_gateway_failure n)
      then sanitize_http_failure e
      else gateway_failed_unexpectedly)"

definition gateway_call ::
  "collaborators \<Rightarrow> http_grant \<Rightarrow> http_request \<Rightarrow> network_context \<Rightarrow> http_response sess" where
  "gateway_call co g request context =
     act_bind (act_lift (snapshot_http_request (co_authority_ok co) request)) (\<lambda>q.
     act_bind (act_lift (copy_network_context context)) (\<lambda>ctx.
     act_bind (ask (RequestSent q ctx) en_gateway en_gateway_update) (\<lambda>reply.
     act_bind (act_lift (snapshot_http_response reply)) (\<lambda>response.
     act_bind (act_lift (grant_require_response g request response)) (\<lambda>_.
     act_ret response)))))"

definition send_http_safely ::
  "collaborators \<Rightarrow> http_grant \<Rightarrow> http_request \<Rightarrow> network_context \<Rightarrow> http_response sess" where
  "send_http_safely co g request context =
     act_bind (act_lift (snapshot_http_request (co_authority_ok co) request)) (\<lambda>q.
     act_bind (act_lift (copy_network_context context)) (\<lambda>ctx.
     act_catch (gateway_call co g q ctx) (\<lambda>e. act_lift (Inl (gateway_failure e)))))"

section \<open>The operation\<close>

definition http_settlement :: "rat \<Rightarrow> rat \<Rightarrow> rat" where
  "http_settlement original_deadline gateway_deadline =
     (let q = (original_deadline - gateway_deadline) / 4 in if q < 1 / 20 then q else 1 / 20)"

definition send_http_action ::
  "collaborators \<Rightarrow> http_grant \<Rightarrow> send_http_request \<Rightarrow> operation_context \<Rightarrow> (http_response \<times> revision) sess" where
  "send_http_action co g r ctx =
     (let c = NetworkSignal (op_cancellation r); deadline = oc_collaborator_deadline ctx in
      act_bind loop_time (\<lambda>t.
      let limit = t + seconds (hl_timeout_seconds (hr_limits (sh_request r)));
          gateway_deadline = (if limit < deadline then limit else deadline) in
      act_bind (act_get ss_id) (\<lambda>sid.
      act_bind (act_lift (network_context_new
        \<lparr>nc_session_id = sid, nc_operation_id = oc_operation_id ctx, nc_grant = g,
         nc_deadline = Finite gateway_deadline, nc_cancellation = True\<rparr>)) (\<lambda>context.
      act_bind (await_collaborator (act_ret (send_http_safely co g (sh_request r) context)) gateway_deadline c False
        (Some (http_settlement (oc_original_deadline ctx) gateway_deadline))) (\<lambda>response.
      act_bind (await_collaborator (act_ret stats_task) deadline c False None) (\<lambda>stats.
      act_ret (response, ws_revision stats)))))))"

definition session_send_http :: "collaborators \<Rightarrow> send_http_request \<Rightarrow> send_http_result sess" where
  "session_send_http co r =
     act_bind reject_non_running (\<lambda>_.
     act_bind (act_get ss_grant) (\<lambda>binding.
     case binding of
       None \<Rightarrow> act_lift (throw (Network OutboundHttpUnavailable)
         (pstr ''outbound HTTP is not enabled for this sandbox''))
     | Some g \<Rightarrow>
         act_bind (act_lift (grant_require_request g (sh_request r))) (\<lambda>_.
         act_bind (run_operation (plain_operation OUTBOUND_HTTP (op_limits r) (NetworkSignal (op_cancellation r)) False
           (send_http_action co g r))) (\<lambda>(v, metadata).
         act_ret \<lparr>sr_metadata = metadata, sr_response = v\<rparr>))))"

end
