(* ===== verification/Session_Lifecycle.thy ===== *)
theory Session_Lifecycle
  imports Session_Execute Session_Http
begin

text \<open>
  \<open>session/session.py\<close>: \<open>start\<close> and \<open>close\<close>. A close runs as a task of its own, which takes the gate when
  the operation that holds it is over; every caller of \<open>close\<close> waits for that task.
\<close>

section \<open>Starting\<close>

definition start_invalid :: "session_state \<Rightarrow> sandbox_error" where
  "start_invalid st = Raise (Session SessionStartInvalid)
     (pstr ''session cannot start from state '' @ pstr (session_state_value st))"

definition require_created :: "unit sess" where
  "require_created =
     act_bind (act_get ss_state) (\<lambda>st.
     act_lift (guard (st = CREATED) (start_invalid st)))"

definition start_admission :: "unit sess" where
  "start_admission =
     act_bind (next_answer en_gate en_gate_update) (\<lambda>(closing, reply).
     act_bind (await_point closing) (\<lambda>_.
     case reply of
       GateAcquired \<Rightarrow> act_put (\<lambda>s. s\<lparr>ss_gate := True\<rparr>)
     | GateTimedOut \<Rightarrow> act_lift (throw (Session SessionOperationTimeout) (pstr ''session startup timed out''))
     | GateInterrupted \<Rightarrow> act_lift (Inl cancelled_error)))"

text \<open>A failed or interrupted delivery of the start event fails the session, whatever its state has become.\<close>

definition start_body :: "rat \<Rightarrow> unit sess" where
  "start_body deadline =
     act_bind require_created (\<lambda>_.
     act_bind (new_event SANDBOX_STARTED None None []) (\<lambda>e.
     act_bind (act_catch (emit_event False e deadline False)
       (\<lambda>error. act_bind (act_put fail_session) (\<lambda>_. act_lift (Inl error)))) (\<lambda>_.
     act_put (\<lambda>s. if ss_state s = CREATED then s\<lparr>ss_state := RUNNING\<rparr> else s))))"

definition session_start :: "unit sess" where
  "session_start =
     act_bind require_created (\<lambda>_.
     act_bind loop_time (\<lambda>t.
     act_bind (act_get ss_lifecycle_limits) (\<lambda>l.
     let deadline = t + seconds (timeout_seconds l) in
     act_bind start_admission (\<lambda>_.
     act_finally (start_body deadline) release_gate))))"

section \<open>Closing\<close>

text \<open>
  \<open>_await_close_resource\<close>: the scope's close under what is left of the budget. A close that does not end in
  time is cancelled and awaited.
\<close>

definition close_timed_out :: sandbox_error where
  "close_timed_out = Raise (Session SessionCloseTimeout) (pstr ''session close exceeded its cleanup budget'')"

definition await_close_resource :: "rat \<Rightarrow> unit sess" where
  "await_close_resource deadline =
     act_bind loop_time (\<lambda>t.
     act_bind (next_answer en_resource en_resource_update) (\<lambda>reply.
     if deadline - t \<le> 0 then act_lift (Inl close_timed_out)
     else
       (case reply of
          ResourceClosed \<Rightarrow> act_ret ()
        | ResourceRaises e \<Rightarrow>
            act_lift (Inl
              (if err_class e = Builtin TimeoutError then close_timed_out
               else if is_cancelled e then e
               else Raise (Session SessionCleanupFailed) (pstr ''session resource cleanup failed''))))))"

definition emit_lifecycle :: "event_type \<Rightarrow> rat \<Rightarrow> unit sess" where
  "emit_lifecycle ty deadline = emit_new False ty None None [] deadline True"

definition first_error :: "sandbox_error option list \<Rightarrow> sandbox_error option" where
  "first_error es = (case concat (map (\<lambda>e. case e of None \<Rightarrow> [] | Some x \<Rightarrow> [x]) es) of [] \<Rightarrow> None | e # _ \<Rightarrow> Some e)"

definition close_body :: "unit sess" where
  "close_body =
     act_bind loop_time (\<lambda>t.
     act_bind (act_get ss_lifecycle_limits) (\<lambda>l.
     let deadline = t + seconds (timeout_seconds l);
         collaborator_deadline = deadline - seconds (terminal_event_reserve_seconds l) in
     act_bind (try_sandbox (emit_lifecycle SANDBOX_CLOSING collaborator_deadline)) (\<lambda>e1.
     act_bind (try_sandbox (await_close_resource collaborator_deadline)) (\<lambda>e2.
     act_bind (act_put (\<lambda>s. s\<lparr>ss_state := CLOSED\<rparr>)) (\<lambda>_.
     act_bind (try_sandbox (emit_lifecycle SANDBOX_CLOSED deadline)) (\<lambda>e3.
     case first_error [e1, e2, e3] of None \<Rightarrow> act_ret () | Some e \<Rightarrow> act_lift (Inl e)))))))"

definition close_once :: "unit sess" where
  "close_once =
     act_bind (act_put (\<lambda>s. s\<lparr>ss_gate := True\<rparr>)) (\<lambda>_.
     act_finally close_body (\<lambda>s. release_gate (s\<lparr>ss_state := CLOSED\<rparr>)))"

text \<open>The close task, when it gets the gate: it ends once.\<close>

definition run_close_task :: "unit sess" where
  "run_close_task =
     act_bind (attempted close_once) (\<lambda>outcome.
     act_put (\<lambda>s. s\<lparr>ss_close_task := CloseFinished (case outcome of Inl e \<Rightarrow> Some e | Inr _ \<Rightarrow> None)\<rparr>))"

text \<open>
  \<open>close\<close>, with whether the wait was interrupted: the task is awaited once more, then the interruption is
  raised. A caller that finds the task done returns; one that waited for it gets its error.
\<close>

definition session_close :: "bool \<Rightarrow> unit sess" where
  "session_close interrupted =
     act_bind (act_get (\<lambda>s. (ss_close_task s, ss_state s))) (\<lambda>(task, st).
     act_bind (act_put close_call) (\<lambda>_.
     case task of
       CloseFinished _ \<Rightarrow> act_ret ()
     | _ \<Rightarrow>
         if task = NoCloseTask \<and> st = CLOSED then act_ret ()
         else
           act_bind run_close_task (\<lambda>_.
           act_bind (act_get ss_close_task) (\<lambda>ended.
           if interrupted then act_lift (Inl cancelled_error)
           else (case ended of CloseFinished (Some e) \<Rightarrow> act_lift (Inl e) | _ \<Rightarrow> act_ret ())))))"

end
