(* ===== verification/Session_Effects.thy ===== *)
theory Session_Effects
  imports Session_Lifecycle Command_Effects
begin

text \<open>
  What the steps of a session keep. The interface is a relation between the sessions before and after a
  step: which events it is about (by their operation), which calls, whether it allows the workspace to
  change or leases to be held. It then holds for every operation made of such steps.
\<close>

abbreviation keeping :: "('s \<Rightarrow> 's \<Rightarrow> bool) \<Rightarrow> ('s, 'e, 'a) action \<Rightarrow> bool" where
  "keeping K m \<equiv> ensures K (\<lambda>_. True) m"

text \<open>All of a session but its environment.\<close>

definition inner where
  "inner s = (ss_id s, ss_state s, ss_cwd s, ss_environment s, ss_lifecycle_limits s, ss_grant s, ss_gate s,
     ss_event_sequence s, ss_close_task s, ss_network_close s, ss_workspace s, ss_leases s, ss_events s, ss_calls s)"

lemma inner_env [simp]:
  "inner (en_times_update f1 s) = inner s" "inner (en_clock_update f2 s) = inner s"
  "inner (en_uuids_update f3 s) = inner s" "inner (en_signals_update f4 s) = inner s"
  "inner (en_polls_update f5 s) = inner s" "inner (en_settles_update f6 s) = inner s"
  "inner (en_sink_update f7 s) = inner s" "inner (en_policy_update f8 s) = inner s"
  "inner (en_leases_update f9 s) = inner s" "inner (en_gateway_update f10 s) = inner s"
  "inner (en_saves_update f11 s) = inner s" "inner (en_loads_update f12 s) = inner s"
  "inner (en_graphs_update f13 s) = inner s" "inner (en_readings_update f14 s) = inner s"
  "inner (en_gate_update f15 s) = inner s" "inner (en_resource_update f16 s) = inner s"
  by (simp_all add: inner_def)

section \<open>What an emission changes\<close>

definition next_sequence :: "session \<Rightarrow> session" where
  "next_sequence s = s\<lparr>ss_event_sequence := ss_event_sequence s + 1\<rparr>"

definition log_event :: "sandbox_event \<Rightarrow> bool \<Rightarrow> session \<Rightarrow> session" where
  "log_event e ok s = s\<lparr>ss_events := ss_events s @ [(e, ok)]\<rparr>"

lemma new_event_changes:
  assumes "new_event ty oid kind attributes s = (r, s')"
  shows "s' = en_clock_update stl (next_sequence s)"
    and "r = Inr e \<Longrightarrow> ev_operation_id e = oid \<and> ev_sequence e = ss_event_sequence s + 1 \<and>
       ev_session_id e = ss_id s \<and> ev_type e = ty \<and> ev_operation_kind e = kind"
proof -
  let ?e = "\<lparr>ev_type = ty, ev_occurred_at = shd (en_clock s), ev_session_id = ss_id s,
        ev_sequence = ss_event_sequence s + 1, ev_operation_id = oid, ev_parent_operation_id = None,
        ev_operation_kind = kind, ev_attributes = attributes\<rparr>"
  have s': "s' = en_clock_update stl (next_sequence s)" and "r = sandbox_event_new ?e"
    using assms
    by (auto simp: new_event_def next_answer_def act_bind_def next_sequence_def act_simps)
  then show "s' = en_clock_update stl (next_sequence s)" by simp
  show "r = Inr e \<Longrightarrow> ev_operation_id e = oid \<and> ev_sequence e = ss_event_sequence s + 1 \<and>
       ev_session_id e = ss_id s \<and> ev_type e = ty \<and> ev_operation_kind e = kind"
    using \<open>r = sandbox_event_new ?e\<close> by (auto simp: sandbox_event_new_def ok_iff)
qed

lemma emit_event_eq:
  "emit_event shielded e d ct s =
     (if d - shd (en_times s) \<le> 0 then (Inl (event_timeout ct), en_times_update stl s)
      else (case await_sink shielded e (en_times_update stl s) of
        (Inr u, t) \<Rightarrow> (Inr u, t)
      | (Inl error, t) \<Rightarrow>
          (Inl (if err_class error = Builtin TimeoutError then event_timeout ct
            else if is_cancelled error then error
            else Raise (Session SessionEventDeliveryFailed)
              (pstr ''required event delivery failed for '' @ pstr (event_type_value (ev_type e)))), t)))"
  by (simp only: emit_event_def next_answer_def act_bind_def act_catch_def act_lift_def prod.case sum.case
      if_distrib [where f = "\<lambda>m. m _"] split: if_split)

lemma await_sink_changes:
  assumes "await_sink shielded e s = (r, s')"
  obtains ok b where "inner s' = inner (log_event e ok (if b then close_call s else s))" "isl r \<longleftrightarrow> \<not> ok"
proof -
  define a where "a = shd (en_sink s)"
  define ok where "ok \<longleftrightarrow> \<not> (an_interrupted a \<and> \<not> shielded) \<and> an_reply a = SinkAccepts"
  define t where "t = en_sink_update stl s"
  have "s' = log_event e ok (if an_closing a then close_call t else t)" and "isl r \<longleftrightarrow> \<not> ok"
    using assms
    by (auto simp: await_sink_def await_point_def next_answer_def act_bind_def act_simps
        a_def ok_def t_def log_event_def Let_def split: if_splits sink_reply.splits)
  moreover have "inner (log_event e ok (if b then close_call t else t)) = inner (log_event e ok (if b then close_call s else s))" for b
    by (simp add: inner_def log_event_def close_call_def t_def Let_def)
  ultimately show thesis using that by metis
qed

lemma emit_event_changes:
  assumes "emit_event shielded e d ct s = (r, s')"
  shows "(isl r \<and> inner s' = inner s) \<or>
    (\<exists>ok b. inner s' = inner (log_event e ok (if b then close_call s else s)) \<and> (isl r \<longleftrightarrow> \<not> ok))"
proof (cases "d - shd (en_times s) \<le> 0")
  case True
  then have "isl r" "s' = en_times_update stl s" using assms unfolding emit_event_eq if_P [OF True] by auto
  then show ?thesis by simp
next
  case False
  let ?t = "en_times_update stl s"
  obtain out where sink: "await_sink shielded e ?t = (out, s')" and "isl r = isl out"
    using assms unfolding emit_event_eq if_not_P [OF False] by (auto split: prod.splits sum.splits)
  from sink obtain ok b where "inner s' = inner (log_event e ok (if b then close_call ?t else ?t))" "isl out \<longleftrightarrow> \<not> ok"
    by (rule await_sink_changes)
  moreover have "inner (log_event e ok (if b then close_call ?t else ?t)) = inner (log_event e ok (if b then close_call s else s))"
    by (simp add: inner_def log_event_def close_call_def Let_def)
  ultimately show ?thesis using \<open>isl r = isl out\<close> by metis
qed

lemma emit_new_cases [consumes 1, case_names failed logged]:
  assumes "emit_new shielded ty oid kind attributes d ct s = (r, s')"
  obtains "isl r" "inner s' = inner (next_sequence s)"
  | e ok b where "inner s' = inner (let t = log_event e ok (next_sequence s) in if b then close_call t else t)"
      "isl r \<longleftrightarrow> \<not> ok" "ev_operation_id e = oid" "ev_sequence e = ss_event_sequence s + 1"
      "ev_session_id e = ss_id s" "ev_type e = ty" "ev_operation_kind e = kind"
proof (cases "new_event ty oid kind attributes s")
  case (Pair out s1)
  note new = new_event_changes [OF Pair]
  have same: "inner s1 = inner (next_sequence s)" using new(1) by simp
  show thesis
  proof (cases out)
    case (Inl x)
    then have "r = Inl x" "s' = s1" using assms Pair by (simp_all add: emit_new_def act_bind_def)
    then show thesis using that(1) same by simp
  next
    case (Inr e)
    then have "emit_event shielded e d ct s1 = (r, s')" using assms Pair by (simp add: emit_new_def act_bind_def)
    from emit_event_changes [OF this] show thesis
    proof (elim disjE exE conjE)
      assume "isl r" "inner s' = inner s1"
      then show thesis using that(1) same by simp
    next
      fix ok b
      assume "inner s' = inner (log_event e ok (if b then close_call s1 else s1))" and "isl r \<longleftrightarrow> \<not> ok"
      moreover have "inner (log_event e ok (if b then close_call s1 else s1)) =
        inner (let t = log_event e ok (next_sequence s) in if b then close_call t else t)"
        using new(1) by (simp add: inner_def log_event_def close_call_def next_sequence_def Let_def)
      ultimately show thesis using that(2) new(2) [OF Inr] by metis
    qed
  qed
qed

section \<open>Steps that keep a relation\<close>

locale session_steps = kept_relation K for K :: "session \<Rightarrow> session \<Rightarrow> bool" +
  fixes emits :: "operation_id option \<Rightarrow> bool" and asks :: "session_call \<Rightarrow> bool"
  assumes quiet: "inner s' = inner s \<Longrightarrow> K s s'"
    and closes: "K s (close_call s)"
    and fails: "K s (fail_session s)"
    and gates: "K s (s\<lparr>ss_gate := g\<rparr>)"
    and bumps: "K s (s\<lparr>ss_event_sequence := ss_event_sequence s + 1\<rparr>)"
    and logs: "emits (ev_operation_id e) \<Longrightarrow> ev_sequence e = ss_event_sequence s + 1 \<Longrightarrow> ev_session_id e = ss_id s \<Longrightarrow>
      K s (s\<lparr>ss_event_sequence := ss_event_sequence s + 1, ss_events := ss_events s @ [(e, ok)]\<rparr>)"
    and noting: "asks c \<Longrightarrow> K s (s\<lparr>ss_calls := ss_calls s @ [c]\<rparr>)"
begin

lemma keepsD: "keeping K m \<Longrightarrow> m s = (x, s') \<Longrightarrow> K s s'"
  unfolding ensures_def by (metis snd_conv)

lemma keeps_put: "(\<And>s. K s (f s)) \<Longrightarrow> keeping K (act_put f)"
  by (simp add: ensures_def act_put_def)

lemma keeps_get: "keeping K (act_get f)"
  by (simp add: ensures_get)

lemma keeps_ret: "keeping K (act_ret x)"
  by (simp add: ensures_ret)

lemma keeps_lift: "keeping K (act_lift m)"
  by (simp add: ensures_lift returns_def)

lemma keeps_bind: "keeping K m \<Longrightarrow> (\<And>x. keeping K (f x)) \<Longrightarrow> keeping K (act_bind m f)"
  by (rule ensures_bind)

lemma keeps_catch: "keeping K m \<Longrightarrow> (\<And>e. keeping K (h e)) \<Longrightarrow> keeping K (act_catch m h)"
  by (rule ensures_catch)

lemma keeps_if: "(b \<Longrightarrow> keeping K m) \<Longrightarrow> (\<not> b \<Longrightarrow> keeping K m') \<Longrightarrow> keeping K (if b then m else m')"
  by simp

lemma keeps_finally: "keeping K m \<Longrightarrow> (\<And>s. K s (f s)) \<Longrightarrow> keeping K (act_finally m f)"
  by (auto simp: ensures_def act_finally_def split_beta intro: trans)

lemma keeps_attempt: "keeping K m \<Longrightarrow> keeping K (attempted m)"
  by (simp add: ensures_def attempted_def split_beta)

lemma keeps_aside: "keeping K m \<Longrightarrow> keeping K (run_aside m)"
  by (simp add: ensures_def run_aside_def)

lemma keeps_next: "(\<And>s. inner (upd stl s) = inner s) \<Longrightarrow> keeping K (next_answer get upd)"
  by (simp add: ensures_def next_answer_def quiet)

lemmas keeps_rules = keeps_ret keeps_get keeps_lift keeps_bind keeps_if keeps_catch

lemma keeps_time: "keeping K loop_time"
  by (rule keeps_next) simp

lemma keeps_clock: "keeping K clock_now"
  by (rule keeps_next) simp

lemma keeps_await_point: "keeping K (await_point b)"
  unfolding await_point_def by (rule keeps_put) (simp add: closes refl)

lemma keeps_reject: "keeping K reject_non_running"
  unfolding reject_non_running_def by (intro keeps_rules) (simp split: option.split add: keeps_rules)

lemma keeps_remaining: "keeping K (remaining d)"
  unfolding remaining_def by (intro keeps_rules keeps_time)

lemma keeps_signal: "keeping K (signal_set c)"
  unfolding signal_set_def read_signal_def
  by (cases c) (auto intro!: keeps_rules keeps_next)

lemma keeps_check: "keeping K (check_cooperative_cancellation c)"
  unfolding check_cooperative_cancellation_def by (intro keeps_rules keeps_signal)

lemma keeps_poll: "keeping K (poll_loop d c ps)"
proof (induction ps)
  case Nil
  then show ?case unfolding poll_loop.simps by (rule keeps_ret)
next
  case (Cons p ps)
  then show ?case
    by (cases "pl_event p")
      (auto intro!: keeps_rules keeps_signal keeps_time keeps_await_point)
qed

lemma keeps_acquire: "keeping K (acquire_operation_gate d c)"
proof -
  have "keeping K (acquire_loop d c ps)" for ps
  proof (induction ps)
    case Nil
    then show ?case
      by (auto simp: acquire_attempt_def intro!: keeps_rules keeps_check keeps_time keeps_put gates)
  next
    case (Cons p ps)
    then show ?case
      by (cases "pl_event p")
        (auto simp: acquire_attempt_def intro!: keeps_rules keeps_check keeps_time keeps_await_point keeps_put gates)
  qed
  then show ?thesis
    unfolding acquire_operation_gate_def by (intro keeps_bind keeps_next) simp_all
qed

lemma keeps_settle: "keeping K task \<Longrightarrow> keeping K (settle_cancelled task budget)"
  unfolding settle_cancelled_def
  by (intro keeps_rules keeps_next keeps_await_point keeps_put keeps_aside)
    (auto simp: fail_closed_def refl fails [unfolded fail_session_def])

lemma keeps_interrupted_task:
  assumes "keeping K task"
  shows "keeping K (\<lambda>s. case task s of
    (Inr v, s') \<Rightarrow> if authoritative then (Inr v, s') else (Inl e, s') | (Inl e', s') \<Rightarrow> (Inl e, s'))"
  using assms by (auto simp: ensures_def split: prod.splits sum.splits) (metis snd_conv)+

lemma keeps_outcome: "keeping K task \<Longrightarrow> keeping K (wait_outcome task d c authoritative budget ending)"
  by (cases ending)
    (auto simp: wait_outcome_def intro!: keeps_rules keeps_settle keeps_remaining keeps_check keeps_interrupted_task)

lemma keeps_collaborator:
  assumes "ensures K (keeping K) factory"
  shows "keeping K (await_collaborator factory d c authoritative budget)"
  unfolding await_collaborator_def
  by (intro keeps_bind keeps_remaining keeps_check ensures_bind [OF assms] keeps_next keeps_poll keeps_outcome) simp_all

lemma keeps_collaborator_ret: "keeping K task \<Longrightarrow> keeping K (await_collaborator (act_ret task) d c authoritative budget)"
  by (rule keeps_collaborator) (simp add: ensures_ret)

lemma keeps_emit_new:
  assumes "emits oid"
  shows "keeping K (emit_new shielded ty oid kind attributes d ct)"
proof -
  have "K s s'" if "emit_new shielded ty oid kind attributes d ct s = (r, s')" for s r s'
    using that
  proof (cases rule: emit_new_cases)
    case failed
    have "K s (next_sequence s)" unfolding next_sequence_def by (rule bumps)
    then show ?thesis using quiet [OF failed(2)] by (rule trans)
  next
    case (logged e ok b)
    then have "K s (log_event e ok (next_sequence s))"
      using logs [of e s ok] assms by (simp add: log_event_def next_sequence_def)
    moreover have "K t (if b then close_call t else t)" for t by (simp add: closes refl)
    ultimately have "K s (let t = log_event e ok (next_sequence s) in if b then close_call t else t)"
      unfolding Let_def by (rule trans)
    then show ?thesis using quiet [OF logged(1)] by (rule trans)
  qed
  then show ?thesis unfolding ensures_def by (metis prod.collapse)
qed

lemma keeps_try: "keeping K m \<Longrightarrow> keeping K (try_sandbox m)"
  unfolding try_sandbox_def by (intro keeps_rules)

lemma keeps_failed_lifecycle: "emits None \<Longrightarrow> keeping K emit_failed_lifecycle"
  unfolding emit_failed_lifecycle_def by (intro keeps_rules keeps_time keeps_try keeps_emit_new)

lemma keeps_terminal: "emits (Some oid) \<Longrightarrow> keeping K (emit_terminal shielded ty kind oid d as)"
  unfolding emit_terminal_def by (rule keeps_emit_new)

section \<open>Operations\<close>

lemma keeps_policy_task: "(\<And>q a. asks (PolicyAsked q a)) \<Longrightarrow> ensures K (keeping K) (policy_evaluate q)"
  unfolding policy_evaluate_def
  by (rule ensures_bind_lift, rule ensures_ret, intro keeps_bind keeps_next)
    (auto simp: note_call_def intro!: keeps_put noting keeps_rules split: policy_reply.split)

lemma keeps_admission: "(\<And>q a. asks (PolicyAsked q a)) \<Longrightarrow> keeping K (admit_by_policy p n oid d)"
  unfolding admit_by_policy_def
  by (intro keeps_rules keeps_remaining keeps_collaborator keeps_policy_task)

lemma keeps_begin: "(\<And>o'. emits o') \<Longrightarrow> keeping K (on_normalize p) \<Longrightarrow> keeping K (begin_operation p d)"
  unfolding begin_operation_def
  by (intro keeps_rules keeps_reject keeps_check keeps_clock keeps_next keeps_emit_new) simp_all

lemma keeps_post_commit: "(\<And>o'. emits o') \<Longrightarrow> keeping K (emit_post_commit p oid d v r)"
  unfolding emit_post_commit_def
  by (cases "on_post_commit p") (auto intro!: keeps_rules keeps_emit_new)

lemma keeps_report: "(\<And>o'. emits o') \<Longrightarrow> keeping K (report_failure kind oid d e)"
  unfolding report_failure_def by (intro keeps_rules keeps_try keeps_terminal)

lemma keeps_perform:
  assumes "\<And>o'. emits o'" and "\<And>q a. asks (PolicyAsked q a)" and "\<And>n ctx. keeping K (on_action p n ctx)"
  shows "keeping K (perform_operation p t n oid began)"
  unfolding perform_operation_def Let_def
  by (intro keeps_bind keeps_admission keeps_remaining)
    (auto intro!: keeps_rules keeps_admission keeps_remaining keeps_clock keeps_post_commit assms)

lemma keeps_body:
  assumes "\<And>o'. emits o'" and "\<And>q a. asks (PolicyAsked q a)" and "keeping K (on_normalize p)"
    and "\<And>n ctx. keeping K (on_action p n ctx)"
  shows "keeping K (operation_body p t)"
  unfolding operation_body_def Let_def
  by (auto intro!: keeps_rules keeps_begin keeps_perform keeps_report keeps_terminal assms)

lemma keeps_run:
  assumes "\<And>o'. emits o'" and "\<And>q a. asks (PolicyAsked q a)" and "keeping K (on_normalize p)"
    and "\<And>n ctx. keeping K (on_action p n ctx)"
  shows "keeping K (run_operation p)"
  unfolding run_operation_def
  by (intro keeps_bind keeps_reject keeps_time keeps_acquire keeps_finally keeps_body assms)
    (simp add: release_gate_def gates)

lemma keeps_resolve: "keeping K (session_resolve v)"
  unfolding session_resolve_def by (intro keeps_rules)

lemma keeps_expected: "keeping K (expected_hash_list items)"
proof (induction items)
  case Nil
  show ?case unfolding expected_hash_list.simps by (rule keeps_ret)
next
  case (Cons item items)
  have "keeping K (expected_hash item)"
    unfolding expected_hash_def by (cases item) (auto intro!: keeps_rules keeps_resolve)
  then show ?case using Cons unfolding expected_hash_list.simps by (intro keeps_rules)
qed

end

section \<open>Starting and closing\<close>

locale session_starting = session_steps +
  assumes states: "st \<noteq> CLOSED \<Longrightarrow> K s (s\<lparr>ss_state := st\<rparr>)"
    and emits_lifecycle: "emits None"
begin

lemma keeps_created: "keeping K require_created"
  unfolding require_created_def by (intro keeps_rules)

text \<open>An emission whose failure is handled.\<close>

lemma keeps_emission_handled:
  assumes "\<And>e. keeping K (h e)" and "\<And>u. keeping K (g u)"
  shows "keeping K (act_bind (new_event ty None None []) (\<lambda>e. act_bind (act_catch (emit_event sh e d ct) h) g))"
proof -
  have "K s s'" if run: "act_bind (new_event ty None None []) (\<lambda>e. act_bind (act_catch (emit_event sh e d ct) h) g) s = (r, s')"
    for s r s'
  proof (cases "new_event ty None None [] s")
    case (Pair out s1)
    show ?thesis
    proof (cases out)
      case (Inl x)
      then have "emit_new sh ty None None [] d ct s = (Inl x, s1)" "s' = s1"
        using run Pair by (simp_all add: emit_new_def act_bind_def)
      then show ?thesis using keeps_emit_new [OF emits_lifecycle] unfolding ensures_def by (metis snd_conv)
    next
      case (Inr e)
      obtain r2 s2 where emit: "emit_event sh e d ct s1 = (r2, s2)" by fastforce
      then have "emit_new sh ty None None [] d ct s = (r2, s2)" using Pair Inr by (simp add: emit_new_def act_bind_def)
      then have s2: "K s s2" using keeps_emit_new [OF emits_lifecycle] unfolding ensures_def by (metis snd_conv)
      have "act_bind (act_catch (\<lambda>_. (r2, s2)) h) g s1 = (r, s')"
        using run Pair Inr emit by (simp add: act_bind_def act_catch_def)
      then have "act_bind (act_catch (Pair r2) h) g s2 = (r, s')" by (simp add: act_bind_def act_catch_def)
      moreover have "keeping K (act_bind (act_catch (Pair r2) h) g)"
        by (intro keeps_bind keeps_catch assms ensures_pair) (simp add: returns_def)
      ultimately have "K s2 s'" unfolding ensures_def by (metis snd_conv)
      then show ?thesis using s2 trans by blast
    qed
  qed
  then show ?thesis unfolding ensures_def by (metis prod.collapse)
qed

lemma keeps_admission_to_start: "keeping K start_admission"
  unfolding start_admission_def
  by (auto intro!: keeps_rules keeps_next keeps_await_point keeps_put gates split: gate_reply.split)

lemma keeps_start: "keeping K session_start"
proof -
  have body: "keeping K (start_body d)" for d
    unfolding start_body_def
    by (intro keeps_rules keeps_created keeps_emission_handled keeps_put) (simp_all add: fails states refl)
  show ?thesis
    unfolding session_start_def Let_def
    by (intro keeps_rules keeps_created keeps_time keeps_admission_to_start keeps_finally body)
      (simp add: release_gate_def gates)
qed

end

locale session_lifecycle = session_starting +
  assumes closed_state: "K s (s\<lparr>ss_state := CLOSED\<rparr>)"
    and close_tasks: "K s (s\<lparr>ss_close_task := c\<rparr>)"
begin

lemma keeps_close: "keeping K (session_close interrupted)"
proof -
  have resource: "keeping K (await_close_resource d)" for d
    unfolding await_close_resource_def
    by (auto intro!: keeps_rules keeps_time keeps_next split: resource_reply.split)
  have body: "keeping K close_body"
    unfolding close_body_def emit_lifecycle_def Let_def
    by (auto intro!: keeps_rules keeps_time keeps_try keeps_emit_new emits_lifecycle resource
        keeps_put closed_state split: option.split)
  have "K s (release_gate (s\<lparr>ss_state := CLOSED\<rparr>))" for s
    unfolding release_gate_def using trans closed_state gates by blast
  then have "keeping K run_close_task"
    unfolding run_close_task_def close_once_def
    by (intro keeps_rules keeps_attempt keeps_finally body keeps_put close_tasks gates)
  then show ?thesis
    unfolding session_close_def
    by (auto intro!: keeps_rules keeps_put closes split: close_task.split option.split)
qed

end

section \<open>Steps that change what a session holds\<close>

locale session_effects = session_steps +
  assumes works: "K s (s\<lparr>ss_workspace := w\<rparr>)"
    and moves: "K s (s\<lparr>ss_cwd := p, ss_environment := env\<rparr>)"
    and emits_none: "emits None"
    and stores: "asks (SnapshotSaved draft)" "asks (SnapshotLoaded r)"
begin

lemma keeps_ws_task: "keeping K (ws_task m)"
  by (simp add: ensures_def ws_task_def works split: prod.split)

lemma keeps_ws_query: "keeping K (ws_query f)"
  unfolding ws_query_def by (intro keeps_rules)

lemma keeps_stats: "keeping K stats_task"
  unfolding stats_task_def by (rule keeps_ws_query)

lemma keeps_collaborate: "ensures K (keeping K) f \<Longrightarrow> keeping K (collaborate f ctx b)"
  "ensures K (keeping K) f \<Longrightarrow> keeping K (collaborate_authoritative f ctx b)"
  by (simp_all add: collaborate_def collaborate_authoritative_def keeps_collaborator)

lemma keeps_collaborate_ret:
  "keeping K m \<Longrightarrow> keeping K (collaborate (act_ret m) ctx b)"
  "keeping K m \<Longrightarrow> keeping K (collaborate_authoritative (act_ret m) ctx b)"
  by (simp_all add: keeps_collaborate ensures_ret)

lemma factory_lift: "(\<And>x. keeping K (f x)) \<Longrightarrow> ensures K (keeping K) (act_bind (act_lift m) (\<lambda>x. act_ret (f x)))"
  by (rule ensures_bind_lift) (simp add: ensures_ret)

lemma keeps_mutation: "keeping K (mutation_action m ctx b)"
  unfolding mutation_action_def by (intro keeps_rules keeps_collaborate_ret keeps_ws_task)

lemma keeps_ask: "asks c \<Longrightarrow> (\<And>s. inner (upd stl s) = inner s) \<Longrightarrow> keeping K (ask c get upd)"
  unfolding ask_def note_call_def by (intro keeps_rules keeps_put keeps_next noting)

lemma keeps_stored: "keeping K (save_task d)" "keeping K (load_task r)"
  unfolding save_task_def load_task_def by (intro keeps_rules keeps_ask stores; simp)+

lemma keeps_snapshot_of: "keeping K (snapshot_of_session co data)"
  unfolding snapshot_of_session_def by (intro keeps_rules keeps_next keeps_clock) simp_all

lemma keeps_create_snapshot: "keeping K (create_snapshot_action co b ctx)"
  unfolding create_snapshot_action_def
  by (auto intro!: keeps_rules keeps_collaborate_ret keeps_ws_query keeps_remaining keeps_snapshot_of keeps_stored)

lemma keeps_publication:
  assumes "keeping K publish"
  shows "keeping K (finish_publication publish)" "keeping K (settle_publication publish e)"
    "keeping K (publish_despite publish)" "keeping K (interrupted_publication publish)"
proof -
  show finish: "keeping K (finish_publication publish)"
    unfolding finish_publication_def
    by (intro keeps_rules assms keeps_put fails keeps_failed_lifecycle emits_none)
  show despite: "keeping K (publish_despite publish)"
    unfolding publish_despite_def by (intro keeps_rules assms keeps_put) (simp add: fails refl)
  show "keeping K (settle_publication publish e)"
    unfolding settle_publication_def
    by (intro keeps_rules keeps_next keeps_await_point keeps_aside assms finish) simp
  show "keeping K (interrupted_publication publish)"
    unfolding interrupted_publication_def
    by (intro keeps_rules keeps_next keeps_await_point keeps_aside assms despite) simp
qed

lemma keeps_publish_action: "keeping K publish \<Longrightarrow> keeping K (publish_restore_action publish d c)"
  unfolding publish_restore_action_def
  by (intro keeps_bind keeps_remaining keeps_check keeps_next keeps_poll)
    (auto intro!: keeps_publication keeps_if split: loop_end.split)

lemma keeps_publish_task: "keeping K (publish_task candidate to)"
  unfolding publish_task_def
  by (intro keeps_rules keeps_ws_task keeps_put) (auto simp: refl moves split: option.split)

lemma keeps_restore_snapshot: "keeping K (restore_snapshot_action co r ctx)"
  unfolding restore_snapshot_action_def Let_def
  by (intro keeps_rules keeps_collaborate_ret keeps_stored keeps_remaining keeps_ws_task keeps_publish_action
      keeps_publish_task)

lemma keeps_restore_archive: "keeping K (restore_archive_action co data context expected ctx)"
  unfolding restore_archive_action_def require_unchanged_def
  by (auto intro!: keeps_rules keeps_collaborate keeps_collaborate_ret keeps_stats keeps_publish_action
      keeps_publish_task keeps_ws_task ensures_bind [where P = "\<lambda>_. True"] ensures_ret ensures_get
      split: option.split)

lemma keeps_entries:
  "keeping K (case entries of
     found # _ \<Rightarrow> act_ret (entries, we_revision found)
   | [] \<Rightarrow> act_bind (collaborate (act_ret stats_task) ctx b) (\<lambda>stats. act_ret (entries, ws_revision stats)))"
  by (cases entries) (auto intro!: keeps_rules keeps_collaborate_ret keeps_stats)

lemma factory_ret: "keeping K m \<Longrightarrow> ensures K (keeping K) (act_ret m)"
  by (simp add: ensures_ret)

lemmas keeps_actions = keeps_bind keeps_ret keeps_collaborate factory_ret factory_lift keeps_ws_query keeps_ws_task
  keeps_mutation keeps_entries keeps_create_snapshot keeps_restore_snapshot keeps_restore_archive

lemma keeps_primary: "keeping K (raise_primary r prot e)"
  unfolding raise_primary_def Let_def by (intro keeps_rules keeps_next) simp

lemma keeps_cleaned: "keeping K (after_cleanup r ctx prot outcome cleanup)"
proof (cases "settle_outcome outcome cleanup")
  case (Inl e)
  then show ?thesis unfolding after_cleanup_def by (simp add: keeps_primary)
next
  case (Inr v)
  show ?thesis
    unfolding after_cleanup_def Inr sum.case
    by (intro keeps_if keeps_lift keeps_bind keeps_get keeps_put keeps_ret moves keeps_collaborate factory_ret keeps_stats)
qed

end

section \<open>Executions and requests\<close>

locale session_leases = session_effects +
  assumes leases: "K s (s\<lparr>ss_leases := ls\<rparr>)"
    and leasing: "asks (LeaseAsked q)" "asks (LeaseClosed r)"
begin

lemma keeps_lease_task: "keeping K (lease_task q)"
  unfolding lease_task_def
  by (intro keeps_bind keeps_lift keeps_ask leasing)
    (auto split: lease_reply.split intro!: keeps_rules keeps_put leases)

lemma keeps_lease_all: "keeping K (lease_all ctx b rs)"
proof (induction rs)
  case Nil
  show ?case unfolding lease_all.simps by (rule keeps_ret)
next
  case (Cons r rs)
  then show ?case
    unfolding lease_all.simps
    by (intro keeps_rules keeps_remaining keeps_collaborate_ret keeps_lease_task)
qed

lemma close_lease_kept: "K s (close_lease l s)"
proof -
  let ?t = "s\<lparr>ss_leases := remove1 l (ss_leases s)\<rparr>"
  have "K ?t (?t\<lparr>ss_calls := ss_calls ?t @ [LeaseClosed (fst l)]\<rparr>)" by (intro noting leasing)
  with leases have "K s (?t\<lparr>ss_calls := ss_calls ?t @ [LeaseClosed (fst l)]\<rparr>)" by (rule trans)
  then show ?thesis unfolding close_lease_def Let_def using trans closes by simp
qed

lemma keeps_close_leases: "keeping K close_secret_leases"
proof -
  have "keeping K (close_leases ls f i)" for ls f i
  proof (induction ls arbitrary: f i)
    case Nil
    show ?case unfolding close_leases.simps by (intro keeps_rules)
  next
    case (Cons l ls)
    then show ?case unfolding close_leases.simps by (intro keeps_rules keeps_put close_lease_kept)
  qed
  then show ?thesis unfolding close_secret_leases_def by (intro keeps_rules)
qed

lemma execute_task_kept: "keeping K (execute_task co q ctx)"
proof -
  have "K s (snd (execute_task co q ctx s))" for s
  proof -
    obtain x t where t: "co_execute co q ctx \<lparr>es_workspace = ss_workspace s, es_readings = en_readings s\<rparr> = (x, t)"
      by fastforce
    have "K s (s\<lparr>ss_workspace := es_workspace t\<rparr>)" by (rule works)
    moreover have "inner (s\<lparr>ss_workspace := es_workspace t, en_readings := es_readings t\<rparr>) = inner (s\<lparr>ss_workspace := es_workspace t\<rparr>)"
      by (simp add: inner_def)
    ultimately have "K s (s\<lparr>ss_workspace := es_workspace t, en_readings := es_readings t\<rparr>)"
      using quiet trans by metis
    then show ?thesis using t by (simp add: execute_task_def)
  qed
  then show ?thesis by (simp add: ensures_def)
qed

lemma keeps_run_command: "keeping K (run_command co r ctx prot)"
  unfolding run_command_def Let_def
  by (intro keeps_bind keeps_get keeps_lift keeps_remaining keeps_collaborate)
    (intro ensures_bind [where P = "\<lambda>_. True"] ensures_ret keeps_get keeps_lift execute_task_kept)

lemma keeps_guarded_command: "keeping K (guarded_command co r ctx)"
  unfolding guarded_command_def protection_of_leases_def
  by (auto intro!: keeps_rules keeps_attempt keeps_lease_all keeps_run_command split: sum.split)

lemma keeps_execute: "keeping K (execute_action co r ctx)"
  unfolding execute_action_def
  by (auto intro!: keeps_rules keeps_put leases keeps_guarded_command keeps_attempt keeps_close_leases keeps_cleaned)

end

context session_effects
begin

text \<open>What is sent is a copy of a copy of the request.\<close>

lemma keeps_send_http:
  assumes "\<And>q q' c. snapshot_http_request (co_authority_ok co) (sh_request r) = Inr q \<Longrightarrow>
    snapshot_http_request (co_authority_ok co) q = Inr q' \<Longrightarrow> asks (RequestSent q' c)"
  shows "keeping K (send_http_action co g r ctx)"
proof -
  have call: "keeping K (gateway_call co g q c)"
    if "snapshot_http_request (co_authority_ok co) (sh_request r) = Inr q" for q c
    unfolding gateway_call_def
    by (rule ensures_bind_lift, intro keeps_bind keeps_lift keeps_ask keeps_ret assms [OF that]) simp_all
  have safely: "keeping K (send_http_safely co g (sh_request r) c)" for c
    unfolding send_http_safely_def
    by (rule ensures_bind_lift, intro keeps_bind keeps_lift keeps_catch call)
  show ?thesis
    unfolding send_http_action_def Let_def
    by (intro keeps_bind keeps_time keeps_get keeps_lift keeps_ret keeps_collaborator ensures_ret safely keeps_stats)
qed

end

end
