(* ===== verification/Session_Runs.thy ===== *)
theory Session_Runs
  imports Session_Effects
begin

text \<open>
  The public operations of a session as steps, runs of them, and the interpretations of
  \<open>Session_Effects\<close>: what no step changes, how the log of events grows, which events carry an operation,
  which calls a request leads to.
\<close>

datatype session_op =
    OpStart
  | OpClose bool
  | OpExecute session_execute_request
  | OpSendHttp send_http_request
  | OpReadFile read_file_request
  | OpWriteFile write_file_request
  | OpWriteBytes write_bytes_request
  | OpCreateDirectory create_directory_request
  | OpRemovePath remove_entry_request
  | OpApplyPatch apply_patch_request
  | OpReadBytes path_request
  | OpStat path_request
  | OpListEntries path_request
  | OpCreateSnapshot operation_options
  | OpRestoreSnapshot restore_snapshot_request
  | OpExportArchive
  | OpRestoreArchive archive_data "session_execution_context option" "revision option" "content_hash option"

definition void :: "'a sess \<Rightarrow> unit sess" where
  "void m = act_bind m (\<lambda>_. act_ret ())"

fun session_exec :: "collaborators \<Rightarrow> session_op \<Rightarrow> unit sess" where
  "session_exec co OpStart = session_start"
| "session_exec co (OpClose interrupted) = session_close interrupted"
| "session_exec co (OpExecute r) = void (session_execute co r)"
| "session_exec co (OpSendHttp r) = void (session_send_http co r)"
| "session_exec co (OpReadFile r) = void (session_read_file r)"
| "session_exec co (OpWriteFile r) = void (session_write_file r)"
| "session_exec co (OpWriteBytes r) = void (session_write_bytes r)"
| "session_exec co (OpCreateDirectory r) = void (session_create_directory r)"
| "session_exec co (OpRemovePath r) = void (session_remove_path r)"
| "session_exec co (OpApplyPatch r) = void (session_apply_patch co r)"
| "session_exec co (OpReadBytes r) = void (session_read_bytes r)"
| "session_exec co (OpStat r) = void (session_stat r)"
| "session_exec co (OpListEntries r) = void (session_list_entries r)"
| "session_exec co (OpCreateSnapshot r) = void (session_create_snapshot co r)"
| "session_exec co (OpRestoreSnapshot r) = void (session_restore_snapshot co r)"
| "session_exec co OpExportArchive = void (session_export_archive co)"
| "session_exec co (OpRestoreArchive data context r h) = session_restore_archive co data context r h"

definition session_run :: "collaborators \<Rightarrow> session_op list \<Rightarrow> session \<Rightarrow> session" where
  "session_run co ops s = fold (\<lambda>op s. snd (session_exec co op s)) ops s"

text \<open>The kind and the limits of an operation.\<close>

fun op_profile :: "session_op \<Rightarrow> (operation_kind \<times> operation_limits) option" where
  "op_profile OpStart = None"
| "op_profile (OpClose _) = None"
| "op_profile (OpExecute r) = Some (EXECUTE, op_limits r)"
| "op_profile (OpSendHttp r) = Some (OUTBOUND_HTTP, op_limits r)"
| "op_profile (OpReadFile r) = Some (READ_FILE, op_limits r)"
| "op_profile (OpWriteFile r) = Some (WRITE_FILE, op_limits r)"
| "op_profile (OpWriteBytes r) = Some (WRITE_BYTES, op_limits r)"
| "op_profile (OpCreateDirectory r) = Some (CREATE_DIRECTORY, op_limits r)"
| "op_profile (OpRemovePath r) = Some (REMOVE_PATH, op_limits r)"
| "op_profile (OpApplyPatch r) = Some (APPLY_PATCH, op_limits r)"
| "op_profile (OpReadBytes r) = Some (READ_BYTES, op_limits r)"
| "op_profile (OpStat r) = Some (STAT, op_limits r)"
| "op_profile (OpListEntries r) = Some (LIST_ENTRIES, op_limits r)"
| "op_profile (OpCreateSnapshot r) = Some (CREATE_SNAPSHOT, op_limits r)"
| "op_profile (OpRestoreSnapshot r) = Some (RESTORE_SNAPSHOT, op_limits r)"
| "op_profile OpExportArchive = Some (EXPORT_PORTABLE_ARCHIVE, default_operation_limits)"
| "op_profile (OpRestoreArchive _ _ _ _) = Some (RESTORE_PORTABLE_ARCHIVE, default_operation_limits)"

lemma ensured: "ensures K P m \<Longrightarrow> K s (snd (m s))"
  by (simp add: ensures_def)

section \<open>Operations behind their requests\<close>

definition error_of :: "'a result \<Rightarrow> sandbox_error option" where
  "error_of r = (case r of Inl e \<Rightarrow> Some e | Inr _ \<Rightarrow> None)"

lemma error_of_simps [simp]: "error_of (Inl e) = Some e" "error_of (Inr x) = None"
  by (simp_all add: error_of_def)

text \<open>What is done with the outcome of an operation touches the session no more.\<close>

lemma act_bind_ret:
  "snd (act_bind m (\<lambda>x. act_ret (f x)) s) = snd (m s)"
  "error_of (fst (act_bind m (\<lambda>x. act_ret (f x)) s)) = error_of (fst (m s))"
  by (cases "m s"; cases "fst (m s)"; force simp: act_bind_def)+

lemma act_bind_ret_pair:
  "snd (act_bind m (\<lambda>(x, y). act_ret (f x y)) s) = snd (m s)"
  "error_of (fst (act_bind m (\<lambda>(x, y). act_ret (f x y)) s)) = error_of (fst (m s))"
  by (cases "m s"; cases "fst (m s)"; force simp: act_bind_def)+

lemma void_same: "snd (void m s) = snd (m s)" "error_of (fst (void m s)) = error_of (fst (m s))"
  unfolding void_def by (rule act_bind_ret)+

text \<open>
  A property of what an operation does to a session, and of its error if it raised one, that holds when nothing
  is done and an error is raised.
\<close>

lemma bind_lift_cases:
  assumes "\<And>x. m = Inr x \<Longrightarrow> Q (error_of (fst (f x s))) (snd (f x s))" and "\<And>e. Q (Some e) s"
  shows "Q (error_of (fst (act_bind (act_lift m) f s))) (snd (act_bind (act_lift m) f s))"
  using assms by (cases m) auto

lemma reject_cases: "reject_non_running s = (Inr (), s) \<and> ss_state s = RUNNING \<or> (\<exists>e. reject_non_running s = (Inl e, s) \<and> ss_state s \<noteq> RUNNING)"
  by (cases "ss_state s") (simp_all add: reject_non_running_def session_state_error_def act_bind_def act_simps)

locale operation_property =
  fixes Q :: "session \<Rightarrow> operation_kind \<Rightarrow> operation_limits \<Rightarrow> sandbox_error option \<Rightarrow> session \<Rightarrow> bool"
  assumes refused: "\<And>s k l e. Q s k l (Some e) s"
begin

lemma of_send_http:
  assumes "\<And>g. Q s OUTBOUND_HTTP (op_limits r)
    (error_of (fst (run_operation (plain_operation OUTBOUND_HTTP (op_limits r) (NetworkSignal (op_cancellation r)) False
       (send_http_action co g r)) s)))
    (snd (run_operation (plain_operation OUTBOUND_HTTP (op_limits r) (NetworkSignal (op_cancellation r)) False
       (send_http_action co g r)) s))"
  shows "Q s OUTBOUND_HTTP (op_limits r) (error_of (fst (session_send_http co r s))) (snd (session_send_http co r s))"
proof -
  consider "reject_non_running s = (Inr (), s)" | e where "reject_non_running s = (Inl e, s)"
    using reject_cases by blast
  then show ?thesis
  proof cases
    case 1
    show ?thesis
    proof (cases "ss_grant s")
      case None
      then show ?thesis using 1 refused by (simp add: session_send_http_def act_bind_def act_simps)
    next
      case (Some g)
      have "session_send_http co r s =
        act_bind (act_lift (grant_require_request g (sh_request r))) (\<lambda>_.
         act_bind (run_operation (plain_operation OUTBOUND_HTTP (op_limits r) (NetworkSignal (op_cancellation r)) False
           (send_http_action co g r))) (\<lambda>(v, metadata).
         act_ret \<lparr>sr_metadata = metadata, sr_response = v\<rparr>)) s"
        using 1 Some by (simp add: session_send_http_def act_bind_def act_simps)
      then show ?thesis
        using assms [of g] refused
        by (simp only:) (rule bind_lift_cases, simp_all only: act_bind_ret_pair)
    qed
  next
    case 2
    then show ?thesis using refused by (simp add: session_send_http_def act_bind_def)
  qed
qed

lemma of_write_file:
  assumes "\<And>content. Q s WRITE_FILE (op_limits r)
    (error_of (fst (session_write WRITE_FILE (wf_path r) content (wf_precondition r) (wf_create_parents r) (op_limits r) (op_cancellation r) s)))
    (snd (session_write WRITE_FILE (wf_path r) content (wf_precondition r) (wf_create_parents r) (op_limits r) (op_cancellation r) s))"
  shows "Q s WRITE_FILE (op_limits r) (error_of (fst (session_write_file r s))) (snd (session_write_file r s))"
  unfolding session_write_file_def by (rule bind_lift_cases) (rule assms refused)+

lemma of_restore_archive:
  assumes "\<And>expected. Q s RESTORE_PORTABLE_ARCHIVE default_operation_limits
    (error_of (fst (run_operation (plain_operation RESTORE_PORTABLE_ARCHIVE default_operation_limits NoSignal True
       (restore_archive_action co data context expected)) s)))
    (snd (run_operation (plain_operation RESTORE_PORTABLE_ARCHIVE default_operation_limits NoSignal True
       (restore_archive_action co data context expected)) s))"
  shows "Q s RESTORE_PORTABLE_ARCHIVE default_operation_limits
    (error_of (fst (session_restore_archive co data context e_rev e_root s))) (snd (session_restore_archive co data context e_rev e_root s))"
  unfolding session_restore_archive_def Let_def
  by (rule bind_lift_cases) (simp_all only: act_bind_ret assms refused)

end

section \<open>What the log of events becomes\<close>

definition sequence :: "sandbox_event \<times> bool \<Rightarrow> int" where
  "sequence x = ev_sequence (fst x)"

text \<open>Events are only added, each with the session's identity and a sequence number of its own.\<close>

definition history_grows :: "session \<Rightarrow> session \<Rightarrow> bool" where
  "history_grows s s' \<longleftrightarrow>
     ss_id s' = ss_id s \<and> ss_grant s' = ss_grant s \<and> ss_lifecycle_limits s' = ss_lifecycle_limits s \<and>
     ss_event_sequence s \<le> ss_event_sequence s' \<and>
     (\<exists>new. ss_events s' = ss_events s @ new \<and> sorted_wrt (<) (map sequence new) \<and>
        (\<forall>x\<in>set new. ss_event_sequence s < sequence x \<and> sequence x \<le> ss_event_sequence s' \<and>
           ev_session_id (fst x) = ss_id s))"

lemma history_trans:
  assumes "history_grows s t" and "history_grows t u"
  shows "history_grows s u"
proof -
  from assms obtain new new' where
    new: "ss_events t = ss_events s @ new" "sorted_wrt (<) (map sequence new)"
      "\<forall>x\<in>set new. ss_event_sequence s < sequence x \<and> sequence x \<le> ss_event_sequence t \<and> ev_session_id (fst x) = ss_id s"
    and new': "ss_events u = ss_events t @ new'" "sorted_wrt (<) (map sequence new')"
      "\<forall>x\<in>set new'. ss_event_sequence t < sequence x \<and> sequence x \<le> ss_event_sequence u \<and> ev_session_id (fst x) = ss_id t"
    unfolding history_grows_def by blast
  have ids: "ss_id t = ss_id s" "ss_event_sequence s \<le> ss_event_sequence t" "ss_event_sequence t \<le> ss_event_sequence u"
    using assms by (simp_all add: history_grows_def)
  have "sorted_wrt (<) (map sequence (new @ new'))"
    using new(2,3) new'(2,3) unfolding map_append sorted_wrt_append by fastforce
  moreover have "ss_event_sequence s < sequence x \<and> sequence x \<le> ss_event_sequence u \<and> ev_session_id (fst x) = ss_id s"
    if "x \<in> set (new @ new')" for x
  proof (cases "x \<in> set new")
    case True
    then show ?thesis using new(3) ids by force
  next
    case False
    then have "x \<in> set new'" using that by simp
    then show ?thesis using new'(3) ids by force
  qed
  moreover have "ss_events u = ss_events s @ (new @ new')" using new(1) new'(1) by simp
  ultimately show ?thesis using assms unfolding history_grows_def by fastforce
qed

lemma history_same:
  "ss_id s' = ss_id s \<Longrightarrow> ss_grant s' = ss_grant s \<Longrightarrow> ss_lifecycle_limits s' = ss_lifecycle_limits s \<Longrightarrow>
   ss_event_sequence s \<le> ss_event_sequence s' \<Longrightarrow> ss_events s' = ss_events s \<Longrightarrow> history_grows s s'"
  by (simp add: history_grows_def)

interpretation history: session_leases history_grows "\<lambda>_. True" "\<lambda>_. True"
proof (unfold_locales, goal_cases)
  case 2
  then show ?case by (rule history_trans)
next
  case 8
  then show ?case by (simp add: history_grows_def sequence_def)
qed (auto intro!: history_same simp: inner_def close_call_def fail_session_def Let_def)

interpretation history: session_lifecycle history_grows "\<lambda>_. True" "\<lambda>_. True"
  by unfold_locales (auto intro!: history_same)

text \<open>The events of an operation: those that carry its identifier.\<close>

definition operation_log :: "session \<Rightarrow> (sandbox_event \<times> bool) list" where
  "operation_log s = filter (\<lambda>x. ev_operation_id (fst x) \<noteq> None) (ss_events s)"

definition same_operation_log :: "session \<Rightarrow> session \<Rightarrow> bool" where
  "same_operation_log s s' \<longleftrightarrow> operation_log s' = operation_log s"

interpretation logged: session_leases same_operation_log "\<lambda>o'. o' = None" "\<lambda>_. True"
  by unfold_locales
    (auto simp: same_operation_log_def operation_log_def inner_def close_call_def fail_session_def Let_def)

interpretation logged: session_lifecycle same_operation_log "\<lambda>o'. o' = None" "\<lambda>_. True"
  by unfold_locales (auto simp: same_operation_log_def operation_log_def)

text \<open>The calls: what a request to the gateway satisfies.\<close>

definition calls_satisfy :: "(session_call \<Rightarrow> bool) \<Rightarrow> session \<Rightarrow> session \<Rightarrow> bool" where
  "calls_satisfy P s s' \<longleftrightarrow> (\<exists>cs. ss_calls s' = ss_calls s @ cs \<and> list_all P cs)"

lemma calls_trans: "calls_satisfy P s t \<Longrightarrow> calls_satisfy P t u \<Longrightarrow> calls_satisfy P s u"
  unfolding calls_satisfy_def by force

definition sends_only :: "(http_request \<Rightarrow> bool) \<Rightarrow> session_call \<Rightarrow> bool" where
  "sends_only A c \<longleftrightarrow> (case c of RequestSent q _ \<Rightarrow> A q | _ \<Rightarrow> True)"

interpretation calling: session_leases "calls_satisfy (sends_only A)" "\<lambda>_. True" "sends_only A" for A
proof (unfold_locales, goal_cases)
  case 2
  then show ?case by (rule calls_trans)
qed (auto simp: calls_satisfy_def sends_only_def inner_def close_call_def fail_session_def Let_def)

interpretation calling: session_lifecycle "calls_satisfy (sends_only A)" "\<lambda>_. True" "sends_only A" for A
  by unfold_locales (auto simp: calls_satisfy_def)

text \<open>What admission protects: the workspace and the position. Nothing is asked before it.\<close>

definition unchanged :: "session \<Rightarrow> session \<Rightarrow> bool" where
  "unchanged s s' \<longleftrightarrow>
     ss_workspace s' = ss_workspace s \<and> ss_cwd s' = ss_cwd s \<and> ss_environment s' = ss_environment s"

definition untouched :: "session \<Rightarrow> session \<Rightarrow> bool" where
  "untouched s s' \<longleftrightarrow> unchanged s s' \<and> ss_calls s' = ss_calls s"

interpretation still: session_lifecycle untouched "\<lambda>_. True" "\<lambda>_. False"
  by unfold_locales (auto simp: untouched_def unchanged_def inner_def close_call_def fail_session_def Let_def)

text \<open>A session that is not closed stays so, as long as only operations run.\<close>

definition finished :: "session \<Rightarrow> bool" where
  "finished s \<longleftrightarrow> (\<exists>e. ss_close_task s = CloseFinished e)"

definition stays_open :: "session \<Rightarrow> session \<Rightarrow> bool" where
  "stays_open s s' \<longleftrightarrow> (ss_state s \<noteq> CLOSED \<and> \<not> finished s \<longrightarrow> ss_state s' \<noteq> CLOSED \<and> \<not> finished s')"

interpretation opened: session_leases stays_open "\<lambda>_. True" "\<lambda>_. True"
  by unfold_locales (auto simp: stays_open_def finished_def inner_def close_call_def fail_session_def Let_def)

interpretation opened: session_starting stays_open "\<lambda>_. True" "\<lambda>_. True"
  by unfold_locales (auto simp: stays_open_def finished_def)

section \<open>Every step\<close>

locale session_operations = session_effects +
  assumes emits_all: "emits o'" and asks_policy: "asks (PolicyAsked q a)"
    and keeps_execution: "keeping K (execute_action co r ctx)"
begin

lemma keeps_path: "(\<And>n ctx. keeping K (act n ctx)) \<Longrightarrow> keeping K (run_operation (path_operation k l c t m a act))"
  by (rule keeps_run) (simp_all add: path_operation_def emits_all asks_policy keeps_resolve)

lemma keeps_plain:
  "(\<And>ctx. keeping K (act ctx)) \<Longrightarrow> keeping K (run_operation (plain_operation k l c a act))"
  "(\<And>ctx. keeping K (act ctx)) \<Longrightarrow> keeping K (run_operation ((plain_operation k l c a act)\<lparr>on_post_commit := e\<rparr>))"
  "(\<And>ctx. keeping K (act ctx)) \<Longrightarrow> keeping K (run_operation ((plain_operation k l c a act)\<lparr>on_secret_refs := refs\<rparr>))"
  by (rule keeps_run; use keeps_ret [of "()"] in \<open>simp add: plain_operation_def emits_all asks_policy\<close>)+

lemma keeps_patch: "keeping K (run_operation (patch_operation co r))"
  by (rule keeps_run)
    (auto simp: patch_operation_def emits_all asks_policy intro!: keeps_expected keeps_actions)

lemma keeps_write: "keeping K (session_write k t c pc cp l b)"
  unfolding session_write_def by (auto intro!: keeps_bind keeps_ret keeps_path keeps_mutation)

lemma keeps_http_operation:
  assumes "\<And>g ctx. ss_grant s = Some g \<Longrightarrow> grant_require_request g (sh_request r) = Inr () \<Longrightarrow>
    keeping K (send_http_action co g r ctx)"
  shows "K s (snd (session_send_http co r s))"
proof -
  consider (go) g where "reject_non_running s = (Inr (), s)" "ss_grant s = Some g" "grant_require_request g (sh_request r) = Inr ()"
    | (stop) "snd (session_send_http co r s) = s"
    using reject_cases [of s]
    by (cases "ss_grant s"; cases "grant_require_request (the (ss_grant s)) (sh_request r)")
      (auto simp: session_send_http_def act_bind_def act_simps split: sum.splits)
  then show ?thesis
  proof cases
    case go
    let ?m = "run_operation (plain_operation OUTBOUND_HTTP (op_limits r) (NetworkSignal (op_cancellation r)) False (send_http_action co g r))"
    have "session_send_http co r s = act_bind ?m (\<lambda>(v, metadata). act_ret \<lparr>sr_metadata = metadata, sr_response = v\<rparr>) s"
      using go by (simp add: session_send_http_def act_bind_def act_simps)
    then have "snd (session_send_http co r s) = snd (?m s)" by (simp only: act_bind_ret_pair)
    moreover have "keeping K ?m" by (rule keeps_plain) (rule assms [OF go(2,3)])
    ultimately show ?thesis by (simp add: ensures_def)
  qed (simp add: refl)
qed

lemma keeps_operation:
  assumes "op_profile op \<noteq> None"
    and "\<And>r g ctx. op = OpSendHttp r \<Longrightarrow> ss_grant s = Some g \<Longrightarrow> grant_require_request g (sh_request r) = Inr () \<Longrightarrow>
      keeping K (send_http_action co g r ctx)"
  shows "K s (snd (session_exec co op s))"
proof (cases op)
  case (OpSendHttp r)
  then show ?thesis using keeps_http_operation assms(2) by (simp add: void_same)
next
  case (OpRestoreArchive data to e_rev e_root)
  have "keeping K (session_restore_archive co data to e_rev e_root)"
    unfolding session_restore_archive_def Let_def
    by (intro keeps_rules keeps_plain keeps_restore_archive)
  then show ?thesis using OpRestoreArchive by (simp add: ensures_def)
next
  case (OpWriteFile r)
  have "keeping K (session_write_file r)"
    unfolding session_write_file_def by (intro keeps_rules keeps_write)
  then show ?thesis using OpWriteFile by (simp add: void_same ensures_def)
next
  case (OpExecute r)
  have "keeping K (run_operation ((plain_operation EXECUTE (op_limits r) (request_signal (op_cancellation r)) False
           (execute_action co r))\<lparr>on_secret_refs := secret_refs (xe_secret_environment r)\<rparr>))"
    by (rule keeps_plain) (rule keeps_execution)
  then show ?thesis using OpExecute by (simp add: void_same session_execute_def act_bind_ret_pair ensures_def)
next
  case (OpApplyPatch r)
  then show ?thesis using keeps_patch by (simp add: void_same session_apply_patch_def act_bind_ret_pair ensures_def)
next
  case (OpReadFile r)
  show ?thesis
    unfolding OpReadFile session_exec.simps void_same session_read_file_def act_bind_ret_pair
    by (rule ensured, rule keeps_path) (intro keeps_actions)
next
  case (OpReadBytes r)
  show ?thesis
    unfolding OpReadBytes session_exec.simps void_same session_read_bytes_def act_bind_ret_pair
    by (rule ensured, rule keeps_path) (intro keeps_actions)
next
  case (OpStat r)
  show ?thesis
    unfolding OpStat session_exec.simps void_same session_stat_def act_bind_ret_pair
    by (rule ensured, rule keeps_path) (intro keeps_actions)
next
  case (OpListEntries r)
  show ?thesis
    unfolding OpListEntries session_exec.simps void_same session_list_entries_def act_bind_ret_pair
    by (rule ensured, rule keeps_path) (intro keeps_actions)
next
  case (OpCreateDirectory r)
  show ?thesis
    unfolding OpCreateDirectory session_exec.simps void_same session_create_directory_def act_bind_ret
    by (rule ensured, rule keeps_path) (intro keeps_actions)
next
  case (OpRemovePath r)
  show ?thesis
    unfolding OpRemovePath session_exec.simps void_same session_remove_path_def act_bind_ret
    by (rule ensured, rule keeps_path) (intro keeps_actions)
next
  case (OpCreateSnapshot r)
  show ?thesis
    unfolding OpCreateSnapshot session_exec.simps void_same session_create_snapshot_def act_bind_ret_pair
    by (rule ensured, rule keeps_plain(2)) (intro keeps_actions)
next
  case (OpRestoreSnapshot r)
  show ?thesis
    unfolding OpRestoreSnapshot session_exec.simps void_same session_restore_snapshot_def act_bind_ret_pair
    by (rule ensured, rule keeps_plain(2)) (intro keeps_actions)
next
  case OpExportArchive
  show ?thesis
    unfolding OpExportArchive session_exec.simps void_same session_export_archive_def act_bind_ret_pair
    by (rule ensured, rule keeps_plain(1)) (intro keeps_actions)
next
  case (OpWriteBytes r)
  show ?thesis
    unfolding OpWriteBytes session_exec.simps void_same session_write_bytes_def by (rule ensured, rule keeps_write)
qed (use assms(1) in simp_all)

end

interpretation history: session_operations history_grows "\<lambda>_. True" "\<lambda>_. True"
  by unfold_locales (simp_all add: history.keeps_execute)

interpretation calling: session_operations "calls_satisfy (sends_only A)" "\<lambda>_. True" "sends_only A" for A
  by unfold_locales (simp_all add: sends_only_def calling.keeps_execute)

interpretation opened: session_operations stays_open "\<lambda>_. True" "\<lambda>_. True"
  by unfold_locales (simp_all add: opened.keeps_execute)

section \<open>Leases\<close>

text \<open>An execution gives back all it holds.\<close>

definition emptied :: "session \<Rightarrow> session \<Rightarrow> bool" where
  "emptied s s' \<longleftrightarrow> (ss_leases s = [] \<longrightarrow> ss_leases s' = [])"

lemma close_leases_all:
  "close_leases ls f i s = (x, s') \<Longrightarrow> mset (ss_leases s) = mset ls \<Longrightarrow> ss_leases s' = []"
proof (induction ls arbitrary: f i s)
  case Nil
  then show ?case by (auto simp: act_lift_def act_ret_def split: if_splits)
next
  case (Cons l ls)
  have "ss_leases (close_lease l s) = remove1 l (ss_leases s)"
    by (simp add: close_lease_def close_call_def Let_def)
  then have "mset (ss_leases (close_lease l s)) = mset ls" using Cons.prems(2) by simp
  moreover have "close_leases ls (f \<or> lh_close_fails (snd l)) (i \<or> lh_close_interrupted (snd l)) (close_lease l s) = (x, s')"
    using Cons.prems(1) by (simp add: act_bind_def act_put_def)
  ultimately show ?case using Cons.IH by blast
qed

interpretation emptied: session_effects emptied "\<lambda>_. True" "\<lambda>_. True"
  by unfold_locales (auto simp: emptied_def inner_def close_call_def fail_session_def Let_def)

lemma emptied_execute: "keeping emptied (execute_action co r ctx)"
proof -
  have "ss_leases s' = []" if run: "execute_action co r ctx s = (x, s')" for x s s'
  proof -
    obtain y s2 where guarded: "guarded_command co r ctx (s\<lparr>ss_leases := []\<rparr>) = (y, s2)" by fastforce
    have total: "\<exists>v. y = Inr v"
      using guarded
      by (auto simp: guarded_command_def attempted_def act_bind_def act_ret_def split: prod.splits sum.splits)
    then obtain prot outcome where y: "y = Inr (prot, outcome)" by (metis prod.collapse)
    obtain cleanup s3 where close: "close_secret_leases s2 = (cleanup, s3)" by fastforce
    have "ss_leases s3 = []"
      using close by (auto simp: close_secret_leases_def act_bind_def act_get_def intro: close_leases_all)
    have "after_cleanup r ctx prot outcome cleanup s3 = (x, s')"
      using run guarded y close by (simp add: execute_action_def act_bind_def act_put_def attempted_def)
    moreover have "keeping emptied (after_cleanup r ctx prot outcome cleanup)" by (rule emptied.keeps_cleaned)
    ultimately have "emptied s3 s'" unfolding ensures_def by (metis snd_conv)
    then show ?thesis using \<open>ss_leases s3 = []\<close> by (simp add: emptied_def)
  qed
  then have "emptied s (snd (execute_action co r ctx s))" for s
    unfolding emptied_def by (metis prod.collapse)
  then show ?thesis by (simp add: ensures_def)
qed

interpretation emptied: session_operations emptied "\<lambda>_. True" "\<lambda>_. True"
  by unfold_locales (simp_all add: emptied_execute)

interpretation emptied: session_lifecycle emptied "\<lambda>_. True" "\<lambda>_. True"
  by unfold_locales (simp_all add: emptied_def)

end
