(* ===== verification/Session_Properties.thy ===== *)
theory Session_Properties
  imports Session_Runs
begin

text \<open>
  What holds of the operations of a session and of runs of them: nothing happens before an operation is
  admitted, the events of an operation bracket it, a close is final, leases do not outlive their
  execution, and the gateway is asked only what the grant admits.
\<close>

section \<open>A collaborator is asked once\<close>

context session_steps
begin

text \<open>Between what the relation allows, the task ran once, and a result is its result.\<close>

definition asked_once :: "('a sess \<Rightarrow> bool) \<Rightarrow> session \<Rightarrow> 'a result \<Rightarrow> session \<Rightarrow> bool" where
  "asked_once is_task s r s' \<longleftrightarrow>
     (isl r \<and> K s s') \<or>
     (\<exists>task s1 r2 s2. is_task task \<and> K s s1 \<and> task s1 = (r2, s2) \<and> K s2 s' \<and> (\<forall>v. r = Inr v \<longrightarrow> r2 = Inr v))"

lemma asked_before: "K s t \<Longrightarrow> asked_once T t r s' \<Longrightarrow> asked_once T s r s'"
  unfolding asked_once_def using trans by blast

lemma asked_unless: "isl r \<Longrightarrow> K s s' \<Longrightarrow> asked_once T s r s'"
  by (simp add: asked_once_def)

lemma asked_run:
  "T task \<Longrightarrow> K s s1 \<Longrightarrow> task s1 = (r2, s2) \<Longrightarrow> K s2 s' \<Longrightarrow> (\<And>v. r = Inr v \<Longrightarrow> r2 = Inr v) \<Longrightarrow> asked_once T s r s'"
  unfolding asked_once_def by blast

lemma settled_once:
  assumes "settle_cancelled task None s = (u, t)"
  shows "u = Inr ()" and "K s t \<or> (\<exists>s1 r2. K s s1 \<and> task s1 = (r2, t))"
proof -
  define x where "x = shd (en_settles s)"
  define s1 where "s1 = (if se_closing x then close_call (en_settles_update stl s) else en_settles_update stl s)"
  have "K s (en_settles_update stl s)" by (rule quiet) simp
  then have K: "K s s1" unfolding s1_def using closes trans by simp
  have "settle_cancelled task None s = (if se_ran x then (Inr (), snd (task s1)) else (Inr (), s1))"
    by (simp add: settle_cancelled_def next_answer_def await_point_def act_put_def act_bind_def run_aside_def
        act_ret_def x_def s1_def)
  then have out: "(u, t) = (if se_ran x then (Inr (), snd (task s1)) else (Inr (), s1))" using assms by simp
  show "u = Inr ()" using out by (cases "se_ran x") simp_all
  show "K s t \<or> (\<exists>s1 r2. K s s1 \<and> task s1 = (r2, t))"
  proof (cases "se_ran x")
    case True
    then have "task s1 = (fst (task s1), t)" using out by simp
    then show ?thesis using K by blast
  next
    case False
    then show ?thesis using out K by simp
  qed
qed

lemma settled_asked:
  assumes "settle_cancelled task None s = (u, t)" and "T task" and "isl r"
  shows "asked_once T s r t"
  using settled_once(2) [OF assms(1)]
proof (elim disjE exE conjE)
  assume "K s t"
  then show ?thesis using assms(3) by (rule asked_unless [rotated])
next
  fix s1 r2
  assume "K s s1" "task s1 = (r2, t)"
  then show ?thesis by (rule asked_run [where T = T, OF assms(2) _ _ refl]) (use assms(3) in auto)
qed

lemma outcome_once:
  assumes out: "wait_outcome task d c a None ending s = (r, s')" and T: "T task"
  shows "asked_once T s r s'"
proof (cases ending)
  case LoopDone
  let ?after = "\<lambda>v. if a then act_ret v
            else act_bind (remaining d) (\<lambda>_. act_bind (check_cooperative_cancellation c) (\<lambda>_. act_ret v))"
  obtain r2 s2 where task: "task s = (r2, s2)" by fastforce
  have after: "keeping K (?after v)" for v :: 'a
    by (intro keeps_rules keeps_remaining keeps_check)
  show ?thesis
  proof (cases r2)
    case (Inl e)
    then have "r = Inl e" "s' = s2" using out task LoopDone by (simp_all add: wait_outcome_def act_bind_def)
    then show ?thesis using asked_run [where T = T, OF T refl task refl, of r] by simp
  next
    case (Inr v)
    then have run: "?after v s2 = (r, s')"
      using out task LoopDone by (simp add: wait_outcome_def act_bind_def)
    then have "r = Inr w \<Longrightarrow> w = v" for w
      by (cases a) (auto simp: act_bind_Pair act_ret_def)
    then show ?thesis using asked_run [where T = T, OF T refl task keepsD [OF after run]] Inr by blast
  qed
next
  case LoopTimedOut
  obtain u t where u: "settle_cancelled task None s = (u, t)" by fastforce
  have "r = Inl budget_timeout" "s' = t"
    using out LoopTimedOut u settled_once(1) [OF u]
    by (simp_all add: wait_outcome_def act_bind_def act_catch_def act_lift_def)
  then show ?thesis using settled_asked [where T = T, OF u T] by simp
next
  case LoopSignalled
  obtain u t where u: "settle_cancelled task None s = (u, t)" by fastforce
  have "r = Inl cooperative_cancel" "s' = t"
    using out LoopSignalled u settled_once(1) [OF u] by (simp_all add: wait_outcome_def act_bind_def act_lift_def)
  then show ?thesis using settled_asked [where T = T, OF u T] by simp
next
  case (LoopInterrupted over)
  show ?thesis
  proof (cases over)
    case True
    obtain r2 s2 where task: "task s = (r2, s2)" by fastforce
    have "s' = s2" "\<And>v. r = Inr v \<Longrightarrow> r2 = Inr v"
      using out LoopInterrupted True task by (cases r2; simp add: wait_outcome_def split: if_splits)+
    then show ?thesis using asked_run [where T = T, OF T refl task] refl by simp
  next
    case False
    obtain u t where u: "settle_cancelled task None s = (u, t)" by fastforce
    have "r = Inl cancelled_error" "s' = t"
      using out LoopInterrupted False u settled_once(1) [OF u]
      by (simp_all add: wait_outcome_def act_bind_def act_lift_def)
    then show ?thesis using settled_asked [where T = T, OF u T] by simp
  qed
qed

lemma bind_asked:
  assumes "act_bind m f s = (r, s')" and "keeping K m"
    and "\<And>x t. m s = (Inr x, t) \<Longrightarrow> f x t = (r, s') \<Longrightarrow> asked_once T t r s'"
  shows "asked_once T s r s'"
proof (cases "m s")
  case (Pair out t)
  note K = keepsD [OF assms(2) Pair]
  show ?thesis
  proof (cases out)
    case (Inl e)
    then have "r = Inl e" "s' = t" using assms(1) Pair by (simp_all add: act_bind_def)
    then show ?thesis using K by (simp add: asked_unless)
  next
    case (Inr x)
    then have "f x t = (r, s')" using assms(1) Pair by (simp add: act_bind_def)
    then show ?thesis using asked_before [OF K] assms(3) Pair Inr by blast
  qed
qed

lemma await_once:
  assumes "await_collaborator factory d c a None s = (r, s')" and "keeping K factory"
    and "\<And>s task s'. factory s = (Inr task, s') \<Longrightarrow> T task"
  shows "asked_once T s r s'"
  using assms(1) unfolding await_collaborator_def
proof (rule bind_asked [OF _ keeps_remaining], goal_cases)
  case (1 x s1)
  from 1(2) show ?case
  proof (rule bind_asked [OF _ keeps_check], goal_cases)
    case (1 x s2)
    from 1(2) show ?case
    proof (rule bind_asked [OF _ assms(2)], goal_cases)
      case (1 task s3)
      then have T: "T task" by (auto intro: assms(3))
      have polls: "keeping K (next_answer en_polls en_polls_update)" by (rule keeps_next) simp
      from 1(2) show ?case
      proof (rule bind_asked [OF _ polls], goal_cases)
        case (1 polls s4)
        from 1(2) show ?case by (rule bind_asked [OF _ keeps_poll]) (rule outcome_once [where T = T, OF _ T])
      qed
    qed
  qed
qed

end

section \<open>Admission\<close>

definition narrowed :: "policy_decision \<Rightarrow> operation_limits \<Rightarrow> bool" where
  "narrowed d req \<longleftrightarrow>
     pd_allowed d \<and> seconds (timeout_seconds (pd_effective_limits d)) \<le> seconds (timeout_seconds req) \<and>
     terminal_event_reserve_seconds (pd_effective_limits d) = terminal_event_reserve_seconds req"

text \<open>
  Nothing was touched, or the first call asked the policy about this operation, and nothing but that was
  done unless the policy allowed it within the requested limits.
\<close>

definition first_asked :: "operation_kind \<Rightarrow> operation_limits \<Rightarrow> session \<Rightarrow> session \<Rightarrow> bool" where
  "first_asked knd req s s' \<longleftrightarrow>
     (\<exists>q a rest. ss_calls s' = ss_calls s @ PolicyAsked q a # rest \<and>
        po_operation_kind q = knd \<and> po_requested_limits q = req \<and>
        (rest = [] \<and> unchanged s s' \<or> (\<exists>d. a = PolicyDecides d \<and> narrowed d req)))"

definition effects_admitted :: "operation_kind \<Rightarrow> operation_limits \<Rightarrow> session \<Rightarrow> session \<Rightarrow> bool" where
  "effects_admitted knd req s s' \<longleftrightarrow> untouched s s' \<or> first_asked knd req s s'"

definition admitted :: "operation_kind \<Rightarrow> operation_limits \<Rightarrow> session \<Rightarrow> session \<Rightarrow> bool" where
  "admitted knd req s s' \<longleftrightarrow>
     (\<exists>q d rest. ss_calls s' = ss_calls s @ PolicyAsked q (PolicyDecides d) # rest \<and>
        po_operation_kind q = knd \<and> po_requested_limits q = req \<and> narrowed d req)"

lemma admitted_first: "admitted k l s s' \<Longrightarrow> first_asked k l s s'"
  unfolding admitted_def first_asked_def by blast

abbreviation calls_grow :: "session \<Rightarrow> session \<Rightarrow> bool" where
  "calls_grow \<equiv> calls_satisfy (sends_only (\<lambda>_. True))"

lemma calls_growD: "calls_grow s s' \<Longrightarrow> \<exists>cs. ss_calls s' = ss_calls s @ cs"
  unfolding calls_satisfy_def by blast

lemma admitted_grow: "admitted k l s t \<Longrightarrow> calls_grow t u \<Longrightarrow> admitted k l s u"
  unfolding admitted_def by (fastforce dest: calls_growD)

lemma first_asked_untouched:
  "first_asked k l s t \<Longrightarrow> untouched t u \<Longrightarrow> first_asked k l s u"
  "untouched s t \<Longrightarrow> first_asked k l t u \<Longrightarrow> first_asked k l s u"
  unfolding first_asked_def untouched_def unchanged_def by fastforce+

lemma effects_untouched:
  "effects_admitted k l s t \<Longrightarrow> untouched t u \<Longrightarrow> effects_admitted k l s u"
  "untouched s t \<Longrightarrow> effects_admitted k l t u \<Longrightarrow> effects_admitted k l s u"
  unfolding effects_admitted_def using still.trans first_asked_untouched by blast+

definition policy_task :: "operation_kind \<Rightarrow> operation_limits \<Rightarrow> policy_reply sess \<Rightarrow> bool" where
  "policy_task k l task \<longleftrightarrow>
     (\<forall>s r s'. task s = (r, s') \<longrightarrow>
        (\<exists>q a. ss_calls s' = ss_calls s @ [PolicyAsked q a] \<and> unchanged s s' \<and>
           po_operation_kind q = k \<and> po_requested_limits q = l \<and> (\<forall>v. r = Inr v \<longrightarrow> v = a)))"

lemma policy_evaluate_task:
  assumes "policy_evaluate q s = (Inr task, s')"
  shows "policy_task (po_operation_kind q) (po_requested_limits q) task"
proof -
  have task: "task = act_bind (next_answer en_policy en_policy_update) (\<lambda>reply.
        act_bind (note_call (PolicyAsked q reply)) (\<lambda>_.
        case reply of PolicyRaises e \<Rightarrow> act_lift (Inl e) | _ \<Rightarrow> act_ret reply))"
    using assms by (auto simp: policy_evaluate_def act_bind_Pair act_lift_def act_ret_def)
  show ?thesis
    unfolding policy_task_def task
    by (auto simp: next_answer_def note_call_def act_bind_def act_simps unchanged_def split: policy_reply.splits)
qed

lemma admission_cases:
  assumes "admit_by_policy p n oid d s = (r, s')"
  shows "(isl r \<and> effects_admitted (on_kind p) (on_limits p) s s') \<or> admitted (on_kind p) (on_limits p) s s'"
proof -
  let ?k = "on_kind p" and ?l = "on_limits p"
  show ?thesis
  proof (cases "remaining d s")
    case (Pair x s1)
    have s1: "untouched s s1" using still.keepsD [OF still.keeps_remaining Pair] .
    show ?thesis
    proof (cases x)
      case (Inl e)
      then have "r = Inl e" "s' = s1" using assms Pair by (simp_all add: admit_by_policy_def act_bind_def)
      then show ?thesis using s1 by (simp add: effects_admitted_def)
    next
      case (Inr left)
      let ?q = "\<lparr>po_session_id = ss_id s1, po_operation_id = oid, po_operation_kind = ?k, po_path = on_path p n,
          po_command_name = None, po_requested_limits = ?l, po_secret_refs = on_secret_refs p,
          po_path_mutation = on_path_mutation p\<rparr>"
      obtain y s2 where await: "await_collaborator (policy_evaluate ?q) d (on_cancellation p) False None s1 = (y, s2)"
        by fastforce
      have "keeping untouched (policy_evaluate ?q)"
        unfolding policy_evaluate_def by (intro still.keeps_rules)
      then have once: "still.asked_once (policy_task ?k ?l) s1 y s2"
        using policy_evaluate_task [of ?q] by (intro still.await_once [OF await]) simp_all
      have rest: "s' = s2" "\<And>dec. r = Inr dec \<Longrightarrow> y = Inr (PolicyDecides dec) \<and> narrowed dec ?l"
        using assms Pair Inr await
        by (auto simp: admit_by_policy_def act_bind_def act_simps validate_policy_decision_def narrowed_def ok_iff
            split: sum.splits policy_reply.splits if_splits)
      have "isl r \<and> untouched s1 s2 \<or> (\<exists>q a. ss_calls s2 = ss_calls s1 @ [PolicyAsked q a] \<and> unchanged s1 s2 \<and>
           po_operation_kind q = ?k \<and> po_requested_limits q = ?l \<and> (\<forall>v. y = Inr v \<longrightarrow> v = a))"
        using once unfolding still.asked_once_def
      proof (elim disjE exE conjE)
        assume "isl y" "untouched s1 s2"
        moreover have "isl r" using rest(2) \<open>isl y\<close> by (cases r; cases y) auto
        ultimately show ?thesis by blast
      next
        fix task t1 r2 t2
        assume task: "policy_task ?k ?l task" and t: "untouched s1 t1" "task t1 = (r2, t2)" "untouched t2 s2"
          and y: "\<forall>v. y = Inr v \<longrightarrow> r2 = Inr v"
        from task [unfolded policy_task_def, THEN spec, THEN spec, THEN spec, THEN mp, OF t(2)]
        obtain q a where "ss_calls t2 = ss_calls t1 @ [PolicyAsked q a]" "unchanged t1 t2"
          "po_operation_kind q = ?k" "po_requested_limits q = ?l" "\<forall>v. r2 = Inr v \<longrightarrow> v = a"
          by blast
        then show ?thesis using t(1,3) y unfolding untouched_def unchanged_def by auto
      qed
      then show ?thesis
      proof (elim disjE exE conjE)
        assume "isl r" "untouched s1 s2"
        then show ?thesis using s1 rest(1) still.trans by (auto simp: effects_admitted_def)
      next
        fix q a
        assume q: "ss_calls s2 = ss_calls s1 @ [PolicyAsked q a]" "unchanged s1 s2"
          "po_operation_kind q = ?k" "po_requested_limits q = ?l" "\<forall>v. y = Inr v \<longrightarrow> v = a"
        show ?thesis
        proof (cases r)
          case (Inl e)
          have "first_asked ?k ?l s1 s2" using q unfolding first_asked_def by blast
          then show ?thesis using Inl s1 rest(1) first_asked_untouched(2) by (auto simp: effects_admitted_def)
        next
          case (Inr dec)
          then have "a = PolicyDecides dec" "narrowed dec ?l" using rest(2) q(5) by auto
          then have "admitted ?k ?l s s2" using q s1 unfolding admitted_def untouched_def by auto
          then show ?thesis using rest(1) by simp
        qed
      qed
    qed
  qed
qed

lemma perform_split:
  assumes "\<And>n ctx. keeping calls_grow (on_action p n ctx)"
  obtains rest d where "perform_operation p t n oid began = act_bind (admit_by_policy p n oid d) rest"
    "\<And>dec. keeping calls_grow (rest dec)"
proof (rule that)
  show "perform_operation p t n oid began = act_bind (admit_by_policy p n oid
      (t + seconds (timeout_seconds (on_limits p)) - seconds (terminal_event_reserve_seconds (on_limits p)))) (\<lambda>d.
      let collaborator_deadline = t + seconds (timeout_seconds (pd_effective_limits d)) -
            seconds (terminal_event_reserve_seconds (on_limits p)) in
      act_bind (remaining collaborator_deadline) (\<lambda>_.
      act_bind (on_action p n
        \<lparr>oc_operation_id = oid, oc_started_at = began, oc_started_monotonic = t,
         oc_original_deadline = t + seconds (timeout_seconds (on_limits p)),
         oc_collaborator_deadline = collaborator_deadline\<rparr>) (\<lambda>(v, r).
      act_bind clock_now (\<lambda>completed_at.
      act_bind (act_get ss_id) (\<lambda>sid.
      act_bind (act_lift (operation_result_metadata_new sid oid r began completed_at)) (\<lambda>metadata.
      act_bind (emit_post_commit p oid (t + seconds (timeout_seconds (on_limits p)) -
        seconds (terminal_event_reserve_seconds (on_limits p)) / 2) v r) (\<lambda>_.
      act_ret (v, r, metadata))))))))" (is "_ = act_bind _ ?rest")
    unfolding perform_operation_def Let_def by (rule HOL.refl)
  show "keeping calls_grow (?rest dec)" for dec
    unfolding Let_def
    by (auto intro!: calling.keeps_rules calling.keeps_remaining calling.keeps_clock calling.keeps_post_commit assms)
qed

lemma perform_admitted:
  assumes "perform_operation p t n oid began s = (r, s')"
    and "\<And>n ctx. keeping calls_grow (on_action p n ctx)"
  shows "effects_admitted (on_kind p) (on_limits p) s s'"
proof -
  obtain rest d where split: "perform_operation p t n oid began = act_bind (admit_by_policy p n oid d) rest"
    and rest: "\<And>dec. keeping calls_grow (rest dec)"
    using perform_split [OF assms(2)] by metis
  obtain x s1 where admit: "admit_by_policy p n oid d s = (x, s1)" by fastforce
  from admission_cases [OF this] show ?thesis
  proof (elim disjE conjE)
    assume "isl x" "effects_admitted (on_kind p) (on_limits p) s s1"
    then show ?thesis using assms(1) admit unfolding split by (auto simp: act_bind_def split: sum.splits)
  next
    assume ok: "admitted (on_kind p) (on_limits p) s s1"
    have "calls_grow s1 s'"
    proof (cases x)
      case (Inl e)
      then have "s' = s1" using assms(1) admit unfolding split by (simp add: act_bind_def)
      then show ?thesis using calling.refl by simp
    next
      case (Inr dec)
      then have "rest dec s1 = (r, s')" using assms(1) admit unfolding split by (simp add: act_bind_def)
      then show ?thesis by (rule calling.keepsD [OF rest])
    qed
    then show ?thesis using ok admitted_grow admitted_first unfolding effects_admitted_def by blast
  qed
qed

text \<open>Steps that touch nothing, before and after.\<close>

lemma effects_before:
  assumes "act_bind m f s = (r, s')" and "keeping untouched m"
    and "\<And>x t. m s = (Inr x, t) \<Longrightarrow> f x t = (r, s') \<Longrightarrow> effects_admitted k l t s'"
  shows "effects_admitted k l s s'"
proof (cases "m s")
  case (Pair x t)
  note t = still.keepsD [OF assms(2) Pair]
  show ?thesis
  proof (cases x)
    case (Inl e)
    then have "s' = t" using assms(1) Pair by (simp add: act_bind_def)
    then show ?thesis using t by (simp add: effects_admitted_def)
  next
    case (Inr v)
    then have "f v t = (r, s')" using assms(1) Pair by (simp add: act_bind_def)
    then show ?thesis using assms(3) Pair Inr t effects_untouched(2) by blast
  qed
qed

lemma effects_after:
  assumes "\<And>x t. m s = (x, t) \<Longrightarrow> effects_admitted k l s t"
  shows "act_bind m f s = (r, s') \<Longrightarrow> (\<And>x. keeping untouched (f x)) \<Longrightarrow> effects_admitted k l s s'"
    and "act_catch m h s = (r', s'') \<Longrightarrow> (\<And>e. keeping untouched (h e)) \<Longrightarrow> effects_admitted k l s s''"
proof -
  obtain x t where m: "m s = (x, t)" by fastforce
  note t = assms [OF m]
  show "effects_admitted k l s s'" if "act_bind m f s = (r, s')" "\<And>x. keeping untouched (f x)"
  proof (cases x)
    case (Inl e)
    then show ?thesis using that(1) m t by (simp add: act_bind_def)
  next
    case (Inr v)
    then have "f v t = (r, s')" using that(1) m by (simp add: act_bind_def)
    then show ?thesis using effects_untouched(1) [OF t still.keepsD [OF that(2)]] by blast
  qed
  show "effects_admitted k l s s''" if "act_catch m h s = (r', s'')" "\<And>e. keeping untouched (h e)"
  proof (cases x)
    case (Inl e)
    then have "h e t = (r', s'')" using that(1) m by (simp add: act_catch_def)
    then show ?thesis using effects_untouched(1) [OF t still.keepsD [OF that(2)]] by blast
  next
    case (Inr v)
    then show ?thesis using that(1) m t by (simp add: act_catch_def)
  qed
qed

lemma body_admitted:
  assumes body: "operation_body p t s = (r, s')" and normal: "keeping untouched (on_normalize p)"
    and grows: "\<And>n ctx. keeping calls_grow (on_action p n ctx)"
  shows "effects_admitted (on_kind p) (on_limits p) s s'"
  using body unfolding operation_body_def Let_def
proof (rule effects_before)
  show "keeping untouched (act_catch (begin_operation p (t + seconds (timeout_seconds (on_limits p))))
      (\<lambda>e. act_lift (Inl (surfaced e))))"
    using normal by (intro still.keeps_rules still.keeps_begin) simp_all
next
  fix x s1
  assume "(case x of (n, oid, began) \<Rightarrow>
      act_bind (act_catch (perform_operation p t n oid began)
        (report_failure (on_kind p) oid (t + seconds (timeout_seconds (on_limits p))))) (\<lambda>(v, r, metadata).
      act_bind (emit_terminal (on_authoritative p) OPERATION_COMPLETED (on_kind p) oid
        (t + seconds (timeout_seconds (on_limits p))) [revision_attribute r]) (\<lambda>_. act_ret (v, metadata)))) s1 = (r, s')"
  then show "effects_admitted (on_kind p) (on_limits p) s1 s'"
  proof (cases x)
    case (fields n oid began)
    assume run: "(case x of (n, oid, began) \<Rightarrow>
      act_bind (act_catch (perform_operation p t n oid began)
        (report_failure (on_kind p) oid (t + seconds (timeout_seconds (on_limits p))))) (\<lambda>(v, r, metadata).
      act_bind (emit_terminal (on_authoritative p) OPERATION_COMPLETED (on_kind p) oid
        (t + seconds (timeout_seconds (on_limits p))) [revision_attribute r]) (\<lambda>_. act_ret (v, metadata)))) s1 = (r, s')"
    show ?thesis
    proof (rule effects_after(1) [OF _ run [unfolded fields prod.case]], goal_cases)
      case (1 y s2)
      show ?case
        by (rule effects_after(2) [OF _ 1])
          (auto intro: perform_admitted grows still.keeps_report)
    next
      case (2 z)
      then show ?case by (cases z) (auto intro!: still.keeps_rules still.keeps_terminal)
    qed
  qed
qed

lemma run_admitted:
  assumes "keeping untouched (on_normalize p)" and "\<And>n ctx. keeping calls_grow (on_action p n ctx)"
  shows "effects_admitted (on_kind p) (on_limits p) s (snd (run_operation p s))"
proof -
  obtain r s' where run: "run_operation p s = (r, s')" by fastforce
  have "effects_admitted (on_kind p) (on_limits p) s s'"
    using run unfolding run_operation_def
  proof (rule effects_before [OF _ still.keeps_reject], goal_cases)
    case (1 u s1)
    from 1(2) show ?case
    proof (rule effects_before [OF _ still.keeps_time], goal_cases)
      case (1 started s2)
      from 1(2) show ?case
      proof (rule effects_before [OF _ still.keeps_acquire], goal_cases)
        case (1 u s3)
        obtain x s4 where body: "operation_body p started s3 = (x, s4)" by fastforce
        then have "s' = release_gate s4" using 1(2) by (simp add: act_finally_def)
        moreover have "untouched s4 (release_gate s4)"
          unfolding release_gate_def by (rule still.gates)
        ultimately show ?case using effects_untouched(1) [OF body_admitted [OF body assms]] by simp
      qed
    qed
  qed
  then show ?thesis using run by simp
qed

interpretation admission: operation_property "\<lambda>s k l _ s'. effects_admitted k l s s'"
  by unfold_locales (simp add: effects_admitted_def still.refl)

lemmas session_operation_defs =
  session_execute_def session_read_file_def session_write_def session_write_bytes_def session_create_directory_def
  session_remove_path_def session_apply_patch_def session_read_bytes_def session_stat_def session_list_entries_def
  session_create_snapshot_def session_restore_snapshot_def session_export_archive_def

lemmas operation_shapes = path_operation_def plain_operation_def

lemma path_admitted:
  "(\<And>n ctx. keeping calls_grow (act n ctx)) \<Longrightarrow>
     effects_admitted k l s (snd (run_operation (path_operation k l c t m a act) s))"
  using run_admitted [of "path_operation k l c t m a act" s] still.keeps_resolve by (simp add: path_operation_def)

lemma plain_admitted:
  "(\<And>ctx. keeping calls_grow (act ctx)) \<Longrightarrow>
     effects_admitted k l s (snd (run_operation (plain_operation k l c a act) s))"
  using run_admitted [of "plain_operation k l c a act" s] still.keeps_ret [of "()"] by (simp add: plain_operation_def)

lemma plain_admitted_with:
  "(\<And>ctx. keeping calls_grow (act ctx)) \<Longrightarrow>
     effects_admitted k l s (snd (run_operation ((plain_operation k l c a act)\<lparr>on_post_commit := e\<rparr>) s))"
  "(\<And>ctx. keeping calls_grow (act ctx)) \<Longrightarrow>
     effects_admitted k l s (snd (run_operation ((plain_operation k l c a act)\<lparr>on_secret_refs := refs\<rparr>) s))"
  using run_admitted [of "(plain_operation k l c a act)\<lparr>on_post_commit := e\<rparr>" s]
    run_admitted [of "(plain_operation k l c a act)\<lparr>on_secret_refs := refs\<rparr>" s] still.keeps_ret [of "()"]
  by (simp_all add: plain_operation_def)

lemma patch_admitted: "effects_admitted APPLY_PATCH (op_limits r) s (snd (run_operation (patch_operation co r) s))"
  using run_admitted [of "patch_operation co r" s] still.keeps_expected
  by (force simp: patch_operation_def intro!: calling.keeps_actions)

text \<open>
  C5: nothing an operation does comes before its admission: it leaves the workspace, the directory and the
  environment alone and asks no collaborator, or the first call it makes asks the policy about it, and it
  goes further only when the policy allowed it within the requested limits. Starting and closing touch nothing.
\<close>

theorem effects_need_admission:
  "case op_profile op of
     None \<Rightarrow> untouched s (snd (session_exec co op s))
   | Some (k, l) \<Rightarrow> effects_admitted k l s (snd (session_exec co op s))"
proof (cases op)
  case OpStart
  then show ?thesis using still.keeps_start by (simp add: ensures_def)
next
  case (OpClose b)
  then show ?thesis using still.keeps_close by (simp add: ensures_def)
next
  case (OpSendHttp r)
  have "effects_admitted OUTBOUND_HTTP (op_limits r) s (snd (session_send_http co r s))"
    by (rule admission.of_send_http, rule plain_admitted, rule calling.keeps_send_http) (simp add: sends_only_def)
  then show ?thesis using OpSendHttp by (simp add: void_same)
next
  case (OpWriteFile r)
  have "effects_admitted WRITE_FILE (op_limits r) s (snd (session_write_file r s))"
    by (rule admission.of_write_file)
      (auto simp: session_write_def act_bind_ret intro!: path_admitted calling.keeps_actions)
  then show ?thesis using OpWriteFile by (simp add: void_same)
next
  case (OpRestoreArchive data to e_rev e_root)
  have "effects_admitted RESTORE_PORTABLE_ARCHIVE default_operation_limits s
      (snd (session_restore_archive co data to e_rev e_root s))"
    by (rule admission.of_restore_archive) (auto intro!: plain_admitted calling.keeps_actions)
  then show ?thesis using OpRestoreArchive by simp
qed (auto simp: void_same session_operation_defs act_bind_ret act_bind_ret_pair
      intro!: path_admitted patch_admitted plain_admitted plain_admitted_with calling.keeps_actions calling.keeps_execute)

end
