(* ===== verification/Session_Events.thy ===== *)
theory Session_Events
  imports Session_Properties
begin

text \<open>
  The events of an operation: what each phase of \<open>_run_operation\<close> adds to them, and the bracket they make.
\<close>

section \<open>What is added\<close>






section \<open>The phases\<close>









section \<open>The bracket\<close>
















end
