(* ===== verification/Session_History.thy ===== *)
theory Session_History
  imports Session_Runs
begin

text \<open>
  Runs of a session: what every session that its operations lead to satisfies, that a close is final, and
  that the gateway is only asked what the grant admits.
\<close>

section \<open>The gate\<close>

text \<open>A failed wait at the gate leaves it as it was.\<close>

definition same_gate :: "'a sess \<Rightarrow> bool" where
  "same_gate m \<longleftrightarrow> (\<forall>s. ss_gate (snd (m s)) = ss_gate s)"

lemma same_gate_bind: "same_gate m \<Longrightarrow> (\<And>x. same_gate (f x)) \<Longrightarrow> same_gate (act_bind m f)"
  by (auto simp: same_gate_def act_bind_def split: prod.splits sum.splits) (metis snd_conv)+

lemma same_gate_rules:
  "same_gate (act_ret x)" "same_gate (act_lift m)" "same_gate (act_get f)"
  "same_gate (await_point b)"
  by (auto simp: same_gate_def act_ret_def act_lift_def act_get_def act_put_def await_point_def close_call_def Let_def)

lemma same_gate_next: "(\<And>s. ss_gate (upd stl s) = ss_gate s) \<Longrightarrow> same_gate (next_answer get upd)"
  by (simp add: same_gate_def next_answer_def)

lemma same_gate_check: "same_gate (check_cooperative_cancellation c)"
  unfolding check_cooperative_cancellation_def signal_set_def read_signal_def
  by (cases c) (auto intro!: same_gate_bind same_gate_rules same_gate_next)

definition gate_kept :: "unit sess \<Rightarrow> bool" where
  "gate_kept m \<longleftrightarrow> (\<forall>s e t. m s = (Inl e, t) \<longrightarrow> ss_gate t = ss_gate s)"

lemma gate_kept_same: "same_gate m \<Longrightarrow> gate_kept m"
  unfolding same_gate_def gate_kept_def by (metis snd_conv)

lemma gate_kept_bind: "same_gate m \<Longrightarrow> (\<And>x. gate_kept (f x)) \<Longrightarrow> gate_kept (act_bind m f)"
  unfolding same_gate_def gate_kept_def by (auto simp: act_bind_Pair) (metis snd_conv)+

lemma acquire_gate_kept: "gate_kept (acquire_operation_gate d c)"
proof -
  have attempt: "gate_kept w \<Longrightarrow> gate_kept (acquire_attempt d c w)" for w
    unfolding acquire_attempt_def
    by (intro gate_kept_bind same_gate_check same_gate_next)
      (auto intro: gate_kept_same same_gate_rules)
  have put: "gate_kept (act_put f)" for f by (simp add: gate_kept_def act_put_def)
  have "gate_kept (acquire_loop d c ps)" for ps
  proof (induction ps)
    case Nil
    show ?case unfolding acquire_loop.simps by (rule attempt) (rule put)
  next
    case (Cons p ps)
    show ?case unfolding acquire_loop.simps
      by (rule attempt, rule gate_kept_bind, rule same_gate_rules, cases "pl_event p")
        (auto intro!: gate_kept_bind same_gate_next Cons put gate_kept_same [OF same_gate_rules(2)])
  qed
  then show ?thesis
    unfolding acquire_operation_gate_def by (intro gate_kept_bind same_gate_next) simp_all
qed

lemma run_gate: "\<not> ss_gate s \<Longrightarrow> \<not> ss_gate (snd (run_operation p s))"
proof -
  assume free: "\<not> ss_gate s"
  let ?rest = "\<lambda>started. act_bind (acquire_operation_gate (started + seconds (timeout_seconds (on_limits p))) (on_cancellation p))
    (\<lambda>_. act_finally (operation_body p started) release_gate)"
  obtain x s1 where rej: "reject_non_running s = (x, s1)" by fastforce
  have s1: "s1 = s" using rej reject_cases [of s] by auto
  show ?thesis
  proof (cases x)
    case (Inl e)
    then show ?thesis using rej s1 free by (simp add: run_operation_def act_bind_def)
  next
    case (Inr u)
    let ?s2 = "en_times_update stl s"
    have run: "run_operation p s = ?rest (shd (en_times s)) ?s2"
      using rej s1 Inr by (simp add: run_operation_def act_bind_def next_answer_def)
    obtain y s3 where acq: "acquire_operation_gate (shd (en_times s) + seconds (timeout_seconds (on_limits p))) (on_cancellation p) ?s2 = (y, s3)"
      by fastforce
    show ?thesis
    proof (cases y)
      case (Inl e)
      then have "ss_gate s3 = ss_gate ?s2" using acq acquire_gate_kept unfolding gate_kept_def by blast
      then show ?thesis using run acq Inl free by (simp add: act_bind_def)
    next
      case (Inr u)
      then show ?thesis using run acq by (simp add: act_bind_def act_finally_def release_gate_def split: prod.split)
    qed
  qed
qed

interpretation gated: operation_property "\<lambda>s _ _ _ s'. \<not> ss_gate s \<longrightarrow> \<not> ss_gate s'"
  by unfold_locales simp

lemma start_gate: "\<not> ss_gate s \<Longrightarrow> \<not> ss_gate (snd (session_start s))"
  by (auto simp: session_start_def require_created_def start_admission_def act_bind_def act_get_def act_lift_def act_put_def next_answer_def
      await_point_def act_finally_def release_gate_def close_call_def Let_def split: prod.splits sum.splits gate_reply.splits)

lemma exec_gate:
  assumes "\<not> ss_gate s" and "op_profile op \<noteq> None"
  shows "\<not> ss_gate (snd (session_exec co op s))"
proof (cases op)
  case (OpSendHttp r)
  have "\<not> ss_gate s \<longrightarrow> \<not> ss_gate (snd (session_send_http co r s))"
    by (rule gated.of_send_http) (simp add: run_gate)
  then show ?thesis using OpSendHttp assms by (simp add: void_same)
next
  case (OpWriteFile r)
  have "\<not> ss_gate s \<longrightarrow> \<not> ss_gate (snd (session_write_file r s))"
    by (rule gated.of_write_file) (simp add: run_gate session_write_def act_bind_ret)
  then show ?thesis using OpWriteFile assms by (simp add: void_same)
next
  case (OpRestoreArchive data to e_rev e_root)
  have "\<not> ss_gate s \<longrightarrow> \<not> ss_gate (snd (session_restore_archive co data to e_rev e_root s))"
    by (rule gated.of_restore_archive) (simp add: run_gate)
  then show ?thesis using OpRestoreArchive assms by simp
qed (use assms in \<open>simp_all add: void_same run_gate session_execute_def session_read_file_def session_write_def
  session_write_bytes_def session_create_directory_def session_remove_path_def session_apply_patch_def
  session_read_bytes_def session_stat_def session_list_entries_def session_create_snapshot_def
  session_restore_snapshot_def session_export_archive_def act_bind_ret act_bind_ret_pair\<close>)

section \<open>Closing\<close>

definition flag_kept :: "session \<Rightarrow> session \<Rightarrow> bool" where
  "flag_kept s s' \<longleftrightarrow> (ss_network_close s \<longrightarrow> ss_network_close s')"

interpretation flagged: session_lifecycle flag_kept "\<lambda>_. True" "\<lambda>_. True"
  by unfold_locales (auto simp: flag_kept_def inner_def close_call_def fail_session_def Let_def)

lemma close_once_ends:
  "snd (close_once s) = release_gate (t\<lparr>ss_state := CLOSED\<rparr>)" if "snd (close_body (s\<lparr>ss_gate := True\<rparr>)) = t"
  using that by (cases "close_body (s\<lparr>ss_gate := True\<rparr>)") (simp add: close_once_def act_bind_def act_put_def act_finally_def)

lemma run_close_task_ends:
  obtains e t where "run_close_task s = (Inr (), t)" "ss_state t = CLOSED" "ss_close_task t = CloseFinished e" "\<not> ss_gate t"
    "ss_network_close s \<Longrightarrow> ss_network_close t"
proof -
  obtain r u where body: "close_body (s\<lparr>ss_gate := True\<rparr>) = (r, u)" by fastforce
  have "keeping flag_kept close_body"
    unfolding close_body_def emit_lifecycle_def await_close_resource_def Let_def
    by (auto intro!: flagged.keeps_rules flagged.keeps_time flagged.keeps_try flagged.keeps_emit_new flagged.keeps_next
        flagged.keeps_put flagged.closed_state split: option.split resource_reply.split)
  from flagged.keepsD [OF this body] have flag: "ss_network_close s \<Longrightarrow> ss_network_close u"
    unfolding flag_kept_def by simp
  show thesis
    by (rule that [of "(release_gate (u\<lparr>ss_state := CLOSED\<rparr>))\<lparr>ss_close_task := CloseFinished (error_of r)\<rparr>" "error_of r"])
      (use body flag in \<open>auto simp: run_close_task_def close_once_def attempted_def act_bind_def act_put_def act_finally_def
        release_gate_def error_of_def\<close>)
qed

definition closed_for_good :: "session \<Rightarrow> bool" where
  "closed_for_good s \<longleftrightarrow> ss_state s = CLOSED \<and> finished s \<and> ss_network_close s"

lemma close_closes:
  assumes "ss_state s = CLOSED \<longleftrightarrow> finished s"
  shows "closed_for_good (snd (session_close b s)) \<and> (\<not> ss_gate s \<longrightarrow> \<not> ss_gate (snd (session_close b s)))"
proof (cases "finished s")
  case True
  then obtain e where task: "ss_close_task s = CloseFinished e" by (auto simp: finished_def)
  then have "session_close b s = (Inr (), s\<lparr>ss_network_close := True\<rparr>)"
    by (simp add: session_close_def act_bind_def act_get_def act_put_def act_ret_def close_call_def Let_def)
  then show ?thesis using assms True by (simp add: closed_for_good_def finished_def)
next
  case False
  obtain e t where run: "run_close_task (close_call s) = (Inr (), t)" and t: "ss_state t = CLOSED" "ss_close_task t = CloseFinished e"
    "\<not> ss_gate t" "ss_network_close (close_call s) \<Longrightarrow> ss_network_close t"
    using run_close_task_ends [of "close_call s"] by metis
  have "\<not> (ss_close_task s = NoCloseTask \<and> ss_state s = CLOSED)" "\<And>x. ss_close_task s \<noteq> CloseFinished x"
    using assms False by (auto simp: finished_def)
  then have "snd (session_close b s) = t"
    using run t(2)
    by (auto simp: session_close_def act_bind_def act_get_def act_put_def act_ret_def act_lift_def
        split: close_task.splits option.splits)
  moreover have "ss_network_close (close_call s)" by (simp add: close_call_def Let_def)
  ultimately show ?thesis using t by (auto simp: closed_for_good_def finished_def)
qed

text \<open>Nothing changes a session that is closed for good.\<close>

lemma closed_rejects:
  assumes "ss_state s = CLOSED"
  shows "run_operation p s = (Inl (Raise (Session SessionClosed) (pstr ''session is closed'')), s)"
  using assms by (simp add: run_operation_def reject_non_running_def session_state_error_def act_bind_def act_get_def act_lift_def)

interpretation refused: operation_property "\<lambda>s _ _ outcome s'. ss_state s = CLOSED \<longrightarrow> outcome \<noteq> None \<and> s' = s"
  by unfold_locales simp

lemma closed_operation:
  assumes "ss_state s = CLOSED" and "op_profile op \<noteq> None"
  shows "isl (fst (session_exec co op s)) \<and> snd (session_exec co op s) = s"
proof -
  have "error_of (fst (session_exec co op s)) \<noteq> None \<and> snd (session_exec co op s) = s"
  proof (cases op)
    case (OpSendHttp r)
    have "ss_state s = CLOSED \<longrightarrow> error_of (fst (session_send_http co r s)) \<noteq> None \<and> snd (session_send_http co r s) = s"
      by (rule refused.of_send_http) (simp add: closed_rejects)
    then show ?thesis using OpSendHttp assms by (simp add: void_same)
  next
    case (OpWriteFile r)
    have "ss_state s = CLOSED \<longrightarrow> error_of (fst (session_write_file r s)) \<noteq> None \<and> snd (session_write_file r s) = s"
      by (rule refused.of_write_file) (simp add: closed_rejects session_write_def act_bind_ret)
    then show ?thesis using OpWriteFile assms by (simp add: void_same)
  next
    case (OpRestoreArchive data to e_rev e_root)
    have "ss_state s = CLOSED \<longrightarrow> error_of (fst (session_restore_archive co data to e_rev e_root s)) \<noteq> None \<and>
        snd (session_restore_archive co data to e_rev e_root s) = s"
      by (rule refused.of_restore_archive) (simp add: closed_rejects)
    then show ?thesis using OpRestoreArchive assms by simp
  qed (use assms in \<open>simp_all add: void_same closed_rejects session_execute_def session_read_file_def session_write_def
    session_write_bytes_def session_create_directory_def session_remove_path_def session_apply_patch_def
    session_read_bytes_def session_stat_def session_list_entries_def session_create_snapshot_def
    session_restore_snapshot_def session_export_archive_def act_bind_ret act_bind_ret_pair\<close>)
  then show ?thesis by (cases "fst (session_exec co op s)") simp_all
qed

lemma closed_start: "ss_state s = CLOSED \<Longrightarrow> isl (fst (session_start s)) \<and> snd (session_start s) = s"
  by (simp add: session_start_def require_created_def act_bind_def act_get_def act_lift_def guard_def)

lemma closed_close: "closed_for_good s \<Longrightarrow> session_close b s = (Inr (), s)"
  by (auto simp: closed_for_good_def finished_def session_close_def act_bind_def act_get_def act_put_def act_ret_def
      close_call_def Let_def)

lemma closed_step:
  "closed_for_good s \<Longrightarrow> snd (session_exec co op s) = s \<and>
     (isl (fst (session_exec co op s)) \<longleftrightarrow> (case op of OpClose _ \<Rightarrow> False | _ \<Rightarrow> True))"
proof (cases op)
  case (OpClose b)
  assume "closed_for_good s"
  then show ?thesis using OpClose closed_close by simp
next
  case OpStart
  assume "closed_for_good s"
  then show ?thesis using OpStart closed_start by (simp add: closed_for_good_def)
qed (use closed_operation [of s op co] in \<open>simp_all add: closed_for_good_def\<close>)

lemma closed_run: "closed_for_good s \<Longrightarrow> session_run co ops s = s"
  by (induction ops) (simp_all add: session_run_def closed_step)

section \<open>Every run\<close>

definition log_ordered :: "session_id \<Rightarrow> session \<Rightarrow> bool" where
  "log_ordered sid s \<longleftrightarrow>
     ss_id s = sid \<and> sorted_wrt (<) (map sequence (ss_events s)) \<and>
     list_all (\<lambda>x. 0 < sequence x \<and> sequence x \<le> ss_event_sequence s \<and> ev_session_id (fst x) = sid) (ss_events s)"

definition at_rest :: "session \<Rightarrow> bool" where
  "at_rest s \<longleftrightarrow> \<not> ss_gate s \<and> ss_leases s = [] \<and> (ss_state s = CLOSED \<longleftrightarrow> finished s)"

lemma at_rest_step: "at_rest s \<Longrightarrow> at_rest (snd (session_exec co op s))"
proof (cases "op_profile op")
  case (Some prof)
  assume rest: "at_rest s"
  have leases: "emptied s (snd (session_exec co op s))" using Some by (intro emptied.keeps_operation emptied.keeps_send_http) simp_all
  have gate: "\<not> ss_gate (snd (session_exec co op s))" using rest Some by (intro exec_gate) (auto simp: at_rest_def)
  show ?thesis
  proof (cases "ss_state s = CLOSED")
    case True
    then show ?thesis using closed_operation [of s op co] Some rest by simp
  next
    case False
    have "stays_open s (snd (session_exec co op s))" using Some by (intro opened.keeps_operation opened.keeps_send_http) simp_all
    then show ?thesis using leases gate rest False by (auto simp: at_rest_def emptied_def stays_open_def)
  qed
next
  case None
  assume rest: "at_rest s"
  have leases: "emptied s (snd (session_start s))" "\<And>b. emptied s (snd (session_close b s))"
    by (rule ensured [OF emptied.keeps_start], rule ensured [OF emptied.keeps_close])
  show ?thesis
  proof (cases op)
    case OpStart
    show ?thesis
    proof (cases "ss_state s = CLOSED")
      case True
      then show ?thesis using closed_start OpStart rest by simp
    next
      case False
      have "stays_open s (snd (session_start s))" by (rule ensured [OF opened.keeps_start])
      then show ?thesis using leases OpStart rest False start_gate [of s] by (auto simp: at_rest_def emptied_def stays_open_def)
    qed
  next
    case (OpClose b)
    then show ?thesis using close_closes [of s b] rest leases(2) [of b]
      by (auto simp: at_rest_def emptied_def closed_for_good_def)
  qed (use None in simp_all)
qed

lemma history_step: "history_grows s (snd (session_exec co op s))"
proof (cases "op_profile op")
  case (Some prof)
  then show ?thesis by (intro history.keeps_operation history.keeps_send_http) simp_all
next
  case None
  then show ?thesis using ensured [OF history.keeps_start] ensured [OF history.keeps_close] by (cases op) simp_all
qed

lemma history_run: "history_grows s (session_run co ops s)"
  by (induction ops arbitrary: s) (auto simp: session_run_def history.refl intro: history_trans history_step)

lemma at_rest_run: "at_rest s \<Longrightarrow> at_rest (session_run co ops s)"
  by (induction ops arbitrary: s) (simp_all add: session_run_def at_rest_step)

text \<open>
  C7: whatever a session has been asked, in any environment, between its operations the gate is free, no lease
  is held, and it is closed exactly when its close has run. Its events carry its identity and strictly
  increasing sequence numbers, positive and up to its counter.
\<close>

theorem session_run_invariant:
  "let s = session_run co ops (session_new env sid w grant cwd environment req)
   in at_rest s \<and> log_ordered sid s"
proof -
  let ?new = "session_new env sid w grant cwd environment req"
  have new: "at_rest ?new" "ss_events ?new = []" "ss_event_sequence ?new = 0" "ss_id ?new = sid"
    by (simp_all add: session_new_def session_env.extend_def at_rest_def finished_def)
  have "history_grows ?new (session_run co ops ?new)" by (rule history_run)
  then have "log_ordered sid (session_run co ops ?new)"
    using new unfolding history_grows_def log_ordered_def by (auto simp: list_all_iff)
  then show ?thesis using at_rest_run [OF new(1)] by simp
qed

text \<open>
  C8: a close is final. After it, whatever came before and however it was interrupted, the session is closed,
  every operation and every start is refused, further closes return, and none of them changes the session.
\<close>

theorem close_final:
  "let s = snd (session_close b (session_run co ops (session_new env sid w grant cwd environment req)))
   in ss_state s = CLOSED \<and> session_run co later s = s \<and>
      (isl (fst (session_exec co op s)) \<longleftrightarrow> (case op of OpClose _ \<Rightarrow> False | _ \<Rightarrow> True))"
proof -
  let ?s = "session_run co ops (session_new env sid w grant cwd environment req)"
  have "at_rest ?s"
    by (rule at_rest_run) (simp add: session_new_def session_env.extend_def at_rest_def finished_def)
  then have "closed_for_good (snd (session_close b ?s))" using close_closes [of ?s b] by (simp add: at_rest_def)
  then show ?thesis using closed_run closed_step by (simp add: Let_def) (simp add: closed_for_good_def)
qed

section \<open>What the gateway is asked\<close>
















end
