(* ===== verification/Spec2Isabelle.thy ===== *)
theory Spec2Isabelle
  imports Restore_Properties Command_Properties Event_Sink Session_Events Session_History Snapshot_Store
begin

text \<open>
  A verification of the core of \<open>mem_sandbox\<close>, an in-memory sandbox for agents: a workspace of files
  held in memory, the commands that work on it, and the parts that guard and record their use. The
  source is Python, under \<open>src/src/mem_sandbox/\<close>; the theories follow its packages.

  Parts and theories.

  \<open>core/\<close> and the \<open>errors.py\<close> of every package: \<open>Core_Errors\<close> (the exception classes with their
  base, category, code and name), \<open>Identifiers\<close> (UUID identifiers, operation
  metadata, limits and results).

  \<open>workspace/\<close>: \<open>Sandbox_Path\<close> (\<open>paths.py\<close>), \<open>Workspace_Models\<close> (\<open>models.py\<close>, \<open>hashing.py\<close>),
  \<open>Text_Patch\<close> (\<open>text.py\<close>, \<open>patching.py\<close>), and \<open>memory.py\<close> in \<open>Node_Tree\<close> (the tree and navigation),
  \<open>Node_Walks\<close> and \<open>Node_Measure\<close> (cloning, hashing and measuring with explicit stacks),
  \<open>Memory_Workspace\<close> (reads and mutations), \<open>Workspace_Entries\<close> and \<open>Workspace_Restore\<close> (snapshot
  entries, restore candidates); \<open>Snapshot_Tree\<close> (\<open>snapshot_tree.py\<close>). Facts about them are in
  \<open>Workspace_Invariant\<close>, \<open>Workspace_Refinement\<close>, \<open>Workspace_Properties\<close>, \<open>Transactional\<close> and
  \<open>Restore_Properties\<close>.

  \<open>command_executor/\<close>: \<open>Command_Models\<close>, \<open>Command_Parser\<close>, \<open>Command_Output\<close>, \<open>Command_Registry\<close>,
  \<open>Command_Executor\<close> and the handlers of \<open>commands.py\<close> in \<open>Command_Common\<close>, \<open>Command_Files\<close>,
  \<open>Command_Text\<close>, \<open>Command_Profile\<close>, with \<open>Py_Glob\<close> for \<open>fnmatch\<close>. Facts are in
  \<open>Parser_Properties\<close>, \<open>Executor_Properties\<close>, \<open>Command_Effects\<close> and \<open>Command_Properties\<close>.

  \<open>secrets/\<close>: \<open>Secret_Broker\<close>. \<open>policy/\<close>: \<open>Policy_Models\<close>. \<open>events/\<close>: \<open>Event_Models\<close> (with \<open>Py_Json\<close>
  for \<open>json.dumps\<close>), \<open>Event_Redaction\<close>, \<open>Event_Sink\<close> and \<open>Event_Delivery\<close>.

  \<open>snapshots/\<close>: \<open>Snapshot_Store\<close> (\<open>models.py\<close>, \<open>store.py\<close>). \<open>network/\<close>: \<open>Network_Models\<close> (\<open>models.py\<close>). The
  calls of the workspace that go through a codec are in \<open>Workspace_Export\<close>.

  \<open>session/\<close>: \<open>Session_Models\<close> (\<open>models.py\<close>) and \<open>session.py\<close> in \<open>Session_Core\<close> (the state, events, how
  collaborators are awaited, the operation gate and \<open>_run_operation\<close>), \<open>Session_Workspace\<close> (files, snapshots,
  archives), \<open>Session_Execute\<close> (\<open>execute\<close> and its secret leases), \<open>Session_Http\<close> (\<open>send_http\<close>) and
  \<open>Session_Lifecycle\<close> (\<open>start\<close>, \<open>close\<close>). \<open>Session_Effects\<close> holds the contracts from which facts about every
  operation follow, \<open>Session_Runs\<close> the runs of a session, and \<open>Session_Properties\<close>, \<open>Session_Events\<close> and
  \<open>Session_History\<close> what holds of them. The session brings the parts together: it keeps a workspace, resolves
  paths against its directory, leases secrets for a command, asks the policy before it acts, and emits events.

  \<open>Prelude\<close>, \<open>Py_Text\<close>, \<open>Py_Numbers\<close> and \<open>Sha256\<close> model what the source uses of the language and its
  standard library: results and actions, text and UTF-8, numbers, and the hash.

  How the model reads. A value class is a record or a datatype; its constructor with the checks of
  \<open>__post_init__\<close> is \<open><class>_new\<close>. A function that raises returns a sum, \<open>Inl\<close> the exception with its
  class and message. A method of a stateful object is an action: it maps the state to the outcome and
  the state it leaves, so an exception leaves what was assigned before it. Text is a list of code
  points, bytes a list of 8-bit words, dictionaries are association lists in insertion order. The
  event loop is sequential between awaits and every mutation of a workspace runs under its lock, so an
  operation is one step. What the executor reads from the clock, the task and the cancellation signal
  is a stream of readings, and its theorems hold for every stream; so is a broker's clock. Where tasks
  overlap (leases awaiting their source, the worker of a dispatcher, its closing) one turn of one task
  is a step of a relation, what is awaited answers by an argument of the step, and the theorems hold
  for every order of the steps.

  A session's operations run one at a time behind its gate; what the event loop decides at an await (the
  clock, a cancellation, a signal, how long the task takes, that another task closes the session) and what
  collaborators outside the workspace answer come from an environment of streams, part of the state. A
  theorem about a session holds for every environment. What is awaited in turns ends after as many turns as
  the environment's list has, so no fuel is needed; a wait that never ends is not an outcome.

  Parameters. \<open>nd\<close> gives decimal digits and \<open>ua\<close> letters outside ASCII; \<open>re_compile\<close> is the engine
  of Python's \<open>re\<close>; \<open>frames\<close> is the number of nested calls the interpreter still allows, which bounds
  the one recursive walk of the source; \<open>float_repr\<close> is the text of a float in JSON. No theorem restricts them, except that \<open>walk_returns\<close> states
  exactly how many frames a walk needs. Loops of the source are functions proved to terminate.

  What is shown. The workspace: every operation refines an update of an abstract file system, failed
  operations change nothing, reachable states satisfy the invariant, entries and restore round trip.
  Paths stay inside the workspace. Patches denote substitutions. Command text: quoting round trips,
  plans are well formed; an execution is bounded, lets no protected text out, changes the workspace
  only through its operations; commands of pipelines change nothing; the walk, \<open>sort\<close> and \<open>uniq\<close>
  compute what they promise. Secrets: the leases alive never exceed the limit of the broker. Events:
  a prepared event holds no secret and fits its limits, redaction replaces exactly what is covered, the
  sink holds what it accepted, best-effort delivery accounts for every event and closing it completes
  within a number of turns that the bound of the queue determines. The snapshot store is the map of the
  snapshots that were saved, not deleted and have not expired, and stays within its limits. Sessions: an operation does
  nothing before the policy admitted it, its events bracket it and tell how it ended, events are numbered in order,
  leases end with their command, the gate is always released, a close is final, and the gateway
  is only given what the grant admits. The contracts between components are locales: \<open>dictionary\<close>,
  \<open>stack_walk\<close>, \<open>transactional\<close>, \<open>kept_relation\<close>, \<open>read_relation\<close>, \<open>workspace_relation\<close>, \<open>session_steps\<close> with
  its extensions, \<open>operation_property\<close> and \<open>session_operations\<close>, each interpreted on the definitions of the model.

  Not modelled: the JSON and tar codecs (they are parameters that may return or raise anything), the clock
  (an input), the network gateway behind its port, the service facade and the OpenAI adapter; benchmarks, evaluations and
  samples, which drive the library and are not part of it.
\<close>

end
